(* ===== verification/Prelude.thy ===== *)
theory Prelude
  imports Main "HOL-Library.Char_ord" "HOL-Library.List_Lexorder"
begin

text \<open>
  The vocabulary shared by every component: Python exceptions as values, results, database
  transactions, time, JSON values, and the parts of Python's string and number conversions
  that the sources use (decimal text, \<open>int(s)\<close>, \<open>str(uuid)\<close>, \<open>UUID(s)\<close>, \<open>s.split(sep)\<close>,
  \<open>s.strip()\<close>). The lemmas are the round trips and list facts that several components rely on;
  they are collected under the named theorem lists declared here.
\<close>

named_theorems exn_simps \<open>simplification rules for results and transactions\<close>
named_theorems sql_simps \<open>row-level consequences of the SQL combinators\<close>
named_theorems text_simps \<open>simplification rules for Python text conversions\<close>

section \<open>Exceptions, results and transactions\<close>

text \<open>
  Python exceptions that cross a component boundary in the modelled code. \<open>CancelledError\<close> is the
  only \<open>BaseException\<close> that is not an \<open>Exception\<close>; \<open>except Exception\<close> does not catch it.
\<close>

datatype exn =
    ValueError string
  | KeyError string
  | TypeError string
  | LookupError string
  | RuntimeError string
  | AssertionError
  | DatabaseError string
  | IntegrityError string
  | PoolTimeout
  | RedisError string
  | ResponseError string
  | TimeoutError
  | HttpError string
  | ExecutorRequestError int
  | DeferEvent string
  | RejectEvent string
  | IgnoreEvent string
  | PermanentMessageError string
  | LeaseLostError string
  | StreamLeaseLostError string
  | SessionConflictError string
  | SessionBusyError string string
  | UnsafeRecoveryError string
  | UnsafeCleanupError string
  | CleanupPending string
  | FailureOperationConflict string
  | OperationsForbidden string
  | OtherException string string
  | CancelledError

type_synonym 'a result = "exn + 'a"

fun exn_type :: "exn \<Rightarrow> string" where
  "exn_type (ValueError _) = ''ValueError''"
| "exn_type (KeyError _) = ''KeyError''"
| "exn_type (TypeError _) = ''TypeError''"
| "exn_type (LookupError _) = ''LookupError''"
| "exn_type (RuntimeError _) = ''RuntimeError''"
| "exn_type AssertionError = ''AssertionError''"
| "exn_type (DatabaseError _) = ''DatabaseError''"
| "exn_type (IntegrityError _) = ''IntegrityError''"
| "exn_type PoolTimeout = ''PoolTimeout''"
| "exn_type (RedisError _) = ''RedisError''"
| "exn_type (ResponseError _) = ''ResponseError''"
| "exn_type TimeoutError = ''TimeoutError''"
| "exn_type (HttpError _) = ''HTTPError''"
| "exn_type (ExecutorRequestError _) = ''ExecutorRequestError''"
| "exn_type (DeferEvent _) = ''DeferEvent''"
| "exn_type (RejectEvent _) = ''RejectEvent''"
| "exn_type (IgnoreEvent _) = ''IgnoreEvent''"
| "exn_type (PermanentMessageError _) = ''PermanentMessageError''"
| "exn_type (LeaseLostError _) = ''LeaseLostError''"
| "exn_type (StreamLeaseLostError _) = ''StreamLeaseLostError''"
| "exn_type (SessionConflictError _) = ''SessionConflictError''"
| "exn_type (SessionBusyError _ _) = ''SessionBusyError''"
| "exn_type (UnsafeRecoveryError _) = ''UnsafeRecoveryError''"
| "exn_type (UnsafeCleanupError _) = ''UnsafeCleanupError''"
| "exn_type (CleanupPending _) = ''CleanupPending''"
| "exn_type (FailureOperationConflict _) = ''FailureOperationConflict''"
| "exn_type (OperationsForbidden _) = ''FailureOperationsForbidden''"
| "exn_type (OtherException t _) = t"
| "exn_type CancelledError = ''CancelledError''"

fun exn_str :: "exn \<Rightarrow> string" where
  "exn_str (ValueError m) = m"
| "exn_str (KeyError m) = m"
| "exn_str (TypeError m) = m"
| "exn_str (LookupError m) = m"
| "exn_str (RuntimeError m) = m"
| "exn_str (DatabaseError m) = m"
| "exn_str (IntegrityError m) = m"
| "exn_str (RedisError m) = m"
| "exn_str (ResponseError m) = m"
| "exn_str (HttpError m) = m"
| "exn_str (DeferEvent m) = m"
| "exn_str (RejectEvent m) = m"
| "exn_str (IgnoreEvent m) = m"
| "exn_str (PermanentMessageError m) = m"
| "exn_str (LeaseLostError m) = m"
| "exn_str (StreamLeaseLostError m) = m"
| "exn_str (SessionConflictError m) = m"
| "exn_str (SessionBusyError _ m) = m"
| "exn_str (UnsafeRecoveryError m) = m"
| "exn_str (UnsafeCleanupError m) = m"
| "exn_str (CleanupPending m) = m"
| "exn_str (FailureOperationConflict m) = m"
| "exn_str (OperationsForbidden m) = m"
| "exn_str (OtherException _ m) = m"
| "exn_str _ = ''''"

text \<open>\<open>except Exception\<close>: everything but cancellation.\<close>

fun is_Exception :: "exn \<Rightarrow> bool" where
  "is_Exception CancelledError = False"
| "is_Exception _ = True"

text \<open>\<open>SessionConflictError\<close> is a \<open>ValueError\<close>, and \<open>SessionBusyError\<close> is a \<open>SessionConflictError\<close>.\<close>

fun is_SessionConflict :: "exn \<Rightarrow> bool" where
  "is_SessionConflict (SessionConflictError _) = True"
| "is_SessionConflict (SessionBusyError _ _) = True"
| "is_SessionConflict _ = False"

fun is_ValueError :: "exn \<Rightarrow> bool" where
  "is_ValueError (ValueError _) = True"
| "is_ValueError (PermanentMessageError _) = True"
| "is_ValueError e = is_SessionConflict e"

text \<open>The \<open>psycopg.Error\<close> hierarchy: integrity errors are database errors.\<close>

fun is_DatabaseError :: "exn \<Rightarrow> bool" where
  "is_DatabaseError (DatabaseError _) = True"
| "is_DatabaseError (IntegrityError _) = True"
| "is_DatabaseError _ = False"

text \<open>\<open>redis.exceptions.ResponseError\<close> is a \<open>RedisError\<close>.\<close>

fun is_RedisError :: "exn \<Rightarrow> bool" where
  "is_RedisError (RedisError _) = True"
| "is_RedisError (ResponseError _) = True"
| "is_RedisError _ = False"

definition describe_exn :: "exn \<Rightarrow> string" where
  "describe_exn e = exn_type e @ '': '' @ exn_str e"

text \<open>Sequencing of fallible pure steps.\<close>

fun rbind :: "'a result \<Rightarrow> ('a \<Rightarrow> 'b result) \<Rightarrow> 'b result" where
  "rbind (Inl e) f = Inl e"
| "rbind (Inr x) f = f x"

text \<open>
  A database transaction: the body runs on the current tables; when it raises, every write of
  the body is rolled back.
\<close>

definition transaction :: "('s \<Rightarrow> 'a result \<times> 's) \<Rightarrow> 's \<Rightarrow> 'a result \<times> 's" where
  "transaction body s = (case body s of (Inl e, _) \<Rightarrow> (Inl e, s) | (Inr x, s') \<Rightarrow> (Inr x, s'))"

text \<open>
  A call to a remote service can fail before it took effect or after it did, with its answer lost.
\<close>

datatype fault = NoFault | FailBefore exn | FailAfter exn

fun with_fault :: "fault \<Rightarrow> ('s \<Rightarrow> 'a result \<times> 's) \<Rightarrow> 's \<Rightarrow> 'a result \<times> 's" where
  "with_fault NoFault f s = f s"
| "with_fault (FailBefore e) f s = (Inl e, s)"
| "with_fault (FailAfter e) f s = (Inl e, snd (f s))"

text \<open>Sequencing of steps that change a state: an exception ends the sequence, its writes stay.\<close>

definition sbind :: "('s \<Rightarrow> 'a result \<times> 's) \<Rightarrow> ('a \<Rightarrow> 's \<Rightarrow> 'b result \<times> 's) \<Rightarrow> 's \<Rightarrow> 'b result \<times> 's" where
  "sbind m f s = (case m s of (Inl e, s') \<Rightarrow> (Inl e, s') | (Inr x, s') \<Rightarrow> f x s')"

definition spure :: "'a result \<Rightarrow> 's \<Rightarrow> 'a result \<times> 's" where
  "spure x s = (x, s)"

definition swrite :: "('s \<Rightarrow> 's) \<Rightarrow> 's \<Rightarrow> unit result \<times> 's" where
  "swrite f s = (Inr (), f s)"

section \<open>Time and audit columns\<close>

text \<open>Times and delays are integers counting microseconds, the resolution of Python's \<open>datetime\<close>.\<close>

type_synonym usec = int

definition seconds :: "int \<Rightarrow> usec" where
  "seconds n = n * 1000000"

record audit_cols =
  created_at :: usec
  updated_at :: usec
  created_by :: string
  updated_by :: string

definition new_audit :: "usec \<Rightarrow> string \<Rightarrow> audit_cols" where
  "new_audit now actor = \<lparr>created_at = now, updated_at = now, created_by = actor, updated_by = actor\<rparr>"

definition touch_audit :: "usec \<Rightarrow> string \<Rightarrow> audit_cols \<Rightarrow> audit_cols" where
  "touch_audit now actor a = a\<lparr>updated_at := now, updated_by := actor\<rparr>"

section \<open>JSON values and Python dictionaries\<close>

text \<open>
  A JSON object is the list of its members in canonical key order, so that equality of values is
  equality of the Python dictionaries. A float is kept as its text.
\<close>

datatype json =
    JNull
  | JBool bool
  | JInt int
  | JFloat string
  | JStr string
  | JArr "json list"
  | JObj "(string \<times> json) list"

fun jget :: "json \<Rightarrow> string \<Rightarrow> json option" where
  "jget (JObj kvs) k = map_of kvs k"
| "jget _ k = None"

text \<open>\<open>d.get(k)\<close> with the default \<open>None\<close> (JSON null).\<close>

definition jget0 :: "json \<Rightarrow> string \<Rightarrow> json" where
  "jget0 j k = (case jget j k of None \<Rightarrow> JNull | Some v \<Rightarrow> v)"

text \<open>Python's truth value of a JSON value, and iteration over it.\<close>

fun truthy :: "json \<Rightarrow> bool" where
  "truthy JNull = False"
| "truthy (JBool b) = b"
| "truthy (JInt n) = (n \<noteq> 0)"
| "truthy (JFloat s) = (s \<noteq> ''0.0'' \<and> s \<noteq> ''-0.0'')"
| "truthy (JStr s) = (s \<noteq> [])"
| "truthy (JArr xs) = (xs \<noteq> [])"
| "truthy (JObj kvs) = (kvs \<noteq> [])"

fun py_iter :: "json \<Rightarrow> json list result" where
  "py_iter (JArr xs) = Inr xs"
| "py_iter (JStr s) = Inr (map (\<lambda>c. JStr [c]) s)"
| "py_iter (JObj kvs) = Inr (map (JStr \<circ> fst) kvs)"
| "py_iter _ = Inl (TypeError ''object is not iterable'')"

fun is_jobj :: "json \<Rightarrow> bool" where
  "is_jobj (JObj _) = True"
| "is_jobj _ = False"

section \<open>Python text and numbers\<close>

text \<open>Characters are the Latin-1 code points; \<open>is_space\<close> is \<open>str.isspace\<close> on them.\<close>

definition is_space :: "char \<Rightarrow> bool" where
  "is_space c = (let n = (of_char c :: nat)
     in (9 \<le> n \<and> n \<le> 13) \<or> (28 \<le> n \<and> n \<le> 32) \<or> n = 133 \<or> n = 160)"

definition rdrop_while :: "('a \<Rightarrow> bool) \<Rightarrow> 'a list \<Rightarrow> 'a list" where
  "rdrop_while p xs = rev (dropWhile p (rev xs))"

definition strip_by :: "(char \<Rightarrow> bool) \<Rightarrow> string \<Rightarrow> string" where
  "strip_by p s = rdrop_while p (dropWhile p s)"

definition py_strip :: "string \<Rightarrow> string" where
  "py_strip s = strip_by is_space s"

text \<open>\<open>s.split(sep)\<close> for a one-character separator, and \<open>sep.join(parts)\<close>.\<close>

fun split_on :: "char \<Rightarrow> string \<Rightarrow> string list" where
  "split_on c [] = [[]]"
| "split_on c (x # xs) =
     (if x = c then [] # split_on c xs
      else (case split_on c xs of [] \<Rightarrow> [[x]] | p # ps \<Rightarrow> (x # p) # ps))"

text \<open>\<open>s.replace(old, '')\<close>: delete the occurrences from left to right.\<close>

fun remove_sub :: "string \<Rightarrow> nat \<Rightarrow> string \<Rightarrow> string" where
  "remove_sub old k [] = []"
| "remove_sub old 0 (x # xs) =
     (if old \<noteq> [] \<and> take (length old) (x # xs) = old
      then remove_sub old (length old - 1) xs
      else x # remove_sub old 0 xs)"
| "remove_sub old (Suc k) (x # xs) = remove_sub old k xs"

text \<open>Digits in a base up to 16 (both letter cases are read, lower case is written).\<close>

definition digit_char :: "nat \<Rightarrow> char" where
  "digit_char d = char_of (if d < 10 then 48 + d else 87 + d)"

definition digit_val :: "nat \<Rightarrow> char \<Rightarrow> nat option" where
  "digit_val base c = (let n = (of_char c :: nat);
       v = (if 48 \<le> n \<and> n \<le> 57 then n - 48
            else if 97 \<le> n \<and> n \<le> 122 then n - 87
            else if 65 \<le> n \<and> n \<le> 90 then n - 55 else base)
     in if v < base then Some v else None)"

text \<open>
  The digits of \<open>int(s, base)\<close>: underscores are allowed between digits only. The flag says
  that the previous character was a digit.
\<close>

fun digits_val :: "nat \<Rightarrow> nat \<Rightarrow> bool \<Rightarrow> string \<Rightarrow> nat option" where
  "digits_val base acc d [] = (if d then Some acc else None)"
| "digits_val base acc d (c # cs) =
     (case digit_val base c of
        Some v \<Rightarrow> digits_val base (acc * base + v) True cs
      | None \<Rightarrow> if c = CHR ''_'' \<and> d then digits_val base acc False cs else None)"

text \<open>The optional \<open>0x\<close> of base 16, which may be followed by an underscore.\<close>

definition drop_prefix16 :: "nat \<Rightarrow> string \<Rightarrow> string" where
  "drop_prefix16 base s =
     (if base = 16 \<and> (take 2 s = ''0x'' \<or> take 2 s = ''0X'')
      then (case drop 2 s of [] \<Rightarrow> [] | c # cs \<Rightarrow> if c = CHR ''_'' then cs else c # cs)
      else s)"

definition py_int_base :: "nat \<Rightarrow> string \<Rightarrow> int option" where
  "py_int_base base s = (case py_strip s of
       [] \<Rightarrow> None
     | c # cs \<Rightarrow>
         if c = CHR ''-'' then map_option (\<lambda>n. - int n) (digits_val base 0 False (drop_prefix16 base cs))
         else if c = CHR ''+'' then map_option int (digits_val base 0 False (drop_prefix16 base cs))
         else map_option int (digits_val base 0 False (drop_prefix16 base (c # cs))))"

definition py_int :: "string \<Rightarrow> int option" where
  "py_int s = py_int_base 10 s"

fun str_nat :: "nat \<Rightarrow> string" where
  "str_nat n = (if n < 10 then [digit_char n] else str_nat (n div 10) @ [digit_char (n mod 10)])"

declare str_nat.simps [simp del]

definition py_str_int :: "int \<Rightarrow> string" where
  "py_str_int i = (if i < 0 then CHR ''-'' # str_nat (nat (- i)) else str_nat (nat i))"

text \<open>A UUID is its 128-bit integer; PostgreSQL and Python order UUIDs by it.\<close>

type_synonym uuid = nat

fun hex_pad :: "nat \<Rightarrow> nat \<Rightarrow> string" where
  "hex_pad 0 n = []"
| "hex_pad (Suc k) n = hex_pad k (n div 16) @ [digit_char (n mod 16)]"

definition uuid_str :: "uuid \<Rightarrow> string" where
  "uuid_str u = (let h = hex_pad 32 u in
     take 8 h @ ''-'' @ take 4 (drop 8 h) @ ''-'' @ take 4 (drop 12 h) @ ''-'' @
     take 4 (drop 16 h) @ ''-'' @ drop 20 h)"

text \<open>\<open>uuid.UUID(s)\<close>; \<open>None\<close> is its \<open>ValueError\<close>.\<close>

definition uuid_parse :: "string \<Rightarrow> uuid option" where
  "uuid_parse s =
     (let h = remove_sub ''-'' 0
                (strip_by (\<lambda>c. c = CHR ''{'' \<or> c = CHR ''}'')
                   (remove_sub ''uuid:'' 0 (remove_sub ''urn:'' 0 s)))
      in if length h \<noteq> 32 then None
         else (case py_int_base 16 h of
                 Some i \<Rightarrow> if 0 \<le> i \<and> i < 2 ^ 128 then Some (nat i) else None
               | None \<Rightarrow> None))"

definition valid_uuid :: "uuid \<Rightarrow> bool" where
  "valid_uuid u = (u < 2 ^ 128)"

section \<open>SQL on row lists\<close>

text \<open>
  A table is the list of its rows. \<open>sql_update p f\<close> is \<open>UPDATE ... SET f WHERE p\<close>;
  \<open>insert_or_nothing c r\<close> is \<open>INSERT r ON CONFLICT DO NOTHING\<close>, where \<open>c\<close> says which existing rows
  violate a unique constraint with \<open>r\<close>; \<open>insert_or_raise\<close> is a plain \<open>INSERT\<close>.
\<close>

definition sql_update :: "('r \<Rightarrow> bool) \<Rightarrow> ('r \<Rightarrow> 'r) \<Rightarrow> 'r list \<Rightarrow> 'r list" where
  "sql_update p f rows = map (\<lambda>r. if p r then f r else r) rows"

definition insert_or_nothing :: "('r \<Rightarrow> bool) \<Rightarrow> 'r \<Rightarrow> 'r list \<Rightarrow> 'r list" where
  "insert_or_nothing conflicts r rows = (if list_ex conflicts rows then rows else rows @ [r])"

definition insert_or_raise :: "('r \<Rightarrow> bool) \<Rightarrow> exn \<Rightarrow> 'r \<Rightarrow> 'r list \<Rightarrow> 'r list result" where
  "insert_or_raise conflicts e r rows = (if list_ex conflicts rows then Inl e else Inr (rows @ [r]))"

section \<open>Shared lemmas\<close>

subsection \<open>Results and transactions\<close>

lemma rbind_eq_Inr [exn_simps]:
  "rbind r f = Inr y \<longleftrightarrow> (\<exists>x. r = Inr x \<and> f x = Inr y)"
  by (cases r) auto

lemma rbind_eq_Inl [exn_simps]:
  "rbind r f = Inl e \<longleftrightarrow> r = Inl e \<or> (\<exists>x. r = Inr x \<and> f x = Inl e)"
  by (cases r) auto

lemma transaction_Inl [exn_simps]:
  "transaction body s = (Inl e, s') \<longleftrightarrow> s' = s \<and> fst (body s) = Inl e"
  by (cases "body s") (auto simp: transaction_def split: sum.splits)

lemma transaction_Inr [exn_simps]:
  "transaction body s = (Inr x, s') \<longleftrightarrow> body s = (Inr x, s')"
  by (cases "body s") (auto simp: transaction_def split: sum.splits)

lemma transaction_inv:
  assumes "I s" and "\<And>x s'. body s = (Inr x, s') \<Longrightarrow> I s'"
  shows "I (snd (transaction body s))"
  using assms by (cases "body s") (auto simp: transaction_def split: sum.splits)

lemma sbind_eq:
  "sbind m f s = (res, t) \<longleftrightarrow>
     (\<exists>e. m s = (Inl e, t) \<and> res = Inl e) \<or> (\<exists>x s'. m s = (Inr x, s') \<and> f x s' = (res, t))"
  by (auto simp: sbind_def split: prod.splits sum.splits)

lemma sbind_Inr: "m s = (Inr x, s') \<Longrightarrow> sbind m f s = f x s'"
  by (simp add: sbind_def)

lemma sbind_Inl: "m s = (Inl e, s') \<Longrightarrow> sbind m f s = (Inl e, s')"
  by (simp add: sbind_def)

text \<open>A relation that is reflexive and transitive and holds of each step holds of the sequence.\<close>

lemma sbind_rel:
  assumes "R s (snd (m s))" "\<And>x s'. m s = (Inr x, s') \<Longrightarrow> R s' (snd (f x s'))"
    and "\<And>x y z. R x y \<Longrightarrow> R y z \<Longrightarrow> R x z"
  shows "R s (snd (sbind m f s))"
  using assms by (auto simp: sbind_def split: prod.splits sum.splits)

lemma with_fault_rel:
  assumes "R s s" "R s (snd (f s))"
  shows "R s (snd (with_fault ft f s))"
  using assms by (cases ft) simp_all

lemma with_fault_cases:
  assumes "with_fault ft f s = (res, s')"
  shows "s' = s \<or> s' = snd (f s)" "res = Inr x \<Longrightarrow> f s = (Inr x, s')"
  using assms by (cases ft; simp; fail)+

subsection \<open>SQL combinators\<close>

lemma in_sql_update [sql_simps]:
  "r \<in> set (sql_update p f rows) \<longleftrightarrow> (\<exists>x \<in> set rows. r = (if p x then f x else x))"
  by (auto simp: sql_update_def)

lemma map_sql_update_key [sql_simps]:
  "(\<And>r. k (f r) = k r) \<Longrightarrow> map k (sql_update p f rows) = map k rows"
  by (simp add: sql_update_def)

lemma key_image_sql_update [sql_simps]:
  "(\<And>r. k (f r) = k r) \<Longrightarrow> k ` set (sql_update p f rows) = k ` set rows"
  by (metis list.set_map map_sql_update_key)

lemma find_sql_update [sql_simps]:
  "(\<And>r. q (f r) = q r) \<Longrightarrow>
    find q (sql_update p f rows) = map_option (\<lambda>r. if p r then f r else r) (find q rows)"
  by (induction rows) (auto simp: sql_update_def)

lemma find_append [sql_simps]:
  "find q (xs @ ys) = (case find q xs of Some x \<Rightarrow> Some x | None \<Rightarrow> find q ys)"
  by (induction xs) auto

lemma distinct_append_key:
  "distinct (map k (rows @ [r])) \<longleftrightarrow> distinct (map k rows) \<and> (\<forall>x \<in> set rows. k x \<noteq> k r)"
  by (auto simp: image_iff)

lemma find_SomeD: "find p xs = Some x \<Longrightarrow> x \<in> set xs \<and> p x"
  by (auto simp: find_Some_iff)

lemma find_NoneD: "find p xs = None \<Longrightarrow> x \<in> set xs \<Longrightarrow> \<not> p x"
  by (auto simp: find_None_iff)

lemma in_take_sort: "x \<in> set (take n (sort_key k xs)) \<Longrightarrow> x \<in> set xs"
  by (auto dest: in_set_takeD)

lemma key_unique:
  "distinct (map k rows) \<Longrightarrow> x \<in> set rows \<Longrightarrow> y \<in> set rows \<Longrightarrow> k x = k y \<Longrightarrow> x = y"
  by (auto simp: distinct_map dest: inj_onD)

lemma find_key:
  assumes "distinct (map k rows)" "x \<in> set rows"
  shows "find (\<lambda>y. k y = k x) rows = Some x"
proof (cases "find (\<lambda>y. k y = k x) rows")
  case None
  then show ?thesis using find_NoneD [OF None assms(2)] by simp
next
  case (Some y)
  then show ?thesis using find_SomeD [OF Some] key_unique [OF assms(1), of y x] assms(2) by simp
qed

subsection \<open>Decimal and hexadecimal text\<close>

lemma of_char_char_of_small [simp]: "n < 256 \<Longrightarrow> of_char (char_of n :: char) = (n::nat)"
  by (simp add: of_char_of)

lemma digit_val_digit_char [text_simps]:
  "d < base \<Longrightarrow> base \<le> 16 \<Longrightarrow> digit_val base (digit_char d) = Some d"
  by (auto simp: digit_val_def digit_char_def Let_def)

lemma of_digit_char:
  "d < 16 \<Longrightarrow> (of_char (digit_char d) :: nat) = (if d < 10 then 48 + d else 87 + d)"
  by (simp add: digit_char_def)

lemma digit_char_neq [text_simps]:
  assumes "d < 16"
  shows "digit_char d \<noteq> CHR ''-''" "digit_char d \<noteq> CHR ''+''" "digit_char d \<noteq> CHR ''_''"
    "digit_char d \<noteq> CHR ''x''" "digit_char d \<noteq> CHR ''X''" "digit_char d \<noteq> CHR '':''"
    "digit_char d \<noteq> CHR ''{''" "digit_char d \<noteq> CHR ''}''" "\<not> is_space (digit_char d)"
proof -
  have code: "of_char (digit_char d) = (if d < 10 then 48 + d else 87 + d :: nat)"
    by (rule of_digit_char [OF assms])
  have neq: "digit_char d \<noteq> c" if "of_char c \<noteq> (if d < 10 then 48 + d else 87 + d :: nat)" for c
    using that code by auto
  show "digit_char d \<noteq> CHR ''-''" "digit_char d \<noteq> CHR ''+''" "digit_char d \<noteq> CHR ''_''"
    "digit_char d \<noteq> CHR ''x''" "digit_char d \<noteq> CHR ''X''" "digit_char d \<noteq> CHR '':''"
    "digit_char d \<noteq> CHR ''{''" "digit_char d \<noteq> CHR ''}''"
    by (rule neq, use assms in \<open>simp split: if_split\<close>)+
  show "\<not> is_space (digit_char d)"
    using assms by (simp add: is_space_def code Let_def)
qed


abbreviation eval_digits :: "nat \<Rightarrow> nat list \<Rightarrow> nat" where
  "eval_digits base ds \<equiv> foldl (\<lambda>a d. a * base + d) 0 ds"

lemma digits_val_map:
  assumes "base \<le> 16" and "\<forall>d \<in> set ds. d < base"
  shows "digits_val base acc b (map digit_char ds) =
    (if ds = [] \<and> \<not> b then None else Some (foldl (\<lambda>a d. a * base + d) acc ds))"
  using assms(2)
  by (induction ds arbitrary: acc b) (use assms(1) in \<open>simp_all add: digit_val_digit_char\<close>)

lemma str_nat_digits:
  "\<exists>ds. str_nat n = map digit_char ds \<and> ds \<noteq> [] \<and> (\<forall>d \<in> set ds. d < 10) \<and> eval_digits 10 ds = n"
proof (induction n rule: str_nat.induct)
  case (1 n)
  show ?case
  proof (cases "n < 10")
    case True
    then show ?thesis by (intro exI [of _ "[n]"]) (simp add: str_nat.simps)
  next
    case False
    with 1 obtain ds where "str_nat (n div 10) = map digit_char ds" "ds \<noteq> []"
      "\<forall>d \<in> set ds. d < 10" "eval_digits 10 ds = n div 10" by blast
    with False show ?thesis
      by (intro exI [of _ "ds @ [n mod 10]"]) (simp add: str_nat.simps)
  qed
qed

lemma hex_pad_digits:
  "\<exists>ds. hex_pad k n = map digit_char ds \<and> length ds = k \<and> (\<forall>d \<in> set ds. d < 16)
      \<and> eval_digits 16 ds = n mod 16 ^ k"
proof (induction k arbitrary: n)
  case (Suc k)
  then obtain ds where "hex_pad k (n div 16) = map digit_char ds" "length ds = k"
    "\<forall>d \<in> set ds. d < 16" "eval_digits 16 ds = n div 16 mod 16 ^ k" by blast
  moreover have "n div 16 mod 16 ^ k * 16 + n mod 16 = n mod 16 ^ Suc k"
    by (metis add.commute mod_mult2_eq mult.commute power_Suc)
  ultimately show ?case
    by (intro exI [of _ "ds @ [n mod 16]"]) simp
qed simp

lemma strip_by_id:
  assumes "\<forall>c \<in> set s. \<not> p c"
  shows "strip_by p s = s"
proof -
  have "dropWhile p t = t" if "\<forall>c \<in> set t. \<not> p c" for t
    using that by (cases t) auto
  from this [of s] this [of "rev s"] assms have "dropWhile p s = s" "dropWhile p (rev s) = rev s"
    by simp_all
  then show ?thesis by (simp add: strip_by_def rdrop_while_def)
qed

lemma digits_no_space: "\<forall>d \<in> set ds. d < 16 \<Longrightarrow> py_strip (map digit_char ds) = map digit_char ds"
  unfolding py_strip_def by (rule strip_by_id) (auto simp: digit_char_neq)

lemma digits_no_prefix:
  assumes "\<forall>d \<in> set ds. d < 16"
  shows "drop_prefix16 base (map digit_char ds) = map digit_char ds"
proof -
  have "take 2 (map digit_char ds) \<noteq> [CHR ''0'', c]" if "\<forall>d < 16. digit_char d \<noteq> c" for c
    using that assms by (cases ds rule: remdups_adj.cases) auto
  then show ?thesis by (simp add: drop_prefix16_def digit_char_neq)
qed

lemma py_int_base_digits:
  assumes "base \<le> 16" "\<forall>d \<in> set ds. d < base" "ds \<noteq> []"
  shows "py_int_base base (map digit_char ds) = Some (int (eval_digits base ds))"
proof -
  have hex: "\<forall>d \<in> set ds. d < 16" using assms by fastforce
  obtain d ds' where ds: "ds = d # ds'" using assms(3) by (cases ds) auto
  have d16: "d < 16" using hex ds by simp
  have "py_strip (map digit_char ds) = digit_char d # map digit_char ds'"
    using digits_no_space [OF hex] ds by simp
  moreover have "drop_prefix16 base (digit_char d # map digit_char ds') = map digit_char ds"
    using digits_no_prefix [OF hex, of base] ds by simp
  moreover have "digits_val base 0 False (map digit_char ds) = Some (eval_digits base ds)"
    using digits_val_map [OF assms(1,2)] assms(3) by simp
  ultimately show ?thesis
    using digit_char_neq(1,2) [OF d16] by (simp add: py_int_base_def)
qed

lemma py_int_str_nat [text_simps]: "py_int (str_nat n) = Some (int n)"
proof -
  obtain ds where ds: "str_nat n = map digit_char ds" "ds \<noteq> []" "\<forall>d \<in> set ds. d < 10"
    "eval_digits 10 ds = n" using str_nat_digits by blast
  have "py_int (str_nat n) = Some (int (eval_digits 10 ds))"
    unfolding py_int_def ds(1) by (rule py_int_base_digits) (use ds in auto)
  then show ?thesis by (simp only: ds(4))
qed

lemma py_int_str_int [text_simps]: "py_int (py_str_int i) = Some i"
proof (cases "i < 0")
  case True
  obtain ds where ds: "str_nat (nat (- i)) = map digit_char ds" "ds \<noteq> []"
    "\<forall>d \<in> set ds. d < 10" "eval_digits 10 ds = nat (- i)" using str_nat_digits by blast
  have hex: "\<forall>d \<in> set ds. d < 16" using ds(3) by fastforce
  have "\<forall>c \<in> set (CHR ''-'' # map digit_char ds). \<not> is_space c"
    using hex by (auto simp: digit_char_neq) (simp add: is_space_def)
  then have "py_strip (CHR ''-'' # map digit_char ds) = CHR ''-'' # map digit_char ds"
    unfolding py_strip_def by (rule strip_by_id)
  moreover have "drop_prefix16 10 (map digit_char ds) = map digit_char ds"
    by (rule digits_no_prefix [OF hex])
  moreover have "digits_val 10 0 False (map digit_char ds) = Some (nat (- i))"
    using digits_val_map [of 10 ds 0 False] ds by simp
  ultimately show ?thesis
    using True ds(1) by (simp add: py_int_def py_int_base_def py_str_int_def)
qed (simp add: py_str_int_def py_int_str_nat)

lemma str_nat_no [text_simps]:
  "CHR ''-'' \<notin> set (str_nat n)" "CHR '':'' \<notin> set (str_nat n)" "str_nat n \<noteq> []"
proof -
  obtain ds where ds: "str_nat n = map digit_char ds" "ds \<noteq> []" "\<forall>d \<in> set ds. d < 10"
    using str_nat_digits by blast
  have hex: "d < 16" if "d \<in> set ds" for d using ds(3) that by fastforce
  show "CHR ''-'' \<notin> set (str_nat n)" "CHR '':'' \<notin> set (str_nat n)"
    using ds(1) digit_char_neq(1,6) [OF hex] by force+
  show "str_nat n \<noteq> []" using ds by simp
qed

lemma str_nat_inj: "str_nat m = str_nat n \<longleftrightarrow> m = n"
  by (metis py_int_str_nat of_nat_eq_iff option.inject)

lemma split_on_notin: "c \<notin> set s \<Longrightarrow> split_on c s = [s]"
  by (induction s) auto

lemma split_on_append: "c \<notin> set s \<Longrightarrow> split_on c (s @ c # t) = s # split_on c t"
  by (induction s) auto

lemma remove_sub_id: "CHR '':'' \<notin> set s \<Longrightarrow> CHR '':'' \<in> set old \<Longrightarrow> remove_sub old 0 s = s"
proof (induction s)
  case (Cons x xs)
  have "take (length old) (x # xs) \<noteq> old"
    using Cons.prems by (metis in_set_takeD)
  with Cons show ?case by simp
qed simp

lemma remove_sub_char: "remove_sub [c] 0 s = filter (\<lambda>x. x \<noteq> c) s"
  by (induction s) auto

lemma filter_dash_digits:
  "\<forall>d \<in> set ds. d < 16 \<Longrightarrow> filter (\<lambda>x. x \<noteq> CHR ''-'') (map digit_char ds) = map digit_char ds"
  by (induction ds) (auto simp: digit_char_neq)

lemma filter_dash_sub:
  assumes "\<forall>d \<in> set ds. d < 16"
  shows "filter (\<lambda>x. x \<noteq> CHR ''-'') (take a (drop b (map digit_char ds))) =
    take a (drop b (map digit_char ds))"
  using filter_dash_digits [of "take a (drop b ds)"] assms
  by (simp add: take_map drop_map) (meson in_set_takeD in_set_dropD)

lemma uuid_str_undashed: "filter (\<lambda>x. x \<noteq> CHR ''-'') (uuid_str u) = hex_pad 32 u"
proof -
  obtain ds where ds: "hex_pad 32 u = map digit_char ds" "length ds = 32" "\<forall>d \<in> set ds. d < 16"
    using hex_pad_digits by blast
  let ?h = "map digit_char ds"
  note part = filter_dash_sub [OF ds(3)]
  have ends: "filter (\<lambda>x. x \<noteq> CHR ''-'') (drop b ?h) = drop b ?h"
    "filter (\<lambda>x. x \<noteq> CHR ''-'') (take a ?h) = take a ?h" for a b
    using part [of 32 b] part [of a 0] ds(2) by simp_all
  have "filter (\<lambda>x. x \<noteq> CHR ''-'') (uuid_str u) =
      take 8 ?h @ take 4 (drop 8 ?h) @ take 4 (drop 12 ?h) @ take 4 (drop 16 ?h) @ drop 20 ?h"
    by (simp add: uuid_str_def Let_def ds(1) part ends del: map_append)
  also have "\<dots> = ?h"
    using append_take_drop_id [of 8 ?h] append_take_drop_id [of 4 "drop 8 ?h"]
      append_take_drop_id [of 4 "drop 12 ?h"] append_take_drop_id [of 4 "drop 16 ?h"]
    by (simp del: append_take_drop_id)
  finally show ?thesis by (simp add: ds(1))
qed

lemma uuid_str_chars:
  assumes "c \<in> set (uuid_str u)"
  shows "c = CHR ''-'' \<or> (\<exists>d < 16. c = digit_char d)"
proof -
  obtain ds where ds: "hex_pad 32 u = map digit_char ds" "\<forall>d \<in> set ds. d < 16"
    using hex_pad_digits by blast
  have "c = CHR ''-'' \<or> c \<in> set (map digit_char ds)"
    using assms
    by (auto simp: uuid_str_def Let_def ds(1) simp del: set_map dest: in_set_takeD in_set_dropD)
  then show ?thesis using ds(2) by auto
qed

lemma uuid_round_trip [text_simps]:
  assumes "valid_uuid u"
  shows "uuid_parse (uuid_str u) = Some u"
proof -
  obtain ds where ds: "hex_pad 32 u = map digit_char ds" "length ds = 32"
    "\<forall>d \<in> set ds. d < 16" "eval_digits 16 ds = u mod 16 ^ 32"
    using hex_pad_digits by blast
  have ne: "ds \<noteq> []" using ds(2) by auto
  have u: "u mod 16 ^ 32 = u" using assms by (simp add: valid_uuid_def)
  have col: "CHR '':'' \<notin> set (uuid_str u)"
    using uuid_str_chars digit_char_neq(6) by fastforce
  have brace: "strip_by (\<lambda>c. c = CHR ''{'' \<or> c = CHR ''}'') (uuid_str u) = uuid_str u"
    by (rule strip_by_id) (use uuid_str_chars digit_char_neq(7,8) in fastforce)
  have "py_int_base 16 (hex_pad 32 u) = Some (int u)"
    using py_int_base_digits [OF _ ds(3) ne] ds(1,4) u by simp
  moreover have "int u < 2 ^ 128" using assms by (simp add: valid_uuid_def)
  moreover have "length (hex_pad 32 u) = 32" using ds(1,2) by simp
  ultimately show ?thesis
    using col
    by (simp add: uuid_parse_def Let_def remove_sub_id remove_sub_char brace uuid_str_undashed
        del: hex_pad.simps)
qed

lemma uuid_str_inj:
  "valid_uuid u \<Longrightarrow> valid_uuid v \<Longrightarrow> uuid_str u = uuid_str v \<longleftrightarrow> u = v"
  by (metis uuid_round_trip option.inject)

end
