(* ===== verification/Worker_Contracts.thy ===== *)
theory Worker_Contracts
  imports Prelude
begin

text \<open>
  The data exchanged by the worker's parts (\<open>src/worker/contracts.py\<close> and the message types of
  \<open>src/worker/consumer.py\<close>): the executor event and its validation from a Redis message, the
  context a handler receives, the stream message and the decision a handler returns.
\<close>

section \<open>Executor events\<close>

record executor_event =
  event_id :: uuid
  execution_id :: uuid
  event_type :: string
  event_sequence :: int
  schema_version :: string
  occurred_at :: string
  payload :: json
  extra_fields :: "(string \<times> json) list"

text \<open>
  The conversions of the validation library (pydantic) are parameters: how a JSON value is read
  as a UUID, an integer or a string. \<open>None\<close> is a validation error, a subclass of \<open>ValueError\<close>.
\<close>

record coercions =
  to_uuid :: "json \<Rightarrow> uuid option"
  to_int :: "json \<Rightarrow> int option"
  to_str :: "json \<Rightarrow> string option"

definition declared_fields :: "string list" where
  "declared_fields = [''event_id'', ''execution_id'', ''event_type'', ''event_sequence'',
     ''schema_version'', ''occurred_at'', ''payload'']"

definition need :: "(json \<Rightarrow> 'a option) \<Rightarrow> (string \<times> json) list \<Rightarrow> string \<Rightarrow> 'a result" where
  "need conv data k = (case map_of data k of
       None \<Rightarrow> Inl (ValueError (k @ '': Field required''))
     | Some j \<Rightarrow> (case conv j of None \<Rightarrow> Inl (ValueError (k @ '': invalid'')) | Some v \<Rightarrow> Inr v))"

definition require :: "bool \<Rightarrow> string \<Rightarrow> unit result" where
  "require b m = (if b then Inr () else Inl (ValueError m))"

text \<open>\<open>ExecutorEvent.model_validate\<close>: the declared types and constraints; extra fields are kept.\<close>

definition event_model_validate :: "coercions \<Rightarrow> (string \<times> json) list \<Rightarrow> executor_event result" where
  "event_model_validate co data =
     rbind (need (to_uuid co) data ''event_id'') (\<lambda>eid.
     rbind (need (to_uuid co) data ''execution_id'') (\<lambda>xid.
     rbind (need (to_str co) data ''event_type'') (\<lambda>ty.
     rbind (require (ty \<noteq> []) ''event_type: too short'') (\<lambda>_.
     rbind (need (to_int co) data ''event_sequence'') (\<lambda>seq.
     rbind (require (1 \<le> seq) ''event_sequence: must be at least 1'') (\<lambda>_.
     rbind (need (to_str co) data ''schema_version'') (\<lambda>ver.
     rbind (require (ver = ''1.0'') ''schema_version: literal error'') (\<lambda>_.
     rbind (need (to_str co) data ''occurred_at'') (\<lambda>occ.
     rbind (need Some data ''payload'') (\<lambda>pl.
     rbind (require (is_jobj pl) ''payload: not a dictionary'') (\<lambda>_.
       Inr \<lparr>event_id = eid, execution_id = xid, event_type = ty, event_sequence = seq,
            schema_version = ver, occurred_at = occ, payload = pl,
            extra_fields = filter (\<lambda>kv. fst kv \<notin> set declared_fields) data\<rparr>)))))))))))"

text \<open>
  \<open>ExecutorEvent.from_redis\<close>: \<open>loads\<close> is \<open>json.loads\<close>, \<open>None\<close> its \<open>JSONDecodeError\<close> (a \<open>ValueError\<close>).
  A missing \<open>payload\<close> field is a \<open>KeyError\<close>.
\<close>

definition from_redis ::
    "coercions \<Rightarrow> (string \<Rightarrow> json option) \<Rightarrow> (string \<times> string) list \<Rightarrow> executor_event result" where
  "from_redis co loads fs = (case map_of fs ''payload'' of
       None \<Rightarrow> Inl (KeyError (CHR 0x27 # ''payload'' @ [CHR 0x27]))
     | Some raw \<Rightarrow> (case loads raw of
         None \<Rightarrow> Inl (ValueError ''invalid JSON payload'')
       | Some pl \<Rightarrow> event_model_validate co
           (map (\<lambda>(k, v). (k, if k = ''payload'' then pl else JStr v)) fs)))"

section \<open>Handler context\<close>

record event_context =
  ctx_namespace :: string
  ctx_session_id :: string
  ctx_task_id :: string
  ctx_execution_id :: uuid
  ctx_command_id :: uuid
  ctx_event :: executor_event

text \<open>\<open>graph_config\<close>: the checkpoint thread of a context is its session.\<close>

definition graph_thread_id :: "event_context \<Rightarrow> string" where
  "graph_thread_id c = ctx_session_id c"

section \<open>Stream messages and decisions\<close>

datatype ack_decision = ACK | DEFER | RETRY | DEAD_LETTER

record handler_result =
  decision :: ack_decision
  outcome :: string
  reason :: "string option"
  error_type :: "string option"

definition plain_result :: "ack_decision \<Rightarrow> string \<Rightarrow> handler_result" where
  "plain_result d out = \<lparr>decision = d, outcome = out, reason = None, error_type = None\<rparr>"

record stream_message =
  message_id :: string
  msg_fields :: "(string \<times> string) list"
  reclaimed :: bool

section \<open>Validation lemmas\<close>

lemma need_Inr: "need conv data k = Inr v \<longleftrightarrow> (\<exists>j. map_of data k = Some j \<and> conv j = Some v)"
  by (auto simp: need_def split: option.splits)

lemma require_Inr: "require b m = Inr u \<longleftrightarrow> b"
  by (auto simp: require_def)

lemma need_Inl: "need conv data k = Inl e \<Longrightarrow> \<exists>m. e = ValueError m"
  by (auto simp: need_def split: option.splits)

lemma require_Inl: "require b m = Inl e \<Longrightarrow> e = ValueError m"
  by (auto simp: require_def split: if_splits)

text \<open>An event accepted by the validation satisfies every declared constraint.\<close>

lemma event_model_validate_ok:
  assumes "event_model_validate co data = Inr e"
  shows "event_type e \<noteq> []" "1 \<le> event_sequence e" "schema_version e = ''1.0''" "is_jobj (payload e)"
  using assms unfolding event_model_validate_def
  by (auto simp: exn_simps require_Inr)

lemma event_model_validate_error:
  assumes "event_model_validate co data = Inl e"
  shows "\<exists>m. e = ValueError m"
  using assms unfolding event_model_validate_def
  by (auto simp: exn_simps dest: need_Inl require_Inl)

text \<open>Rejecting a Redis message is always one of the exceptions the ingress maps to the DLQ.\<close>

lemma from_redis_error:
  assumes "from_redis co loads fs = Inl e"
  shows "(\<exists>m. e = ValueError m) \<or> (\<exists>m. e = KeyError m)"
  using assms
  by (auto simp: from_redis_def dest: event_model_validate_error split: option.splits)

lemma from_redis_ok:
  assumes "from_redis co loads fs = Inr e"
  shows "event_type e \<noteq> []" "1 \<le> event_sequence e" "schema_version e = ''1.0''" "is_jobj (payload e)"
  using assms
  by (auto simp: from_redis_def dest: event_model_validate_ok split: option.splits)

end
