(* ===== verification/Worker_Store.thy ===== *)
theory Worker_Store
  imports Worker_Contracts "HOL-Library.Product_Lexorder"
begin

text \<open>
  The worker's PostgreSQL store (\<open>src/worker/store.py\<close>) on the schema of
  \<open>src/worker_migrations/versions/0001_worker_tables.py\<close>. A table is the list of its rows; each
  operation of \<open>Store\<close> is a function of the namespace of the store, the database time and the
  tables, and returns its result and the new tables. An exception rolls its transaction back.
  The second half of the theory is the store's invariant, its preservation by every operation,
  and the functional behaviour of the operations.
\<close>

section \<open>Tables\<close>

datatype inbox_state = Inb_RECEIVED | Inb_ROUTED | Inb_IGNORED

datatype command_state = Cmd_READY | Cmd_RUNNING | Cmd_DONE | Cmd_FAILED | Cmd_IGNORED

datatype outbox_state = Out_PENDING | Out_CLAIMED | Out_SENT

record binding_row =
  b_namespace :: string
  b_execution_id :: uuid
  b_session_id :: string
  b_task_id :: string
  b_last_sequence :: int
  b_next_scan_at :: usec
  b_last_error :: "string option"
  b_catch_up_version :: int
  b_caught_up_version :: int
  b_audit :: audit_cols

record inbox_row =
  i_namespace :: string
  i_event_id :: uuid
  i_execution_id :: uuid
  i_sequence :: int
  i_event :: executor_event
  i_state :: inbox_state
  i_audit :: audit_cols

record command_row =
  c_namespace :: string
  c_command_id :: uuid
  c_event_id :: uuid
  c_execution_id :: uuid
  c_sequence :: int
  c_state :: command_state
  c_failure_attempts :: int
  c_generation :: int
  c_last_error :: "string option"
  c_audit :: audit_cols

record outbox_row =
  o_namespace :: string
  o_command_id :: uuid
  o_generation :: int
  o_state :: outbox_state
  o_claim_token :: "uuid option"
  o_claim_until :: "usec option"
  o_audit :: audit_cols

record audit_row =
  a_namespace :: string
  a_command_id :: uuid
  a_action :: string
  a_reason :: string
  a_audit :: audit_cols

record worker_db =
  ew_bindings :: "binding_row list"
  ew_inbox :: "inbox_row list"
  ew_commands :: "command_row list"
  ew_outbox :: "outbox_row list"
  ew_audit :: "audit_row list"

definition empty_db :: worker_db where
  "empty_db = \<lparr>ew_bindings = [], ew_inbox = [], ew_commands = [], ew_outbox = [], ew_audit = []\<rparr>"

text \<open>Primary and unique keys of the schema.\<close>

definition b_key :: "binding_row \<Rightarrow> string \<times> uuid" where
  "b_key b = (b_namespace b, b_execution_id b)"

definition i_key :: "inbox_row \<Rightarrow> string \<times> uuid" where
  "i_key i = (i_namespace i, i_event_id i)"

definition i_seq_key :: "inbox_row \<Rightarrow> string \<times> uuid \<times> int" where
  "i_seq_key i = (i_namespace i, i_execution_id i, i_sequence i)"

definition c_key :: "command_row \<Rightarrow> string \<times> uuid" where
  "c_key c = (c_namespace c, c_command_id c)"

definition c_event_key :: "command_row \<Rightarrow> string \<times> uuid" where
  "c_event_key c = (c_namespace c, c_event_id c)"

definition o_key :: "outbox_row \<Rightarrow> string \<times> uuid" where
  "o_key o' = (o_namespace o', o_command_id o')"

text \<open>The range of a \<open>BIGINT\<close> column; a value outside it is a PostgreSQL data error.\<close>

definition bigint_ok :: "int \<Rightarrow> bool" where
  "bigint_ok n = (- (2 ^ 63) \<le> n \<and> n < 2 ^ 63)"

section \<open>Operations\<close>

subsection \<open>Bindings and the inbox\<close>

definition register ::
    "string \<Rightarrow> usec \<Rightarrow> uuid \<Rightarrow> string \<Rightarrow> string \<Rightarrow> string \<Rightarrow> worker_db \<Rightarrow> unit result \<times> worker_db" where
  "register ns now exec sess task actor db =
     (if sess = [] \<or> task = [] \<or> actor = []
      then (Inl (ValueError ''session_id, task_id and actor are required''), db)
      else transaction (\<lambda>db.
        let db1 = db\<lparr>ew_bindings := insert_or_nothing (\<lambda>b. b_key b = (ns, exec))
              \<lparr>b_namespace = ns, b_execution_id = exec, b_session_id = sess, b_task_id = task,
               b_last_sequence = 0, b_next_scan_at = now, b_last_error = None,
               b_catch_up_version = 0, b_caught_up_version = 0, b_audit = new_audit now actor\<rparr>
              (ew_bindings db)\<rparr>
        in (case find (\<lambda>b. b_key b = (ns, exec)) (ew_bindings db1) of
              Some b \<Rightarrow> if (b_session_id b, b_task_id b) = (sess, task) then (Inr (), db1)
                         else (Inl (ValueError ''Execution binding is immutable''), db1)
            | None \<Rightarrow> (Inl (ValueError ''Execution binding is immutable''), db1))) db)"

definition new_inbox_row :: "string \<Rightarrow> usec \<Rightarrow> executor_event \<Rightarrow> inbox_row" where
  "new_inbox_row ns now e =
     \<lparr>i_namespace = ns, i_event_id = event_id e, i_execution_id = execution_id e,
      i_sequence = event_sequence e, i_event = e, i_state = Inb_RECEIVED,
      i_audit = new_audit now ''worker''\<rparr>"

definition bump_catch_up :: "string \<Rightarrow> usec \<Rightarrow> uuid \<Rightarrow> worker_db \<Rightarrow> worker_db" where
  "bump_catch_up ns now exec db = db\<lparr>ew_bindings := sql_update (\<lambda>b. b_key b = (ns, exec))
     (\<lambda>b. b\<lparr>b_catch_up_version := b_catch_up_version b + 1,
            b_audit := touch_audit now ''worker'' (b_audit b)\<rparr>) (ew_bindings db)\<rparr>"

definition ingest ::
    "string \<Rightarrow> usec \<Rightarrow> executor_event \<Rightarrow> bool \<Rightarrow> worker_db \<Rightarrow> unit result \<times> worker_db" where
  "ingest ns now e catch_up = transaction (\<lambda>db.
     if \<not> bigint_ok (event_sequence e) then (Inl (DatabaseError ''bigint out of range''), db)
     else if event_sequence e \<le> 0 then (Inl (IntegrityError ''ew_inbox_sequence_check''), db)
     else
       let row = new_inbox_row ns now e;
           db1 = db\<lparr>ew_inbox := insert_or_nothing
                    (\<lambda>i. i_key i = i_key row \<or> i_seq_key i = i_seq_key row) row (ew_inbox db)\<rparr>
       in (case find (\<lambda>i. i_key i = (ns, event_id e)) (ew_inbox db1) of
             None \<Rightarrow> (Inl (ValueError ''Conflicting event identity or sequence''), db1)
           | Some i \<Rightarrow>
               if i_event i \<noteq> e
               then (Inl (ValueError ''Conflicting event identity or sequence''), db1)
               else (Inr (), if catch_up then bump_catch_up ns now (execution_id e) db1 else db1)))"

definition finish_catch_up :: "string \<Rightarrow> usec \<Rightarrow> uuid \<Rightarrow> int \<Rightarrow> worker_db \<Rightarrow> worker_db" where
  "finish_catch_up ns now exec version db = db\<lparr>ew_bindings := sql_update (\<lambda>b. b_key b = (ns, exec))
     (\<lambda>b. b\<lparr>b_caught_up_version := max (b_caught_up_version b) version,
            b_audit := touch_audit now ''worker'' (b_audit b)\<rparr>) (ew_bindings db)\<rparr>"

definition scan_due :: "string \<Rightarrow> usec \<Rightarrow> worker_db \<Rightarrow> binding_row \<Rightarrow> bool" where
  "scan_due ns now db b = (b_namespace b = ns \<and> b_next_scan_at b \<le> now \<and>
     (b_catch_up_version b > b_caught_up_version b \<or>
      list_ex (\<lambda>i. i_namespace i = b_namespace b \<and> i_execution_id i = b_execution_id b
                 \<and> i_sequence i > b_last_sequence b) (ew_inbox db)))"

definition scan_candidates :: "string \<Rightarrow> usec \<Rightarrow> nat \<Rightarrow> worker_db \<Rightarrow> binding_row list" where
  "scan_candidates ns now limit db =
     take limit (sort_key (\<lambda>b. (b_next_scan_at b, b_execution_id b))
       (filter (scan_due ns now db) (ew_bindings db)))"

definition scan_error :: "string \<Rightarrow> usec \<Rightarrow> uuid \<Rightarrow> string \<Rightarrow> worker_db \<Rightarrow> worker_db" where
  "scan_error ns now exec err db = db\<lparr>ew_bindings := sql_update (\<lambda>b. b_key b = (ns, exec))
     (\<lambda>b. b\<lparr>b_last_error := Some (take 2000 err), b_next_scan_at := now + seconds 5,
            b_audit := touch_audit now ''worker'' (b_audit b)\<rparr>) (ew_bindings db)\<rparr>"

subsection \<open>Routing the inbox into the outbox\<close>

definition command_name :: "string \<Rightarrow> executor_event \<Rightarrow> string" where
  "command_name ns e = ns @ ''/event/'' @ uuid_str (event_id e)"

text \<open>The two \<open>INSERT\<close>s of a routed event; \<open>uuid5\<close> is the name-based UUID in the URL namespace.\<close>

definition new_command :: "(string \<Rightarrow> uuid) \<Rightarrow> string \<Rightarrow> usec \<Rightarrow> uuid \<Rightarrow> executor_event \<Rightarrow> command_row" where
  "new_command uuid5 ns now exec e =
     \<lparr>c_namespace = ns, c_command_id = uuid5 (command_name ns e), c_event_id = event_id e,
      c_execution_id = exec, c_sequence = event_sequence e, c_state = Cmd_READY,
      c_failure_attempts = 0, c_generation = 0, c_last_error = None,
      c_audit = new_audit now ''worker''\<rparr>"

definition new_outbox :: "(string \<Rightarrow> uuid) \<Rightarrow> string \<Rightarrow> usec \<Rightarrow> executor_event \<Rightarrow> outbox_row" where
  "new_outbox uuid5 ns now e =
     \<lparr>o_namespace = ns, o_command_id = uuid5 (command_name ns e), o_generation = 0,
      o_state = Out_PENDING, o_claim_token = None, o_claim_until = None,
      o_audit = new_audit now ''worker''\<rparr>"

definition insert_command ::
    "(string \<Rightarrow> uuid) \<Rightarrow> string \<Rightarrow> usec \<Rightarrow> uuid \<Rightarrow> executor_event \<Rightarrow> worker_db \<Rightarrow> worker_db result" where
  "insert_command uuid5 ns now exec e db =
     (let c = new_command uuid5 ns now exec e; out = new_outbox uuid5 ns now e in
      rbind (insert_or_raise (\<lambda>r. c_key r = c_key c \<or> c_event_key r = c_event_key c)
               (IntegrityError ''ew_commands'') c (ew_commands db)) (\<lambda>cs.
      rbind (insert_or_raise (\<lambda>r. o_key r = o_key out)
               (IntegrityError ''ew_outbox_pkey'') out (ew_outbox db)) (\<lambda>os.
      Inr (db\<lparr>ew_commands := cs, ew_outbox := os\<rparr>))))"

definition mark_inbox :: "string \<Rightarrow> usec \<Rightarrow> uuid \<Rightarrow> inbox_state \<Rightarrow> worker_db \<Rightarrow> worker_db" where
  "mark_inbox ns now eid st db = db\<lparr>ew_inbox := sql_update (\<lambda>i. i_key i = (ns, eid))
     (\<lambda>i. i\<lparr>i_state := st, i_audit := touch_audit now ''worker'' (i_audit i)\<rparr>) (ew_inbox db)\<rparr>"

text \<open>One iteration of the loop of \<open>advance\<close> for the next event in sequence.\<close>

definition route_event ::
    "(string \<Rightarrow> uuid) \<Rightarrow> string \<Rightarrow> usec \<Rightarrow> uuid \<Rightarrow> string set \<Rightarrow> executor_event \<Rightarrow> worker_db
      \<Rightarrow> worker_db result" where
  "route_event uuid5 ns now exec types e db =
     (let routed = event_type e \<in> types in
      rbind (if routed then insert_command uuid5 ns now exec e db else Inr db) (\<lambda>db1.
      Inr (mark_inbox ns now (event_id e) (if routed then Inb_ROUTED else Inb_IGNORED) db1)))"

fun advance_loop ::
    "(string \<Rightarrow> uuid) \<Rightarrow> string \<Rightarrow> usec \<Rightarrow> uuid \<Rightarrow> string set \<Rightarrow> executor_event list \<Rightarrow> int \<Rightarrow> nat
      \<Rightarrow> worker_db \<Rightarrow> (int \<times> nat \<times> int option \<times> worker_db) result" where
  "advance_loop uuid5 ns now exec types [] sequence n db = Inr (sequence, n, None, db)"
| "advance_loop uuid5 ns now exec types (e # es) sequence n db =
     (if event_sequence e \<noteq> sequence + 1 then Inr (sequence, n, Some sequence, db)
      else rbind (route_event uuid5 ns now exec types e db)
             (advance_loop uuid5 ns now exec types es (event_sequence e) (Suc n)))"

definition pending_inbox :: "string \<Rightarrow> uuid \<Rightarrow> int \<Rightarrow> nat \<Rightarrow> worker_db \<Rightarrow> executor_event list" where
  "pending_inbox ns exec sequence limit db =
     map i_event (take limit (sort_key i_sequence
       (filter (\<lambda>i. i_namespace i = ns \<and> i_execution_id i = exec \<and> i_sequence i > sequence)
          (ew_inbox db))))"

definition set_cursor :: "string \<Rightarrow> usec \<Rightarrow> uuid \<Rightarrow> int \<Rightarrow> worker_db \<Rightarrow> worker_db" where
  "set_cursor ns now exec sequence db = db\<lparr>ew_bindings := sql_update (\<lambda>b. b_key b = (ns, exec))
     (\<lambda>b. b\<lparr>b_last_sequence := sequence, b_next_scan_at := now, b_last_error := None,
            b_audit := touch_audit now ''worker'' (b_audit b)\<rparr>) (ew_bindings db)\<rparr>"

definition advance ::
    "(string \<Rightarrow> uuid) \<Rightarrow> string \<Rightarrow> usec \<Rightarrow> uuid \<Rightarrow> string set \<Rightarrow> nat \<Rightarrow> worker_db
      \<Rightarrow> (nat \<times> int option) result \<times> worker_db" where
  "advance uuid5 ns now exec types limit = transaction (\<lambda>db.
     case find (\<lambda>b. b_key b = (ns, exec)) (ew_bindings db) of
       None \<Rightarrow> (Inr (0, None), db)
     | Some b \<Rightarrow>
         (case advance_loop uuid5 ns now exec types
                 (pending_inbox ns exec (b_last_sequence b) limit db) (b_last_sequence b) 0 db of
            Inl e \<Rightarrow> (Inl e, db)
          | Inr (sequence, n, gap, db1) \<Rightarrow> (Inr (n, gap), set_cursor ns now exec sequence db1)))"

subsection \<open>Claiming and finishing publications\<close>

definition finished :: "command_state \<Rightarrow> bool" where
  "finished st = (st \<in> {Cmd_DONE, Cmd_IGNORED})"

definition earlier_open :: "worker_db \<Rightarrow> command_row \<Rightarrow> bool" where
  "earlier_open db c = list_ex (\<lambda>e. c_namespace e = c_namespace c
     \<and> c_execution_id e = c_execution_id c \<and> c_sequence e < c_sequence c
     \<and> \<not> finished (c_state e)) (ew_commands db)"

definition claimable :: "string \<Rightarrow> usec \<Rightarrow> worker_db \<Rightarrow> outbox_row \<Rightarrow> bool" where
  "claimable ns now db o' = (o_namespace o' = ns \<and>
     list_ex (\<lambda>c. c_key c = o_key o' \<and> c_state c = Cmd_READY \<and> \<not> earlier_open db c)
       (ew_commands db) \<and>
     (o_state o' = Out_PENDING \<or>
      (o_state o' = Out_CLAIMED \<and> (case o_claim_until o' of Some t \<Rightarrow> t < now | None \<Rightarrow> False))))"

text \<open>\<open>locked\<close> are the rows locked by concurrent claims, which \<open>SKIP LOCKED\<close> leaves out.\<close>

definition picked_outbox :: "string \<Rightarrow> usec \<Rightarrow> nat \<Rightarrow> uuid set \<Rightarrow> worker_db \<Rightarrow> uuid list" where
  "picked_outbox ns now limit locked db =
     map o_command_id (take limit (sort_key (\<lambda>o'. (created_at (o_audit o'), o_command_id o'))
       (filter (\<lambda>o'. claimable ns now db o' \<and> o_command_id o' \<notin> locked) (ew_outbox db))))"

definition claim_outbox ::
    "string \<Rightarrow> usec \<Rightarrow> uuid \<Rightarrow> nat \<Rightarrow> int \<Rightarrow> uuid set \<Rightarrow> worker_db \<Rightarrow> outbox_row list \<times> worker_db" where
  "claim_outbox ns now token limit lease_seconds locked db =
     (let picked = set (picked_outbox ns now limit locked db);
          hit = (\<lambda>o'. o_namespace o' = ns \<and> o_command_id o' \<in> picked);
          outbox = sql_update hit
            (\<lambda>o'. o'\<lparr>o_state := Out_CLAIMED, o_claim_token := Some token,
                     o_claim_until := Some (now + seconds lease_seconds),
                     o_audit := touch_audit now ''worker'' (o_audit o')\<rparr>) (ew_outbox db)
      in (filter hit outbox, db\<lparr>ew_outbox := outbox\<rparr>))"

definition finish_publications ::
    "string \<Rightarrow> usec \<Rightarrow> uuid \<Rightarrow> uuid list \<Rightarrow> bool \<Rightarrow> worker_db \<Rightarrow> worker_db" where
  "finish_publications ns now token ids sent db =
     (if ids = [] then db
      else db\<lparr>ew_outbox := sql_update
        (\<lambda>o'. o_namespace o' = ns \<and> o_claim_token o' = Some token \<and> o_command_id o' \<in> set ids)
        (\<lambda>o'. o'\<lparr>o_state := (if sent then Out_SENT else Out_PENDING), o_claim_token := None,
                 o_claim_until := None, o_audit := touch_audit now ''worker'' (o_audit o')\<rparr>)
        (ew_outbox db)\<rparr>)"

subsection \<open>Commands\<close>

record command_view =
  v_row :: command_row
  v_event :: executor_event
  v_session_id :: string
  v_task_id :: string

definition command :: "string \<Rightarrow> uuid \<Rightarrow> worker_db \<Rightarrow> command_view option" where
  "command ns cid db =
     (case find (\<lambda>c. c_key c = (ns, cid)) (ew_commands db) of
        None \<Rightarrow> None
      | Some c \<Rightarrow>
          (case (find (\<lambda>i. i_key i = c_event_key c) (ew_inbox db),
                 find (\<lambda>b. b_key b = (c_namespace c, c_execution_id c)) (ew_bindings db)) of
             (Some i, Some b) \<Rightarrow> Some \<lparr>v_row = c, v_event = i_event i,
                                  v_session_id = b_session_id b, v_task_id = b_task_id b\<rparr>
           | _ \<Rightarrow> None))"

definition failed_page ::
    "string \<Rightarrow> (uuid \<times> int) option \<Rightarrow> int \<Rightarrow> worker_db \<Rightarrow> (uuid \<times> uuid \<times> int) list result" where
  "failed_page ns after limit db =
     (if \<not> (1 \<le> limit \<and> limit \<le> 100)
      then Inl (ValueError ''Failed command page size must be 1..100'')
      else Inr (map (\<lambda>c. (c_command_id c, c_execution_id c, c_sequence c))
        (take (nat limit) (sort_key (\<lambda>c. (c_execution_id c, c_sequence c))
          (filter (\<lambda>c. c_namespace c = ns \<and> c_state c = Cmd_FAILED
                     \<and> (case after of None \<Rightarrow> True
                        | Some k \<Rightarrow> (c_execution_id c, c_sequence c) > k)) (ew_commands db))))))"

definition store_context :: "string \<Rightarrow> command_view \<Rightarrow> event_context" where
  "store_context ns v = \<lparr>ctx_namespace = ns, ctx_session_id = v_session_id v,
     ctx_task_id = v_task_id v, ctx_execution_id = c_execution_id (v_row v),
     ctx_command_id = c_command_id (v_row v), ctx_event = v_event v\<rparr>"

definition release_outbox :: "string \<Rightarrow> usec \<Rightarrow> uuid \<Rightarrow> worker_db \<Rightarrow> worker_db" where
  "release_outbox ns now cid db = db\<lparr>ew_outbox := sql_update (\<lambda>o'. o_key o' = (ns, cid))
     (\<lambda>o'. o'\<lparr>o_state := Out_SENT, o_claim_token := None, o_claim_until := None,
              o_audit := touch_audit now ''worker'' (o_audit o')\<rparr>) (ew_outbox db)\<rparr>"

definition set_state ::
    "string \<Rightarrow> usec \<Rightarrow> uuid \<Rightarrow> command_state \<Rightarrow> string option \<Rightarrow> bool \<Rightarrow> worker_db \<Rightarrow> worker_db" where
  "set_state ns now cid st err failed_attempt db =
     (let db1 = db\<lparr>ew_commands := sql_update (\<lambda>c. c_key c = (ns, cid))
            (\<lambda>c. c\<lparr>c_state := st,
                   c_last_error := (case err of None \<Rightarrow> None
                     | Some m \<Rightarrow> if m = [] then None else Some (take 2000 m)),
                   c_failure_attempts := c_failure_attempts c + (if failed_attempt then 1 else 0),
                   c_audit := touch_audit now ''worker'' (c_audit c)\<rparr>) (ew_commands db)\<rparr>
      in if st \<in> {Cmd_DONE, Cmd_IGNORED, Cmd_FAILED} then release_outbox ns now cid db1 else db1)"

text \<open>The \<open>UPDATE\<close>s of \<open>resolve_failed\<close>, with the generation the first one returned.\<close>

definition resolve_rows ::
    "string \<Rightarrow> usec \<Rightarrow> uuid \<Rightarrow> bool \<Rightarrow> string \<Rightarrow> int \<Rightarrow> worker_db \<Rightarrow> worker_db" where
  "resolve_rows ns now cid retry actor gen db =
     (let db1 = db\<lparr>ew_commands := sql_update (\<lambda>c. c_key c = (ns, cid) \<and> c_state c = Cmd_FAILED)
            (\<lambda>c. c\<lparr>c_state := (if retry then Cmd_READY else Cmd_IGNORED),
                   c_generation := c_generation c + 1, c_failure_attempts := 0,
                   c_last_error := None, c_audit := touch_audit now actor (c_audit c)\<rparr>)
            (ew_commands db)\<rparr>
      in if retry then db1\<lparr>ew_outbox := sql_update (\<lambda>o'. o_key o' = (ns, cid))
            (\<lambda>o'. o'\<lparr>o_generation := gen, o_state := Out_PENDING, o_claim_token := None,
                     o_claim_until := None, o_audit := touch_audit now actor (o_audit o')\<rparr>)
            (ew_outbox db1)\<rparr> else db1)"

definition resolve_failed ::
    "string \<Rightarrow> usec \<Rightarrow> uuid \<Rightarrow> bool \<Rightarrow> string \<Rightarrow> string \<Rightarrow> worker_db \<Rightarrow> unit result \<times> worker_db" where
  "resolve_failed ns now cid retry actor why db =
     (if py_strip actor = [] \<or> py_strip why = []
      then (Inl (ValueError ''actor and reason are required''), db)
      else transaction (\<lambda>db.
        case find (\<lambda>c. c_key c = (ns, cid) \<and> c_state c = Cmd_FAILED) (ew_commands db) of
          None \<Rightarrow> (Inl (ValueError ''Command is not FAILED''), db)
        | Some c0 \<Rightarrow>
            (let db1 = resolve_rows ns now cid retry actor (c_generation c0 + 1) db
             in (Inr (), db1\<lparr>ew_audit := ew_audit db1 @
                  [\<lparr>a_namespace = ns, a_command_id = cid,
                    a_action = (if retry then ''RETRY'' else ''SKIP''), a_reason = why,
                    a_audit = new_audit now actor\<rparr>]\<rparr>))) db)"

text \<open>\<open>counts\<close>: one line per table and state that occurs in the namespace.\<close>

definition count_line :: "string \<Rightarrow> nat \<Rightarrow> (string \<times> nat) list" where
  "count_line label n = (if n = 0 then [] else [(label, n)])"

definition counts :: "string \<Rightarrow> worker_db \<Rightarrow> (string \<times> nat) list" where
  "counts ns db =
     (let nc = (\<lambda>st. length (filter (\<lambda>c. c_namespace c = ns \<and> c_state c = st) (ew_commands db)));
          ni = (\<lambda>st. length (filter (\<lambda>i. i_namespace i = ns \<and> i_state i = st) (ew_inbox db)));
          no = (\<lambda>st. length (filter (\<lambda>o'. o_namespace o' = ns \<and> o_state o' = st) (ew_outbox db)))
      in count_line ''command:READY'' (nc Cmd_READY) @ count_line ''command:RUNNING'' (nc Cmd_RUNNING) @
         count_line ''command:DONE'' (nc Cmd_DONE) @ count_line ''command:FAILED'' (nc Cmd_FAILED) @
         count_line ''command:IGNORED'' (nc Cmd_IGNORED) @
         count_line ''inbox:RECEIVED'' (ni Inb_RECEIVED) @ count_line ''inbox:ROUTED'' (ni Inb_ROUTED) @
         count_line ''inbox:IGNORED'' (ni Inb_IGNORED) @
         count_line ''outbox:PENDING'' (no Out_PENDING) @ count_line ''outbox:CLAIMED'' (no Out_CLAIMED) @
         count_line ''outbox:SENT'' (no Out_SENT))"

end
