(* ===== verification/Worker_Store_Inv.thy ===== *)
theory Worker_Store_Inv
  imports Worker_Store
begin

text \<open>
  The invariant of the worker's tables and its preservation by every operation of \<open>Store\<close>:
  keys are unique, an inbox row agrees with its event, the routed events are exactly the events
  of the commands, every command has one outbox row whose claim columns and generation agree with
  it, and everything up to a binding's cursor has been routed and nothing beyond it has.
\<close>

section \<open>The invariant\<close>

definition keys_ok :: "worker_db \<Rightarrow> bool" where
  "keys_ok db = (distinct (map b_key (ew_bindings db)) \<and> distinct (map i_key (ew_inbox db))
     \<and> distinct (map i_seq_key (ew_inbox db)) \<and> distinct (map c_key (ew_commands db))
     \<and> distinct (map c_event_key (ew_commands db)) \<and> distinct (map o_key (ew_outbox db)))"

definition rows_ok :: "worker_db \<Rightarrow> bool" where
  "rows_ok db = (\<forall>i \<in> set (ew_inbox db). i_event_id i = event_id (i_event i)
     \<and> i_execution_id i = execution_id (i_event i) \<and> i_sequence i = event_sequence (i_event i)
     \<and> 0 < i_sequence i)"

definition routing_ok :: "worker_db \<Rightarrow> bool" where
  "routing_ok db = ((\<forall>c \<in> set (ew_commands db). \<exists>i \<in> set (ew_inbox db). i_key i = c_event_key c
       \<and> i_execution_id i = c_execution_id c \<and> i_sequence i = c_sequence c \<and> i_state i = Inb_ROUTED)
     \<and> (\<forall>i \<in> set (ew_inbox db). i_state i = Inb_ROUTED \<longrightarrow>
          (\<exists>c \<in> set (ew_commands db). c_event_key c = i_key i)))"

definition claim_cols_ok :: "outbox_row \<Rightarrow> bool" where
  "claim_cols_ok o' = ((o_state o' = Out_CLAIMED) = (o_claim_token o' \<noteq> None)
     \<and> (o_claim_token o' = None) = (o_claim_until o' = None))"

definition settled :: "command_state \<Rightarrow> bool" where
  "settled st = (st \<in> {Cmd_DONE, Cmd_IGNORED, Cmd_FAILED})"

definition outbox_agrees :: "command_row \<Rightarrow> outbox_row \<Rightarrow> bool" where
  "outbox_agrees c o' = (o_generation o' \<le> c_generation c
     \<and> (c_state c = Cmd_READY \<longrightarrow> o_generation o' = c_generation c)
     \<and> (settled (c_state c) \<longrightarrow> o_state o' = Out_SENT))"

definition outbox_ok :: "worker_db \<Rightarrow> bool" where
  "outbox_ok db = (o_key ` set (ew_outbox db) = c_key ` set (ew_commands db)
     \<and> (\<forall>o' \<in> set (ew_outbox db). claim_cols_ok o')
     \<and> (\<forall>c \<in> set (ew_commands db). \<forall>o' \<in> set (ew_outbox db). o_key o' = c_key c \<longrightarrow> outbox_agrees c o'))"

text \<open>The cursor of an execution is the \<open>last_sequence\<close> of its binding.\<close>

definition cursor :: "worker_db \<Rightarrow> string \<times> uuid \<Rightarrow> int" where
  "cursor db k = (case find (\<lambda>b. b_key b = k) (ew_bindings db) of Some b \<Rightarrow> b_last_sequence b | None \<Rightarrow> 0)"

definition cursor_ok :: "(string \<times> uuid \<Rightarrow> int) \<Rightarrow> worker_db \<Rightarrow> bool" where
  "cursor_ok cur db =
     ((\<forall>k \<in> b_key ` set (ew_bindings db). 0 \<le> cur k
        \<and> (\<forall>s \<in> {1..cur k}. \<exists>i \<in> set (ew_inbox db).
             i_seq_key i = (fst k, snd k, s) \<and> i_state i \<noteq> Inb_RECEIVED))
      \<and> (\<forall>i \<in> set (ew_inbox db). i_state i \<noteq> Inb_RECEIVED \<longrightarrow>
           (i_namespace i, i_execution_id i) \<in> b_key ` set (ew_bindings db)
           \<and> i_sequence i \<le> cur (i_namespace i, i_execution_id i)))"

definition catch_up_ok :: "worker_db \<Rightarrow> bool" where
  "catch_up_ok db = (\<forall>b \<in> set (ew_bindings db).
     0 \<le> b_caught_up_version b \<and> b_caught_up_version b \<le> b_catch_up_version b)"

text \<open>The invariant with the cursors given, as it holds inside the loop of \<open>advance\<close>.\<close>

definition db_inv_at :: "(string \<times> uuid \<Rightarrow> int) \<Rightarrow> worker_db \<Rightarrow> bool" where
  "db_inv_at cur db = (keys_ok db \<and> rows_ok db \<and> routing_ok db \<and> outbox_ok db
     \<and> cursor_ok cur db \<and> catch_up_ok db)"

definition db_inv :: "worker_db \<Rightarrow> bool" where
  "db_inv db = db_inv_at (cursor db) db"

lemmas inv_defs = keys_ok_def rows_ok_def routing_ok_def outbox_ok_def cursor_ok_def catch_up_ok_def

section \<open>Keys under updates\<close>

lemma keys_simps [simp]:
  "b_key (b\<lparr>b_last_sequence := n\<rparr>) = b_key b" "b_key (b\<lparr>b_next_scan_at := t\<rparr>) = b_key b"
  "b_key (b\<lparr>b_last_error := er\<rparr>) = b_key b" "b_key (b\<lparr>b_audit := au\<rparr>) = b_key b"
  "b_key (b\<lparr>b_catch_up_version := n\<rparr>) = b_key b" "b_key (b\<lparr>b_caught_up_version := n\<rparr>) = b_key b"
  "i_key (i\<lparr>i_state := st\<rparr>) = i_key i" "i_key (i\<lparr>i_audit := au\<rparr>) = i_key i"
  "i_seq_key (i\<lparr>i_state := st\<rparr>) = i_seq_key i" "i_seq_key (i\<lparr>i_audit := au\<rparr>) = i_seq_key i"
  by (simp_all add: b_key_def i_key_def i_seq_key_def)

lemma command_keys_simps [simp]:
  "c_key (c\<lparr>c_state := cs\<rparr>) = c_key c" "c_key (c\<lparr>c_failure_attempts := n\<rparr>) = c_key c"
  "c_key (c\<lparr>c_generation := n\<rparr>) = c_key c" "c_key (c\<lparr>c_last_error := er\<rparr>) = c_key c"
  "c_key (c\<lparr>c_audit := au\<rparr>) = c_key c"
  "c_event_key (c\<lparr>c_state := cs\<rparr>) = c_event_key c" "c_event_key (c\<lparr>c_failure_attempts := n\<rparr>) = c_event_key c"
  "c_event_key (c\<lparr>c_generation := n\<rparr>) = c_event_key c" "c_event_key (c\<lparr>c_last_error := er\<rparr>) = c_event_key c"
  "c_event_key (c\<lparr>c_audit := au\<rparr>) = c_event_key c"
  "o_key (o'\<lparr>o_state := os\<rparr>) = o_key o'" "o_key (o'\<lparr>o_claim_token := tk\<rparr>) = o_key o'"
  "o_key (o'\<lparr>o_claim_until := tu\<rparr>) = o_key o'" "o_key (o'\<lparr>o_generation := n\<rparr>) = o_key o'"
  "o_key (o'\<lparr>o_audit := au\<rparr>) = o_key o'"
  by (simp_all add: c_key_def c_event_key_def o_key_def)

lemma cursor_of_binding:
  "keys_ok db \<Longrightarrow> b \<in> set (ew_bindings db) \<Longrightarrow> cursor db (b_key b) = b_last_sequence b"
  by (simp add: cursor_def keys_ok_def find_key)

lemma cursor_other_tables [simp]:
  "cursor (db\<lparr>ew_inbox := x\<rparr>) = cursor db" "cursor (db\<lparr>ew_commands := y\<rparr>) = cursor db"
  "cursor (db\<lparr>ew_outbox := z\<rparr>) = cursor db" "cursor (db\<lparr>ew_audit := w\<rparr>) = cursor db"
  by (simp_all add: cursor_def fun_eq_iff)

text \<open>Frame rules: a conjunct of the invariant that does not read a table ignores its update.\<close>

lemma inv_frames [simp]:
  "rows_ok (db\<lparr>ew_bindings := b\<rparr>) = rows_ok db" "routing_ok (db\<lparr>ew_bindings := b\<rparr>) = routing_ok db"
  "outbox_ok (db\<lparr>ew_bindings := b\<rparr>) = outbox_ok db"
  "outbox_ok (db\<lparr>ew_inbox := i\<rparr>) = outbox_ok db" "catch_up_ok (db\<lparr>ew_inbox := i\<rparr>) = catch_up_ok db"
  "rows_ok (db\<lparr>ew_commands := c\<rparr>) = rows_ok db" "cursor_ok cur (db\<lparr>ew_commands := c\<rparr>) = cursor_ok cur db"
  "catch_up_ok (db\<lparr>ew_commands := c\<rparr>) = catch_up_ok db"
  "rows_ok (db\<lparr>ew_outbox := out\<rparr>) = rows_ok db" "routing_ok (db\<lparr>ew_outbox := out\<rparr>) = routing_ok db"
  "cursor_ok cur (db\<lparr>ew_outbox := out\<rparr>) = cursor_ok cur db"
  "catch_up_ok (db\<lparr>ew_outbox := out\<rparr>) = catch_up_ok db"
  by (simp_all add: inv_defs)

lemma inv_audit_frame [simp]:
  "keys_ok (db\<lparr>ew_audit := x\<rparr>) = keys_ok db" "rows_ok (db\<lparr>ew_audit := x\<rparr>) = rows_ok db"
  "routing_ok (db\<lparr>ew_audit := x\<rparr>) = routing_ok db" "outbox_ok (db\<lparr>ew_audit := x\<rparr>) = outbox_ok db"
  "cursor_ok cur (db\<lparr>ew_audit := x\<rparr>) = cursor_ok cur db" "catch_up_ok (db\<lparr>ew_audit := x\<rparr>) = catch_up_ok db"
  by (simp_all add: inv_defs)

lemma empty_db_inv: "db_inv empty_db"
  by (simp add: db_inv_def db_inv_at_def inv_defs empty_db_def)

section \<open>Preservation by column updates\<close>

text \<open>Updates of the bindings that keep keys, cursors and the catch-up order.\<close>

lemma inv_binding_update:
  assumes inv: "db_inv db"
    and key: "\<And>b. b_key (f b) = b_key b" and seq: "\<And>b. b_last_sequence (f b) = b_last_sequence b"
    and vers: "\<And>b. b \<in> set (ew_bindings db) \<Longrightarrow> p b \<Longrightarrow> 0 \<le> b_caught_up_version b \<Longrightarrow>
        b_caught_up_version b \<le> b_catch_up_version b \<Longrightarrow>
        0 \<le> b_caught_up_version (f b) \<and> b_caught_up_version (f b) \<le> b_catch_up_version (f b)"
  shows "db_inv (db\<lparr>ew_bindings := sql_update p f (ew_bindings db)\<rparr>)"
proof -
  let ?db = "db\<lparr>ew_bindings := sql_update p f (ew_bindings db)\<rparr>"
  have cur: "cursor ?db = cursor db"
    by (auto simp: cursor_def fun_eq_iff find_sql_update key seq split: option.split)
  have "cursor_ok (cursor db) ?db"
    using inv unfolding db_inv_def db_inv_at_def cursor_ok_def
    by (simp add: key_image_sql_update key)
  moreover have "catch_up_ok ?db"
    using inv vers unfolding db_inv_def db_inv_at_def catch_up_ok_def
    by (auto simp: in_sql_update)
  moreover have "keys_ok ?db" "rows_ok ?db" "routing_ok ?db" "outbox_ok ?db"
    using inv unfolding db_inv_def db_inv_at_def
    by (simp_all add: keys_ok_def map_sql_update_key key)
  ultimately show ?thesis by (simp add: db_inv_def db_inv_at_def cur)
qed

text \<open>Row-wise updates of commands and outbox that keep keys and their agreement.\<close>

lemma inv_commands_outbox_map:
  assumes inv: "db_inv db"
    and gk: "\<And>c. c_key (g c) = c_key c" "\<And>c. c_event_key (g c) = c_event_key c"
      "\<And>c. c_execution_id (g c) = c_execution_id c" "\<And>c. c_sequence (g c) = c_sequence c"
    and hk: "\<And>o'. o_key (h o') = o_key o'"
    and cols: "\<And>o'. o' \<in> set (ew_outbox db) \<Longrightarrow> claim_cols_ok o' \<Longrightarrow> claim_cols_ok (h o')"
    and agr: "\<And>c o'. c \<in> set (ew_commands db) \<Longrightarrow> o' \<in> set (ew_outbox db) \<Longrightarrow> o_key o' = c_key c \<Longrightarrow>
        outbox_agrees c o' \<Longrightarrow> outbox_agrees (g c) (h o')"
  shows "db_inv (db\<lparr>ew_commands := map g (ew_commands db), ew_outbox := map h (ew_outbox db)\<rparr>)"
    (is "db_inv ?db")
proof -
  have old: "keys_ok db" "routing_ok db" "outbox_ok db"
    using inv by (simp_all add: db_inv_def db_inv_at_def)
  have "o_key ` h ` set (ew_outbox db) = o_key ` set (ew_outbox db)"
    "c_key ` g ` set (ew_commands db) = c_key ` set (ew_commands db)"
    by (simp_all add: image_image hk gk)
  then have "outbox_ok ?db"
    using old(3) cols agr unfolding outbox_ok_def by (auto simp: hk gk)
  moreover have "routing_ok ?db"
    using old(2) unfolding routing_ok_def by (auto simp: gk)
  moreover have "keys_ok ?db"
    using old(1) by (simp add: keys_ok_def gk hk comp_def)
  ultimately show ?thesis using inv by (simp add: db_inv_def db_inv_at_def)
qed

lemma inv_outbox_update:
  assumes "db_inv db" "\<And>o'. o_key (f o') = o_key o'"
    and "\<And>o'. o' \<in> set (ew_outbox db) \<Longrightarrow> p o' \<Longrightarrow> claim_cols_ok (f o')"
    and "\<And>c o'. c \<in> set (ew_commands db) \<Longrightarrow> o' \<in> set (ew_outbox db) \<Longrightarrow> p o' \<Longrightarrow>
        o_key o' = c_key c \<Longrightarrow> outbox_agrees c o' \<Longrightarrow> outbox_agrees c (f o')"
  shows "db_inv (db\<lparr>ew_outbox := sql_update p f (ew_outbox db)\<rparr>)"
proof -
  have "db_inv (db\<lparr>ew_commands := map (\<lambda>c. c) (ew_commands db),
      ew_outbox := map (\<lambda>r. if p r then f r else r) (ew_outbox db)\<rparr>)"
    by (rule inv_commands_outbox_map) (use assms in auto)
  then show ?thesis by (simp add: sql_update_def)
qed

section \<open>Preservation by the operations\<close>

lemma finish_catch_up_inv:
  assumes "db_inv db"
    and "\<And>b. b \<in> set (ew_bindings db) \<Longrightarrow> b_key b = (ns, exec) \<Longrightarrow> version \<le> b_catch_up_version b"
  shows "db_inv (finish_catch_up ns now exec version db)"
  unfolding finish_catch_up_def by (rule inv_binding_update) (use assms in auto)

lemma scan_error_inv: "db_inv db \<Longrightarrow> db_inv (scan_error ns now exec err db)"
  unfolding scan_error_def by (rule inv_binding_update) auto

lemma bump_catch_up_inv: "db_inv db \<Longrightarrow> db_inv (bump_catch_up ns now exec db)"
  unfolding bump_catch_up_def by (rule inv_binding_update) auto

lemma insert_binding_inv:
  assumes inv: "db_inv db" and new: "\<forall>b \<in> set (ew_bindings db). b_key b \<noteq> b_key r"
    and zero: "b_last_sequence r = 0" "b_catch_up_version r = 0" "b_caught_up_version r = 0"
  shows "db_inv (db\<lparr>ew_bindings := ew_bindings db @ [r]\<rparr>)" (is "db_inv ?db")
proof -
  have none: "find (\<lambda>b. b_key b = b_key r) (ew_bindings db) = None"
    using new by (auto simp: find_None_iff)
  have cur: "cursor ?db = cursor db"
    using none by (auto simp: cursor_def fun_eq_iff find_append zero split: option.split)
  have "cursor db (b_key r) = 0" using none by (simp add: cursor_def)
  then have "cursor_ok (cursor db) ?db"
    using inv by (auto simp: db_inv_def db_inv_at_def cursor_ok_def)
  moreover have "keys_ok ?db"
    using inv new by (auto simp: db_inv_def db_inv_at_def keys_ok_def distinct_append_key simp del: map_append)
  moreover have "catch_up_ok ?db"
    using inv zero by (auto simp: db_inv_def db_inv_at_def catch_up_ok_def)
  ultimately show ?thesis using inv by (simp add: db_inv_def db_inv_at_def cur)
qed

lemma register_inv:
  assumes "db_inv db"
  shows "db_inv (snd (register ns now exec sess task actor db))"
proof (cases "sess = [] \<or> task = [] \<or> actor = []")
  case False
  show ?thesis
    unfolding register_def if_not_P [OF False]
  proof (rule transaction_inv [where I = db_inv], goal_cases)
    case (2 x s')
    then show ?case
      using assms
      by (auto intro!: insert_binding_inv simp: Let_def insert_or_nothing_def list_ex_iff b_key_def
          split: option.splits if_splits)
  qed (rule assms)
qed (simp add: register_def assms)

lemma insert_inbox_inv:
  assumes inv: "db_inv db" and pos: "0 < event_sequence e"
    and new: "\<forall>i \<in> set (ew_inbox db). i_key i \<noteq> i_key (new_inbox_row ns now e)
               \<and> i_seq_key i \<noteq> i_seq_key (new_inbox_row ns now e)"
  shows "db_inv (db\<lparr>ew_inbox := ew_inbox db @ [new_inbox_row ns now e]\<rparr>)" (is "db_inv ?db")
proof -
  have st: "i_state (new_inbox_row ns now e) = Inb_RECEIVED" by (simp add: new_inbox_row_def)
  have "keys_ok ?db"
    using inv new by (auto simp: db_inv_def db_inv_at_def keys_ok_def distinct_append_key simp del: map_append)
  moreover have "rows_ok ?db"
    using inv pos by (auto simp: db_inv_def db_inv_at_def rows_ok_def new_inbox_row_def)
  moreover have "routing_ok ?db"
    using inv st unfolding db_inv_def db_inv_at_def routing_ok_def by auto
  moreover have "cursor_ok (cursor db) ?db"
    using inv st unfolding db_inv_def db_inv_at_def cursor_ok_def by auto
  ultimately show ?thesis using inv by (simp add: db_inv_def db_inv_at_def)
qed

lemma ingest_inv: "db_inv db \<Longrightarrow> db_inv (snd (ingest ns now e catch_up db))"
  unfolding ingest_def
  by (rule transaction_inv)
    (auto intro!: bump_catch_up_inv insert_inbox_inv
      simp: Let_def insert_or_nothing_def list_ex_iff split: option.splits if_splits)

text \<open>
  What a claim picks: the command of a picked outbox row is \<open>READY\<close>, and no earlier command of
  its execution is unfinished.
\<close>

lemma picked_outbox_ready:
  assumes keys: "keys_ok db" and pick: "o_command_id o' \<in> set (picked_outbox ns now limit locked db)"
    and ns: "o_namespace o' = ns" and c: "c \<in> set (ew_commands db)" "c_key c = o_key o'"
  shows "c_state c = Cmd_READY \<and> \<not> earlier_open db c"
proof -
  from pick obtain x where x: "claimable ns now db x" "o_command_id x = o_command_id o'"
    by (auto simp: picked_outbox_def dest!: in_take_sort)
  then have "o_key x = o_key o'" using ns by (simp add: claimable_def o_key_def)
  with x(1) obtain c' where c': "c' \<in> set (ew_commands db)" "c_key c' = c_key c"
    "c_state c' = Cmd_READY" "\<not> earlier_open db c'"
    using c(2) by (auto simp: claimable_def list_ex_iff)
  then have "c' = c" using keys c(1) key_unique [of c_key] by (auto simp: keys_ok_def)
  with c' show ?thesis by simp
qed

lemma claim_outbox_inv:
  assumes "db_inv db"
  shows "db_inv (snd (claim_outbox ns now token limit lease locked db))"
  unfolding claim_outbox_def Let_def snd_conv
proof (rule inv_outbox_update [OF assms], goal_cases)
  case (3 c o')
  have "keys_ok db" using assms by (simp add: db_inv_def db_inv_at_def)
  from picked_outbox_ready [OF this, of o'] 3 have "c_state c = Cmd_READY" by auto
  with 3 show ?case by (simp add: outbox_agrees_def settled_def)
qed (simp_all add: claim_cols_ok_def)

lemma finish_publications_inv:
  assumes "db_inv db"
  shows "db_inv (finish_publications ns now token ids sent db)"
proof (cases "ids = []")
  case False
  have cols: "\<forall>o' \<in> set (ew_outbox db). claim_cols_ok o'"
    using assms by (simp add: db_inv_def db_inv_at_def outbox_ok_def)
  show ?thesis
    unfolding finish_publications_def if_not_P [OF False]
  proof (rule inv_outbox_update [OF assms], goal_cases)
    case (3 c o')
    with cols have "o_state o' = Out_CLAIMED" by (auto simp: claim_cols_ok_def)
    with 3 show ?case by (auto simp: outbox_agrees_def)
  qed (auto simp: claim_cols_ok_def)
qed (simp add: finish_publications_def assms)

lemma set_state_inv:
  assumes inv: "db_inv db" and st: "st \<noteq> Cmd_READY"
  shows "db_inv (set_state ns now cid st err fa db)"
proof -
  let ?g = "\<lambda>c. if c_key c = (ns, cid) then c\<lparr>c_state := st,
      c_last_error := (case err of None \<Rightarrow> None | Some m \<Rightarrow> if m = [] then None else Some (take 2000 m)),
      c_failure_attempts := c_failure_attempts c + (if fa then 1 else 0),
      c_audit := touch_audit now ''worker'' (c_audit c)\<rparr> else c"
  let ?h = "\<lambda>o'. if settled st \<and> o_key o' = (ns, cid) then o'\<lparr>o_state := Out_SENT, o_claim_token := None,
      o_claim_until := None, o_audit := touch_audit now ''worker'' (o_audit o')\<rparr> else o'"
  have "db_inv (db\<lparr>ew_commands := map ?g (ew_commands db), ew_outbox := map ?h (ew_outbox db)\<rparr>)"
    by (rule inv_commands_outbox_map [OF inv])
      (use st in \<open>auto simp: claim_cols_ok_def outbox_agrees_def\<close>)
  moreover have "set_state ns now cid st err fa db =
      db\<lparr>ew_commands := map ?g (ew_commands db), ew_outbox := map ?h (ew_outbox db)\<rparr>"
    by (cases st) (simp_all add: set_state_def release_outbox_def settled_def sql_update_def Let_def)
  ultimately show ?thesis by simp
qed

lemma resolve_rows_inv:
  assumes inv: "db_inv db"
    and c0: "c0 \<in> set (ew_commands db)" "c_key c0 = (ns, cid)" "c_state c0 = Cmd_FAILED"
  shows "db_inv (resolve_rows ns now cid retry actor (c_generation c0 + 1) db)"
proof -
  have "distinct (map c_key (ew_commands db))"
    using inv by (simp add: db_inv_def db_inv_at_def keys_ok_def)
  then have uniq: "c = c0" if "c \<in> set (ew_commands db)" "c_key c = (ns, cid)" for c
    using key_unique [of c_key _ c c0] that c0 by simp
  let ?g = "\<lambda>c. if c_key c = (ns, cid) \<and> c_state c = Cmd_FAILED then
      c\<lparr>c_state := (if retry then Cmd_READY else Cmd_IGNORED),
        c_generation := c_generation c + 1, c_failure_attempts := 0,
        c_last_error := None, c_audit := touch_audit now actor (c_audit c)\<rparr> else c"
  let ?h = "\<lambda>o'. if retry \<and> o_key o' = (ns, cid) then
      o'\<lparr>o_generation := c_generation c0 + 1, o_state := Out_PENDING, o_claim_token := None,
         o_claim_until := None, o_audit := touch_audit now actor (o_audit o')\<rparr> else o'"
  have "db_inv (db\<lparr>ew_commands := map ?g (ew_commands db), ew_outbox := map ?h (ew_outbox db)\<rparr>)"
  proof (rule inv_commands_outbox_map [OF inv], goal_cases)
    case (7 c o')
    then show ?case
      by (cases "c_key c = (ns, cid)")
        (use c0 uniq [of c] in \<open>simp_all add: outbox_agrees_def settled_def\<close>)
  qed (simp_all add: claim_cols_ok_def)
  then show ?thesis by (cases retry) (simp_all add: resolve_rows_def sql_update_def Let_def cong: if_cong)
qed

lemma db_inv_audit [simp]: "db_inv (db\<lparr>ew_audit := y\<rparr>) = db_inv db"
  by (simp add: db_inv_def db_inv_at_def)

lemma resolve_failed_inv:
  assumes "db_inv db"
  shows "db_inv (snd (resolve_failed ns now cid retry actor why db))"
proof (cases "py_strip actor = [] \<or> py_strip why = []")
  case False
  show ?thesis
    unfolding resolve_failed_def if_not_P [OF False]
    by (rule transaction_inv [where I = db_inv])
      (auto simp: Let_def assms intro!: resolve_rows_inv dest!: find_SomeD split: option.splits)
qed (simp add: resolve_failed_def assms)

section \<open>Preservation by \<open>advance\<close>\<close>

lemma new_rows_simps [simp]:
  "c_event_key (new_command uuid5 ns now exec e) = (ns, event_id e)"
  "c_key (new_command uuid5 ns now exec e) = (ns, uuid5 (command_name ns e))"
  "c_execution_id (new_command uuid5 ns now exec e) = exec"
  "c_sequence (new_command uuid5 ns now exec e) = event_sequence e"
  "c_state (new_command uuid5 ns now exec e) = Cmd_READY"
  "o_key (new_outbox uuid5 ns now e) = (ns, uuid5 (command_name ns e))"
  "claim_cols_ok (new_outbox uuid5 ns now e)"
  "outbox_agrees (new_command uuid5 ns now exec e) (new_outbox uuid5 ns now e)"
  by (simp_all add: new_command_def new_outbox_def c_event_key_def c_key_def o_key_def
      claim_cols_ok_def outbox_agrees_def settled_def)

lemma insert_command_Inr:
  "insert_command uuid5 ns now exec e db = Inr db' \<longleftrightarrow>
     (\<forall>c \<in> set (ew_commands db). c_key c \<noteq> (ns, uuid5 (command_name ns e)) \<and> c_event_key c \<noteq> (ns, event_id e))
     \<and> (\<forall>o' \<in> set (ew_outbox db). o_key o' \<noteq> (ns, uuid5 (command_name ns e)))
     \<and> db' = db\<lparr>ew_commands := ew_commands db @ [new_command uuid5 ns now exec e],
                ew_outbox := ew_outbox db @ [new_outbox uuid5 ns now e]\<rparr>"
  by (auto simp: insert_command_def Let_def insert_or_raise_def list_ex_iff split: if_splits)

lemma insert_command_keys:
  assumes "insert_command uuid5 ns now exec e db = Inr db1" "keys_ok db"
  shows "keys_ok db1"
  using assms by (auto simp: insert_command_Inr keys_ok_def distinct_append_key simp del: map_append)

lemma insert_command_outbox:
  assumes "insert_command uuid5 ns now exec e db = Inr db1" "outbox_ok db"
  shows "outbox_ok db1"
  using assms unfolding insert_command_Inr outbox_ok_def by force

text \<open>The row of the event an iteration routes: it was received, and only its state changes.\<close>

definition inbox_event :: "worker_db \<Rightarrow> string \<Rightarrow> uuid \<Rightarrow> executor_event \<Rightarrow> bool" where
  "inbox_event db ns exec e = (\<exists>i \<in> set (ew_inbox db). i_namespace i = ns \<and> i_execution_id i = exec \<and> i_event i = e)"

definition mark_row :: "string \<Rightarrow> usec \<Rightarrow> uuid \<Rightarrow> inbox_state \<Rightarrow> inbox_row \<Rightarrow> inbox_row" where
  "mark_row ns now eid st i = (if i_key i = (ns, eid)
     then i\<lparr>i_state := st, i_audit := touch_audit now ''worker'' (i_audit i)\<rparr> else i)"

lemma mark_row_simps [simp]:
  "i_key (mark_row ns now eid st i) = i_key i" "i_seq_key (mark_row ns now eid st i) = i_seq_key i"
  "i_namespace (mark_row ns now eid st i) = i_namespace i" "i_event_id (mark_row ns now eid st i) = i_event_id i"
  "i_execution_id (mark_row ns now eid st i) = i_execution_id i"
  "i_sequence (mark_row ns now eid st i) = i_sequence i" "i_event (mark_row ns now eid st i) = i_event i"
  "i_state (mark_row ns now eid st i) = (if i_key i = (ns, eid) then st else i_state i)"
  by (simp_all add: mark_row_def)

lemma mark_inbox_rows:
  "set (ew_inbox (mark_inbox ns now eid st db)) = mark_row ns now eid st ` set (ew_inbox db)"
  by (simp add: mark_inbox_def sql_update_def mark_row_def)

lemma mark_inbox_frame [simp]:
  "ew_bindings (mark_inbox ns now eid st db) = ew_bindings db"
  "ew_commands (mark_inbox ns now eid st db) = ew_commands db"
  "ew_outbox (mark_inbox ns now eid st db) = ew_outbox db"
  "keys_ok (mark_inbox ns now eid st db) = keys_ok db"
  "outbox_ok (mark_inbox ns now eid st db) = outbox_ok db"
  "catch_up_ok (mark_inbox ns now eid st db) = catch_up_ok db"
  by (simp_all add: mark_inbox_def) (simp add: keys_ok_def map_sql_update_key)

lemma marked_row:
  assumes "j \<in> set (ew_inbox db)" "i_state j \<noteq> Inb_RECEIVED \<or> i_key j = (ns, eid)" "st \<noteq> Inb_RECEIVED"
  shows "\<exists>j' \<in> set (ew_inbox (mark_inbox ns now eid st db)).
    i_seq_key j' = i_seq_key j \<and> i_state j' \<noteq> Inb_RECEIVED"
  using assms
  by (intro bexI [of _ "mark_row ns now eid st j"]) (auto simp: mark_inbox_rows)

lemma cursor_ok_routed:
  "cursor_ok cur db \<Longrightarrow> k \<in> b_key ` set (ew_bindings db) \<Longrightarrow> 1 \<le> s \<Longrightarrow> s \<le> cur k \<Longrightarrow>
    \<exists>j \<in> set (ew_inbox db). i_seq_key j = (fst k, snd k, s) \<and> i_state j \<noteq> Inb_RECEIVED"
  unfolding cursor_ok_def by (meson atLeastAtMost_iff)

lemma cursor_ok_row:
  "cursor_ok cur db \<Longrightarrow> i \<in> set (ew_inbox db) \<Longrightarrow> i_state i \<noteq> Inb_RECEIVED \<Longrightarrow>
    (i_namespace i, i_execution_id i) \<in> b_key ` set (ew_bindings db)
    \<and> i_sequence i \<le> cur (i_namespace i, i_execution_id i)"
  unfolding cursor_ok_def by blast

lemma mark_inbox_cursor_ok:
  assumes cur: "cursor_ok cur db" and st: "st \<noteq> Inb_RECEIVED" and keys: "keys_ok db"
    and i: "i \<in> set (ew_inbox db)" "i_key i = (ns, eid)" "i_execution_id i = exec"
      "i_sequence i = cur (ns, exec) + 1"
    and b: "(ns, exec) \<in> b_key ` set (ew_bindings db)"
  shows "cursor_ok (cur((ns, exec) := i_sequence i)) (mark_inbox ns now eid st db)"
    (is "cursor_ok ?cur ?m")
proof -
  have ns: "i_namespace i = ns" using i(2) by (simp add: i_key_def)
  have "0 \<le> ?cur k \<and> (\<forall>s \<in> {1..?cur k}. \<exists>j \<in> set (ew_inbox ?m).
      i_seq_key j = (fst k, snd k, s) \<and> i_state j \<noteq> Inb_RECEIVED)"
    if k: "k \<in> b_key ` set (ew_bindings db)" for k
  proof (intro conjI ballI)
    show "0 \<le> ?cur k" using cur k b i(4) by (auto simp: cursor_ok_def)
    fix s assume s: "s \<in> {1..?cur k}"
    show "\<exists>j \<in> set (ew_inbox ?m). i_seq_key j = (fst k, snd k, s) \<and> i_state j \<noteq> Inb_RECEIVED"
    proof (cases "s \<le> cur k")
      case True
      then obtain j where "j \<in> set (ew_inbox db)" "i_seq_key j = (fst k, snd k, s)"
        "i_state j \<noteq> Inb_RECEIVED" using cursor_ok_routed [OF cur k] s by fastforce
      with marked_row [OF this(1) _ st] show ?thesis by metis
    next
      case False
      with s i(4) have "k = (ns, exec)" "s = i_sequence i" by (auto split: if_splits)
      with marked_row [OF i(1) _ st, of ns eid now] i ns show ?thesis by (auto simp: i_seq_key_def)
    qed
  qed
  moreover have "(i_namespace j, i_execution_id j) \<in> b_key ` set (ew_bindings db)
      \<and> i_sequence j \<le> ?cur (i_namespace j, i_execution_id j)"
    if j: "j \<in> set (ew_inbox ?m)" "i_state j \<noteq> Inb_RECEIVED" for j
  proof -
    have same: "x = i" if "x \<in> set (ew_inbox db)" "i_key x = (ns, eid)" for x
      using keys key_unique [of i_key "ew_inbox db" x i] that i by (simp add: keys_ok_def)
    from j(1) obtain x where x: "x \<in> set (ew_inbox db)" "j = mark_row ns now eid st x"
      by (auto simp: mark_inbox_rows)
    show ?thesis
    proof (cases "i_key x = (ns, eid)")
      case True
      with same [OF x(1)] x(2) b ns i(3) show ?thesis by simp
    next
      case False
      with x j(2) cur i(4) show ?thesis by (auto simp: cursor_ok_def)
    qed
  qed
  ultimately show ?thesis unfolding cursor_ok_def by simp
qed

lemma insert_command_frame:
  assumes "insert_command uuid5 ns now exec e db = Inr db1"
  shows "ew_bindings db1 = ew_bindings db" "ew_inbox db1 = ew_inbox db"
  using assms by (simp_all add: insert_command_Inr)

lemma route_event_Inr:
  "route_event uuid5 ns now exec types e db = Inr db' \<longleftrightarrow>
     (\<exists>db1. (if event_type e \<in> types then insert_command uuid5 ns now exec e db = Inr db1 else db1 = db)
       \<and> db' = mark_inbox ns now (event_id e) (if event_type e \<in> types then Inb_ROUTED else Inb_IGNORED) db1)"
  by (auto simp: route_event_def Let_def rbind_eq_Inr)

text \<open>Routing keeps the correspondence of routed events and commands.\<close>

lemma route_event_routing_ok:
  assumes old: "routing_ok db" and keys: "keys_ok db"
    and i: "i \<in> set (ew_inbox db)" "i_key i = (ns, event_id e)" "i_execution_id i = exec"
      "i_sequence i = event_sequence e" "i_state i = Inb_RECEIVED"
    and step: "route_event uuid5 ns now exec types e db = Inr db'"
  shows "routing_ok db'"
proof -
  let ?st = "if event_type e \<in> types then Inb_ROUTED else Inb_IGNORED"
  let ?u = "mark_row ns now (event_id e) ?st"
  obtain db1 where db1: "if event_type e \<in> types then insert_command uuid5 ns now exec e db = Inr db1 else db1 = db"
    and db': "db' = mark_inbox ns now (event_id e) ?st db1"
    using step unfolding route_event_Inr by blast
  have inbox: "ew_inbox db1 = ew_inbox db"
    using db1 insert_command_frame by (auto split: if_splits)
  have rows: "set (ew_inbox db') = ?u ` set (ew_inbox db)"
    using inbox by (simp add: db' mark_inbox_rows)
  have cmds: "set (ew_commands db') = set (ew_commands db) \<union>
      (if event_type e \<in> types then {new_command uuid5 ns now exec e} else {})"
    using db1 by (auto simp: db' insert_command_Inr split: if_splits)
  have same: "j = i" if "j \<in> set (ew_inbox db)" "i_key j = (ns, event_id e)" for j
    using keys key_unique [of i_key "ew_inbox db" j i] that i by (simp add: keys_ok_def)
  have keep: "?u j = j" if "j \<in> set (ew_inbox db)" "i_state j = Inb_ROUTED" for j
    using same [OF that(1)] that(2) i(5) by (auto simp: mark_row_def)
  have "\<exists>j \<in> set (ew_inbox db'). i_key j = c_event_key c \<and> i_execution_id j = c_execution_id c
      \<and> i_sequence j = c_sequence c \<and> i_state j = Inb_ROUTED" if "c \<in> set (ew_commands db')" for c
  proof (cases "c \<in> set (ew_commands db)")
    case True
    with old obtain j where "j \<in> set (ew_inbox db)" "i_key j = c_event_key c"
      "i_execution_id j = c_execution_id c" "i_sequence j = c_sequence c" "i_state j = Inb_ROUTED"
      by (auto simp: routing_ok_def)
    with keep [of j] show ?thesis unfolding rows by (metis image_eqI)
  next
    case False
    with that cmds have "event_type e \<in> types" "c = new_command uuid5 ns now exec e"
      by (auto split: if_splits)
    with i show ?thesis unfolding rows by (intro bexI [of _ "?u i"]) auto
  qed
  moreover have "\<exists>c \<in> set (ew_commands db'). c_event_key c = i_key j"
    if "j \<in> set (ew_inbox db')" "i_state j = Inb_ROUTED" for j
    using that old i(2) unfolding rows cmds routing_ok_def by (auto split: if_splits)
  ultimately show ?thesis by (simp add: routing_ok_def)
qed

lemma route_event_inv:
  assumes inv: "db_inv_at cur db" and b: "(ns, exec) \<in> b_key ` set (ew_bindings db)"
    and e: "inbox_event db ns exec e" "event_sequence e = cur (ns, exec) + 1"
    and step: "route_event uuid5 ns now exec types e db = Inr db'"
  shows "db_inv_at (cur((ns, exec) := event_sequence e)) db'"
proof -
  have old: "keys_ok db" "rows_ok db" "routing_ok db" "outbox_ok db" "cursor_ok cur db" "catch_up_ok db"
    using inv by (simp_all add: db_inv_at_def)
  obtain i where i: "i \<in> set (ew_inbox db)" "i_namespace i = ns" "i_execution_id i = exec" "i_event i = e"
    using e(1) by (auto simp: inbox_event_def)
  with old(2) e(2) have i': "i_key i = (ns, event_id e)" "i_sequence i = event_sequence e"
    "i_sequence i = cur (ns, exec) + 1" by (auto simp: rows_ok_def i_key_def)
  with old(5) i have "i_state i = Inb_RECEIVED" by (fastforce simp: cursor_ok_def)
  with route_event_routing_ok [OF old(3,1) i(1) i'(1) i(3) i'(2) _ step] have "routing_ok db'" by simp
  let ?st = "if event_type e \<in> types then Inb_ROUTED else Inb_IGNORED"
  obtain db1 where db1: "if event_type e \<in> types then insert_command uuid5 ns now exec e db = Inr db1 else db1 = db"
    and db': "db' = mark_inbox ns now (event_id e) ?st db1"
    using step unfolding route_event_Inr by blast
  have frame: "ew_inbox db1 = ew_inbox db" "ew_bindings db1 = ew_bindings db" "keys_ok db1" "outbox_ok db1"
    using db1 old insert_command_frame insert_command_keys insert_command_outbox by (auto split: if_splits)
  have cur1: "cursor_ok cur db1" and up1: "catch_up_ok db1" and rows1: "rows_ok db1"
    using old(5) old(6) old(2) frame(1,2) unfolding cursor_ok_def catch_up_ok_def rows_ok_def by metis+
  have "cursor_ok (cur((ns, exec) := event_sequence e)) db'"
    using mark_inbox_cursor_ok [OF cur1, of ?st i ns "event_id e" exec now] frame i i' b by (simp add: db')
  moreover have "rows_ok db'"
    using rows1 unfolding rows_ok_def db' by (auto simp: mark_inbox_rows)
  ultimately show ?thesis
    using \<open>routing_ok db'\<close> frame up1 by (simp add: db_inv_at_def db')
qed

lemma route_event_frame:
  assumes "route_event uuid5 ns now exec types e db = Inr db'"
  shows "ew_bindings db' = ew_bindings db" "inbox_event db' ns' exec' e' = inbox_event db ns' exec' e'"
proof -
  obtain db1 st where db1: "ew_inbox db1 = ew_inbox db" "ew_bindings db1 = ew_bindings db"
    and db': "db' = mark_inbox ns now (event_id e) st db1"
    using assms insert_command_frame unfolding route_event_Inr by (metis (full_types))
  then show "ew_bindings db' = ew_bindings db" by simp
  show "inbox_event db' ns' exec' e' = inbox_event db ns' exec' e'"
    unfolding inbox_event_def db' by (simp add: mark_inbox_rows db1)
qed

lemma advance_loop_inv:
  assumes "advance_loop uuid5 ns now exec types es sequence n db = Inr (sequence', n', gap, db')"
    and "db_inv_at cur db" "(ns, exec) \<in> b_key ` set (ew_bindings db)" "cur (ns, exec) = sequence"
    and "\<forall>e \<in> set es. inbox_event db ns exec e"
  shows "db_inv_at (cur((ns, exec) := sequence')) db' \<and> ew_bindings db' = ew_bindings db"
  using assms
proof (induction es arbitrary: sequence n db cur)
  case (Cons e es)
  show ?case
  proof (cases "event_sequence e = sequence + 1")
    case True
    with Cons.prems(1) obtain db1 where step: "route_event uuid5 ns now exec types e db = Inr db1"
      and loop: "advance_loop uuid5 ns now exec types es (event_sequence e) (Suc n) db1 =
        Inr (sequence', n', gap, db')" by (auto simp: rbind_eq_Inr)
    note frame = route_event_frame [OF step]
    have "db_inv_at (cur((ns, exec) := event_sequence e)) db1"
      using route_event_inv [OF Cons.prems(2,3) _ _ step] Cons.prems(4,5) True by simp
    from Cons.IH [OF loop this] Cons.prems(3,5) frame
    show ?thesis unfolding fun_upd_upd by (simp add: fun_upd_same)
  qed (use Cons.prems in \<open>auto simp: fun_upd_idem\<close>)
qed (auto simp: fun_upd_idem)

lemma set_cursor_inv:
  assumes inv: "db_inv_at ((cursor db0)((ns, exec) := sequence)) db"
    and b: "ew_bindings db = ew_bindings db0" "(ns, exec) \<in> b_key ` set (ew_bindings db0)"
  shows "db_inv (set_cursor ns now exec sequence db)"
proof -
  let ?db = "set_cursor ns now exec sequence db"
  have "find (\<lambda>b. b_key b = (ns, exec)) (ew_bindings db0) \<noteq> None"
    using b(2) by (auto simp: find_None_iff)
  then have "cursor ?db k = ((cursor db0)((ns, exec) := sequence)) k" for k
    by (auto simp: cursor_def set_cursor_def find_sql_update b(1) dest: find_SomeD split: option.split)
  then have cur: "cursor ?db = (cursor db0)((ns, exec) := sequence)" by (rule ext)
  have "catch_up_ok db" using inv by (simp add: db_inv_at_def)
  then have "catch_up_ok ?db" by (auto simp: catch_up_ok_def set_cursor_def in_sql_update)
  moreover have "cursor_ok ((cursor db0)((ns, exec) := sequence)) ?db"
    using inv by (simp add: db_inv_at_def set_cursor_def cursor_ok_def key_image_sql_update)
  moreover have "keys_ok ?db" "rows_ok ?db" "routing_ok ?db" "outbox_ok ?db"
    using inv by (simp_all add: db_inv_at_def set_cursor_def keys_ok_def map_sql_update_key)
  ultimately show ?thesis by (simp only: db_inv_def db_inv_at_def cur)
qed

lemma pending_inbox_event: "e \<in> set (pending_inbox ns exec sequence limit db) \<Longrightarrow> inbox_event db ns exec e"
  by (auto simp: pending_inbox_def inbox_event_def dest!: in_take_sort)

lemma advance_inv:
  assumes inv: "db_inv db"
  shows "db_inv (snd (advance uuid5 ns now exec types limit db))"
  unfolding advance_def
proof (rule transaction_inv [where I = db_inv, OF _ _], goal_cases)
  case (2 x s')
  show ?case
  proof (cases "find (\<lambda>b. b_key b = (ns, exec)) (ew_bindings db)")
    case (Some b)
    with 2 obtain sequence n gap db1 where loop: "advance_loop uuid5 ns now exec types
        (pending_inbox ns exec (b_last_sequence b) limit db) (b_last_sequence b) 0 db = Inr (sequence, n, gap, db1)"
      and s': "s' = set_cursor ns now exec sequence db1"
      by (auto split: sum.splits prod.splits)
    have b: "(ns, exec) \<in> b_key ` set (ew_bindings db)" "cursor db (ns, exec) = b_last_sequence b"
      using find_SomeD [OF Some] Some by (metis image_eqI, simp add: cursor_def)
    have "db_inv_at (cursor db) db" using inv by (simp add: db_inv_def)
    from advance_loop_inv [OF loop this b] pending_inbox_event
    have "db_inv_at ((cursor db)((ns, exec) := sequence)) db1" "ew_bindings db1 = ew_bindings db" by auto
    then show ?thesis unfolding s' using b(1) by (rule set_cursor_inv)
  qed (use 2 inv in simp)
qed (rule inv)

end
