(* ===== verification/Transitions.thy ===== *)
theory Transitions
  imports Main
begin

text \<open>
  State machines as step relations. \<open>reachable\<close> is the least set that holds the initial states
  and is closed under steps; the locale \<open>invariant_system\<close> is the contract of an inductive
  invariant, and \<open>growth_system\<close> that of what no step takes back. The components interpret
  them on their own step relations.
\<close>

inductive reachable :: "('s \<Rightarrow> bool) \<Rightarrow> ('s \<Rightarrow> 's \<Rightarrow> bool) \<Rightarrow> 's \<Rightarrow> bool"
  for init :: "'s \<Rightarrow> bool" and step :: "'s \<Rightarrow> 's \<Rightarrow> bool" where
  reach_init: "init s \<Longrightarrow> reachable init step s"
| reach_step: "reachable init step s \<Longrightarrow> step s t \<Longrightarrow> reachable init step t"

lemma reachable_rtranclp: "step\<^sup>*\<^sup>* s t \<Longrightarrow> reachable init step s \<Longrightarrow> reachable init step t"
  by (induction rule: rtranclp_induct) (auto intro: reach_step)

locale invariant_system =
  fixes init :: "'s \<Rightarrow> bool" and step :: "'s \<Rightarrow> 's \<Rightarrow> bool" and inv :: "'s \<Rightarrow> bool"
  assumes init_inv: "init s \<Longrightarrow> inv s"
    and step_inv: "inv s \<Longrightarrow> step s t \<Longrightarrow> inv t"
begin

lemma reachable_inv: "reachable init step s \<Longrightarrow> inv s"
  by (induction rule: reachable.induct) (auto intro: init_inv step_inv)

lemma steps_inv: "step\<^sup>*\<^sup>* s t \<Longrightarrow> inv s \<Longrightarrow> inv t"
  by (induction rule: rtranclp_induct) (auto intro: step_inv)

end

text \<open>What steps only ever extend: a preorder that every step out of an invariant state respects.\<close>

locale growth_system = invariant_system +
  fixes grows :: "'s \<Rightarrow> 's \<Rightarrow> bool"
  assumes grows_refl: "grows s s"
    and grows_trans: "grows s t \<Longrightarrow> grows t u \<Longrightarrow> grows s u"
    and step_grows: "inv s \<Longrightarrow> step s t \<Longrightarrow> grows s t"
begin

lemma steps_grow: "step\<^sup>*\<^sup>* s t \<Longrightarrow> inv s \<Longrightarrow> grows s t"
proof (induction rule: rtranclp_induct)
  case base
  show ?case by (rule grows_refl)
next
  case (step t u)
  then show ?case using steps_inv [of s t] step_grows [of t u] grows_trans [of s t u] by blast
qed

lemma reachable_grows: "reachable init step s \<Longrightarrow> step\<^sup>*\<^sup>* s t \<Longrightarrow> grows s t"
  by (rule steps_grow) (auto intro: reachable_inv)

end

end
