(* ===== verification/Worker_Store_Props.thy ===== *)
theory Worker_Store_Props
  imports Worker_Store_Inv Transitions
begin

text \<open>
  The worker's store as a state machine: any number of processes run its operations in any
  order, each operation one atomic step. The section after it holds the properties of the store:
  the invariant in every reachable state, the contiguous and exactly-once routing of events, the
  order in which commands are claimed, and the behaviour of the single operations.
\<close>

section \<open>Steps\<close>

inductive store_step :: "(string \<Rightarrow> uuid) \<Rightarrow> worker_db \<Rightarrow> worker_db \<Rightarrow> bool" for uuid5 where
  st_register: "store_step uuid5 db (snd (register ns now exec sess task actor db))"
| st_ingest: "store_step uuid5 db (snd (ingest ns now e catch_up db))"
| st_finish_catch_up:
    "b \<in> set (ew_bindings db) \<Longrightarrow> b_key b = (ns, exec) \<Longrightarrow> version \<le> b_catch_up_version b \<Longrightarrow>
     store_step uuid5 db (finish_catch_up ns now exec version db)"
| st_scan_error: "store_step uuid5 db (scan_error ns now exec err db)"
| st_advance: "store_step uuid5 db (snd (advance uuid5 ns now exec types limit db))"
| st_claim: "store_step uuid5 db (snd (claim_outbox ns now token limit lease locked db))"
| st_finish: "store_step uuid5 db (finish_publications ns now token ids sent db)"
| st_set_state: "st \<noteq> Cmd_READY \<Longrightarrow> store_step uuid5 db (set_state ns now cid st err fa db)"
| st_resolve: "store_step uuid5 db (snd (resolve_failed ns now cid retry actor why db))"

abbreviation reachable_db :: "(string \<Rightarrow> uuid) \<Rightarrow> worker_db \<Rightarrow> bool" where
  "reachable_db uuid5 \<equiv> reachable (\<lambda>db. db = empty_db) (store_step uuid5)"

text \<open>The command of an event is named after the event.\<close>

definition ids_ok :: "(string \<Rightarrow> uuid) \<Rightarrow> worker_db \<Rightarrow> bool" where
  "ids_ok uuid5 db = (\<forall>c \<in> set (ew_commands db).
     c_command_id c = uuid5 (c_namespace c @ ''/event/'' @ uuid_str (c_event_id c)))"

text \<open>The contiguous run of events that starts right after a sequence number.\<close>

fun run_length :: "int \<Rightarrow> executor_event list \<Rightarrow> nat" where
  "run_length s [] = 0"
| "run_length s (e # es) = (if event_sequence e = s + 1 then Suc (run_length (s + 1) es) else 0)"

text \<open>\<open>uuid5\<close> gives different command names to different inbox events.\<close>

definition collision_free :: "(string \<Rightarrow> uuid) \<Rightarrow> worker_db \<Rightarrow> bool" where
  "collision_free uuid5 db =
     inj_on (\<lambda>i. uuid5 (i_namespace i @ ''/event/'' @ uuid_str (i_event_id i))) (set (ew_inbox db))"

section \<open>The invariant in every reachable state\<close>

lemma finish_catch_up_step_inv:
  assumes "db_inv db" "b \<in> set (ew_bindings db)" "b_key b = (ns, exec)" "version \<le> b_catch_up_version b"
  shows "db_inv (finish_catch_up ns now exec version db)"
proof (rule finish_catch_up_inv [OF assms(1)])
  fix b' assume "b' \<in> set (ew_bindings db)" "b_key b' = (ns, exec)"
  moreover have "distinct (map b_key (ew_bindings db))"
    using assms(1) by (simp add: db_inv_def db_inv_at_def keys_ok_def)
  ultimately have "b' = b" using assms(2,3) key_unique by metis
  with assms(4) show "version \<le> b_catch_up_version b'" by simp
qed

lemma store_step_db_inv:
  assumes "store_step uuid5 db db'" "db_inv db"
  shows "db_inv db'"
  using assms
  by (induction rule: store_step.induct)
    (auto intro: register_inv ingest_inv scan_error_inv advance_inv claim_outbox_inv
      finish_publications_inv set_state_inv resolve_failed_inv finish_catch_up_step_inv)

text \<open>Commands keep their keys, and a new one is named after its event.\<close>

lemma ids_ok_keys:
  assumes "ids_ok uuid5 db"
    and "map c_key (ew_commands db') = map c_key (ew_commands db)"
      "map c_event_key (ew_commands db') = map c_event_key (ew_commands db)"
  shows "ids_ok uuid5 db'"
proof -
  have "\<exists>c \<in> set (ew_commands db). c_key c = c_key c' \<and> c_event_key c = c_event_key c'"
    if c': "c' \<in> set (ew_commands db')" for c'
  proof -
    obtain n where n: "n < length (ew_commands db')" "c' = ew_commands db' ! n"
      using c' by (metis in_set_conv_nth)
    have len: "length (ew_commands db') = length (ew_commands db)"
      using assms(2) by (rule map_eq_imp_length_eq)
    then show ?thesis
      using n arg_cong [OF assms(2), of "\<lambda>xs. xs ! n"] arg_cong [OF assms(3), of "\<lambda>xs. xs ! n"]
      by (intro bexI [of _ "ew_commands db ! n"]) simp_all
  qed
  with assms(1) show ?thesis
    by (fastforce simp: ids_ok_def c_key_def c_event_key_def)
qed

lemma route_event_ids:
  assumes "route_event uuid5 ns now exec types e db = Inr db'" "ids_ok uuid5 db"
  shows "ids_ok uuid5 db'"
  using assms
  by (auto simp: route_event_Inr ids_ok_def insert_command_Inr new_command_def command_name_def
      split: if_splits)

lemma advance_loop_ids:
  "advance_loop uuid5 ns now exec types es s n db = Inr (s', n', gap, db') \<Longrightarrow> ids_ok uuid5 db \<Longrightarrow> ids_ok uuid5 db'"
  by (induction es arbitrary: s n db) (auto simp: rbind_eq_Inr dest: route_event_ids split: if_splits)

lemma set_cursor_ids [simp]: "ids_ok uuid5 (set_cursor ns now exec s db) = ids_ok uuid5 db"
  by (simp add: ids_ok_def set_cursor_def)

lemma advance_ids: "ids_ok uuid5 db \<Longrightarrow> ids_ok uuid5 (snd (advance uuid5 ns now exec types limit db))"
  unfolding advance_def
  by (rule transaction_inv)
    (auto dest: advance_loop_ids split: option.splits sum.splits prod.splits)

lemma transaction_keeps:
  assumes "\<And>x s'. body s = (Inr x, s') \<Longrightarrow> g s' = g s"
  shows "g (snd (transaction body s)) = g s"
  using assms by (cases "body s") (auto simp: transaction_def split: sum.splits)

lemma store_step_commands:
  "ew_commands (snd (register ns now exec sess task actor db)) = ew_commands db"
  "ew_commands (snd (ingest ns now e catch_up db)) = ew_commands db"
  "map c_key (ew_commands (snd (resolve_failed ns now cid retry actor why db))) = map c_key (ew_commands db)"
  "map c_event_key (ew_commands (snd (resolve_failed ns now cid retry actor why db))) = map c_event_key (ew_commands db)"
  by (auto simp: register_def ingest_def resolve_failed_def Let_def bump_catch_up_def resolve_rows_def
      map_sql_update_key intro!: transaction_keeps split: option.splits if_splits)

lemma store_step_ids:
  assumes "store_step uuid5 db db'" "ids_ok uuid5 db"
  shows "ids_ok uuid5 db'"
  using assms
proof (induction rule: store_step.induct)
  case (st_advance db ns now exec types limit)
  then show ?case by (simp add: advance_ids)
qed (auto elim!: ids_ok_keys simp: store_step_commands finish_catch_up_def scan_error_def claim_outbox_def
    finish_publications_def set_state_def release_outbox_def Let_def map_sql_update_key)

definition store_inv :: "(string \<Rightarrow> uuid) \<Rightarrow> worker_db \<Rightarrow> bool" where
  "store_inv uuid5 db = (db_inv db \<and> ids_ok uuid5 db)"

interpretation store: invariant_system "\<lambda>db. db = empty_db" "store_step uuid5" "store_inv uuid5"
  for uuid5
  by unfold_locales
    (auto simp: store_inv_def intro: store_step_db_inv store_step_ids empty_db_inv,
      simp add: ids_ok_def empty_db_def)

lemma store_invD:
  assumes "store_inv uuid5 db"
  shows "keys_ok db" "rows_ok db" "routing_ok db" "outbox_ok db" "cursor_ok (cursor db) db" "catch_up_ok db"
    "ids_ok uuid5 db"
  using assms by (simp_all add: store_inv_def db_inv_def db_inv_at_def)

lemmas reachable_store_invD = store_invD [OF store.reachable_inv]

section \<open>What the loop of \<open>advance\<close> does\<close>

lemma route_event_commands:
  assumes "route_event uuid5 ns now exec types e db = Inr db'"
  shows "ew_commands db' = ew_commands db @
    map (new_command uuid5 ns now exec) (filter (\<lambda>e. event_type e \<in> types) [e])"
  using assms by (auto simp: route_event_Inr insert_command_Inr split: if_splits)

lemma advance_loop_spec:
  assumes "advance_loop uuid5 ns now exec types es s n db = Inr (s', n', gap, db')"
  shows "s' = s + int (run_length s es) \<and> n' = n + run_length s es
    \<and> gap = (if run_length s es < length es then Some s' else None)
    \<and> ew_commands db' = ew_commands db @ map (new_command uuid5 ns now exec)
        (filter (\<lambda>e. event_type e \<in> types) (take (run_length s es) es))
    \<and> ew_bindings db' = ew_bindings db"
  using assms
proof (induction es arbitrary: s n db)
  case (Cons e es)
  show ?case
  proof (cases "event_sequence e = s + 1")
    case True
    with Cons.prems obtain db1 where step: "route_event uuid5 ns now exec types e db = Inr db1"
      and loop: "advance_loop uuid5 ns now exec types es (s + 1) (Suc n) db1 = Inr (s', n', gap, db')"
      by (auto simp: rbind_eq_Inr)
    show ?thesis
      using Cons.IH [OF loop] route_event_commands [OF step] route_event_frame(1) [OF step] True by simp
  qed (use Cons.prems in auto)
qed simp

section \<open>What no step takes back\<close>

text \<open>
  A binding is never removed, keeps its session and task, and its cursor and catch-up versions only
  grow; an inbox event is never removed.
\<close>

definition binding_grows :: "binding_row \<Rightarrow> binding_row \<Rightarrow> bool" where
  "binding_grows b b' = (b_key b' = b_key b \<and> b_session_id b' = b_session_id b \<and> b_task_id b' = b_task_id b
     \<and> b_last_sequence b \<le> b_last_sequence b' \<and> b_catch_up_version b \<le> b_catch_up_version b'
     \<and> b_caught_up_version b \<le> b_caught_up_version b')"

definition bindings_grow :: "worker_db \<Rightarrow> worker_db \<Rightarrow> bool" where
  "bindings_grow db db' = (\<forall>b \<in> set (ew_bindings db). \<exists>b' \<in> set (ew_bindings db'). binding_grows b b')"

lemma binding_grows_refl [simp]: "binding_grows b b"
  by (simp add: binding_grows_def)

lemma binding_grows_trans: "binding_grows a b \<Longrightarrow> binding_grows b c \<Longrightarrow> binding_grows a c"
  by (auto simp: binding_grows_def)

lemma bindings_grow_refl [simp]: "bindings_grow db db"
  unfolding bindings_grow_def using binding_grows_refl by blast

lemma bindings_grow_trans: "bindings_grow a b \<Longrightarrow> bindings_grow b c \<Longrightarrow> bindings_grow a c"
  unfolding bindings_grow_def using binding_grows_trans by meson

lemma bindings_grow_subset: "set (ew_bindings db) \<subseteq> set (ew_bindings db') \<Longrightarrow> bindings_grow db db'"
  unfolding bindings_grow_def using binding_grows_refl by blast

lemma bindings_grow_update:
  assumes "\<And>b. b \<in> set (ew_bindings db) \<Longrightarrow> p b \<Longrightarrow> binding_grows b (f b)"
  shows "bindings_grow db (db\<lparr>ew_bindings := sql_update p f (ew_bindings db)\<rparr>)"
  unfolding bindings_grow_def
proof
  fix b assume b: "b \<in> set (ew_bindings db)"
  let ?b = "if p b then f b else b"
  have "?b \<in> set (sql_update p f (ew_bindings db))" using b unfolding in_sql_update by blast
  moreover have "binding_grows b ?b" using assms b by simp
  ultimately show "\<exists>b' \<in> set (ew_bindings (db\<lparr>ew_bindings := sql_update p f (ew_bindings db)\<rparr>)).
      binding_grows b b'" by (auto intro!: bexI [of _ ?b])
qed

lemma register_grows: "bindings_grow db (snd (register ns now exec sess task actor db))"
  unfolding register_def
  by (auto simp: Let_def insert_or_nothing_def transaction_def intro!: bindings_grow_subset split: option.splits)

lemma ingest_grows: "bindings_grow db (snd (ingest ns now e catch_up db))"
proof -
  have "bindings_grow db1 (bump_catch_up ns now (execution_id e) db1)" for db1
    unfolding bump_catch_up_def by (rule bindings_grow_update) (simp add: binding_grows_def)
  from bindings_grow_trans [OF _ this] show ?thesis unfolding ingest_def
    by (auto simp: Let_def transaction_def bindings_grow_subset split: option.splits)
qed

lemma advance_grows:
  assumes "keys_ok db"
  shows "bindings_grow db (snd (advance uuid5 ns now exec types limit db))"
proof (cases "advance uuid5 ns now exec types limit db")
  case (Pair res db')
  show ?thesis
  proof (cases res)
    case (Inl e)
    with Pair have "db' = db" by (simp add: advance_def transaction_Inl)
    then show ?thesis using Pair by simp
  next
    case (Inr r)
    show ?thesis
    proof (cases "find (\<lambda>b. b_key b = (ns, exec)) (ew_bindings db)")
      case None
      then show ?thesis by (simp add: advance_def transaction_def)
    next
      case (Some b)
      with Pair Inr obtain s n gap db1 where loop: "advance_loop uuid5 ns now exec types
          (pending_inbox ns exec (b_last_sequence b) limit db) (b_last_sequence b) 0 db = Inr (s, n, gap, db1)"
        and db': "db' = set_cursor ns now exec s db1"
        by (auto simp: advance_def transaction_Inr split: sum.splits prod.splits)
      from advance_loop_spec [OF loop] have spec: "b_last_sequence b \<le> s" "ew_bindings db1 = ew_bindings db"
        by simp_all
      have "x = b" if "x \<in> set (ew_bindings db)" "b_key x = (ns, exec)" for x
        using that find_SomeD [OF Some] assms key_unique [of b_key "ew_bindings db" x b] by (simp add: keys_ok_def)
      then have "bindings_grow db1 (set_cursor ns now exec s db1)"
        unfolding set_cursor_def using spec by (intro bindings_grow_update) (auto simp: binding_grows_def)
      then show ?thesis
        using Pair db' spec(2) bindings_grow_trans [OF bindings_grow_subset, of db db1] by simp
    qed
  qed
qed

lemma store_step_grows:
  assumes "store_inv uuid5 db" "store_step uuid5 db db'"
  shows "bindings_grow db db'"
  using assms(2,1)
proof (induction rule: store_step.induct)
  case (st_finish_catch_up b db ns exec version now)
  show ?case unfolding finish_catch_up_def by (rule bindings_grow_update) (simp add: binding_grows_def)
next
  case (st_scan_error db ns now exec err)
  show ?case unfolding scan_error_def by (rule bindings_grow_update) (simp add: binding_grows_def)
qed (auto simp: register_grows ingest_grows advance_grows store_invD claim_outbox_def finish_publications_def
    set_state_def release_outbox_def resolve_failed_def resolve_rows_def transaction_def Let_def
    intro!: bindings_grow_subset split: option.splits)

interpretation store_growth: growth_system "\<lambda>db. db = empty_db" "store_step uuid5" "store_inv uuid5" bindings_grow
  for uuid5
  by unfold_locales (auto intro: bindings_grow_trans store_step_grows)

section \<open>Totality of routing\<close>

text \<open>Routing the next event in sequence succeeds when command names do not collide.\<close>

lemma route_event_total:
  assumes inv: "db_inv_at cur db" and ids: "ids_ok uuid5 db" and free: "collision_free uuid5 db"
    and e: "inbox_event db ns exec e" "event_sequence e = cur (ns, exec) + 1"
  shows "\<exists>db'. route_event uuid5 ns now exec types e db = Inr db'"
proof -
  have old: "keys_ok db" "rows_ok db" "routing_ok db" "outbox_ok db" "cursor_ok cur db"
    using inv by (simp_all add: db_inv_at_def)
  obtain i where i: "i \<in> set (ew_inbox db)" "i_namespace i = ns" "i_execution_id i = exec" "i_event i = e"
    using e(1) by (auto simp: inbox_event_def)
  with old(2) have i': "i_event_id i = event_id e" "i_sequence i = event_sequence e" by (auto simp: rows_ok_def)
  with old(5) i e(2) have recv: "i_state i = Inb_RECEIVED" by (fastforce simp: cursor_ok_def)
  have "c_key c \<noteq> (ns, uuid5 (command_name ns e)) \<and> c_event_key c \<noteq> (ns, event_id e)"
    if c: "c \<in> set (ew_commands db)" for c
  proof -
    obtain j where j: "j \<in> set (ew_inbox db)" "i_key j = c_event_key c" "i_state j = Inb_ROUTED"
      using old(3) c by (auto simp: routing_ok_def)
    with recv have "j \<noteq> i" by auto
    with i j free have neq: "uuid5 (i_namespace j @ ''/event/'' @ uuid_str (i_event_id j)) \<noteq>
        uuid5 (ns @ ''/event/'' @ uuid_str (event_id e))"
      using i' by (auto simp: collision_free_def inj_on_def)
    have "i_key j \<noteq> i_key i" using \<open>j \<noteq> i\<close> old(1) key_unique [of i_key "ew_inbox db" j i] i(1) j(1) by (auto simp: keys_ok_def)
    moreover have "i_key i = (ns, event_id e)" using i i' by (simp add: i_key_def)
    ultimately have "c_event_key c \<noteq> (ns, event_id e)" using j(2) by metis
    moreover have "c_command_id c = uuid5 (i_namespace j @ ''/event/'' @ uuid_str (i_event_id j))"
      using ids c j(2) by (simp add: ids_ok_def i_key_def c_event_key_def)
    ultimately show ?thesis using neq by (simp add: c_key_def command_name_def)
  qed
  moreover have "o_key o' \<noteq> (ns, uuid5 (command_name ns e))" if "o' \<in> set (ew_outbox db)" for o'
    using that calculation old(4) by (metis (no_types, lifting) image_iff outbox_ok_def)
  ultimately have "\<exists>db1. insert_command uuid5 ns now exec e db = Inr db1"
    by (simp add: insert_command_Inr)
  then show ?thesis by (auto simp: route_event_def Let_def)
qed

lemma route_event_collision_free:
  assumes "route_event uuid5 ns now exec types e db = Inr db'" "collision_free uuid5 db"
  shows "collision_free uuid5 db'"
proof -
  obtain db1 st where "ew_inbox db1 = ew_inbox db" "db' = mark_inbox ns now (event_id e) st db1"
    using assms(1) insert_command_frame unfolding route_event_Inr by (metis (full_types))
  then show ?thesis using assms(2) by (auto simp: collision_free_def mark_inbox_rows inj_on_def)
qed

lemma advance_loop_total:
  assumes "db_inv_at cur db" "ids_ok uuid5 db" "collision_free uuid5 db"
    and "(ns, exec) \<in> b_key ` set (ew_bindings db)" "cur (ns, exec) = s"
    and "\<forall>e \<in> set es. inbox_event db ns exec e"
  shows "\<exists>r. advance_loop uuid5 ns now exec types es s n db = Inr r"
  using assms
proof (induction es arbitrary: s n db cur)
  case (Cons e es)
  show ?case
  proof (cases "event_sequence e = s + 1")
    case True
    obtain db1 where step: "route_event uuid5 ns now exec types e db = Inr db1"
      using route_event_total [OF Cons.prems(1-3)] Cons.prems(5,6) True by fastforce
    have "db_inv_at (cur((ns, exec) := event_sequence e)) db1"
      using route_event_inv [OF Cons.prems(1,4) _ _ step] Cons.prems(5,6) True by simp
    from Cons.IH [OF this] show ?thesis
      using True step route_event_ids [OF step] route_event_collision_free [OF step]
        route_event_frame [OF step] Cons.prems by simp
  qed simp
qed simp

lemma advance_found:
  assumes "b \<in> set (ew_bindings db)" "b_key b = (ns, exec)" "keys_ok db"
  shows "find (\<lambda>b. b_key b = (ns, exec)) (ew_bindings db) = Some b"
  using find_key [of b_key "ew_bindings db" b] assms by (simp add: keys_ok_def)

lemma claimed_row:
  assumes "o' \<in> set (fst (claim_outbox ns now token limit lease locked db))"
  shows "\<exists>x \<in> set (ew_outbox db). o_key o' = o_key x \<and> o_generation o' = o_generation x
    \<and> o_claim_token o' = Some token \<and> o_namespace x = ns
    \<and> o_command_id x \<in> set (picked_outbox ns now limit locked db)"
proof -
  let ?hit = "\<lambda>x. o_namespace x = ns \<and> o_command_id x \<in> set (picked_outbox ns now limit locked db)"
  let ?f = "\<lambda>x. x\<lparr>o_state := Out_CLAIMED, o_claim_token := Some token,
    o_claim_until := Some (now + seconds lease), o_audit := touch_audit now ''worker'' (o_audit x)\<rparr>"
  have "o' \<in> set (sql_update ?hit ?f (ew_outbox db))" "?hit o'"
    using assms by (simp_all add: claim_outbox_def Let_def)
  then obtain x where "x \<in> set (ew_outbox db)" "o' = (if ?hit x then ?f x else x)"
    unfolding in_sql_update by blast
  moreover from this \<open>?hit o'\<close> have "?hit x" by (metis (full_types))
  ultimately show ?thesis by (intro bexI [of _ x]) (simp_all add: o_key_def)
qed

lemma claimed_ready:
  assumes "reachable_db uuid5 db"
    and "o' \<in> set (fst (claim_outbox ns now token limit lease locked db))"
  shows "\<exists>c \<in> set (ew_commands db). c_key c = o_key o' \<and> c_state c = Cmd_READY
    \<and> c_generation c = o_generation o' \<and> o_claim_token o' = Some token
    \<and> (\<forall>e \<in> set (ew_commands db). c_namespace e = c_namespace c \<and> c_execution_id e = c_execution_id c
          \<and> c_sequence e < c_sequence c \<longrightarrow> c_state e = Cmd_DONE \<or> c_state e = Cmd_IGNORED)"
proof -
  note inv = reachable_store_invD [OF assms(1)]
  obtain x where x: "x \<in> set (ew_outbox db)" "o_key o' = o_key x" "o_generation o' = o_generation x"
    "o_claim_token o' = Some token" "o_namespace x = ns"
    "o_command_id x \<in> set (picked_outbox ns now limit locked db)"
    using claimed_row [OF assms(2)] by metis
  obtain c where c: "c \<in> set (ew_commands db)" "c_key c = o_key x"
    using inv(4) x(1) by (metis (no_types, lifting) image_iff outbox_ok_def)
  have ready: "c_state c = Cmd_READY" "\<not> earlier_open db c"
    using picked_outbox_ready [OF inv(1) x(6) x(5) c] by auto
  have "c_generation c = o_generation x"
    using inv(4) c x(1) ready(1) by (auto simp: outbox_ok_def outbox_agrees_def)
  then show ?thesis
    using c x ready by (intro bexI [of _ c]) (auto simp: earlier_open_def list_ex_iff finished_def)
qed

section \<open>Properties of the store\<close>

text \<open>A concrete run: register an execution, ingest its events, route the first two.\<close>

definition demo_event :: "int \<Rightarrow> executor_event" where
  "demo_event n = \<lparr>event_id = nat n, execution_id = 2, event_type = ''execution.completed'',
     event_sequence = n, schema_version = ''1.0'', occurred_at = ''now'', payload = JObj [],
     extra_fields = []\<rparr>"

definition demo_uuid5 :: "string \<Rightarrow> uuid" where
  "demo_uuid5 s = 7"

definition demo_single :: worker_db where
  "demo_single = snd (ingest ''w'' 0 (demo_event 1) False
     (snd (register ''w'' 0 2 ''s'' ''t'' ''api'' empty_db)))"

definition demo_ingested :: worker_db where
  "demo_ingested = snd (ingest ''w'' 0 (demo_event 3) False demo_single)"

definition demo_routed :: worker_db where
  "demo_routed = snd (advance demo_uuid5 ''w'' 0 2 {''execution.completed''} 2 demo_ingested)"

lemma demo_single_reachable: "reachable_db uuid5 demo_single"
  unfolding demo_single_def
  by (rule reach_step, rule reach_step, rule reach_init, rule refl, rule st_register, rule st_ingest)

lemma demo_reachable: "reachable_db uuid5 demo_ingested" "reachable_db demo_uuid5 demo_routed"
proof -
  show *: "reachable_db uuid5 demo_ingested" for uuid5
    unfolding demo_ingested_def by (rule reach_step, rule demo_single_reachable, rule st_ingest)
  show "reachable_db demo_uuid5 demo_routed"
    unfolding demo_routed_def by (rule reach_step, rule *, rule st_advance)
qed

lemmas demo_defs = demo_single_def demo_ingested_def demo_routed_def demo_event_def demo_uuid5_def

text \<open>
  C1: in every state that any interleaving of the store's operations can reach, the tables satisfy
  the store invariant: unique keys, an inbox row per event that agrees with it, routed events and
  commands in bijection, one outbox row per command that agrees with its generation and state, and
  cursors below which everything is routed and above which nothing is.
\<close>

theorem store_invariant: "reachable_db uuid5 db \<Longrightarrow> store_inv uuid5 db"
  by (rule store.reachable_inv)

theorem store_invariant_witness: "store_inv demo_uuid5 demo_routed"
  by (rule store_invariant [OF demo_reachable(2)])

text \<open>
  C13: events are routed as a contiguous prefix and once: a command's execution has a binding
  whose cursor reached it, every sequence number up to it has an inbox row that was routed or
  ignored, and no other command belongs to the same event.
\<close>

theorem routed_prefix:
  assumes "reachable_db uuid5 db" and "c \<in> set (ew_commands db)"
  shows "\<exists>b \<in> set (ew_bindings db). b_key b = (c_namespace c, c_execution_id c)
    \<and> c_sequence c \<le> b_last_sequence b
    \<and> (\<forall>s \<in> {1..c_sequence c}. \<exists>i \<in> set (ew_inbox db).
         i_seq_key i = (c_namespace c, c_execution_id c, s) \<and> i_state i \<noteq> Inb_RECEIVED)
    \<and> (\<forall>c' \<in> set (ew_commands db). c_event_key c' = c_event_key c \<longrightarrow> c' = c)"
proof -
  note inv = reachable_store_invD [OF assms(1)]
  let ?k = "(c_namespace c, c_execution_id c)"
  obtain i where i: "i \<in> set (ew_inbox db)" "i_key i = c_event_key c" "i_execution_id i = c_execution_id c"
    "i_sequence i = c_sequence c" "i_state i = Inb_ROUTED"
    using inv(3) assms(2) by (auto simp: routing_ok_def)
  then have ns: "i_namespace i = c_namespace c" by (simp add: i_key_def c_event_key_def)
  have b: "?k \<in> b_key ` set (ew_bindings db)" "c_sequence c \<le> cursor db ?k"
    using cursor_ok_row [OF inv(5) i(1)] i ns by simp_all
  then obtain b where b': "b \<in> set (ew_bindings db)" "b_key b = ?k" by auto
  with cursor_of_binding [OF inv(1)] b(2) have "c_sequence c \<le> b_last_sequence b" by metis
  moreover have "\<exists>i \<in> set (ew_inbox db). i_seq_key i = (c_namespace c, c_execution_id c, s)
      \<and> i_state i \<noteq> Inb_RECEIVED" if "s \<in> {1..c_sequence c}" for s
    using cursor_ok_routed [OF inv(5) b(1), of s] that b(2) by simp
  moreover have "c' = c" if "c' \<in> set (ew_commands db)" "c_event_key c' = c_event_key c" for c'
    using inv(1) key_unique [of c_event_key "ew_commands db" c' c] that assms(2) by (simp add: keys_ok_def)
  ultimately show ?thesis using b' by blast
qed

theorem routed_prefix_witness:
  "\<exists>b \<in> set (ew_bindings demo_routed). b_key b = (''w'', 2) \<and> 1 \<le> b_last_sequence b"
proof -
  have "\<exists>c \<in> set (ew_commands demo_routed). c_namespace c = ''w'' \<and> c_execution_id c = 2 \<and> c_sequence c = 1"
    by code_simp
  then show ?thesis using routed_prefix [OF demo_reachable(2)] by fastforce
qed

text \<open>
  C5: a publisher only ever claims the outbox row of a \<open>READY\<close> command whose earlier commands of
  the same execution are all finished, under the fresh claim token, and with the command's current
  generation: later events of an execution cannot overtake earlier ones.
\<close>

theorem claim_in_order:
  assumes "reachable_db uuid5 db"
    and "o' \<in> set (fst (claim_outbox ns now token limit lease locked db))"
  shows "\<exists>c \<in> set (ew_commands db). c_key c = o_key o' \<and> c_state c = Cmd_READY
    \<and> c_generation c = o_generation o' \<and> o_claim_token o' = Some token
    \<and> (\<forall>e \<in> set (ew_commands db). c_namespace e = c_namespace c \<and> c_execution_id e = c_execution_id c
          \<and> c_sequence e < c_sequence c \<longrightarrow> c_state e = Cmd_DONE \<or> c_state e = Cmd_IGNORED)"
  using claimed_ready [OF assms] .

theorem claim_in_order_witness:
  "\<exists>o' \<in> set (fst (claim_outbox ''w'' 5 9 10 30 {} demo_routed)).
     \<exists>c \<in> set (ew_commands demo_routed). c_key c = o_key o' \<and> c_state c = Cmd_READY"
proof -
  let ?os = "fst (claim_outbox ''w'' 5 9 10 30 {} demo_routed)"
  have "length ?os = 1"
    by code_simp
  then have o': "hd ?os \<in> set ?os"
    by (cases ?os) simp_all
  show ?thesis
    by (rule bexI [OF _ o'], rule bexE [OF claim_in_order [OF demo_reachable(2) o']]) (rule bexI, simp_all)
qed

text \<open>
  A successful \<open>advance\<close> consumes exactly the contiguous run of the pending events: it moves the
  cursor by the length of the run, appends one command per event of a handled type in sequence order,
  and reports a gap exactly when a pending event remains beyond the run.
\<close>

theorem advance_consumes_run:
  assumes "reachable_db uuid5 db" and "b \<in> set (ew_bindings db)" "b_key b = (ns, exec)"
    and "advance uuid5 ns now exec types limit db = (Inr (n, gap), db')"
  defines "es \<equiv> pending_inbox ns exec (b_last_sequence b) limit db"
  shows "n = run_length (b_last_sequence b) es
    \<and> cursor db' (ns, exec) = b_last_sequence b + int n
    \<and> gap = (if n < length es then Some (b_last_sequence b + int n) else None)
    \<and> ew_commands db' = ew_commands db @ map (new_command uuid5 ns now exec)
         (filter (\<lambda>e. event_type e \<in> types) (take n es))"
proof -
  note found = advance_found [OF assms(2,3) reachable_store_invD(1) [OF assms(1)]]
  from assms(4) found obtain s db1 where loop: "advance_loop uuid5 ns now exec types es (b_last_sequence b) 0 db
      = Inr (s, n, gap, db1)" and db': "db' = set_cursor ns now exec s db1"
    by (auto simp: advance_def transaction_Inr es_def split: sum.splits prod.splits)
  note spec = advance_loop_spec [OF loop]
  have "find (\<lambda>b. b_key b = (ns, exec)) (ew_bindings db1) = Some b" using spec found by simp
  then have "cursor db' (ns, exec) = s"
    using assms(3) by (simp add: db' cursor_def set_cursor_def find_sql_update)
  then show ?thesis using spec by (simp add: db' set_cursor_def)
qed

theorem advance_consumes_run_witness:
  "cursor (snd (advance demo_uuid5 ''w'' 0 2 {''execution.completed''} 2 demo_ingested)) (''w'', 2) = 1"
proof -
  have b: "\<exists>b \<in> set (ew_bindings demo_ingested). b_key b = (''w'', 2) \<and> b_last_sequence b = 0"
    and r: "fst (advance demo_uuid5 ''w'' 0 2 {''execution.completed''} 2 demo_ingested) = Inr (1, Some 1)"
    by code_simp+
  obtain db' where db': "advance demo_uuid5 ''w'' 0 2 {''execution.completed''} 2 demo_ingested = (Inr (1, Some 1), db')"
    using r by (metis prod.collapse)
  from b obtain b where "b \<in> set (ew_bindings demo_ingested)" "b_key b = (''w'', 2)" "b_last_sequence b = 0" by blast
  with advance_consumes_run [OF demo_reachable(1) this(1,2) db'] show ?thesis by (simp add: db')
qed

text \<open>
  C34: \<open>advance\<close> never fails on a reachable store whose command names do not collide: it always
  returns a count and a gap, so routing makes progress whenever the next event is present.
\<close>

theorem advance_returns:
  assumes "reachable_db uuid5 db" and "collision_free uuid5 db"
  shows "\<exists>n gap. fst (advance uuid5 ns now exec types limit db) = Inr (n, gap)"
proof (cases "find (\<lambda>b. b_key b = (ns, exec)) (ew_bindings db)")
  case (Some b)
  note inv = store.reachable_inv [OF assms(1)]
  have "db_inv_at (cursor db) db" "ids_ok uuid5 db" using inv by (simp_all add: store_inv_def db_inv_def)
  moreover have "(ns, exec) \<in> b_key ` set (ew_bindings db)" "cursor db (ns, exec) = b_last_sequence b"
    using find_SomeD [OF Some] Some by (metis image_eqI, simp add: cursor_def)
  ultimately obtain r where "advance_loop uuid5 ns now exec types
      (pending_inbox ns exec (b_last_sequence b) limit db) (b_last_sequence b) 0 db = Inr r"
    using advance_loop_total [of "cursor db" db] assms(2) pending_inbox_event by blast
  then show ?thesis using Some by (cases r) (simp add: advance_def transaction_def)
qed (simp add: advance_def transaction_def)

theorem advance_returns_witness:
  "\<exists>n gap. fst (advance demo_uuid5 ''w'' 0 2 {''execution.completed''} 2 demo_single) = Inr (n, gap)"
proof (rule advance_returns [OF demo_single_reachable])
  have "length (ew_inbox demo_single) = 1" by code_simp
  then show "collision_free demo_uuid5 demo_single"
    by (auto simp: collision_free_def length_Suc_conv inj_on_def)
qed

text \<open>
  an execution's binding is immutable and its progress is monotone. Whatever operations follow,
  the binding stays, keeps its session and task, and its cursor and catch-up versions never go back.
\<close>

theorem binding_immutable:
  assumes "reachable_db uuid5 db" "(store_step uuid5)\<^sup>*\<^sup>* db db'" "b \<in> set (ew_bindings db)"
  shows "\<exists>b' \<in> set (ew_bindings db'). b_key b' = b_key b \<and> b_session_id b' = b_session_id b
    \<and> b_task_id b' = b_task_id b \<and> b_last_sequence b \<le> b_last_sequence b'
    \<and> b_catch_up_version b \<le> b_catch_up_version b' \<and> b_caught_up_version b \<le> b_caught_up_version b'"
  using store_growth.reachable_grows [OF assms(1,2)] assms(3)
  by (simp add: bindings_grow_def binding_grows_def)

theorem binding_immutable_witness:
  "\<exists>b' \<in> set (ew_bindings demo_routed). b_key b' = (''w'', 2) \<and> b_session_id b' = ''s''"
proof -
  have "store_step demo_uuid5 demo_ingested demo_routed"
    unfolding demo_routed_def by (rule st_advance)
  moreover have "b_key (hd (ew_bindings demo_ingested)) = (''w'', 2)"
    "b_session_id (hd (ew_bindings demo_ingested)) = ''s''" "ew_bindings demo_ingested \<noteq> []"
    by code_simp+
  ultimately show ?thesis
    using binding_immutable [OF demo_reachable(1), of demo_uuid5 demo_routed "hd (ew_bindings demo_ingested)"]
    by auto
qed

end
