(* ===== verification/Worker_Ingress.thy ===== *)
theory Worker_Ingress
  imports Worker_Store_Props
begin

text \<open>
  The two parts of \<open>src/worker/ingress.py\<close>: \<open>Ingress.handle\<close>, which turns a message of the
  executor's event stream into an inbox row, and \<open>EventRouter.once\<close>, which advances each due
  execution and repairs gaps from the executor's history endpoint. The history response is an
  argument of the environment; a store call can fail before or after it took effect.
\<close>

section \<open>Ingress\<close>

text \<open>The two \<open>except\<close> clauses of \<open>Ingress.handle\<close>.\<close>

fun bad_input :: "exn \<Rightarrow> bool" where
  "bad_input (KeyError _) = True"
| "bad_input (TypeError _) = True"
| "bad_input e = is_ValueError e"

definition unavailable :: "exn \<Rightarrow> bool" where
  "unavailable e = (is_DatabaseError e \<or> e = PoolTimeout)"

definition ingress_except :: "exn \<Rightarrow> handler_result result" where
  "ingress_except e =
     (if bad_input e then Inl (PermanentMessageError (exn_str e))
      else if unavailable e then Inr (plain_result DEFER ''database_wait'')
      else Inl e)"

definition ingress_handle ::
    "coercions \<Rightarrow> (string \<Rightarrow> json option) \<Rightarrow> string \<Rightarrow> usec \<Rightarrow> fault \<Rightarrow> stream_message \<Rightarrow> worker_db
      \<Rightarrow> handler_result result \<times> worker_db" where
  "ingress_handle co loads ns now ft msg db =
     (case sbind (spure (from_redis co loads (msg_fields msg)))
             (\<lambda>e. with_fault ft (ingest ns now e (reclaimed msg))) db of
        (Inr _, db') \<Rightarrow> (Inr (plain_result ACK ''succeeded''), db')
      | (Inl x, db') \<Rightarrow> (ingress_except x, db'))"

section \<open>Routing one execution\<close>

text \<open>
  What the environment decides for one row: the faults of its store calls and the executor's
  answer to the history request as a function of \<open>after_sequence\<close> (an \<open>Inl\<close> is a transport or
  status error, or a body that is not JSON).
\<close>

record row_env =
  re_advance :: fault
  re_history :: "int \<Rightarrow> json result"
  re_ingest :: "nat \<Rightarrow> fault"
  re_advance_again :: fault
  re_finish :: fault
  re_scan_error :: fault

definition history_items :: "int option \<Rightarrow> json \<Rightarrow> json list result" where
  "history_items gap page =
     (if \<not> is_jobj page then Inl (TypeError ''history page'')
      else (case jget page ''items'' of
        None \<Rightarrow> Inl (KeyError ''items'')
      | Some items \<Rightarrow>
          if \<not> truthy items \<and> (gap \<noteq> None \<or> truthy (jget0 page ''has_more''))
          then Inl (ValueError ''Executor history gap is open'')
          else py_iter items))"

fun validate_item :: "coercions \<Rightarrow> json \<Rightarrow> executor_event result" where
  "validate_item co (JObj kvs) = event_model_validate co kvs"
| "validate_item co _ = Inl (ValueError ''Input should be a valid dictionary'')"

fun ingest_items ::
    "coercions \<Rightarrow> string \<Rightarrow> usec \<Rightarrow> uuid \<Rightarrow> (nat \<Rightarrow> fault) \<Rightarrow> nat \<Rightarrow> json list \<Rightarrow> worker_db
      \<Rightarrow> unit result \<times> worker_db" where
  "ingest_items co ns now exec fts n [] = spure (Inr ())"
| "ingest_items co ns now exec fts n (j # js) =
     sbind (spure (validate_item co j)) (\<lambda>e.
       if execution_id e \<noteq> exec then spure (Inl (ValueError ''History mixed executions''))
       else sbind (with_fault (fts n) (ingest ns now e False))
              (\<lambda>_. ingest_items co ns now exec fts (Suc n) js))"

text \<open>The branch of \<open>process\<close> that asks the executor's history.\<close>

definition repair ::
    "coercions \<Rightarrow> (string \<Rightarrow> uuid) \<Rightarrow> string \<Rightarrow> usec \<Rightarrow> string set \<Rightarrow> nat \<Rightarrow> row_env \<Rightarrow> binding_row \<Rightarrow> bool
      \<Rightarrow> nat \<Rightarrow> int option \<Rightarrow> worker_db \<Rightarrow> nat result \<times> worker_db" where
  "repair co uuid5 ns now types batch env row catch_up n gap =
     (let exec = b_execution_id row; after = (case gap of Some g \<Rightarrow> g | None \<Rightarrow> b_last_sequence row) in
      sbind (spure (re_history env after)) (\<lambda>page.
      sbind (spure (history_items gap page)) (\<lambda>items.
      sbind (ingest_items co ns now exec (re_ingest env) 0 items) (\<lambda>_.
      sbind (with_fault (re_advance_again env) (advance uuid5 ns now exec types batch)) (\<lambda>(advanced, remaining).
        if advanced = 0 \<and> remaining \<noteq> None then spure (Inl (ValueError ''History did not advance''))
        else if catch_up \<and> \<not> truthy (jget0 page ''has_more'')
        then sbind (with_fault (re_finish env)
                     (swrite (finish_catch_up ns now exec (b_catch_up_version row))))
               (\<lambda>_. spure (Inr (n + advanced)))
        else spure (Inr (n + advanced)))))))"

definition process_row ::
    "coercions \<Rightarrow> (string \<Rightarrow> uuid) \<Rightarrow> string \<Rightarrow> usec \<Rightarrow> string set \<Rightarrow> nat \<Rightarrow> row_env \<Rightarrow> binding_row
      \<Rightarrow> worker_db \<Rightarrow> nat result \<times> worker_db" where
  "process_row co uuid5 ns now types batch env row =
     sbind (with_fault (re_advance env) (advance uuid5 ns now (b_execution_id row) types batch)) (\<lambda>(n, gap).
       let catch_up = b_caught_up_version row < b_catch_up_version row in
       if gap \<noteq> None \<or> catch_up
       then repair co uuid5 ns now types batch env row catch_up n gap
       else spure (Inr n))"

text \<open>\<open>process\<close> with its handler: a failure is recorded on the binding and counts nothing.\<close>

definition route_row ::
    "coercions \<Rightarrow> (string \<Rightarrow> uuid) \<Rightarrow> string \<Rightarrow> usec \<Rightarrow> string set \<Rightarrow> nat \<Rightarrow> row_env \<Rightarrow> binding_row
      \<Rightarrow> worker_db \<Rightarrow> nat result \<times> worker_db" where
  "route_row co uuid5 ns now types batch env row db =
     (case process_row co uuid5 ns now types batch env row db of
        (Inr n, db') \<Rightarrow> (Inr n, db')
      | (Inl e, db') \<Rightarrow>
          if is_Exception e
          then sbind (with_fault (re_scan_error env)
                        (swrite (scan_error ns now (b_execution_id row) (exn_str e))))
                 (\<lambda>_. spure (Inr 0)) db'
          else (Inl e, db'))"

fun route_rows ::
    "coercions \<Rightarrow> (string \<Rightarrow> uuid) \<Rightarrow> string \<Rightarrow> usec \<Rightarrow> string set \<Rightarrow> nat \<Rightarrow> (uuid \<Rightarrow> row_env)
      \<Rightarrow> binding_row list \<Rightarrow> worker_db \<Rightarrow> nat result \<times> worker_db" where
  "route_rows co uuid5 ns now types batch envs [] db = (Inr 0, db)"
| "route_rows co uuid5 ns now types batch envs (row # rows) db =
     (let (res, db1) = route_row co uuid5 ns now types batch (envs (b_execution_id row)) row db;
          (rest, db2) = route_rows co uuid5 ns now types batch envs rows db1
      in (rbind res (\<lambda>n. rbind rest (\<lambda>m. Inr (n + m))), db2))"

text \<open>\<open>EventRouter.once\<close> on the schedule that finishes one row after the other.\<close>

definition router_once ::
    "coercions \<Rightarrow> (string \<Rightarrow> uuid) \<Rightarrow> string \<Rightarrow> usec \<Rightarrow> string set \<Rightarrow> nat \<Rightarrow> (uuid \<Rightarrow> row_env)
      \<Rightarrow> worker_db \<Rightarrow> nat result \<times> worker_db" where
  "router_once co uuid5 ns now types batch envs db =
     route_rows co uuid5 ns now types batch envs (scan_candidates ns now batch db) db"

section \<open>Lemmas\<close>

lemma ingest_Inr:
  assumes "ingest ns now e catch_up db = (Inr u, db')"
  shows "\<exists>i \<in> set (ew_inbox db'). i_key i = (ns, event_id e) \<and> i_event i = e"
    "set (ew_inbox db) \<subseteq> set (ew_inbox db')"
  using assms
  by (auto simp: ingest_def transaction_Inr Let_def bump_catch_up_def insert_or_nothing_def
      dest!: find_SomeD split: if_splits option.splits)

lemma ingest_Inl: "ingest ns now e catch_up db = (Inl x, db') \<Longrightarrow> db' = db"
  by (simp add: ingest_def transaction_Inl)

lemma ingest_again:
  assumes "ingest ns now e catch_up db = (Inr u, db')" "keys_ok db'"
  shows "ingest ns now' e False db' = (Inr (), db')"
proof -
  obtain i where i: "i \<in> set (ew_inbox db')" "i_key i = (ns, event_id e)" "i_event i = e"
    using ingest_Inr(1) [OF assms(1)] by auto
  then have f: "find (\<lambda>i. i_key i = (ns, event_id e)) (ew_inbox db') = Some i"
    using find_key [of i_key "ew_inbox db'" i] assms(2) by (simp add: keys_ok_def)
  have "bigint_ok (event_sequence e)" "0 < event_sequence e"
    using assms(1) by (auto simp: ingest_def transaction_Inr split: if_splits)
  moreover have "\<exists>x \<in> set (ew_inbox db'). i_key x = i_key (new_inbox_row ns now' e)
      \<or> i_seq_key x = i_seq_key (new_inbox_row ns now' e)"
    using i by (auto simp: i_key_def new_inbox_row_def)
  ultimately show ?thesis
    using f i(3) by (auto simp: ingest_def transaction_def Let_def insert_or_nothing_def list_ex_iff)
qed

text \<open>Every write of the router is a step of the store.\<close>

abbreviation store_steps :: "(string \<Rightarrow> uuid) \<Rightarrow> worker_db \<Rightarrow> worker_db \<Rightarrow> bool" where
  "store_steps uuid5 \<equiv> (store_step uuid5)\<^sup>*\<^sup>*"

lemma steps_pure: "store_steps uuid5 db (snd (spure x db))"
  by (simp add: spure_def)

lemma steps_bind:
  assumes "store_steps uuid5 db (snd (m db))"
    and "\<And>x db'. m db = (Inr x, db') \<Longrightarrow> store_steps uuid5 db' (snd (f x db'))"
  shows "store_steps uuid5 db (snd (sbind m f db))"
  by (rule sbind_rel [where R = "store_steps uuid5"]) (auto intro: assms rtranclp_trans)

lemma steps_fault:
  assumes "store_step uuid5 db (snd (f db))"
  shows "store_steps uuid5 db (snd (with_fault ft f db))"
  by (rule with_fault_rel [where R = "store_steps uuid5"]) (use assms in auto)

lemmas steps_intros = steps_pure steps_bind steps_fault st_ingest st_advance

lemma ingest_items_steps: "store_steps uuid5 db (snd (ingest_items co ns now exec fts n js db))"
proof (induction js arbitrary: n db exec)
  case (Cons j js)
  show ?case unfolding ingest_items.simps
    by (auto intro!: steps_intros Cons.IH)
qed (simp add: steps_pure)

text \<open>The row a router works on was read from the bindings; its version stays behind the table's.\<close>

definition row_known :: "string \<Rightarrow> binding_row \<Rightarrow> worker_db \<Rightarrow> bool" where
  "row_known ns row db = (\<exists>b \<in> set (ew_bindings db). b_key b = (ns, b_execution_id row)
     \<and> b_catch_up_version row \<le> b_catch_up_version b)"

lemma row_known_steps:
  assumes "store_steps uuid5 db db'" "store_inv uuid5 db" "row_known ns row db"
  shows "row_known ns row db'"
  using store_growth.steps_grow [OF assms(1,2)] assms(3)
  by (fastforce simp: row_known_def bindings_grow_def binding_grows_def)

lemma scan_candidates_known: "row \<in> set (scan_candidates ns now limit db) \<Longrightarrow> row_known ns row db"
  by (auto simp: scan_candidates_def row_known_def scan_due_def b_key_def dest!: in_take_sort)

lemma finish_step:
  "row_known ns row db \<Longrightarrow> store_step uuid5 db
     (snd (swrite (finish_catch_up ns now (b_execution_id row) (b_catch_up_version row)) db))"
  by (auto simp: row_known_def swrite_def intro: st_finish_catch_up)

lemma repair_steps:
  assumes "store_inv uuid5 db" "row_known ns row db"
  shows "store_steps uuid5 db (snd (repair co uuid5 ns now types batch env row cu n gap db))"
  unfolding repair_def Let_def
proof (intro steps_bind)
  fix page db1 items db2 u db3 r db4
  assume r: "spure (re_history env (case gap of None \<Rightarrow> b_last_sequence row | Some g \<Rightarrow> g)) db = (Inr page, db1)"
    "spure (history_items gap page) db1 = (Inr items, db2)"
    "ingest_items co ns now (b_execution_id row) (re_ingest env) 0 items db2 = (Inr u, db3)"
    "with_fault (re_advance_again env) (advance uuid5 ns now (b_execution_id row) types batch) db3 = (Inr r, db4)"
  have "store_steps uuid5 db db3"
    using r(1-3) ingest_items_steps [of uuid5 db2 co ns now "b_execution_id row" "re_ingest env" 0 items]
    by (simp add: spure_def)
  moreover have "store_steps uuid5 db3 db4"
    using r(4) steps_fault [of uuid5 db3 "advance uuid5 ns now (b_execution_id row) types batch"] st_advance
    by (metis snd_conv)
  ultimately have "row_known ns row db4"
    using row_known_steps [OF _ assms] by (metis rtranclp_trans)
  then show "store_steps uuid5 db4 (snd ((case r of (advanced, remaining) \<Rightarrow>
      if advanced = 0 \<and> remaining \<noteq> None then spure (Inl (ValueError ''History did not advance''))
      else if cu \<and> \<not> truthy (jget0 page ''has_more'')
        then sbind (with_fault (re_finish env) (swrite (finish_catch_up ns now (b_execution_id row)
               (b_catch_up_version row)))) (\<lambda>_. spure (Inr (n + advanced)))
        else spure (Inr (n + advanced))) db4))"
    by (auto intro!: steps_intros finish_step split: prod.splits)
qed (auto intro!: steps_intros ingest_items_steps)

lemma process_row_steps:
  assumes "store_inv uuid5 db" "row_known ns row db"
  shows "store_steps uuid5 db (snd (process_row co uuid5 ns now types batch env row db))"
  unfolding process_row_def
proof (rule steps_bind)
  show first: "store_steps uuid5 db (snd (with_fault (re_advance env)
      (advance uuid5 ns now (b_execution_id row) types batch) db))"
    by (intro steps_intros)
  fix r db1
  assume "with_fault (re_advance env) (advance uuid5 ns now (b_execution_id row) types batch) db = (Inr r, db1)"
  with first have "store_steps uuid5 db db1" by simp
  then have "store_inv uuid5 db1" "row_known ns row db1"
    using assms store.steps_inv row_known_steps by blast+
  from repair_steps [OF this] show "store_steps uuid5 db1 (snd ((case r of (n, gap) \<Rightarrow>
      let catch_up = b_caught_up_version row < b_catch_up_version row
      in if gap \<noteq> None \<or> catch_up then repair co uuid5 ns now types batch env row catch_up n gap
         else spure (Inr n)) db1))"
    by (auto simp: Let_def intro: steps_pure split: prod.splits)
qed

lemma route_row_steps:
  assumes "store_inv uuid5 db" "row_known ns row db"
  shows "store_steps uuid5 db (snd (route_row co uuid5 ns now types batch env row db))"
proof (cases "process_row co uuid5 ns now types batch env row db")
  case (Pair res db1)
  have "store_steps uuid5 db db1" using process_row_steps [OF assms] Pair by (metis snd_conv)
  moreover have "store_steps uuid5 db1 (snd (sbind (with_fault (re_scan_error env)
      (swrite (scan_error ns now (b_execution_id row) err))) (\<lambda>_. spure (Inr 0)) db1))" for err
    by (intro steps_intros) (simp add: swrite_def st_scan_error)
  ultimately show ?thesis
    using Pair by (auto simp: route_row_def intro: rtranclp_trans split: sum.splits)
qed

lemma route_rows_steps:
  assumes "store_inv uuid5 db" "\<forall>row \<in> set rows. row_known ns row db"
  shows "store_steps uuid5 db (snd (route_rows co uuid5 ns now types batch envs rows db))"
  using assms
proof (induction rows arbitrary: db)
  case (Cons row rows)
  let ?db1 = "snd (route_row co uuid5 ns now types batch (envs (b_execution_id row)) row db)"
  have first: "store_steps uuid5 db ?db1" using Cons.prems route_row_steps by simp
  then have "store_steps uuid5 ?db1 (snd (route_rows co uuid5 ns now types batch envs rows ?db1))"
    using Cons.prems store.steps_inv [of uuid5 db ?db1] row_known_steps [of uuid5 db ?db1] by (intro Cons.IH) auto
  with first show ?case by (auto split: prod.splits)
qed simp

text \<open>What routing leaves alone: the caught-up versions and the events in the inbox.\<close>

definition caught :: "worker_db \<Rightarrow> string \<times> uuid \<Rightarrow> int option" where
  "caught db k = map_option b_caught_up_version (find (\<lambda>b. b_key b = k) (ew_bindings db))"

definition quiet :: "worker_db \<Rightarrow> worker_db \<Rightarrow> bool" where
  "quiet db db' = (caught db' = caught db \<and>
     (\<forall>ns exec e. inbox_event db ns exec e \<longrightarrow> inbox_event db' ns exec e))"

lemma quiet_refl [simp]: "quiet db db"
  by (simp add: quiet_def)

lemma quiet_trans: "quiet a b \<Longrightarrow> quiet b c \<Longrightarrow> quiet a c"
  by (simp add: quiet_def)

lemma caught_update:
  assumes "\<And>b. b_key (f b) = b_key b" "\<And>b. b_caught_up_version (f b) = b_caught_up_version b"
  shows "caught (db\<lparr>ew_bindings := sql_update p f (ew_bindings db)\<rparr>) = caught db"
  using assms by (auto simp: caught_def fun_eq_iff find_sql_update option.map_comp o_def
      intro!: option.map_cong)

lemma ingest_quiet: "quiet db (snd (ingest ns now e cu db))"
proof -
  have bump: "quiet db1 (bump_catch_up ns now exec db1)" for exec db1
    unfolding bump_catch_up_def by (simp add: quiet_def caught_update inbox_event_def)
  have "quiet db (db\<lparr>ew_inbox := insert_or_nothing p r (ew_inbox db)\<rparr>)" for p r
    by (auto simp: quiet_def caught_def fun_eq_iff inbox_event_def insert_or_nothing_def)
  from this quiet_trans [OF this bump] show ?thesis
    by (simp add: ingest_def transaction_def Let_def split: option.splits)
qed

lemma advance_loop_quiet:
  "advance_loop uuid5 ns now exec types es s n db = Inr (s', n', gap, db') \<Longrightarrow>
     inbox_event db' ns' exec' e' = inbox_event db ns' exec' e'"
proof (induction es arbitrary: s n db)
  case (Cons e es)
  show ?case
  proof (cases "event_sequence e = s + 1")
    case True
    with Cons.prems obtain db1 where "route_event uuid5 ns now exec types e db = Inr db1"
      "advance_loop uuid5 ns now exec types es (s + 1) (Suc n) db1 = Inr (s', n', gap, db')"
      by (auto simp: rbind_eq_Inr)
    then show ?thesis using Cons.IH route_event_frame(2) by metis
  qed (use Cons.prems in auto)
qed simp

lemma advance_quiet: "quiet db (snd (advance uuid5 ns now exec types limit db))"
proof (cases "find (\<lambda>b. b_key b = (ns, exec)) (ew_bindings db)")
  case None
  then show ?thesis by (simp add: advance_def transaction_def)
next
  case (Some b)
  show ?thesis
  proof (cases "advance_loop uuid5 ns now exec types (pending_inbox ns exec (b_last_sequence b) limit db)
      (b_last_sequence b) 0 db")
    case (Inl e)
    with Some show ?thesis by (simp add: advance_def transaction_def)
  next
    case (Inr r)
    then obtain s n gap db1 where loop: "advance_loop uuid5 ns now exec types
        (pending_inbox ns exec (b_last_sequence b) limit db) (b_last_sequence b) 0 db = Inr (s, n, gap, db1)"
      by (metis prod_cases4)
    have "caught (set_cursor ns now exec s db1) = caught db1"
      unfolding set_cursor_def by (rule caught_update) simp_all
    also have "\<dots> = caught db" using advance_loop_spec [OF loop] by (simp add: caught_def fun_eq_iff)
    finally have "quiet db (set_cursor ns now exec s db1)"
      using advance_loop_quiet [OF loop] by (simp add: quiet_def set_cursor_def inbox_event_def)
    then show ?thesis using Some loop by (simp add: advance_def transaction_def)
  qed
qed

lemma scan_error_quiet: "quiet db (scan_error ns now exec err db)"
  unfolding scan_error_def by (simp add: quiet_def caught_update inbox_event_def)

lemma finish_quiet: "inbox_event (finish_catch_up ns now exec v db) ns' exec' e = inbox_event db ns' exec' e"
  by (simp add: finish_catch_up_def inbox_event_def)

lemma quiet_bind:
  assumes "quiet db (snd (m db))" "\<And>x db'. m db = (Inr x, db') \<Longrightarrow> quiet db' (snd (f x db'))"
  shows "quiet db (snd (sbind m f db))"
  by (rule sbind_rel [where R = quiet]) (auto intro: assms quiet_trans)

lemma ingest_items_quiet: "quiet db (snd (ingest_items co ns now exec fts n js db))"
proof (induction js arbitrary: n db exec)
  case (Cons j js)
  show ?case unfolding ingest_items.simps
    by (auto simp: spure_def intro!: quiet_bind with_fault_rel [where R = quiet] ingest_quiet Cons.IH)
qed (simp add: spure_def)

text \<open>Every item of a page that was ingested is in the inbox.\<close>

lemma ingest_items_stored:
  assumes "ingest_items co ns now exec fts n js db = (Inr u, db')" "j \<in> set js" "rows_ok db'"
  shows "\<exists>e. validate_item co j = Inr e \<and> inbox_event db' ns exec e"
  using assms
proof (induction js arbitrary: n db)
  case (Cons j' js)
  from Cons.prems(1) obtain e db1 where e: "validate_item co j' = Inr e" "execution_id e = exec"
    "ingest ns now e False db = (Inr (), db1)" "ingest_items co ns now exec fts (Suc n) js db1 = (Inr u, db')"
    by (auto simp: sbind_eq spure_def split: if_splits dest!: with_fault_cases(2))
  obtain i where i: "i \<in> set (ew_inbox db1)" "i_key i = (ns, event_id e)" "i_event i = e"
    using ingest_Inr(1) [OF e(3)] by auto
  then have "inbox_event db1 ns (i_execution_id i) e" by (auto simp: inbox_event_def i_key_def)
  then have "inbox_event db' ns (i_execution_id i) e"
    using ingest_items_quiet [of db1 co ns now exec fts "Suc n" js] e(4) by (simp add: quiet_def)
  then have "inbox_event db' ns exec e"
    using Cons.prems(3) e(2) by (auto simp: inbox_event_def rows_ok_def)
  then show ?case using Cons.IH [OF e(4)] Cons.prems(2,3) e(1) by auto
qed simp

lemma with_fault_quiet: "quiet db (snd (f db)) \<Longrightarrow> quiet db (snd (with_fault ft f db))"
  by (rule with_fault_rel [where R = quiet]) auto

lemma advance_fault_quiet: "quiet db (snd (with_fault ft (advance uuid5 ns now exec types limit) db))"
  by (rule with_fault_quiet, rule advance_quiet)

lemma advance_fault_steps: "store_steps uuid5 db (snd (with_fault ft (advance uuid5 ns now exec types limit) db))"
  by (rule steps_fault, rule st_advance)

text \<open>
  The history request of a row, complete and stored: the only branch that closes a catch-up.
\<close>

definition history_complete ::
    "coercions \<Rightarrow> string \<Rightarrow> uuid \<Rightarrow> row_env \<Rightarrow> int \<Rightarrow> int option \<Rightarrow> worker_db \<Rightarrow> bool" where
  "history_complete co ns exec env after gap db = (\<exists>page items. re_history env after = Inr page
     \<and> \<not> truthy (jget0 page ''has_more'') \<and> history_items gap page = Inr items
     \<and> (\<forall>j \<in> set items. \<exists>e. validate_item co j = Inr e \<and> inbox_event db ns exec e))"

lemma history_complete_mono:
  assumes "history_complete co ns exec env after gap db"
    and "\<And>e. inbox_event db ns exec e \<Longrightarrow> inbox_event db' ns exec e"
  shows "history_complete co ns exec env after gap db'"
  using assms unfolding history_complete_def by meson

lemma repair_caught:
  assumes "repair co uuid5 ns now types batch env row cu n gap db = (r, db')" "store_inv uuid5 db"
  shows "quiet db db' \<or> history_complete co ns (b_execution_id row) env
    (case gap of Some g \<Rightarrow> g | None \<Rightarrow> b_last_sequence row) gap db'"
proof -
  let ?exec = "b_execution_id row" and ?after = "case gap of Some g \<Rightarrow> g | None \<Rightarrow> b_last_sequence row"
  consider "db' = db"
    | page items r2 db2 where "re_history env ?after = Inr page" "history_items gap page = Inr items"
      "ingest_items co ns now ?exec (re_ingest env) 0 items db = (Inl r2, db2)" "db' = db2"
    | page items u db2 r3 db3 where "re_history env ?after = Inr page" "history_items gap page = Inr items"
      "ingest_items co ns now ?exec (re_ingest env) 0 items db = (Inr u, db2)"
      "with_fault (re_advance_again env) (advance uuid5 ns now ?exec types batch) db2 = (r3, db3)"
      "db' = db3 \<or> \<not> truthy (jget0 page ''has_more'') \<and>
         db' = snd (with_fault (re_finish env) (swrite (finish_catch_up ns now ?exec (b_catch_up_version row))) db3)"
    using assms(1) unfolding repair_def Let_def
    by (cases "re_history env ?after") (auto simp: sbind_eq spure_def split: if_splits)
  then show ?thesis
  proof cases
    case (2 page items r2 db2)
    then show ?thesis using ingest_items_quiet [of db co ns now ?exec "re_ingest env" 0 items] by simp
  next
    case (3 page items u db2 r3 db3)
    have q: "quiet db db2" "quiet db2 db3"
      using 3(3) ingest_items_quiet [of db co ns now ?exec "re_ingest env" 0 items]
        3(4) advance_fault_quiet [of db2 "re_advance_again env" uuid5 ns now ?exec types batch] by simp_all
    have "store_steps uuid5 db db2"
      using 3(3) ingest_items_steps [of uuid5 db co ns now ?exec "re_ingest env" 0 items] by simp
    then have "rows_ok db2" using store.steps_inv [OF _ assms(2)] store_invD(2) by blast
    then have stored: "\<exists>e. validate_item co j = Inr e \<and> inbox_event db2 ns ?exec e" if "j \<in> set items" for j
      using ingest_items_stored [OF 3(3) that] by simp
    show ?thesis using 3(5)
    proof
      assume "db' = db3"
      then show ?thesis using q quiet_trans by blast
    next
      assume last: "\<not> truthy (jget0 page ''has_more'') \<and>
        db' = snd (with_fault (re_finish env) (swrite (finish_catch_up ns now ?exec (b_catch_up_version row))) db3)"
      have "inbox_event db' ns ?exec e = inbox_event db3 ns ?exec e" for e
        using last finish_quiet by (cases "re_finish env") (simp_all add: swrite_def)
      then have kept: "inbox_event db2 ns ?exec e \<Longrightarrow> inbox_event db' ns ?exec e" for e
        using q(2) by (simp add: quiet_def)
      have "history_complete co ns ?exec env ?after gap db2"
        using 3(1,2) last stored unfolding history_complete_def by blast
      then show ?thesis using history_complete_mono kept by blast
    qed
  qed simp
qed

lemma route_row_tail:
  "quiet (snd (process_row co uuid5 ns now types batch env row db))
     (snd (route_row co uuid5 ns now types batch env row db))"
proof (cases "process_row co uuid5 ns now types batch env row db")
  case (Pair r db1)
  have "quiet db1 (snd (sbind (with_fault (re_scan_error env)
      (swrite (scan_error ns now (b_execution_id row) err))) (\<lambda>_. spure (Inr 0)) db1))" for err
    by (intro quiet_bind with_fault_quiet) (simp_all add: swrite_def spure_def scan_error_quiet)
  then show ?thesis using Pair by (auto simp: route_row_def split: sum.split)
qed

section \<open>Properties\<close>

text \<open>A store that can be unavailable, but fails in no other way.\<close>

fun outage_only :: "fault \<Rightarrow> bool" where
  "outage_only NoFault = True"
| "outage_only (FailBefore e) = unavailable e"
| "outage_only (FailAfter e) = unavailable e"

lemma unavailable_not_bad: "unavailable e \<Longrightarrow> \<not> bad_input e"
  by (cases e) (auto simp: unavailable_def)

lemma ingest_error:
  "ingest ns now e cu db = (Inl x, db') \<Longrightarrow> bad_input x \<or> unavailable x"
  by (auto simp: ingest_def transaction_Inl Let_def unavailable_def split: if_splits option.splits)

lemma ingress_handle_cases:
  "ingress_handle co loads ns now ft msg db = (case from_redis co loads (msg_fields msg) of
       Inl x \<Rightarrow> (ingress_except x, db)
     | Inr e \<Rightarrow> (case with_fault ft (ingest ns now e (reclaimed msg)) db of
         (Inr _, db') \<Rightarrow> (Inr (plain_result ACK ''succeeded''), db')
       | (Inl x, db') \<Rightarrow> (ingress_except x, db')))"
  by (simp add: ingress_handle_def sbind_def spure_def split: sum.split)

lemma ingress_except_Inr: "ingress_except x = Inr r \<Longrightarrow> decision r = DEFER"
  by (auto simp: ingress_except_def plain_result_def split: if_splits)

lemma ingress_ack:
  assumes "ingress_handle co loads ns now NoFault msg db = (Inr r, db')" "decision r = ACK"
  shows "\<exists>e. from_redis co loads (msg_fields msg) = Inr e \<and> ingest ns now e (reclaimed msg) db = (Inr (), db')
    \<and> r = plain_result ACK ''succeeded''"
proof (cases "from_redis co loads (msg_fields msg)")
  case (Inl x)
  then show ?thesis using assms ingress_except_Inr [of x r] by (simp add: ingress_handle_cases)
next
  case (Inr e)
  then show ?thesis using assms ingress_except_Inr [of _ r]
    by (cases "ingest ns now e (reclaimed msg) db"; cases "fst (ingest ns now e (reclaimed msg) db)")
      (auto simp: ingress_handle_cases)
qed

text \<open>
  The ingress acknowledges a message only once its event is in the inbox; it gives a message up
  (\<open>PermanentMessageError\<close>, the dead-letter path) only without having written anything, and keeps it
  pending in every other case. No inbox row is ever lost on the way.
\<close>

theorem ingress_outcome:
  assumes "ingress_handle co loads ns now ft msg db = (res, db')" and "outage_only ft"
  shows "(case res of
       Inr r \<Rightarrow> decision r = DEFER \<or> decision r = ACK \<and> (\<exists>e i. from_redis co loads (msg_fields msg) = Inr e
         \<and> i \<in> set (ew_inbox db') \<and> i_key i = (ns, event_id e) \<and> i_event i = e)
     | Inl x \<Rightarrow> (\<exists>m. x = PermanentMessageError m) \<and> db' = db)
    \<and> set (ew_inbox db) \<subseteq> set (ew_inbox db')"
proof (cases "from_redis co loads (msg_fields msg)")
  case (Inl x)
  then have "bad_input x" using from_redis_error by fastforce
  then show ?thesis using assms(1) Inl by (auto simp: ingress_handle_cases ingress_except_def)
next
  case (Inr e)
  obtain r db1 where run: "ingest ns now e (reclaimed msg) db = (r, db1)" by fastforce
  have rows: "set (ew_inbox db) \<subseteq> set (ew_inbox db1)"
    using run ingest_Inl [of ns now e "reclaimed msg" db _ db1] ingest_Inr(2) [of ns now e "reclaimed msg" db _ db1]
    by (cases r) auto
  note defs = ingress_handle_cases ingress_except_def plain_result_def
  show ?thesis
  proof (cases ft)
    case NoFault
    show ?thesis
    proof (cases r)
      case r: (Inl x)
      have "db1 = db" "bad_input x \<or> unavailable x"
        using run r ingest_Inl ingest_error by metis+
      then show ?thesis using assms(1) Inr NoFault run r by (auto simp: defs)
    next
      case r: (Inr u)
      have "res = Inr (plain_result ACK ''succeeded'')" "db' = db1"
        using assms(1) Inr NoFault run r by (auto simp: defs)
      moreover obtain i where "i \<in> set (ew_inbox db1)" "i_key i = (ns, event_id e)" "i_event i = e"
        using ingest_Inr(1) run r by blast
      ultimately show ?thesis using Inr rows by (auto simp: plain_result_def)
    qed
  next
    case (FailBefore x)
    then show ?thesis using assms Inr unavailable_not_bad [of x] by (auto simp: defs)
  next
    case (FailAfter x)
    then show ?thesis using assms Inr run rows unavailable_not_bad [of x] by (auto simp: defs)
  qed
qed

definition demo_coercions :: coercions where
  "demo_coercions = \<lparr>to_uuid = (\<lambda>j. case j of JStr s \<Rightarrow> uuid_parse s | _ \<Rightarrow> None),
     to_int = (\<lambda>j. case j of JStr s \<Rightarrow> py_int s | JInt n \<Rightarrow> Some n | _ \<Rightarrow> None),
     to_str = (\<lambda>j. case j of JStr s \<Rightarrow> Some s | _ \<Rightarrow> None)\<rparr>"

definition demo_loads :: "string \<Rightarrow> json option" where
  "demo_loads s = (if s = ''{}'' then Some (JObj []) else None)"

definition demo_message :: "string \<Rightarrow> stream_message" where
  "demo_message n = \<lparr>message_id = ''1-0'', msg_fields =
     [(''event_id'', ''00000000000000000000000000000001''),
      (''execution_id'', ''00000000000000000000000000000002''),
      (''event_type'', ''execution.completed''), (''event_sequence'', n), (''schema_version'', ''1.0''),
      (''occurred_at'', ''now''), (''payload'', ''{}'')], reclaimed = False\<rparr>"

definition demo_handled :: "string \<Rightarrow> handler_result result \<times> worker_db" where
  "demo_handled n = ingress_handle demo_coercions demo_loads ''w'' 0 NoFault (demo_message n) empty_db"

lemma demo_handled_ack:
  "ingress_handle demo_coercions demo_loads ''w'' 0 NoFault (demo_message ''1'') empty_db =
     (Inr (plain_result ACK ''succeeded''), snd (demo_handled ''1''))"
proof -
  have "\<not> isl (fst (demo_handled ''1'')) \<and> projr (fst (demo_handled ''1'')) = plain_result ACK ''succeeded''"
    by code_simp
  then show ?thesis by (cases "fst (demo_handled ''1'')") (simp_all add: demo_handled_def prod_eq_iff)
qed

theorem ingress_outcome_witness:
  "\<exists>i \<in> set (ew_inbox (snd (demo_handled ''1''))). i_namespace i = ''w''"
  using ingress_outcome [OF demo_handled_ack] by (auto simp: plain_result_def i_key_def)

text \<open>
  redelivery is harmless. A message that was acknowledged once is acknowledged again, whenever
  it arrives, and changes no table.
\<close>

theorem ingress_redelivery:
  assumes "reachable_db uuid5 db" "ingress_handle co loads ns now NoFault msg db = (Inr r, db')"
    and "decision r = ACK" "\<not> reclaimed msg"
  shows "ingress_handle co loads ns now' NoFault msg db' = (Inr r, db')"
proof -
  obtain e where e: "from_redis co loads (msg_fields msg) = Inr e" "ingest ns now e False db = (Inr (), db')"
    "r = plain_result ACK ''succeeded''"
    using ingress_ack [OF assms(2,3)] assms(4) by auto
  have "reachable_db uuid5 db'" using assms(1) e(2) reach_step st_ingest by (metis snd_conv)
  then have "ingest ns now' e False db' = (Inr (), db')"
    using ingest_again [OF e(2)] reachable_store_invD(1) by blast
  then show ?thesis using e assms(4) by (simp add: ingress_handle_cases)
qed

theorem ingress_redelivery_witness:
  "ingress_handle demo_coercions demo_loads ''w'' 5 NoFault (demo_message ''1'') (snd (demo_handled ''1'')) =
     (Inr (plain_result ACK ''succeeded''), snd (demo_handled ''1''))"
  by (rule ingress_redelivery [OF reach_init demo_handled_ack])
    (simp_all add: plain_result_def demo_message_def)

text \<open>
  C35: a message whose sequence number does not fit the \<open>BIGINT\<close> column is never dead-lettered: the
  database rejects the value with an error of the same family as an outage, so every delivery is
  deferred as \<open>database_wait\<close> and writes nothing.
\<close>

theorem ingress_oversized:
  assumes "from_redis co loads (msg_fields msg) = Inr e" and "2 ^ 63 \<le> event_sequence e"
  shows "ingress_handle co loads ns now NoFault msg db = (Inr (plain_result DEFER ''database_wait''), db)"
  using assms
  by (simp add: ingress_handle_def sbind_def spure_def ingest_def transaction_def bigint_ok_def
      ingress_except_def unavailable_def)

lemma demo_uuids:
  "uuid_parse ''00000000000000000000000000000001'' = Some 1"
  "uuid_parse ''00000000000000000000000000000002'' = Some 2"
  by code_simp+

lemma demo_oversized:
  "\<exists>e. from_redis demo_coercions demo_loads (msg_fields (demo_message (py_str_int (2 ^ 63)))) = Inr e
     \<and> event_sequence e = 2 ^ 63"
  by (simp add: from_redis_def demo_message_def demo_loads_def event_model_validate_def need_def
      demo_coercions_def demo_uuids require_def text_simps del: power_numeral)

theorem ingress_oversized_witness:
  "ingress_handle demo_coercions demo_loads ''w'' 0 NoFault (demo_message (py_str_int (2 ^ 63))) empty_db =
     (Inr (plain_result DEFER ''database_wait''), empty_db)"
proof -
  obtain e where "from_redis demo_coercions demo_loads (msg_fields (demo_message (py_str_int (2 ^ 63)))) = Inr e"
    "event_sequence e = 2 ^ 63" using demo_oversized by blast
  from ingress_oversized [OF this(1)] this(2) show ?thesis by simp
qed

text \<open>
  one pass of the router leads from a reachable state to a reachable state whatever the
  executor's history returns and whichever store calls fail, and it returns a count of routed
  events unless a task is cancelled or the failure itself cannot be recorded.
\<close>

theorem router_once_sound:
  assumes "reachable_db uuid5 db"
  shows "reachable_db uuid5 (snd (router_once co uuid5 ns now types batch envs db))"
proof -
  have "store_steps uuid5 db (snd (router_once co uuid5 ns now types batch envs db))"
    unfolding router_once_def
    by (rule route_rows_steps) (auto intro: store.reachable_inv assms scan_candidates_known)
  then show ?thesis using assms by (rule reachable_rtranclp)
qed

definition demo_env :: row_env where
  "demo_env = \<lparr>re_advance = NoFault,
     re_history = (\<lambda>_. Inr (JObj [(''has_more'', JBool False), (''items'', JArr [])])),
     re_ingest = (\<lambda>_. NoFault), re_advance_again = NoFault, re_finish = NoFault, re_scan_error = NoFault\<rparr>"

theorem router_once_sound_witness:
  "reachable_db demo_uuid5 (snd (router_once demo_coercions demo_uuid5 ''w'' 0 {''execution.completed''} 2
     (\<lambda>_. demo_env) demo_ingested))"
  by (rule router_once_sound, rule demo_reachable(1))

text \<open>
  a binding counts as caught up only after a complete history. When routing a row raises its
  caught-up version, the executor answered the row's request with a page that announces nothing
  more, and every item of that page is a valid event of the execution and stands in the inbox.
\<close>

theorem catch_up_needs_history:
  assumes "reachable_db uuid5 db" "route_row co uuid5 ns now types batch env row db = (res, db')"
    and "caught db' (ns, b_execution_id row) \<noteq> caught db (ns, b_execution_id row)"
  shows "\<exists>after gap page items. re_history env after = Inr page \<and> \<not> truthy (jget0 page ''has_more'')
    \<and> history_items gap page = Inr items \<and> (\<forall>j \<in> set items. \<exists>e. validate_item co j = Inr e
      \<and> inbox_event db' ns (b_execution_id row) e)"
proof -
  let ?adv = "advance uuid5 ns now (b_execution_id row) types batch"
  obtain r db1 where run: "process_row co uuid5 ns now types batch env row db = (r, db1)" by fastforce
  have tail: "quiet db1 db'"
    using assms(2) run route_row_tail [of co uuid5 ns now types batch env row db] by simp
  obtain r0 db0 where adv: "with_fault (re_advance env) ?adv db = (r0, db0)" by fastforce
  have q: "quiet db db0" "store_inv uuid5 db0"
    using adv advance_fault_quiet [of db "re_advance env" uuid5 ns now "b_execution_id row" types batch]
      store.steps_inv [OF advance_fault_steps, of uuid5 db "re_advance env" ns now "b_execution_id row" types batch]
      store.reachable_inv [OF assms(1)] by simp_all
  have "db1 = db0 \<or> (\<exists>n gap cu. repair co uuid5 ns now types batch env row cu n gap db0 = (r, db1))"
    using run adv by (auto simp: process_row_def sbind_def spure_def Let_def split: sum.splits if_splits)
  then have "quiet db db1 \<or> (\<exists>after gap. history_complete co ns (b_execution_id row) env after gap db1)"
    using repair_caught [OF _ q(2)] q(1) quiet_trans by blast
  then obtain after gap where "history_complete co ns (b_execution_id row) env after gap db1"
    using assms(3) tail by (auto simp: quiet_def)
  then have "history_complete co ns (b_execution_id row) env after gap db'"
    by (rule history_complete_mono) (use tail in \<open>simp add: quiet_def\<close>)
  then show ?thesis unfolding history_complete_def by blast
qed

definition demo_reclaimed :: worker_db where
  "demo_reclaimed = snd (ingest ''w'' 0 (demo_event 1) True demo_single)"

definition demo_caught_up :: "nat result \<times> worker_db" where
  "demo_caught_up = route_row demo_coercions demo_uuid5 ''w'' 0 {''execution.completed''} 2 demo_env
     (hd (ew_bindings demo_reclaimed)) demo_reclaimed"

theorem catch_up_needs_history_witness:
  "caught (snd demo_caught_up) (''w'', 2) = Some 1 \<and> (\<exists>after page. re_history demo_env after = Inr page
     \<and> \<not> truthy (jget0 page ''has_more''))"
proof -
  have reach: "reachable_db demo_uuid5 demo_reclaimed"
    unfolding demo_reclaimed_def by (rule reach_step, rule demo_single_reachable, rule st_ingest)
  have run: "route_row demo_coercions demo_uuid5 ''w'' 0 {''execution.completed''} 2 demo_env
     (hd (ew_bindings demo_reclaimed)) demo_reclaimed = (fst demo_caught_up, snd demo_caught_up)"
    by (simp add: demo_caught_up_def)
  have c: "caught (snd demo_caught_up) (''w'', 2) = Some 1" "caught demo_reclaimed (''w'', 2) = Some 0"
    "b_execution_id (hd (ew_bindings demo_reclaimed)) = 2"
    by code_simp+
  from catch_up_needs_history [OF reach run] c show ?thesis by fastforce
qed

end
