(* ===== verification/Redis.thy ===== *)
theory Redis
  imports Prelude
begin

text \<open>
  The Redis commands the worker uses, by their documented behaviour: string keys with an expiry
  (\<open>SET NX EX\<close>, \<open>DEL\<close>, and the three Lua scripts of \<open>src/worker/consumer.py\<close>), and streams with
  consumer groups (\<open>XADD\<close>, \<open>XREADGROUP\<close>, \<open>XACK\<close>, \<open>XPENDING\<close>, \<open>XCLAIM\<close>, \<open>XRANGE\<close>). A stream identifier
  is a pair of naturals; a script runs atomically on the server. Every command takes the server
  time. The lemmas give what each command leaves of the keys and of the pending list.
\<close>

section \<open>State\<close>

type_synonym sid = "nat \<times> nat"

record pending_entry =
  pe_id :: sid
  pe_consumer :: string
  pe_time :: usec

record stream_group =
  g_last :: sid
  g_pel :: "pending_entry list"

record rstream =
  st_entries :: "(sid \<times> (string \<times> string) list) list"
  st_last :: sid
  st_groups :: "string \<Rightarrow> stream_group option"

record redis =
  r_keys :: "string \<Rightarrow> (string \<times> usec option) option"
  r_streams :: "string \<Rightarrow> rstream option"

definition empty_redis :: redis where
  "empty_redis = \<lparr>r_keys = (\<lambda>_. None), r_streams = (\<lambda>_. None)\<rparr>"

definition empty_stream :: rstream where
  "empty_stream = \<lparr>st_entries = [], st_last = (0, 0), st_groups = (\<lambda>_. None)\<rparr>"

definition sid_le :: "sid \<Rightarrow> sid \<Rightarrow> bool" where
  "sid_le a b = (fst a < fst b \<or> (fst a = fst b \<and> snd a \<le> snd b))"

definition sid_lt :: "sid \<Rightarrow> sid \<Rightarrow> bool" where
  "sid_lt a b = (fst a < fst b \<or> (fst a = fst b \<and> snd a < snd b))"

definition sid_str :: "sid \<Rightarrow> string" where
  "sid_str a = str_nat (fst a) @ CHR ''-'' # str_nat (snd a)"

section \<open>Keys\<close>

definition live :: "usec \<Rightarrow> usec option \<Rightarrow> bool" where
  "live now expiry = (case expiry of None \<Rightarrow> True | Some t \<Rightarrow> now < t)"

definition redis_get :: "usec \<Rightarrow> string \<Rightarrow> redis \<Rightarrow> string option" where
  "redis_get now k r = (case r_keys r k of
       None \<Rightarrow> None | Some (v, expiry) \<Rightarrow> if live now expiry then Some v else None)"

definition redis_put :: "string \<Rightarrow> string \<Rightarrow> usec option \<Rightarrow> redis \<Rightarrow> redis" where
  "redis_put k v expiry r = r\<lparr>r_keys := (r_keys r)(k := Some (v, expiry))\<rparr>"

definition redis_del :: "string \<Rightarrow> redis \<Rightarrow> redis" where
  "redis_del k r = r\<lparr>r_keys := (r_keys r)(k := None)\<rparr>"

text \<open>\<open>SET key value NX EX ttl\<close>.\<close>

definition set_nx_ex :: "usec \<Rightarrow> string \<Rightarrow> string \<Rightarrow> int \<Rightarrow> redis \<Rightarrow> bool \<times> redis" where
  "set_nx_ex now k v ttl r = (if redis_get now k r = None
     then (True, redis_put k v (Some (now + seconds ttl)) r) else (False, r))"

text \<open>\<open>_RENEW_LOCK_SCRIPT\<close>, \<open>_RELEASE_LOCK_SCRIPT\<close> and \<open>_INCREMENT_RETRY_SCRIPT\<close>.\<close>

definition renew_lock_script :: "usec \<Rightarrow> string \<Rightarrow> string \<Rightarrow> int \<Rightarrow> redis \<Rightarrow> int \<times> redis" where
  "renew_lock_script now k v ttl r = (if redis_get now k r = Some v
     then (1, redis_put k v (Some (now + seconds ttl)) r) else (0, r))"

definition release_lock_script :: "usec \<Rightarrow> string \<Rightarrow> string \<Rightarrow> redis \<Rightarrow> int \<times> redis" where
  "release_lock_script now k v r = (if redis_get now k r = Some v
     then (1, redis_del k r) else (0, r))"

text \<open>\<open>INCR\<close> fails on a value that is not an integer; the expiry restarts at every increment.\<close>

definition increment_retry_script :: "usec \<Rightarrow> string \<Rightarrow> int \<Rightarrow> redis \<Rightarrow> int result \<times> redis" where
  "increment_retry_script now k ttl r =
     (case (case redis_get now k r of None \<Rightarrow> Some 0 | Some v \<Rightarrow> py_int v) of
        None \<Rightarrow> (Inl (ResponseError ''value is not an integer''), r)
      | Some n \<Rightarrow> (Inr (n + 1), redis_put k (py_str_int (n + 1)) (Some (now + seconds ttl)) r))"

section \<open>Streams\<close>

definition stream_of :: "string \<Rightarrow> redis \<Rightarrow> rstream" where
  "stream_of s r = (case r_streams r s of None \<Rightarrow> empty_stream | Some st \<Rightarrow> st)"

definition put_stream :: "string \<Rightarrow> rstream \<Rightarrow> redis \<Rightarrow> redis" where
  "put_stream s st r = r\<lparr>r_streams := (r_streams r)(s := Some st)\<rparr>"

text \<open>The identifier \<open>XADD\<close> generates: the server's milliseconds, or the next after the last one.\<close>

definition auto_id :: "usec \<Rightarrow> sid \<Rightarrow> sid" where
  "auto_id now prev = (let ms = nat (now div 1000) in
     if fst prev < ms then (ms, 0) else (fst prev, snd prev + 1))"

definition xadd :: "usec \<Rightarrow> string \<Rightarrow> (string \<times> string) list \<Rightarrow> redis \<Rightarrow> redis" where
  "xadd now s fs r = (let st = stream_of s r; i = auto_id now (st_last st)
     in put_stream s (st\<lparr>st_entries := st_entries st @ [(i, fs)], st_last := i\<rparr>) r)"

text \<open>\<open>XGROUP CREATE ... MKSTREAM\<close>; an existing group answers \<open>BUSYGROUP\<close>.\<close>

definition xgroup_create :: "string \<Rightarrow> string \<Rightarrow> sid \<Rightarrow> redis \<Rightarrow> unit result \<times> redis" where
  "xgroup_create s g start r = (let st = stream_of s r in
     (case st_groups st g of
        Some _ \<Rightarrow> (Inl (ResponseError ''BUSYGROUP Consumer Group name already exists''), r)
      | None \<Rightarrow> (Inr (), put_stream s (st\<lparr>st_groups :=
          (st_groups st)(g := Some \<lparr>g_last = start, g_pel = []\<rparr>)\<rparr>) r)))"

definition group_of :: "string \<Rightarrow> string \<Rightarrow> redis \<Rightarrow> stream_group option" where
  "group_of s g r = (case r_streams r s of None \<Rightarrow> None | Some st \<Rightarrow> st_groups st g)"

definition put_group :: "string \<Rightarrow> string \<Rightarrow> stream_group \<Rightarrow> redis \<Rightarrow> redis" where
  "put_group s g gr r = (let st = stream_of s r
     in put_stream s (st\<lparr>st_groups := (st_groups st)(g := Some gr)\<rparr>) r)"

text \<open>The identifiers pending in a group.\<close>

definition pending_ids :: "string \<Rightarrow> string \<Rightarrow> redis \<Rightarrow> sid list" where
  "pending_ids s g r = (case group_of s g r of None \<Rightarrow> [] | Some gr \<Rightarrow> map pe_id (g_pel gr))"

definition xack :: "string \<Rightarrow> string \<Rightarrow> sid \<Rightarrow> redis \<Rightarrow> redis" where
  "xack s g i r = (case group_of s g r of
       None \<Rightarrow> r
     | Some gr \<Rightarrow> put_group s g (gr\<lparr>g_pel := filter (\<lambda>p. pe_id p \<noteq> i) (g_pel gr)\<rparr>) r)"

text \<open>\<open>XREADGROUP ... COUNT 1 STREAMS s >\<close>: the first entry never delivered to the group.\<close>

definition unread :: "rstream \<Rightarrow> stream_group \<Rightarrow> (sid \<times> (string \<times> string) list) list" where
  "unread st gr = filter (\<lambda>e. sid_lt (g_last gr) (fst e)) (st_entries st)"

definition xreadgroup1 ::
    "usec \<Rightarrow> string \<Rightarrow> string \<Rightarrow> string \<Rightarrow> redis \<Rightarrow> (sid \<times> (string \<times> string) list) list result \<times> redis" where
  "xreadgroup1 now s g c r = (case group_of s g r of
       None \<Rightarrow> (Inl (ResponseError ''NOGROUP''), r)
     | Some gr \<Rightarrow> (case unread (stream_of s r) gr of
         [] \<Rightarrow> (Inr [], r)
       | e # _ \<Rightarrow> (Inr [e], put_group s g (gr\<lparr>g_last := fst e,
           g_pel := g_pel gr @ [\<lparr>pe_id = fst e, pe_consumer = c, pe_time = now\<rparr>]\<rparr>) r)))"

text \<open>\<open>XPENDING s g from + count\<close>: the pending entries from an identifier on, in identifier order.\<close>

definition xpending :: "sid \<Rightarrow> nat \<Rightarrow> stream_group \<Rightarrow> pending_entry list" where
  "xpending start n gr = take n (filter (\<lambda>p. sid_le start (pe_id p)) (g_pel gr))"

definition idle_ms :: "usec \<Rightarrow> pending_entry \<Rightarrow> int" where
  "idle_ms now p = (now - pe_time p) div 1000"

text \<open>Taking an entry over: its owner and its delivery time change.\<close>

definition reassign :: "usec \<Rightarrow> string \<Rightarrow> sid \<Rightarrow> stream_group \<Rightarrow> stream_group" where
  "reassign now c i gr = gr\<lparr>g_pel := sql_update (\<lambda>p. pe_id p = i)
     (\<lambda>p. p\<lparr>pe_consumer := c, pe_time := now\<rparr>) (g_pel gr)\<rparr>"

section \<open>Lemmas\<close>

lemma redis_get_put [simp]:
  "redis_get now k (redis_put k' v expiry r) =
     (if k = k' then (if live now expiry then Some v else None) else redis_get now k r)"
  by (simp add: redis_get_def redis_put_def)

lemma redis_get_del [simp]:
  "redis_get now k (redis_del k' r) = (if k = k' then None else redis_get now k r)"
  by (simp add: redis_get_def redis_del_def)

lemma r_streams_keys [simp]:
  "r_streams (redis_put k v expiry r) = r_streams r" "r_streams (redis_del k r) = r_streams r"
  by (simp_all add: redis_put_def redis_del_def)

lemma r_keys_streams [simp]:
  "r_keys (put_stream s st r) = r_keys r" "r_keys (put_group s g gr r) = r_keys r"
  by (simp_all add: put_stream_def put_group_def Let_def)

lemma redis_get_keys: "r_keys r' = r_keys r \<Longrightarrow> redis_get now k r' = redis_get now k r"
  by (simp add: redis_get_def)

lemma stream_of_put [simp]:
  "stream_of s (put_stream s' st r) = (if s = s' then st else stream_of s r)"
  by (simp add: stream_of_def put_stream_def)

lemma group_of_put [simp]:
  "group_of s g (put_group s' g' gr r) = (if s = s' \<and> g = g' then Some gr else group_of s g r)"
  by (auto simp: group_of_def put_group_def put_stream_def Let_def stream_of_def empty_stream_def
      split: option.splits)

lemma group_of_frame:
  "group_of s g (redis_put k v expiry r) = group_of s g r" "group_of s g (redis_del k r) = group_of s g r"
  by (simp_all add: group_of_def)

lemma group_of_xadd [simp]: "group_of s g (xadd now s' fs r) = group_of s g r"
  by (auto simp: group_of_def xadd_def put_stream_def Let_def stream_of_def empty_stream_def
      split: option.splits)

lemma xack_pending: "set (pending_ids s g (xack s g i r)) = set (pending_ids s g r) - {i}"
  by (auto simp: pending_ids_def xack_def split: option.splits)

lemma xack_pending_other:
  "s \<noteq> s' \<or> g \<noteq> g' \<Longrightarrow> pending_ids s g (xack s' g' i r) = pending_ids s g r"
  by (auto simp: pending_ids_def xack_def split: option.splits)

lemma xack_keys [simp]: "r_keys (xack s g i r) = r_keys r"
  by (simp add: xack_def split: option.splits)

lemma put_group_entries [simp]: "st_entries (stream_of s (put_group s' g gr r)) = st_entries (stream_of s r)"
  by (simp add: put_group_def Let_def)

lemma xack_entries [simp]: "st_entries (stream_of s (xack s' g i r)) = st_entries (stream_of s r)"
  by (simp add: xack_def split: option.splits)

lemma xadd_entries:
  "st_entries (stream_of s (xadd now s' fs r)) = st_entries (stream_of s r) @
     (if s = s' then [(auto_id now (st_last (stream_of s r)), fs)] else [])"
  by (simp add: xadd_def Let_def)

lemma stream_of_keys [simp]:
  "stream_of s (redis_put k v expiry r) = stream_of s r" "stream_of s (redis_del k r) = stream_of s r"
  by (simp_all add: stream_of_def)

lemma xadd_keys [simp]: "r_keys (xadd now s fs r) = r_keys r"
  by (simp add: xadd_def Let_def)

lemma reassign_ids [simp]: "map pe_id (g_pel (reassign now c i gr)) = map pe_id (g_pel gr)"
  by (simp add: reassign_def map_sql_update_key)

lemma sid_order:
  "sid_le a a" "sid_le a b \<Longrightarrow> sid_le b c \<Longrightarrow> sid_le a c" "sid_lt a b \<longleftrightarrow> sid_le a b \<and> a \<noteq> b"
  "\<not> sid_le a b \<longleftrightarrow> sid_lt b a"
  by (auto simp: sid_le_def sid_lt_def prod_eq_iff)

lemma auto_id_gt: "sid_lt prev (auto_id now prev)"
  by (simp add: auto_id_def Let_def sid_lt_def)

end
