(* ===== verification/Worker_Guard.thy ===== *)
theory Worker_Guard
  imports Redis Transitions
begin

text \<open>
  The session lease of \<open>src/worker/guard.py\<close> (\<open>SessionGuard\<close>), which the stream consumer's message
  lock shares (\<open>_acquire_lock\<close>, \<open>_release_lock\<close>): acquisition, the heartbeat's renewal, and \<open>hold\<close>
  around a body. The locale \<open>lease_store\<close> is what the lease relies on in the key store, interpreted
  on the Redis scripts; the step relation \<open>lease_step\<close> interleaves any number of clients with time,
  and the lemmas show that ownership is exclusive until its deadline.
\<close>

section \<open>The guard\<close>

definition SessionGuard_init :: "int \<Rightarrow> int \<Rightarrow> unit result" where
  "SessionGuard_init ttl renew_seconds =
     (if 0 < renew_seconds * 2 \<and> renew_seconds * 2 < ttl then Inr ()
      else Inl (ValueError ''Renewal must precede lock expiry''))"

text \<open>\<open>SessionGuard.key\<close>; \<open>sha256\<close> is the hexadecimal digest.\<close>

definition guard_key :: "(string \<Rightarrow> string) \<Rightarrow> string \<Rightarrow> string \<Rightarrow> string" where
  "guard_key sha256 ns session = ns @ '':session-lock:'' @ sha256 session"

text \<open>
  One heartbeat: \<open>None\<close> as the fault is an answer in time, \<open>Some\<close> any exception of the call, the
  timeout included. The result says whether the lease is lost (\<open>lost.set()\<close>).
\<close>

definition renew_once :: "usec \<Rightarrow> string \<Rightarrow> string \<Rightarrow> int \<Rightarrow> exn option \<Rightarrow> redis \<Rightarrow> bool \<times> redis" where
  "renew_once now key token ttl fault r = (case fault of
       Some e \<Rightarrow> (is_Exception e, r)
     | None \<Rightarrow> (let (n, r') = renew_lock_script now key token ttl r in (n \<noteq> 1, r')))"

text \<open>
  What the environment decides during \<open>hold\<close>: the times of acquisition and release, whether either
  call fails, and whether the heartbeat lost the lease while the body ran.
\<close>

record hold_env =
  h_acquired_at :: usec
  h_acquire_fault :: "exn option"
  h_token :: string
  h_lost :: bool
  h_released_at :: usec
  h_release_fault :: bool

definition hold_outcome :: "string \<Rightarrow> bool \<Rightarrow> 'a result \<Rightarrow> 'a result" where
  "hold_outcome key lost res = (case res of
       Inr x \<Rightarrow> if lost then Inl (LeaseLostError key) else Inr x
     | Inl e \<Rightarrow> if e = CancelledError \<and> lost then Inl (LeaseLostError key) else Inl e)"

definition hold ::
    "string \<Rightarrow> int \<Rightarrow> hold_env \<Rightarrow> (redis \<Rightarrow> 's \<Rightarrow> 'a result \<times> redis \<times> 's) \<Rightarrow> redis \<Rightarrow> 's
      \<Rightarrow> 'a result \<times> redis \<times> 's" where
  "hold key ttl env body r s = (case h_acquire_fault env of
       Some e \<Rightarrow> (Inl e, r, s)
     | None \<Rightarrow>
        (let (acquired, r1) = set_nx_ex (h_acquired_at env) key (h_token env) ttl r in
         if \<not> acquired
         then (Inl (DeferEvent ''Session is being invoked by another process''), r1, s)
         else (let (res, r2, s2) = body r1 s;
                   r3 = (if h_release_fault env then r2
                         else snd (release_lock_script (h_released_at env) key (h_token env) r2))
               in (hold_outcome key (h_lost env) res, r3, s2))))"

section \<open>What a lease needs of its store\<close>

text \<open>
  \<open>owner now k s\<close> is the token that holds \<open>k\<close>. The laws: an acquisition succeeds exactly on a free
  key and owns it for \<open>span\<close>; a renewal succeeds exactly for the owner and extends it; a release
  changes nothing unless its caller is the owner; no call touches another key.
\<close>

locale lease_store =
  fixes owner :: "usec \<Rightarrow> 'k \<Rightarrow> 's \<Rightarrow> 't option"
    and acquire :: "usec \<Rightarrow> 'k \<Rightarrow> 't \<Rightarrow> 's \<Rightarrow> bool \<times> 's"
    and renew :: "usec \<Rightarrow> 'k \<Rightarrow> 't \<Rightarrow> 's \<Rightarrow> bool \<times> 's"
    and release :: "usec \<Rightarrow> 'k \<Rightarrow> 't \<Rightarrow> 's \<Rightarrow> 's"
    and span :: usec
  assumes acquire_iff: "fst (acquire now k t s) \<longleftrightarrow> owner now k s = None"
    and acquire_owner: "owner now k s = None \<Longrightarrow> owner u k (snd (acquire now k t s)) =
      (if u < now + span then Some t else None)"
    and acquire_frame: "k' \<noteq> k \<or> owner now k s \<noteq> None \<Longrightarrow>
      owner u k' (snd (acquire now k t s)) = owner u k' s"
    and renew_iff: "fst (renew now k t s) \<longleftrightarrow> owner now k s = Some t"
    and renew_owner: "owner now k s = Some t \<Longrightarrow> owner u k (snd (renew now k t s)) =
      (if u < now + span then Some t else None)"
    and renew_frame: "k' \<noteq> k \<or> owner now k s \<noteq> Some t \<Longrightarrow>
      owner u k' (snd (renew now k t s)) = owner u k' s"
    and release_frame: "k' \<noteq> k \<or> owner now k s \<noteq> Some t \<Longrightarrow>
      owner u k' (release now k t s) = owner u k' s"
begin

text \<open>Ownership from now to a deadline survives every call of every other client.\<close>

lemma kept_acquire:
  assumes "\<forall>u. now \<le> u \<and> u < d \<longrightarrow> owner u k s = Some t" "now < d" "now \<le> u" "u < d"
  shows "owner u k (snd (acquire now k' t' s)) = Some t"
  using assms acquire_frame [of k k' now s u t'] by force

lemma kept_renew:
  assumes "\<forall>u. now \<le> u \<and> u < d \<longrightarrow> owner u k s = Some t" "now < d" "now \<le> u" "u < d" "t' \<noteq> t"
  shows "owner u k (snd (renew now k' t' s)) = Some t"
  using assms renew_frame [of k k' now s t' u] by force

lemma kept_release:
  assumes "\<forall>u. now \<le> u \<and> u < d \<longrightarrow> owner u k s = Some t" "now < d" "now \<le> u" "u < d" "t' \<noteq> t"
  shows "owner u k (release now k' t' s) = Some t"
  using assms release_frame [of k k' now s t' u] by force

end

definition lock_renew :: "int \<Rightarrow> usec \<Rightarrow> string \<Rightarrow> string \<Rightarrow> redis \<Rightarrow> bool \<times> redis" where
  "lock_renew ttl now k t r = (let (n, r') = renew_lock_script now k t ttl r in (n = 1, r'))"

definition lock_release :: "usec \<Rightarrow> string \<Rightarrow> string \<Rightarrow> redis \<Rightarrow> redis" where
  "lock_release now k t r = snd (release_lock_script now k t r)"

interpretation rl: lease_store redis_get "\<lambda>now k t. set_nx_ex now k t ttl" "lock_renew ttl" lock_release "seconds ttl"
  for ttl :: int
  by unfold_locales
    (auto simp: set_nx_ex_def lock_renew_def lock_release_def renew_lock_script_def release_lock_script_def live_def)

section \<open>Interleaved clients\<close>

text \<open>
  The server, its clock, the tokens drawn so far, and each client's belief: the key its token holds
  and the deadline, the server time of its last successful call plus the time to live.
\<close>

record lease_sys =
  ls_redis :: redis
  ls_now :: usec
  ls_used :: "string set"
  ls_held :: "string \<Rightarrow> (string \<times> usec) option"

definition lease_init :: "lease_sys \<Rightarrow> bool" where
  "lease_init y = (ls_held y = (\<lambda>_. None))"

definition lease_acquire :: "int \<Rightarrow> string \<Rightarrow> string \<Rightarrow> lease_sys \<Rightarrow> lease_sys" where
  "lease_acquire ttl k t y =
     (let (ok, r) = set_nx_ex (ls_now y) k t ttl (ls_redis y)
      in y\<lparr>ls_redis := r, ls_used := insert t (ls_used y),
           ls_held := (if ok then (ls_held y)(t := Some (k, ls_now y + seconds ttl)) else ls_held y)\<rparr>)"

definition lease_renew :: "int \<Rightarrow> string \<Rightarrow> exn option \<Rightarrow> string \<Rightarrow> lease_sys \<Rightarrow> lease_sys" where
  "lease_renew ttl t fault k y =
     (let (lost, r) = renew_once (ls_now y) k t ttl fault (ls_redis y)
      in y\<lparr>ls_redis := r, ls_held := (if lost then (ls_held y)(t := None)
             else if fault = None then (ls_held y)(t := Some (k, ls_now y + seconds ttl))
             else ls_held y)\<rparr>)"

definition lease_release :: "string \<Rightarrow> string \<Rightarrow> lease_sys \<Rightarrow> lease_sys" where
  "lease_release t k y = y\<lparr>ls_redis := lock_release (ls_now y) k t (ls_redis y),
     ls_held := (ls_held y)(t := None)\<rparr>"

text \<open>
  The steps: time passes, a client with a fresh token (\<open>uuid4\<close>) acquires, a client's heartbeat
  renews, a client releases, or a client dies and leaves its key to expire.
\<close>

inductive lease_step :: "int \<Rightarrow> lease_sys \<Rightarrow> lease_sys \<Rightarrow> bool" for ttl :: int where
  ls_tick: "0 \<le> dt \<Longrightarrow> lease_step ttl y (y\<lparr>ls_now := ls_now y + dt\<rparr>)"
| ls_acquire: "t \<notin> ls_used y \<Longrightarrow> lease_step ttl y (lease_acquire ttl k t y)"
| ls_renew: "ls_held y t = Some (k, d) \<Longrightarrow> lease_step ttl y (lease_renew ttl t fault k y)"
| ls_release: "t \<in> ls_used y \<Longrightarrow> lease_step ttl y (lease_release t k y)"
| ls_crash: "lease_step ttl y (y\<lparr>ls_held := (ls_held y)(t := None)\<rparr>)"

inductive_cases lease_stepE: "lease_step ttl y y'"

definition owns_until :: "lease_sys \<Rightarrow> string \<Rightarrow> string \<Rightarrow> usec \<Rightarrow> bool" where
  "owns_until y k t d = (\<forall>u. ls_now y \<le> u \<and> u < d \<longrightarrow> redis_get u k (ls_redis y) = Some t)"

definition lease_inv :: "lease_sys \<Rightarrow> bool" where
  "lease_inv y = (\<forall>t k d. ls_held y t = Some (k, d) \<longrightarrow> t \<in> ls_used y \<and> owns_until y k t d)"

section \<open>Preservation\<close>

lemma lease_inv_tick: "lease_inv y \<Longrightarrow> 0 \<le> dt \<Longrightarrow> lease_inv (y\<lparr>ls_now := ls_now y + dt\<rparr>)"
  by (fastforce simp: lease_inv_def owns_until_def)

lemma owns_acquire:
  assumes "owns_until y k t d"
  shows "owns_until (lease_acquire ttl k' t' y) k t d"
  using assms rl.kept_acquire [where ttl = ttl and now = "ls_now y" and d = d
      and k = k and s = "ls_redis y" and t = t and k' = k' and t' = t']
  by (auto simp: owns_until_def lease_acquire_def split: prod.splits)

lemma lease_inv_acquire:
  assumes "lease_inv y" "t \<notin> ls_used y"
  shows "lease_inv (lease_acquire ttl k t y)"
proof -
  have "owns_until (lease_acquire ttl k t y) k t (ls_now y + seconds ttl)"
    if "fst (set_nx_ex (ls_now y) k t ttl (ls_redis y))"
    using that rl.acquire_iff [where ttl = ttl and now = "ls_now y" and k = k
        and t = t and s = "ls_redis y"]
      rl.acquire_owner [where ttl = ttl and now = "ls_now y" and k = k
        and t = t and s = "ls_redis y"]
    by (auto simp: owns_until_def lease_acquire_def split: prod.splits)
  moreover have "owns_until (lease_acquire ttl k t y) k' t' d" if "ls_held y t' = Some (k', d)" for k' t' d
    using that assms(1) owns_acquire by (simp add: lease_inv_def)
  ultimately show ?thesis
    using assms(1) by (auto simp: lease_inv_def lease_acquire_def split: prod.splits if_splits)
qed

lemma renew_once_ok:
  "renew_once now k t ttl None r = (\<not> fst (lock_renew ttl now k t r), snd (lock_renew ttl now k t r))"
  by (simp add: renew_once_def lock_renew_def split: prod.splits)

lemma lease_inv_drop: "lease_inv y \<Longrightarrow> lease_inv (y\<lparr>ls_held := (ls_held y)(t := None)\<rparr>)"
  by (auto simp: lease_inv_def owns_until_def split: if_splits)

lemma owns_renew:
  assumes "owns_until y k t d" "t' \<noteq> t"
  shows "owns_until (lease_renew ttl t' None k' y) k t d"
  using assms rl.kept_renew [of "ls_now y" d k "ls_redis y" t _ t' ttl k']
  by (auto simp: owns_until_def lease_renew_def renew_once_ok)

lemma lease_inv_renew:
  assumes "lease_inv y" "ls_held y t = Some (k, d)"
  shows "lease_inv (lease_renew ttl t fault k y)"
proof (cases fault)
  case (Some e)
  then show ?thesis
    using assms lease_inv_drop [OF assms(1), of t] by (simp add: lease_renew_def renew_once_def)
next
  case None
  have "owns_until (lease_renew ttl t None k y) k t (ls_now y + seconds ttl)"
    if "fst (lock_renew ttl (ls_now y) k t (ls_redis y))"
    using that rl.renew_iff [of ttl "ls_now y" k t "ls_redis y"]
      rl.renew_owner [of "ls_now y" k "ls_redis y" t _ ttl]
    by (auto simp: owns_until_def lease_renew_def renew_once_ok)
  moreover have "owns_until (lease_renew ttl t None k y) k' t' d'"
    if "ls_held y t' = Some (k', d')" "t' \<noteq> t" for k' t' d'
    using that assms(1) owns_renew by (metis lease_inv_def)
  ultimately show ?thesis
    using assms None by (auto simp: lease_inv_def lease_renew_def renew_once_ok split: if_splits)
qed

lemma lease_inv_release:
  assumes "lease_inv y"
  shows "lease_inv (lease_release t k y)"
proof -
  have "owns_until (lease_release t k y) k' t' d"
    if h: "ls_held y t' = Some (k', d)" "t' \<noteq> t" for k' t' d
  proof -
    have "owns_until y k' t' d" using h(1) assms by (simp add: lease_inv_def)
    then show ?thesis
      using h(2) rl.kept_release [of "ls_now y" d k' "ls_redis y" t' _ t k]
      by (auto simp: owns_until_def lease_release_def)
  qed
  then show ?thesis using assms by (auto simp: lease_inv_def lease_release_def split: if_splits)
qed

interpretation lease: invariant_system lease_init "lease_step ttl" lease_inv for ttl :: int
proof unfold_locales
  show "lease_init y \<Longrightarrow> lease_inv y" for y
    by (simp add: lease_init_def lease_inv_def)
  show "lease_inv y \<Longrightarrow> lease_step ttl y y' \<Longrightarrow> lease_inv y'" for y y'
    by (erule lease_stepE)
      (auto intro: lease_inv_tick lease_inv_acquire lease_inv_renew lease_inv_release lease_inv_drop)
qed

section \<open>Holding a session\<close>

lemma hold_busy:
  assumes "redis_get (h_acquired_at env) key r \<noteq> None" "h_acquire_fault env = None"
  shows "hold key ttl env body r s =
    (Inl (DeferEvent ''Session is being invoked by another process''), r, s)"
  using assms by (auto simp: hold_def set_nx_ex_def)

lemma hold_free:
  assumes "redis_get (h_acquired_at env) key r = None" "h_acquire_fault env = None"
    and "body (redis_put key (h_token env) (Some (h_acquired_at env + seconds ttl)) r) s = (res, r2, s2)"
  shows "hold key ttl env body r s = (hold_outcome key (h_lost env) res,
    (if h_release_fault env then r2
     else snd (release_lock_script (h_released_at env) key (h_token env) r2)), s2)"
  using assms by (simp add: hold_def set_nx_ex_def)

text \<open>The three ways \<open>hold\<close> ends.\<close>

lemma hold_cases:
  assumes "hold key ttl env body r s = (res, r', s')"
  obtains (fault) e where "h_acquire_fault env = Some e" "res = Inl e" "r' = r" "s' = s"
  | (busy) "res = Inl (DeferEvent ''Session is being invoked by another process'')" "r' = r" "s' = s"
  | (ran) res0 r1 r2 where "body r1 s = (res0, r2, s')" "res = hold_outcome key (h_lost env) res0"
      "redis_get (h_acquired_at env) key r = None"
      "r1 = redis_put key (h_token env) (Some (h_acquired_at env + seconds ttl)) r"
proof (cases "h_acquire_fault env")
  case None
  show ?thesis
  proof (cases "redis_get (h_acquired_at env) key r = None")
    case True
    obtain res0 r2 s2 where "body (redis_put key (h_token env) (Some (h_acquired_at env + seconds ttl)) r) s
        = (res0, r2, s2)" by (metis prod_cases3)
    with assms hold_free [of env key r body ttl s, OF True None this] show ?thesis
      by (intro ran [OF _ _ True refl]) auto
  next
    case False
    then show ?thesis using assms hold_busy [of env key r ttl body s] None by (intro busy) auto
  qed
qed (use assms in \<open>auto simp: hold_def intro: fault\<close>)

section \<open>Properties\<close>

text \<open>
  C18: a lease is exclusive. However clients interleave acquisition, renewal, release, crashes and
  time, two tokens never hold the same key while both are before their deadlines, and the holder
  is the one the server names.
\<close>

theorem lease_exclusive:
  assumes "reachable lease_init (lease_step ttl) y"
    and "ls_held y t = Some (k, d)" "ls_now y < d"
    and "ls_held y t' = Some (k, d')" "ls_now y < d'"
  shows "t = t' \<and> redis_get (ls_now y) k (ls_redis y) = Some t"
proof -
  note inv = lease.reachable_inv [OF assms(1)]
  have "owns_until y k t d" "owns_until y k t' d'"
    using inv assms(2,4) by (auto simp: lease_inv_def)
  then show ?thesis using assms(3,5) by (auto simp: owns_until_def)
qed

definition demo_lease :: lease_sys where
  "demo_lease = lease_acquire 60 ''k'' ''b'' (lease_acquire 60 ''k'' ''a''
     \<lparr>ls_redis = empty_redis, ls_now = 0, ls_used = {}, ls_held = (\<lambda>_. None)\<rparr>)"

lemma demo_lease_reachable: "reachable lease_init (lease_step 60) demo_lease"
proof -
  let ?y0 = "\<lparr>ls_redis = empty_redis, ls_now = 0, ls_used = {}, ls_held = (\<lambda>_. None)\<rparr>"
  let ?y1 = "lease_acquire 60 ''k'' ''a'' ?y0"
  have "lease_step 60 ?y0 ?y1" by (rule ls_acquire) simp
  moreover have "lease_step 60 ?y1 demo_lease"
    unfolding demo_lease_def by (rule ls_acquire) (simp add: lease_acquire_def split: prod.splits)
  moreover have "reachable lease_init (lease_step 60) ?y0"
    by (rule reach_init) (simp add: lease_init_def)
  ultimately show ?thesis by (blast intro: reach_step)
qed

theorem lease_exclusive_witness:
  "ls_held demo_lease ''b'' = None \<and> redis_get 0 ''k'' (ls_redis demo_lease) = Some ''a''"
proof -
  have facts: "ls_now demo_lease = 0" "ls_held demo_lease ''a'' = Some (''k'', 60000000)"
    "ls_held demo_lease ''b'' = None"
    by (simp_all add: demo_lease_def lease_acquire_def set_nx_ex_def empty_redis_def redis_get_def
        redis_put_def live_def seconds_def)
  then show ?thesis
    using lease_exclusive [OF demo_lease_reachable, of "''a''" "''k''" 60000000 "''a''" 60000000] by simp
qed

end
