(* ===== verification/Worker_Dispatch.thy ===== *)
theory Worker_Dispatch
  imports Worker_Store_Props Worker_Guard
begin

text \<open>
  The two ends of the command stream: \<open>Outbox.once\<close> (\<open>src/worker/outbox.py\<close>), which publishes
  claimed commands, and \<open>Dispatcher\<close> (\<open>src/worker/dispatcher.py\<close>), which runs the handler of a
  command under the session lease. Handlers are arguments: a handler maps its context and the
  state of the host application to a result and the new host state.
\<close>

section \<open>Publishing\<close>

definition command_fields :: "string \<Rightarrow> outbox_row \<Rightarrow> (string \<times> string) list" where
  "command_fields ns row = [(''schema_version'', ''1''), (''namespace'', ns),
     (''command_id'', uuid_str (o_command_id row)), (''generation'', py_str_int (o_generation row))]"

text \<open>
  The answer to the pipeline: one result per command (an exception as a value means that command
  was refused), or an exception of the call after some of the commands took effect.
\<close>

datatype pipeline_answer = Answered "uuid \<Rightarrow> exn option" | Broken exn nat

definition publish :: "usec \<Rightarrow> string \<Rightarrow> string \<Rightarrow> outbox_row list \<Rightarrow> redis \<Rightarrow> redis" where
  "publish now stream ns rows r = fold (\<lambda>row. xadd now stream (command_fields ns row)) rows r"

record outbox_env =
  oe_claim :: fault
  oe_pipeline :: pipeline_answer
  oe_finish_sent :: fault
  oe_finish_failed :: fault

definition outbox_once ::
    "string \<Rightarrow> string \<Rightarrow> nat \<Rightarrow> int \<Rightarrow> usec \<Rightarrow> uuid \<Rightarrow> uuid set \<Rightarrow> outbox_env \<Rightarrow> redis \<Rightarrow> worker_db
      \<Rightarrow> nat result \<times> redis \<times> worker_db" where
  "outbox_once ns stream batch lease now token locked env r db =
     (case with_fault (oe_claim env)
             (\<lambda>db. let (rows, db') = claim_outbox ns now token batch lease locked db in (Inr rows, db')) db of
        (Inl e, db1) \<Rightarrow> (Inl e, r, db1)
      | (Inr rows, db1) \<Rightarrow>
          if rows = [] then (Inr 0, r, db1)
          else (case oe_pipeline env of
            Broken e n \<Rightarrow> (Inl e, publish now stream ns (take n rows) r, db1)
          | Answered ans \<Rightarrow>
              (let sent = filter (\<lambda>row. ans (o_command_id row) = None) rows;
                   failed = filter (\<lambda>row. ans (o_command_id row) \<noteq> None) rows;
                   r1 = publish now stream ns sent r;
                   (res, db2) = sbind (with_fault (oe_finish_sent env)
                       (swrite (finish_publications ns now token (map o_command_id sent) True))) (\<lambda>_.
                     sbind (with_fault (oe_finish_failed env)
                       (swrite (finish_publications ns now token (map o_command_id failed) False))) (\<lambda>_.
                     spure (Inr (length sent)))) db1
               in (res, r1, db2))))"

section \<open>Dispatching\<close>

text \<open>The envelope checks at the head of \<open>Dispatcher.handle\<close>.\<close>

definition field :: "(string \<times> string) list \<Rightarrow> string \<Rightarrow> string result" where
  "field fs k = (case map_of fs k of None \<Rightarrow> Inl (KeyError k) | Some v \<Rightarrow> Inr v)"

definition parse_envelope :: "string \<Rightarrow> (string \<times> string) list \<Rightarrow> (uuid \<times> int) result" where
  "parse_envelope ns fs =
     rbind (field fs ''schema_version'') (\<lambda>version.
     rbind (if version \<noteq> ''1'' then Inr True else rbind (field fs ''namespace'') (\<lambda>n. Inr (n \<noteq> ns))) (\<lambda>bad.
     if bad then Inl (ValueError ''Unsupported command envelope'')
     else rbind (field fs ''command_id'') (\<lambda>c.
       (case uuid_parse c of
          None \<Rightarrow> Inl (ValueError ''badly formed hexadecimal UUID string'')
        | Some cid \<Rightarrow> rbind (field fs ''generation'') (\<lambda>g.
            (case py_int g of
               None \<Rightarrow> Inl (ValueError ''invalid literal for int()'')
             | Some gen \<Rightarrow> Inr (cid, gen)))))))"

text \<open>The exceptions that leave a command to be tried again without counting an attempt.\<close>

fun transient :: "exn \<Rightarrow> bool" where
  "transient (DeferEvent _) = True"
| "transient (LeaseLostError _) = True"
| "transient PoolTimeout = True"
| "transient e = (is_RedisError e \<or> is_DatabaseError e)"

fun is_RejectEvent :: "exn \<Rightarrow> bool" where
  "is_RejectEvent (RejectEvent _) = True"
| "is_RejectEvent _ = False"

type_synonym 'h handler = "event_context \<Rightarrow> 'h \<Rightarrow> unit result \<times> 'h"

record dispatch_env =
  de_read :: fault
  de_running :: fault
  de_settle :: fault

definition db_write :: "fault \<Rightarrow> (worker_db \<Rightarrow> worker_db) \<Rightarrow> worker_db \<times> 'h \<Rightarrow> unit result \<times> worker_db \<times> 'h" where
  "db_write ft f s = (let (res, db') = with_fault ft (swrite f) (fst s) in (res, db', snd s))"

definition read_fault :: "fault \<Rightarrow> exn option" where
  "read_fault ft = (case ft of NoFault \<Rightarrow> None | FailBefore e \<Rightarrow> Some e | FailAfter e \<Rightarrow> Some e)"

text \<open>The \<open>except\<close> clauses around the handler call in \<open>_dispatch\<close>.\<close>

definition settle_failure ::
    "string \<Rightarrow> usec \<Rightarrow> int \<Rightarrow> fault \<Rightarrow> uuid \<Rightarrow> int \<Rightarrow> exn \<Rightarrow> worker_db \<times> 'h
      \<Rightarrow> handler_result result \<times> worker_db \<times> 'h" where
  "settle_failure ns now max_attempts ft cid attempts e =
     (if transient e \<or> \<not> is_Exception e then spure (Inl e)
      else (case e of
        IgnoreEvent m \<Rightarrow>
          sbind (db_write ft (set_state ns now cid Cmd_IGNORED (Some m) False))
            (\<lambda>_. spure (Inr (plain_result ACK ''ignored'')))
      | _ \<Rightarrow>
         (let terminal = is_RejectEvent e \<or> attempts + 1 \<ge> max_attempts; why = describe_exn e in
          sbind (db_write ft (set_state ns now cid (if terminal then Cmd_FAILED else Cmd_RUNNING) (Some why) True))
            (\<lambda>_. spure (if terminal then Inl (PermanentMessageError why)
                        else Inr (plain_result DEFER ''handler_retry''))))))"

definition run_handler ::
    "string \<Rightarrow> usec \<Rightarrow> int \<Rightarrow> fault \<Rightarrow> uuid \<Rightarrow> int \<Rightarrow> 'h handler \<Rightarrow> event_context \<Rightarrow> worker_db \<times> 'h
      \<Rightarrow> handler_result result \<times> worker_db \<times> 'h" where
  "run_handler ns now max_attempts ft cid attempts handler ctx s =
     (let (res, h') = handler ctx (snd s); s' = (fst s, h') in
      (case res of
         Inl e \<Rightarrow> settle_failure ns now max_attempts ft cid attempts e s'
       | Inr _ \<Rightarrow> sbind (db_write ft (set_state ns now cid Cmd_DONE None False))
                  (\<lambda>_. spure (Inr (plain_result ACK ''succeeded''))) s'))"

definition dispatch ::
    "string \<Rightarrow> usec \<Rightarrow> (string \<Rightarrow> 'h handler option) \<Rightarrow> int \<Rightarrow> dispatch_env \<Rightarrow> uuid \<Rightarrow> int \<Rightarrow> worker_db \<times> 'h
      \<Rightarrow> handler_result result \<times> worker_db \<times> 'h" where
  "dispatch ns now handlers max_attempts env cid generation s =
     (case read_fault (de_read env) of Some e \<Rightarrow> (Inl e, s) | None \<Rightarrow>
     (case command ns cid (fst s) of
        None \<Rightarrow> (Inl AssertionError, s)
      | Some v \<Rightarrow>
         (let row = v_row v in
          if generation \<noteq> c_generation row then (Inr (plain_result ACK ''old_generation''), s)
          else if c_state row \<in> {Cmd_DONE, Cmd_IGNORED} then (Inr (plain_result ACK ''duplicate''), s)
          else if c_state row = Cmd_FAILED
          then (Inl (PermanentMessageError (case c_last_error row of
                  None \<Rightarrow> ''Failed command'' | Some m \<Rightarrow> if m = [] then ''Failed command'' else m)), s)
          else (case handlers (event_type (ctx_event (store_context ns v))) of
            None \<Rightarrow> (Inl (DeferEvent ''Handler registry differs from routed event''), s)
          | Some handler \<Rightarrow>
              sbind (db_write (de_running env) (set_state ns now cid Cmd_RUNNING None False))
                (\<lambda>_. run_handler ns now max_attempts (de_settle env) cid (c_failure_attempts row) handler
                        (store_context ns v)) s))))"

text \<open>\<open>Dispatcher.handle\<close>; \<open>Inl\<close> of the first argument of \<open>deferred\<close> is what the \<open>try\<close> body raised.\<close>

definition deferred :: "handler_result result \<Rightarrow> handler_result result" where
  "deferred res = (case res of
       Inl e \<Rightarrow> if transient e then Inr (plain_result DEFER ''deferred'') else Inl e
     | Inr r \<Rightarrow> Inr r)"

definition dispatcher_handle ::
    "(string \<Rightarrow> string) \<Rightarrow> string \<Rightarrow> int \<Rightarrow> usec \<Rightarrow> (string \<Rightarrow> 'h handler option) \<Rightarrow> int \<Rightarrow> fault \<Rightarrow> hold_env
      \<Rightarrow> dispatch_env \<Rightarrow> stream_message \<Rightarrow> redis \<Rightarrow> worker_db \<times> 'h \<Rightarrow> handler_result result \<times> redis \<times> worker_db \<times> 'h" where
  "dispatcher_handle sha256 ns ttl now handlers max_attempts lookup henv denv msg r s =
     (case parse_envelope ns (msg_fields msg) of
        Inl e \<Rightarrow> (Inl (PermanentMessageError (exn_str e)), r, s)
      | Inr (cid, generation) \<Rightarrow>
         (let (res, r', s') =
            (case read_fault lookup of Some e \<Rightarrow> (Inl e, r, s) | None \<Rightarrow>
             (case command ns cid (fst s) of
                None \<Rightarrow> (Inl (PermanentMessageError ''Unknown command ID''), r, s)
              | Some v \<Rightarrow> hold (guard_key sha256 ns (v_session_id v)) ttl henv
                  (\<lambda>r s. let (res, s') = dispatch ns now handlers max_attempts denv cid generation s
                         in (res, r, s')) r s))
          in (deferred res, r', s')))"

section \<open>Lemmas\<close>

lemma envelope_round_trip:
  assumes "valid_uuid (o_command_id row)"
  shows "parse_envelope ns (command_fields ns row) = Inr (o_command_id row, o_generation row)"
  using assms by (simp add: parse_envelope_def command_fields_def field_def text_simps)

text \<open>What a write of the command's state does to the command that is read back.\<close>

definition with_state :: "usec \<Rightarrow> command_state \<Rightarrow> string option \<Rightarrow> bool \<Rightarrow> command_view \<Rightarrow> command_view" where
  "with_state now st err fa v = v\<lparr>v_row := (v_row v)\<lparr>c_state := st,
     c_last_error := (case err of None \<Rightarrow> None | Some m \<Rightarrow> if m = [] then None else Some (take 2000 m)),
     c_failure_attempts := c_failure_attempts (v_row v) + (if fa then 1 else 0),
     c_audit := touch_audit now ''worker'' (c_audit (v_row v))\<rparr>\<rparr>"

lemma with_state_simps [simp]:
  "c_state (v_row (with_state now st err fa v)) = st"
  "c_generation (v_row (with_state now st err fa v)) = c_generation (v_row v)"
  "c_failure_attempts (v_row (with_state now st err fa v)) =
     c_failure_attempts (v_row v) + (if fa then 1 else 0)"
  "c_command_id (v_row (with_state now st err fa v)) = c_command_id (v_row v)"
  "c_execution_id (v_row (with_state now st err fa v)) = c_execution_id (v_row v)"
  "v_event (with_state now st err fa v) = v_event v"
  "v_session_id (with_state now st err fa v) = v_session_id v"
  "v_task_id (with_state now st err fa v) = v_task_id v"
  by (simp_all add: with_state_def)

lemma store_context_with_state [simp]: "store_context ns (with_state now st err fa v) = store_context ns v"
  by (simp add: store_context_def)

lemma command_set_state:
  assumes "command ns cid db = Some v"
  shows "command ns cid (set_state ns now cid st err fa db) = Some (with_state now st err fa v)"
proof -
  obtain c i b where c: "find (\<lambda>c. c_key c = (ns, cid)) (ew_commands db) = Some c"
    "find (\<lambda>i. i_key i = c_event_key c) (ew_inbox db) = Some i"
    "find (\<lambda>b. b_key b = (c_namespace c, c_execution_id c)) (ew_bindings db) = Some b"
    "v = \<lparr>v_row = c, v_event = i_event i, v_session_id = b_session_id b, v_task_id = b_task_id b\<rparr>"
    using assms by (auto simp: command_def split: option.splits)
  have "c_key c = (ns, cid)" using find_SomeD [OF c(1)] by simp
  moreover have "ew_inbox (set_state ns now cid st err fa db) = ew_inbox db"
    "ew_bindings (set_state ns now cid st err fa db) = ew_bindings db"
    by (simp_all add: set_state_def release_outbox_def Let_def)
  ultimately show ?thesis
    using c by (simp add: command_def set_state_def release_outbox_def Let_def find_sql_update with_state_def)
qed

section \<open>Settled commands\<close>

text \<open>A delivery that has nothing left to do: its generation is over, or its command is settled.\<close>

definition nothing_to_do :: "string \<Rightarrow> uuid \<Rightarrow> int \<Rightarrow> worker_db \<Rightarrow> bool" where
  "nothing_to_do ns cid generation db = (case command ns cid db of
       None \<Rightarrow> True
     | Some v \<Rightarrow> generation \<noteq> c_generation (v_row v) \<or> settled (c_state (v_row v)))"

lemma dispatch_nothing:
  assumes "nothing_to_do ns cid generation (fst s)"
  shows "snd (dispatch ns now handlers max_attempts env cid generation s) = s"
  using assms
  by (auto simp: dispatch_def nothing_to_do_def settled_def Let_def split: option.splits)

lemma handle_nothing:
  assumes "parse_envelope ns (msg_fields msg) = Inr (cid, generation)" "nothing_to_do ns cid generation (fst s)"
  shows "snd (snd (dispatcher_handle sha256 ns ttl now handlers max_attempts lookup henv denv msg r s)) = s"
proof (cases "read_fault lookup")
  case (Some e)
  then show ?thesis using assms(1) by (simp add: dispatcher_handle_def)
next
  case None
  show ?thesis
  proof (cases "command ns cid (fst s)")
    case None': None
    then show ?thesis using assms(1) None by (simp add: dispatcher_handle_def)
  next
    case (Some v)
    let ?body = "\<lambda>r s. let (res, s') = dispatch ns now handlers max_attempts denv cid generation s in (res, r, s')"
    have "snd (snd (hold (guard_key sha256 ns (v_session_id v)) ttl henv ?body r s)) = s"
      using dispatch_nothing [OF assms(2), of now handlers max_attempts denv]
      by (auto simp: hold_def split: option.splits prod.splits)
    then show ?thesis using assms(1) None Some by (auto simp: dispatcher_handle_def split: prod.splits)
  qed
qed

lemma db_write_Inr: "db_write ft f s = (Inr u, s') \<Longrightarrow> s' = (f (fst s), snd s)"
  by (cases ft) (auto simp: db_write_def swrite_def)

lemma settle_failure_ack:
  assumes "settle_failure ns now max_attempts ft cid attempts e s = (Inr r, s')" "decision r = ACK"
    and "command ns cid (fst s) = Some v"
  shows "\<exists>v'. command ns cid (fst s') = Some v' \<and> settled (c_state (v_row v'))"
proof (cases e)
  case (IgnoreEvent m)
  with assms have "s' = (set_state ns now cid Cmd_IGNORED (Some m) False (fst s), snd s)"
    by (auto simp: settle_failure_def sbind_eq spure_def dest!: db_write_Inr)
  then show ?thesis using command_set_state [OF assms(3)] by (simp add: settled_def)
qed (use assms in \<open>auto simp: settle_failure_def sbind_eq spure_def Let_def plain_result_def split: if_splits\<close>)

lemma run_handler_ack:
  assumes "run_handler ns now max_attempts ft cid attempts handler ctx s = (Inr r, s')" "decision r = ACK"
    and "command ns cid (fst s) = Some v"
  shows "\<exists>v'. command ns cid (fst s') = Some v' \<and> settled (c_state (v_row v'))"
proof (cases "handler ctx (snd s)")
  case (Pair res h)
  show ?thesis
  proof (cases res)
    case (Inl e)
    with assms Pair show ?thesis
      using settle_failure_ack [of ns now max_attempts ft cid attempts e "(fst s, h)" r s' v] by (simp add: run_handler_def)
  next
    case (Inr u)
    with assms Pair have "s' = (set_state ns now cid Cmd_DONE None False (fst s), h)"
      by (auto simp: run_handler_def sbind_eq spure_def dest!: db_write_Inr)
    then show ?thesis using command_set_state [OF assms(3)] by (simp add: settled_def)
  qed
qed

lemma dispatch_ack:
  assumes "dispatch ns now handlers max_attempts env cid generation s = (Inr r, s')" "decision r = ACK"
  shows "nothing_to_do ns cid generation (fst s')"
proof (cases "nothing_to_do ns cid generation (fst s)")
  case True
  then show ?thesis using assms(1) dispatch_nothing by (metis snd_conv)
next
  case False
  then obtain v where v: "command ns cid (fst s) = Some v" "generation = c_generation (v_row v)"
    "\<not> settled (c_state (v_row v))" by (auto simp: nothing_to_do_def split: option.splits)
  then have "c_state (v_row v) \<notin> {Cmd_DONE, Cmd_IGNORED}" "c_state (v_row v) \<noteq> Cmd_FAILED"
    by (auto simp: settled_def)
  then obtain handler s1 where run: "s1 = (set_state ns now cid Cmd_RUNNING None False (fst s), snd s)"
    "run_handler ns now max_attempts (de_settle env) cid (c_failure_attempts (v_row v)) handler
       (store_context ns v) s1 = (Inr r, s')"
    using assms(1) v by (auto simp: dispatch_def Let_def sbind_eq split: option.splits dest!: db_write_Inr)
  have "command ns cid (fst s1) = Some (with_state now Cmd_RUNNING None False v)"
    using run(1) command_set_state [OF v(1)] by simp
  from run_handler_ack [OF run(2) assms(2) this] obtain v' where
    "command ns cid (fst s') = Some v'" "settled (c_state (v_row v'))" by blast
  then show ?thesis by (simp add: nothing_to_do_def)
qed

lemma deferred_ack: "deferred res = Inr r \<Longrightarrow> decision r = ACK \<Longrightarrow> res = Inr r"
  by (auto simp: deferred_def plain_result_def split: sum.splits if_splits)

lemma handle_ack:
  assumes "dispatcher_handle sha256 ns ttl now handlers max_attempts lookup henv denv msg r s = (Inr res, r', s')"
    and "decision res = ACK" "parse_envelope ns (msg_fields msg) = Inr (cid, generation)"
  shows "nothing_to_do ns cid generation (fst s')"
proof -
  let ?body = "\<lambda>r s. let (res, s') = dispatch ns now handlers max_attempts denv cid generation s in (res, r, s')"
  obtain v where v: "command ns cid (fst s) = Some v"
    "hold (guard_key sha256 ns (v_session_id v)) ttl henv ?body r s = (Inr res, r', s')"
    using assms by (auto simp: dispatcher_handle_def dest!: deferred_ack split: option.splits prod.splits)
  then show ?thesis
  proof (cases rule: hold_cases [OF v(2)])
    case (3 res0 r1 r2)
    then have "dispatch ns now handlers max_attempts denv cid generation s = (Inr res, s')"
      by (auto simp: hold_outcome_def split: prod.splits sum.splits if_splits)
    then show ?thesis using dispatch_ack assms(2) by blast
  qed auto
qed

section \<open>Publication\<close>

lemma publish_entries:
  "map snd (st_entries (stream_of stream (publish now stream ns rows r))) =
     map snd (st_entries (stream_of stream r)) @ map (command_fields ns) rows"
  unfolding publish_def by (induction rows arbitrary: r) (simp_all add: xadd_entries)

lemma outbox_once_publishes:
  assumes "outbox_once ns stream batch lease now token locked env r db = (res, r', db')"
  shows "\<exists>rows. set rows \<subseteq> set (fst (claim_outbox ns now token batch lease locked db))
    \<and> r' = publish now stream ns rows r"
proof -
  let ?rows = "fst (claim_outbox ns now token batch lease locked db)"
  have none: "r = publish now stream ns [] r" by (simp add: publish_def)
  have "r' = r \<or> (\<exists>n. r' = publish now stream ns (take n ?rows) r)
      \<or> (\<exists>p. r' = publish now stream ns (filter p ?rows) r)"
  proof (cases "oe_claim env")
    case NoFault
    then show ?thesis using assms
      by (cases "oe_pipeline env") (auto simp: outbox_once_def Let_def split: if_splits prod.splits)
  qed (use assms in \<open>auto simp: outbox_once_def\<close>)
  then show ?thesis using none by (metis empty_iff filter_is_subset list.set(1) set_take_subset subsetI)
qed

section \<open>The attempt budget\<close>

text \<open>The exceptions of a handler that count against the budget.\<close>

definition counted :: "exn \<Rightarrow> bool" where
  "counted e = (is_Exception e \<and> \<not> transient e \<and> \<not> is_RejectEvent e \<and> (\<forall>m. e \<noteq> IgnoreEvent m))"

definition no_faults :: dispatch_env where
  "no_faults = \<lparr>de_read = NoFault, de_running = NoFault, de_settle = NoFault\<rparr>"

text \<open>The same command delivered again and again to a store that answers.\<close>

fun redeliver ::
    "nat \<Rightarrow> string \<Rightarrow> usec \<Rightarrow> (string \<Rightarrow> 'h handler option) \<Rightarrow> int \<Rightarrow> uuid \<Rightarrow> int \<Rightarrow> worker_db \<times> 'h
      \<Rightarrow> worker_db \<times> 'h" where
  "redeliver 0 ns now handlers max_attempts cid generation s = s"
| "redeliver (Suc n) ns now handlers max_attempts cid generation s =
     snd (dispatch ns now handlers max_attempts no_faults cid generation
       (redeliver n ns now handlers max_attempts cid generation s))"

lemma settle_failure_counted:
  assumes "counted e" "command ns cid (fst s) = Some v"
  shows "\<exists>v'. command ns cid (fst (snd (settle_failure ns now max_attempts NoFault cid attempts e s))) = Some v'
    \<and> c_failure_attempts (v_row v') = c_failure_attempts (v_row v) + 1
    \<and> c_generation (v_row v') = c_generation (v_row v) \<and> store_context ns v' = store_context ns v
    \<and> c_state (v_row v') = (if max_attempts \<le> attempts + 1 then Cmd_FAILED else Cmd_RUNNING)"
proof -
  let ?st = "if max_attempts \<le> attempts + 1 then Cmd_FAILED else Cmd_RUNNING"
  have "snd (settle_failure ns now max_attempts NoFault cid attempts e s) =
      (set_state ns now cid ?st (Some (describe_exn e)) True (fst s), snd s)"
    using assms(1) by (cases e) (auto simp: settle_failure_def counted_def Let_def sbind_def db_write_def
        swrite_def spure_def)
  then show ?thesis using command_set_state [OF assms(2)] by simp
qed

lemma dispatch_counted:
  assumes v: "command ns cid (fst s) = Some v" "c_generation (v_row v) = generation" "\<not> settled (c_state (v_row v))"
    and h: "handlers (event_type (ctx_event (store_context ns v))) = Some handler"
      "handler (store_context ns v) (snd s) = (Inl e, h')" "counted e"
  shows "\<exists>v'. command ns cid (fst (snd (dispatch ns now handlers max_attempts no_faults cid generation s))) = Some v'
    \<and> c_failure_attempts (v_row v') = c_failure_attempts (v_row v) + 1
    \<and> c_generation (v_row v') = generation \<and> store_context ns v' = store_context ns v
    \<and> c_state (v_row v') = (if max_attempts \<le> c_failure_attempts (v_row v) + 1 then Cmd_FAILED else Cmd_RUNNING)"
proof -
  let ?s1 = "(set_state ns now cid Cmd_RUNNING None False (fst s), h')"
  have "command ns cid (fst ?s1) = Some (with_state now Cmd_RUNNING None False v)"
    using command_set_state [OF v(1)] by simp
  note settle = settle_failure_counted [OF h(3) this, of now max_attempts "c_failure_attempts (v_row v)"]
  have "dispatch ns now handlers max_attempts no_faults cid generation s =
      settle_failure ns now max_attempts NoFault cid (c_failure_attempts (v_row v)) e ?s1"
    using v h(1,2) by (simp add: dispatch_def no_faults_def read_fault_def Let_def settled_def sbind_def
        db_write_def swrite_def run_handler_def)
  then show ?thesis using settle v(2) by simp
qed

lemma redeliver_counted:
  assumes v: "command ns cid (fst s) = Some v" "c_generation (v_row v) = generation" "\<not> settled (c_state (v_row v))"
    and h: "handlers (event_type (ctx_event (store_context ns v))) = Some handler"
      "\<forall>h. \<exists>e h'. handler (store_context ns v) h = (Inl e, h') \<and> counted e"
    and n: "c_failure_attempts (v_row v) + int n \<le> max_attempts"
  shows "\<exists>v'. command ns cid (fst (redeliver n ns now handlers max_attempts cid generation s)) = Some v'
    \<and> c_failure_attempts (v_row v') = c_failure_attempts (v_row v) + int n
    \<and> c_generation (v_row v') = generation \<and> store_context ns v' = store_context ns v
    \<and> (n > 0 \<longrightarrow> c_state (v_row v') =
         (if c_failure_attempts (v_row v) + int n = max_attempts then Cmd_FAILED else Cmd_RUNNING))"
  using n
proof (induction n)
  case 0
  then show ?case using v by simp
next
  case (Suc n)
  then obtain v' where v': "command ns cid (fst (redeliver n ns now handlers max_attempts cid generation s)) = Some v'"
    "c_failure_attempts (v_row v') = c_failure_attempts (v_row v) + int n" "c_generation (v_row v') = generation"
    "store_context ns v' = store_context ns v"
    "n > 0 \<longrightarrow> c_state (v_row v') = Cmd_RUNNING" by auto
  have open': "\<not> settled (c_state (v_row v'))"
  proof (cases n)
    case 0
    then show ?thesis using v'(1) v by simp
  qed (use v'(5) in \<open>simp add: settled_def\<close>)
  obtain e h' where "handler (store_context ns v')
      (snd (redeliver n ns now handlers max_attempts cid generation s)) = (Inl e, h')" "counted e"
    using h(2) v'(4) by metis
  from dispatch_counted [where handlers = handlers and handler = handler, OF v'(1,3) open' _ this] h(1) v'(2,4) Suc.prems
  show ?case by fastforce
qed

section \<open>Properties\<close>

text \<open>
  a command envelope survives the stream: what the publisher writes for a row, the dispatcher
  reads back as the same command and generation.
\<close>

theorem command_envelope_round_trip:
  assumes "valid_uuid (o_command_id row)"
  shows "parse_envelope ns (command_fields ns row) = Inr (o_command_id row, o_generation row)"
  using assms by (rule envelope_round_trip)

definition demo_outbox_row :: outbox_row where
  "demo_outbox_row = \<lparr>o_namespace = ''w'', o_command_id = 7, o_generation = 3, o_state = Out_PENDING,
     o_claim_token = None, o_claim_until = None, o_audit = new_audit 0 ''worker''\<rparr>"

theorem command_envelope_round_trip_witness:
  "parse_envelope ''w'' (command_fields ''w'' demo_outbox_row) = Inr (7, 3)"
  using command_envelope_round_trip [of demo_outbox_row "''w''"] by (simp add: demo_outbox_row_def valid_uuid_def)

text \<open>
  C15: no effect after an acknowledgement. Once a delivery of a command was acknowledged, a further
  delivery of the same message runs no handler and writes no table, whatever the handlers, the
  faults, the lease and the time are.
\<close>

theorem acknowledged_never_reruns:
  assumes "dispatcher_handle sha256 ns ttl now handlers max_attempts lookup henv denv msg r s = (Inr res, r', s')"
    and "decision res = ACK"
  shows "snd (snd (dispatcher_handle sha256 ns ttl now' handlers' max_attempts' lookup' henv' denv' msg r'' s')) = s'"
proof (cases "parse_envelope ns (msg_fields msg)")
  case (Inl e)
  then show ?thesis by (simp add: dispatcher_handle_def)
next
  case (Inr x)
  then show ?thesis using handle_nothing handle_ack [OF assms] by (metis prod.exhaust)
qed

text \<open>A concrete delivery: the routed command of the store's example, a handler that counts its runs.\<close>

definition demo_handlers :: "string \<Rightarrow> nat handler option" where
  "demo_handlers ty = (if ty = ''execution.completed'' then Some (\<lambda>_ h. (Inr (), h + 1)) else None)"

definition demo_command_message :: stream_message where
  "demo_command_message = \<lparr>message_id = ''1-0'', msg_fields = [(''schema_version'', ''1''), (''namespace'', ''w''),
     (''command_id'', ''00000000000000000000000000000007''), (''generation'', ''0'')], reclaimed = False\<rparr>"

definition demo_hold :: hold_env where
  "demo_hold = \<lparr>h_acquired_at = 0, h_acquire_fault = None, h_token = ''t'', h_lost = False,
     h_released_at = 1, h_release_fault = False\<rparr>"

definition demo_delivery :: "redis \<Rightarrow> worker_db \<times> nat \<Rightarrow> handler_result result \<times> redis \<times> worker_db \<times> nat" where
  "demo_delivery = dispatcher_handle (\<lambda>s. s) ''w'' 60 0 demo_handlers 5 NoFault demo_hold no_faults demo_command_message"

lemma demo_delivery_ack:
  "\<exists>res r' s'. demo_delivery empty_redis (demo_routed, 0) = (Inr res, r', s') \<and> decision res = ACK \<and> snd s' = 1"
proof -
  have "\<not> isl (fst (demo_delivery empty_redis (demo_routed, 0)))
    \<and> decision (projr (fst (demo_delivery empty_redis (demo_routed, 0)))) = ACK
    \<and> snd (snd (snd (demo_delivery empty_redis (demo_routed, 0)))) = 1"
    by code_simp
  then show ?thesis
    by (cases "demo_delivery empty_redis (demo_routed, 0)"; cases "fst (demo_delivery empty_redis (demo_routed, 0))")
      auto
qed

theorem acknowledged_never_reruns_witness:
  "\<exists>r' s'. snd s' = 1 \<and> snd (snd (demo_delivery r' s')) = s'"
proof -
  obtain res r' s' where "demo_delivery empty_redis (demo_routed, 0) = (Inr res, r', s')" "decision res = ACK"
    "snd s' = 1" using demo_delivery_ack by blast
  from acknowledged_never_reruns [OF this(1,2) [unfolded demo_delivery_def]] this(3)
  have "snd s' = 1 \<and> snd (snd (demo_delivery r' s')) = s'" by (simp add: demo_delivery_def)
  then show ?thesis by blast
qed

text \<open>
  the attempt budget. Under a handler that keeps failing, \<open>n\<close> deliveries count \<open>n\<close> failures;
  the command keeps running below the budget and is \<open>FAILED\<close> exactly when the budget is used up.
\<close>

theorem handler_budget:
  assumes "command ns cid (fst s) = Some v" "c_generation (v_row v) = generation"
    and "\<not> settled (c_state (v_row v))" "c_failure_attempts (v_row v) = 0" "0 < n" "int n \<le> max_attempts"
    and "handlers (event_type (ctx_event (store_context ns v))) = Some handler"
    and "\<forall>h. \<exists>e h'. handler (store_context ns v) h = (Inl e, h') \<and> counted e"
  shows "\<exists>v'. command ns cid (fst (redeliver n ns now handlers max_attempts cid generation s)) = Some v'
    \<and> c_failure_attempts (v_row v') = int n
    \<and> c_state (v_row v') = (if int n = max_attempts then Cmd_FAILED else Cmd_RUNNING)"
  using redeliver_counted [where handlers = handlers and handler = handler and n = n
      and max_attempts = max_attempts and now = now, OF assms(1-3,7,8)] assms(4-6) by auto

definition demo_failing :: "string \<Rightarrow> nat handler option" where
  "demo_failing ty = (if ty = ''execution.completed'' then Some (\<lambda>_ h. (Inl (ValueError ''boom''), h + 1)) else None)"

theorem handler_budget_witness:
  "\<exists>v'. command ''w'' 7 (fst (redeliver 2 ''w'' 0 demo_failing 2 7 0 (demo_routed, 0))) = Some v'
     \<and> c_failure_attempts (v_row v') = 2 \<and> c_state (v_row v') = Cmd_FAILED"
proof -
  let ?v = "the (command ''w'' 7 demo_routed)"
  have v: "command ''w'' 7 demo_routed \<noteq> None" "c_generation (v_row ?v) = 0" "c_failure_attempts (v_row ?v) = 0"
    "c_state (v_row ?v) = Cmd_READY" "event_type (ctx_event (store_context ''w'' ?v)) = ''execution.completed''"
    by code_simp+
  let ?h = "\<lambda>_ h. (Inl (ValueError ''boom''), h + 1)"
  have "\<forall>h. \<exists>e h'. ?h (store_context ''w'' ?v) (h :: nat) = (Inl e, h') \<and> counted e"
    by (simp add: counted_def)
  then show ?thesis
    using v handler_budget [where ns = "''w''" and cid = 7 and s = "(demo_routed, 0)" and v = ?v and generation = 0
        and n = 2 and max_attempts = 2 and handlers = demo_failing and handler = ?h and now = 0]
    by (simp add: demo_failing_def settled_def)
qed

text \<open>
  What a publication puts on the stream. Every entry one pass of the publisher appends reads
  back as the current generation of a \<open>READY\<close> command whose predecessors in its execution are
  finished, also when the pipeline breaks in the middle.
\<close>

theorem published_in_order:
  assumes "reachable_db uuid5 db" "\<forall>c \<in> set (ew_commands db). valid_uuid (c_command_id c)"
    and "outbox_once ns stream batch lease now token locked env r db = (res, r', db')"
  shows "\<exists>new. map snd (st_entries (stream_of stream r')) = map snd (st_entries (stream_of stream r)) @ new
    \<and> (\<forall>fs \<in> set new. \<exists>c \<in> set (ew_commands db). parse_envelope ns fs = Inr (c_command_id c, c_generation c)
         \<and> c_namespace c = ns \<and> c_state c = Cmd_READY \<and> \<not> earlier_open db c)"
proof -
  let ?rows = "fst (claim_outbox ns now token batch lease locked db)"
  have "\<exists>rows. set rows \<subseteq> set ?rows \<and> r' = publish now stream ns rows r"
    by (rule outbox_once_publishes [OF assms(3)])
  then obtain rows where rows: "set rows \<subseteq> set ?rows" "r' = publish now stream ns rows r" by blast
  have "\<exists>c \<in> set (ew_commands db). parse_envelope ns (command_fields ns row) = Inr (c_command_id c, c_generation c)
      \<and> c_namespace c = ns \<and> c_state c = Cmd_READY \<and> \<not> earlier_open db c" if "row \<in> set rows" for row
  proof -
    have claimed: "row \<in> set ?rows" using that rows(1) by blast
    have "o_namespace row = ns" using claimed_row [OF claimed] by (auto simp: o_key_def)
    moreover obtain c where c: "c \<in> set (ew_commands db)" "c_key c = o_key row" "c_state c = Cmd_READY"
      "c_generation c = o_generation row" "\<not> earlier_open db c"
      using claimed_ready [OF assms(1) claimed] by (fastforce simp: earlier_open_def list_ex_iff finished_def)
    ultimately have "c_namespace c = ns" "c_command_id c = o_command_id row"
      by (simp_all add: c_key_def o_key_def)
    then show ?thesis
      using c assms(2) envelope_round_trip [of row ns] by (metis (no_types, lifting))
  qed
  then show ?thesis using rows(2) publish_entries by (intro exI [of _ "map (command_fields ns) rows"]) auto
qed

definition demo_outbox_env :: outbox_env where
  "demo_outbox_env = \<lparr>oe_claim = NoFault, oe_pipeline = Answered (\<lambda>_. None), oe_finish_sent = NoFault,
     oe_finish_failed = NoFault\<rparr>"

definition demo_published :: "nat result \<times> redis \<times> worker_db" where
  "demo_published = outbox_once ''w'' ''s'' 10 30 5 9 {} demo_outbox_env empty_redis demo_routed"

theorem published_in_order_witness:
  "list_all (\<lambda>e. \<exists>c \<in> set (ew_commands demo_routed). parse_envelope ''w'' (snd e) = Inr (c_command_id c, c_generation c))
     (st_entries (stream_of ''s'' (fst (snd demo_published))))"
proof -
  have "\<forall>c \<in> set (ew_commands demo_routed). c_command_id c = 7" by code_simp
  then have valid: "\<forall>c \<in> set (ew_commands demo_routed). valid_uuid (c_command_id c)"
    by (simp add: valid_uuid_def)
  have run: "outbox_once ''w'' ''s'' 10 30 5 9 {} demo_outbox_env empty_redis demo_routed =
      (fst demo_published, fst (snd demo_published), snd (snd demo_published))"
    unfolding demo_published_def by (simp only: prod.collapse)
  have "st_entries (stream_of ''s'' empty_redis) = []"
    by (simp add: stream_of_def empty_redis_def empty_stream_def)
  with published_in_order [OF demo_reachable(2) valid run] show ?thesis by (fastforce simp: list_all_iff)
qed

end
