(* ===== verification/Worker_Streams.thy ===== *)
theory Worker_Streams
  imports Redis
begin

text \<open>
  The bounded stream operations of \<open>src/worker/redis_streams.py\<close>: the successor of a stream
  identifier, one page of stale pending entries claimed by the Lua script, and the progress of a
  group. The lemmas show that the pages of a sweep meet every pending entry once, and what a page
  does to the pending list.
\<close>

section \<open>Stream identifiers\<close>

definition max_id_part :: int where
  "max_id_part = 2 ^ 64 - 1"

definition next_stream_id :: "string \<Rightarrow> string option result" where
  "next_stream_id s = (case map py_int (split_on (CHR ''-'') s) of
       [Some milliseconds, Some sequence] \<Rightarrow>
         if \<not> (0 \<le> milliseconds \<and> milliseconds \<le> max_id_part \<and> 0 \<le> sequence \<and> sequence \<le> max_id_part)
         then Inl (ValueError ''Stream ID components must be uint64'')
         else if sequence < max_id_part
         then Inr (Some (py_str_int milliseconds @ CHR ''-'' # py_str_int (sequence + 1)))
         else if milliseconds < max_id_part
         then Inr (Some (py_str_int (milliseconds + 1) @ ''-0''))
         else Inr None
     | _ \<Rightarrow> Inl (ValueError ''not a stream identifier''))"

text \<open>How the server reads an identifier argument.\<close>

definition sid_parse :: "string \<Rightarrow> sid option" where
  "sid_parse s = (case map py_int (split_on (CHR ''-'') s) of
       [Some a, Some b] \<Rightarrow> if 0 \<le> a \<and> 0 \<le> b then Some (nat a, nat b) else None
     | _ \<Rightarrow> None)"

definition sid_ok :: "sid \<Rightarrow> bool" where
  "sid_ok i = (int (fst i) \<le> max_id_part \<and> int (snd i) \<le> max_id_part)"

section \<open>One page of the pending list\<close>

type_synonym message_fields = "(string \<times> string) list"

text \<open>The loop of \<open>_CLAIM_PAGE_SCRIPT\<close> over the pending entries of a page.\<close>

fun claim_entries ::
    "usec \<Rightarrow> string \<Rightarrow> string \<Rightarrow> string \<Rightarrow> int \<Rightarrow> pending_entry list \<Rightarrow> redis
      \<Rightarrow> (sid \<times> message_fields) list \<times> redis" where
  "claim_entries now s g c min_idle [] r = ([], r)"
| "claim_entries now s g c min_idle (p # ps) r =
     (if idle_ms now p < min_idle then claim_entries now s g c min_idle ps r
      else (case map_of (st_entries (stream_of s r)) (pe_id p) of
        None \<Rightarrow> claim_entries now s g c min_idle ps (xack s g (pe_id p) r)
      | Some fs \<Rightarrow>
          (let r1 = (case group_of s g r of None \<Rightarrow> r | Some gr \<Rightarrow> put_group s g (reassign now c (pe_id p) gr) r);
               (ms, r2) = claim_entries now s g c min_idle ps r1
           in ((pe_id p, fs) # ms, r2))))"

definition claim_page_script ::
    "usec \<Rightarrow> string \<Rightarrow> string \<Rightarrow> string \<Rightarrow> int \<Rightarrow> sid \<Rightarrow> nat \<Rightarrow> redis
      \<Rightarrow> (string \<times> nat \<times> (sid \<times> message_fields) list) result \<times> redis" where
  "claim_page_script now s g c min_idle start n r = (case group_of s g r of
       None \<Rightarrow> (Inl (ResponseError ''NOGROUP''), r)
     | Some gr \<Rightarrow>
         (let page = xpending start n gr;
              (ms, r') = claim_entries now s g c min_idle page r
          in (Inr (if page = [] then ''0-0'' else sid_str (pe_id (last page)), length page, ms), r')))"

text \<open>\<open>claim_pending_page\<close>: the next cursor, \<open>0-0\<close> at the end of the pending list, and the messages.\<close>

definition claim_pending_page ::
    "usec \<Rightarrow> string \<Rightarrow> string \<Rightarrow> string \<Rightarrow> int \<Rightarrow> string \<Rightarrow> int \<Rightarrow> redis
      \<Rightarrow> (string \<times> (string \<times> message_fields) list) result \<times> redis" where
  "claim_pending_page now s g c min_idle cursor n r =
     (if \<not> (1 \<le> n \<and> n \<le> 500) then (Inl (ValueError ''Claim page size must be between 1 and 500''), r)
      else if min_idle < 1 then (Inl (ValueError ''Claim idle time must be positive''), r)
      else (case sid_parse cursor of
        None \<Rightarrow> (Inl (ResponseError ''Invalid stream ID''), r)
      | Some start \<Rightarrow>
          sbind (claim_page_script now s g c min_idle start (nat n)) (\<lambda>(latest, scanned, ms).
            spure (rbind (if int scanned = n then next_stream_id latest else Inr None) (\<lambda>nxt.
              Inr (case nxt of None \<Rightarrow> ''0-0'' | Some i \<Rightarrow> i, map (\<lambda>(i, fs). (sid_str i, fs)) ms)))) r))"

section \<open>Progress of a group\<close>

record group_progress =
  gp_pending :: nat
  gp_lag :: "int option"
  gp_has_unread :: bool

text \<open>
  \<open>lag\<close> is the server's own count when it reports one (Redis 7), \<open>None\<close> otherwise; without it only
  the existence of an entry after the last delivered one is tested.
\<close>

definition group_progress_of :: "string \<Rightarrow> string \<Rightarrow> int option \<Rightarrow> redis \<Rightarrow> group_progress result" where
  "group_progress_of s g lag r = (case group_of s g r of
       None \<Rightarrow> Inl (ValueError (''Consumer group is missing: '' @ s @ ''/'' @ g))
     | Some gr \<Rightarrow> (case lag of
         Some n \<Rightarrow> Inr \<lparr>gp_pending = length (g_pel gr), gp_lag = Some n, gp_has_unread = n > 0\<rparr>
       | None \<Rightarrow> rbind (next_stream_id (sid_str (g_last gr))) (\<lambda>after.
           Inr \<lparr>gp_pending = length (g_pel gr), gp_lag = None,
                gp_has_unread = (case after of
                    None \<Rightarrow> False
                  | Some a \<Rightarrow> (case sid_parse a of
                      None \<Rightarrow> False
                    | Some i \<Rightarrow> list_ex (\<lambda>e. sid_le i (fst e)) (st_entries (stream_of s r))))\<rparr>)))"

section \<open>Lemmas on identifiers\<close>

lemma sid_parts: "split_on (CHR ''-'') (sid_str i) = [str_nat (fst i), str_nat (snd i)]"
  by (simp add: sid_str_def split_on_append split_on_notin str_nat_no)

lemma sid_round_trip [simp]: "sid_parse (sid_str i) = Some i"
  by (simp add: sid_parse_def sid_parts text_simps)

lemma py_str_int_nat: "0 \<le> n \<Longrightarrow> py_str_int n = str_nat (nat n)"
  by (simp add: py_str_int_def)

text \<open>The successor in the order of identifiers, as a pair.\<close>

definition next_sid :: "sid \<Rightarrow> sid option" where
  "next_sid i = (if int (snd i) < max_id_part then Some (fst i, snd i + 1)
     else if int (fst i) < max_id_part then Some (fst i + 1, 0) else None)"

lemma str_nat_0: "str_nat 0 = ''0''"
  by code_simp

lemma next_stream_id_sid:
  assumes "sid_ok i"
  shows "next_stream_id (sid_str i) = Inr (map_option sid_str (next_sid i))"
  using assms unfolding next_stream_id_def sid_parts
  by (auto simp: text_simps next_sid_def sid_ok_def sid_str_def py_str_int_nat str_nat_0 nat_add_distrib)

lemma next_sid_least:
  assumes "sid_ok i" "sid_ok j"
  shows "sid_lt i j \<longleftrightarrow> (case next_sid i of None \<Rightarrow> False | Some k \<Rightarrow> sid_le k j)"
  using assms by (auto simp: next_sid_def sid_lt_def sid_le_def sid_ok_def)

lemma next_sid_ok: "sid_ok i \<Longrightarrow> next_sid i = Some k \<Longrightarrow> sid_ok k"
  by (auto simp: next_sid_def sid_ok_def max_id_part_def split: if_splits)

section \<open>What a page does\<close>

definition stale :: "usec \<Rightarrow> int \<Rightarrow> pending_entry \<Rightarrow> bool" where
  "stale now min_idle p = (min_idle \<le> idle_ms now p)"

definition has_body :: "string \<Rightarrow> redis \<Rightarrow> sid \<Rightarrow> bool" where
  "has_body s r i = (map_of (st_entries (stream_of s r)) i \<noteq> None)"

text \<open>
  A page hands over its stale entries that still have a body, in order; a stale entry without one
  leaves the pending list; entries outside the page are untouched.
\<close>

definition page_effect ::
    "string \<Rightarrow> string \<Rightarrow> usec \<Rightarrow> int \<Rightarrow> pending_entry list \<Rightarrow> redis \<Rightarrow> stream_group
      \<Rightarrow> (sid \<times> message_fields) list \<Rightarrow> redis \<Rightarrow> bool" where
  "page_effect s g now mi ps r gr ms r' =
     (map fst ms = map pe_id (filter (\<lambda>p. stale now mi p \<and> has_body s r (pe_id p)) ps)
      \<and> st_entries (stream_of s r') = st_entries (stream_of s r)
      \<and> (\<exists>gr'. group_of s g r' = Some gr'
          \<and> map pe_id (g_pel gr') = filter (\<lambda>i. \<forall>p \<in> set ps. pe_id p = i \<longrightarrow> \<not> stale now mi p \<or> has_body s r i)
              (map pe_id (g_pel gr))
          \<and> filter (\<lambda>p. pe_id p \<notin> pe_id ` set ps) (g_pel gr') = filter (\<lambda>p. pe_id p \<notin> pe_id ` set ps) (g_pel gr)))"

lemma page_effect_Cons:
  assumes eff: "page_effect s g now mi ps r1 gr1 ms1 r'"
    and body: "st_entries (stream_of s r1) = st_entries (stream_of s r)"
    and ids: "map pe_id (g_pel gr1) =
      filter (\<lambda>i. i = pe_id p \<longrightarrow> \<not> stale now mi p \<or> has_body s r i) (map pe_id (g_pel gr))"
    and rest: "filter (\<lambda>q. pe_id q \<noteq> pe_id p) (g_pel gr1) = filter (\<lambda>q. pe_id q \<noteq> pe_id p) (g_pel gr)"
    and ms: "map fst ms = (if stale now mi p \<and> has_body s r (pe_id p) then [pe_id p] else []) @ map fst ms1"
  shows "page_effect s g now mi (p # ps) r gr ms r'"
proof -
  have b: "has_body s r1 = has_body s r" by (simp add: has_body_def body fun_eq_iff)
  from eff obtain gr' where gr': "group_of s g r' = Some gr'" "map pe_id (g_pel gr') =
      filter (\<lambda>i. \<forall>q \<in> set ps. pe_id q = i \<longrightarrow> \<not> stale now mi q \<or> has_body s r i) (map pe_id (g_pel gr1))"
    "filter (\<lambda>q. pe_id q \<notin> pe_id ` set ps) (g_pel gr') = filter (\<lambda>q. pe_id q \<notin> pe_id ` set ps) (g_pel gr1)"
    by (auto simp: page_effect_def b)
  have "map pe_id (g_pel gr') = filter (\<lambda>i. \<forall>q \<in> set (p # ps). pe_id q = i \<longrightarrow>
      \<not> stale now mi q \<or> has_body s r i) (map pe_id (g_pel gr))"
    unfolding gr'(2) ids filter_filter by (rule filter_cong [OF refl]) auto
  moreover have "filter (\<lambda>q. pe_id q \<notin> pe_id ` set (p # ps)) (g_pel gr') =
      filter (\<lambda>q. pe_id q \<notin> pe_id ` set (p # ps)) (g_pel gr)"
    using arg_cong [OF gr'(3), of "filter (\<lambda>q. pe_id q \<noteq> pe_id p)"]
      arg_cong [OF rest, of "filter (\<lambda>q. pe_id q \<notin> pe_id ` set ps)"] by (simp add: conj_commute)
  ultimately show ?thesis using eff gr'(1) ms body by (auto simp: page_effect_def b)
qed

lemma filter_reassign:
  "filter (\<lambda>q. pe_id q \<noteq> i) (g_pel (reassign now c i gr)) = filter (\<lambda>q. pe_id q \<noteq> i) (g_pel gr)"
proof -
  have "filter (\<lambda>q. pe_id q \<noteq> i) (sql_update (\<lambda>p. pe_id p = i) (\<lambda>p. p\<lparr>pe_consumer := c, pe_time := now\<rparr>) ps)
      = filter (\<lambda>q. pe_id q \<noteq> i) ps" for ps
    by (induction ps) (auto simp: sql_update_def)
  then show ?thesis by (simp add: reassign_def)
qed

lemma claim_entries_spec:
  assumes "group_of s g r = Some gr" "claim_entries now s g c mi ps r = (ms, r')"
  shows "page_effect s g now mi ps r gr ms r'"
  using assms
proof (induction ps arbitrary: r gr ms)
  case (Cons p ps)
  have all: "xs = filter (\<lambda>i. i = pe_id p \<longrightarrow> \<not> stale now mi p \<or> has_body s r i) xs"
    if "\<not> stale now mi p \<or> has_body s r (pe_id p)" for xs
    using that by (simp add: filter_True)
  show ?case
  proof (cases "stale now mi p")
    case False
    then have "page_effect s g now mi ps r gr ms r'" using Cons by (simp add: stale_def)
    then show ?thesis by (rule page_effect_Cons) (use False all in simp_all)
  next
    case stale: True
    show ?thesis
    proof (cases "map_of (st_entries (stream_of s r)) (pe_id p)")
      case None
      let ?gr = "gr\<lparr>g_pel := filter (\<lambda>q. pe_id q \<noteq> pe_id p) (g_pel gr)\<rparr>"
      have "group_of s g (xack s g (pe_id p) r) = Some ?gr" using Cons.prems(1) by (simp add: xack_def)
      moreover have "claim_entries now s g c mi ps (xack s g (pe_id p) r) = (ms, r')"
        using Cons.prems(2) stale None by (simp add: stale_def)
      ultimately have "page_effect s g now mi ps (xack s g (pe_id p) r) ?gr ms r'" by (rule Cons.IH)
      then show ?thesis
        by (rule page_effect_Cons)
          (use None stale in \<open>auto simp: has_body_def filter_map o_def intro!: arg_cong [of _ _ "map pe_id"] filter_cong\<close>)
    next
      case (Some fs)
      let ?gr = "reassign now c (pe_id p) gr" and ?r = "put_group s g (reassign now c (pe_id p) gr) r"
      obtain ms1 where ms1: "claim_entries now s g c mi ps ?r = (ms1, r')" "ms = (pe_id p, fs) # ms1"
        using Cons.prems stale Some by (auto simp: stale_def Let_def split: prod.splits)
      have "page_effect s g now mi ps ?r ?gr ms1 r'" by (rule Cons.IH [OF _ ms1(1)]) simp
      then show ?thesis
        by (rule page_effect_Cons) (use ms1(2) Some stale all in \<open>simp_all add: has_body_def filter_reassign\<close>)
    qed
  qed
qed (simp add: page_effect_def)

section \<open>Sweeps\<close>

text \<open>The pages of one recovery round, from the start of the pending list until the cursor is back.\<close>

fun sweep ::
    "nat \<Rightarrow> usec \<Rightarrow> string \<Rightarrow> string \<Rightarrow> string \<Rightarrow> int \<Rightarrow> int \<Rightarrow> string \<Rightarrow> redis
      \<Rightarrow> ((string \<times> message_fields) list \<times> redis) option" where
  "sweep 0 now s g c mi n cursor r = None"
| "sweep (Suc fuel) now s g c mi n cursor r =
     (case claim_pending_page now s g c mi cursor n r of
        (Inl _, _) \<Rightarrow> None
      | (Inr (nxt, ms), r1) \<Rightarrow>
          if nxt = ''0-0'' then Some (ms, r1)
          else map_option (\<lambda>(ms', r2). (ms @ ms', r2)) (sweep fuel now s g c mi n nxt r1))"

text \<open>The server keeps a group's pending list in identifier order, with 64-bit parts.\<close>

definition pel_ok :: "stream_group \<Rightarrow> bool" where
  "pel_ok gr = (sorted_wrt sid_lt (map pe_id (g_pel gr)) \<and> (\<forall>p \<in> set (g_pel gr). sid_ok (pe_id p)))"

lemma pel_ok_distinct:
  assumes "pel_ok gr"
  shows "distinct (map pe_id (g_pel gr))"
proof -
  have "sorted_wrt sid_lt xs \<Longrightarrow> distinct xs" for xs
    by (induction xs) (auto simp: sid_lt_def)
  then show ?thesis using assms by (simp add: pel_ok_def)
qed

definition from_id :: "sid \<Rightarrow> pending_entry list \<Rightarrow> pending_entry list" where
  "from_id start = filter (\<lambda>p. sid_le start (pe_id p))"

lemma sid_lt_irrefl: "\<not> sid_lt a a"
  by (simp add: sid_lt_def)

lemma sid_lt_asym: "sid_lt a b \<Longrightarrow> \<not> sid_lt b a"
  by (auto simp: sid_lt_def)

lemma sorted_from_split:
  assumes "sorted_wrt sid_lt (map pe_id ps)" "from_id start ps = xs @ [p] @ ys"
  shows "filter (\<lambda>q. sid_lt (pe_id p) (pe_id q)) ps = ys"
proof -
  have ord: "sorted_wrt (\<lambda>a b. sid_lt (pe_id a) (pe_id b)) (xs @ [p] @ ys)"
    using assms sorted_wrt_filter [of "\<lambda>a b. sid_lt (pe_id a) (pe_id b)" ps "\<lambda>p. sid_le start (pe_id p)"]
    by (simp add: from_id_def sorted_wrt_map)
  have "p \<in> set (from_id start ps)" unfolding assms(2) by simp
  then have "sid_le start (pe_id p)" by (simp add: from_id_def)
  then have "filter (\<lambda>q. sid_lt (pe_id p) (pe_id q)) ps = filter (\<lambda>q. sid_lt (pe_id p) (pe_id q)) (from_id start ps)"
    unfolding from_id_def filter_filter by (intro filter_cong) (auto simp: sid_lt_def sid_le_def)
  also have "\<dots> = ys"
  proof -
    have "\<forall>q \<in> set xs. \<not> sid_lt (pe_id p) (pe_id q)" "\<forall>q \<in> set ys. sid_lt (pe_id p) (pe_id q)" "\<not> sid_lt (pe_id p) (pe_id p)"
      using ord by (auto simp: sorted_wrt_append sid_lt_irrefl dest: sid_lt_asym)
    then show ?thesis unfolding assms(2) by simp
  qed
  finally show ?thesis .
qed

lemma page_rest:
  assumes "pel_ok gr" "0 < n" "length (xpending start n gr) = n"
  shows "(case next_sid (pe_id (last (xpending start n gr))) of
            None \<Rightarrow> [] | Some k \<Rightarrow> from_id k (g_pel gr)) = drop n (from_id start (g_pel gr))"
proof -
  let ?L = "from_id start (g_pel gr)" and ?p = "last (xpending start n gr)"
  have page: "xpending start n gr = take n ?L" by (simp add: xpending_def from_id_def)
  then have "take n ?L \<noteq> []" using assms(2,3) by auto
  then have split: "?L = butlast (take n ?L) @ [?p] @ drop n ?L"
    using page by (metis append.assoc append_butlast_last_id append_take_drop_id)
  have after: "filter (\<lambda>q. sid_lt (pe_id ?p) (pe_id q)) (g_pel gr) = drop n ?L"
    using sorted_from_split [OF _ split] assms(1) by (simp add: pel_ok_def)
  have "?p \<in> set ?L" by (subst split) simp
  then have "?p \<in> set (g_pel gr)" by (simp add: from_id_def)
  then have ok: "sid_ok (pe_id ?p)" using assms(1) by (simp add: pel_ok_def)
  have "sid_lt (pe_id ?p) (pe_id q) = (case next_sid (pe_id ?p) of None \<Rightarrow> False | Some k \<Rightarrow> sid_le k (pe_id q))"
    if "q \<in> set (g_pel gr)" for q
    using that assms(1) next_sid_least [OF ok] by (simp add: pel_ok_def)
  then have "filter (\<lambda>q. sid_lt (pe_id ?p) (pe_id q)) (g_pel gr) = filter (\<lambda>q. case next_sid (pe_id ?p) of
      None \<Rightarrow> False | Some k \<Rightarrow> sid_le k (pe_id q)) (g_pel gr)"
    by (rule filter_cong [OF refl])
  then show ?thesis
    unfolding after [symmetric] by (simp add: from_id_def split: option.split)
qed

lemma sid_str_zero: "sid_str (0, 0) = ''0-0''"
  by (simp add: sid_str_def str_nat_0)

lemma sid_str_inj: "sid_str a = sid_str b \<longleftrightarrow> a = b"
  by (metis option.inject sid_round_trip)

lemma next_sid_nonzero: "next_sid i = Some k \<Longrightarrow> sid_str k \<noteq> ''0-0''"
  unfolding sid_str_zero [symmetric] sid_str_inj by (auto simp: next_sid_def split: if_splits)

definition page_cursor :: "nat \<Rightarrow> pending_entry list \<Rightarrow> string" where
  "page_cursor n page = (if length page = n
     then (case next_sid (pe_id (last page)) of None \<Rightarrow> ''0-0'' | Some k \<Rightarrow> sid_str k) else ''0-0'')"

lemma claim_pending_page_run:
  assumes gr: "group_of s g r = Some gr" "pel_ok gr" and n: "1 \<le> n" "n \<le> 500" "1 \<le> mi"
    and page_def: "page = xpending start (nat n) gr"
  shows "\<exists>ms r'. claim_pending_page now s g c mi (sid_str start) n r =
      (Inr (page_cursor (nat n) page, map (\<lambda>(i, fs). (sid_str i, fs)) ms), r')
    \<and> page_effect s g now mi page r gr ms r'"
proof -
  obtain ms r' where run: "claim_entries now s g c mi page r = (ms, r')" by fastforce
  note eff = claim_entries_spec [OF gr(1) run]
  have "sid_ok (pe_id (last page))" if "page \<noteq> []"
    using gr(2) last_in_set [OF that] by (auto simp: page_def xpending_def pel_ok_def dest!: in_set_takeD)
  then have nxt: "length page = nat n \<Longrightarrow> next_stream_id (if page = [] then ''0-0'' else sid_str (pe_id (last page))) =
      Inr (map_option sid_str (next_sid (pe_id (last page))))"
    using n next_stream_id_sid by auto
  have "claim_pending_page now s g c mi (sid_str start) n r =
      (Inr (page_cursor (nat n) page, map (\<lambda>(i, fs). (sid_str i, fs)) ms), r')"
    using n run nxt gr(1)
    by (auto simp: claim_pending_page_def claim_page_script_def page_def [symmetric] sbind_def spure_def
        page_cursor_def Let_def split: option.splits)
  then show ?thesis using eff by blast
qed

lemma from_id_outside:
  assumes "\<forall>p \<in> set ps. \<not> sid_le k (pe_id p)"
    and "filter (\<lambda>p. pe_id p \<notin> pe_id ` set ps) xs = filter (\<lambda>p. pe_id p \<notin> pe_id ` set ps) ys"
  shows "from_id k xs = from_id k ys"
proof -
  have "from_id k zs = from_id k (filter (\<lambda>p. pe_id p \<notin> pe_id ` set ps) zs)" for zs
    unfolding from_id_def filter_filter using assms(1) by (intro filter_cong) auto
  then show ?thesis using assms(2) by metis
qed

lemma page_effect_group:
  assumes "page_effect s g now mi page r gr ms r'" "pel_ok gr"
  obtains gr' where "group_of s g r' = Some gr'" "pel_ok gr'"
    "filter (\<lambda>p. pe_id p \<notin> pe_id ` set page) (g_pel gr') = filter (\<lambda>p. pe_id p \<notin> pe_id ` set page) (g_pel gr)"
proof -
  from assms(1) obtain gr' P where gr': "group_of s g r' = Some gr'" "map pe_id (g_pel gr') = filter P (map pe_id (g_pel gr))"
    "filter (\<lambda>p. pe_id p \<notin> pe_id ` set page) (g_pel gr') = filter (\<lambda>p. pe_id p \<notin> pe_id ` set page) (g_pel gr)"
    by (auto simp: page_effect_def)
  have "pe_id p \<in> set (map pe_id (g_pel gr))" if "p \<in> set (g_pel gr')" for p
    using that arg_cong [OF gr'(2), of set] by auto
  then have "pel_ok gr'"
    using assms(2) gr'(2) sorted_wrt_filter by (fastforce simp: pel_ok_def)
  then show ?thesis by (rule that [OF gr'(1) _ gr'(3)])
qed

lemma next_after_page:
  assumes "pel_ok gr" "p \<in> set (xpending start n gr)" "length (xpending start n gr) = n"
    and "next_sid (pe_id (last (xpending start n gr))) = Some k"
  shows "\<not> sid_le k (pe_id p)"
proof
  let ?page = "xpending start n gr"
  assume le: "sid_le k (pe_id p)"
  have "sorted_wrt (\<lambda>a b. sid_lt (pe_id a) (pe_id b)) ?page"
    using assms(1) by (auto simp: xpending_def pel_ok_def sorted_wrt_map intro!: sorted_wrt_take sorted_wrt_filter)
  moreover have "?page \<noteq> []" using assms(2) by auto
  then obtain xs x where split: "?page = xs @ [x]" by (meson rev_exhaust)
  ultimately have "p = last ?page \<or> sid_lt (pe_id p) (pe_id (last ?page))"
    using assms(2) unfolding split by (auto simp: sorted_wrt_append)
  moreover have "sid_ok (pe_id q)" if "q \<in> set ?page" for q
    using assms(1) that by (auto simp: xpending_def pel_ok_def dest!: in_set_takeD)
  then have "sid_ok (pe_id p)" "sid_ok (pe_id (last ?page))"
    using assms(2) last_in_set [OF \<open>?page \<noteq> []\<close>] by blast+
  then have "sid_lt (pe_id (last ?page)) (pe_id p)" using le next_sid_least assms(4) by simp
  ultimately show False using sid_lt_asym sid_lt_irrefl by metis
qed

lemma sweep_complete:
  assumes "group_of s g r = Some gr" "pel_ok gr" "1 \<le> n" "n \<le> 500" "1 \<le> mi"
    and "length (from_id start (g_pel gr)) < fuel"
  shows "\<exists>ms r'. sweep fuel now s g c mi n (sid_str start) r = Some (ms, r')
    \<and> map fst ms = map (sid_str \<circ> pe_id) (filter (\<lambda>p. stale now mi p \<and> has_body s r (pe_id p)) (from_id start (g_pel gr)))"
  using assms(1,2,6)
proof (induction fuel arbitrary: start r gr)
  case (Suc fuel)
  let ?page = "xpending start (nat n) gr" and ?L = "from_id start (g_pel gr)"
  obtain ms r' where run: "claim_pending_page now s g c mi (sid_str start) n r =
      (Inr (page_cursor (nat n) ?page, map (\<lambda>(i, fs). (sid_str i, fs)) ms), r')"
    and eff: "page_effect s g now mi ?page r gr ms r'"
    using claim_pending_page_run [OF Suc.prems(1,2) assms(3-5) refl] by metis
  have page: "?page = take (nat n) ?L" by (simp add: xpending_def from_id_def)
  have ms: "map fst (map (\<lambda>(i, fs). (sid_str i, fs)) ms) =
      map (sid_str \<circ> pe_id) (filter (\<lambda>p. stale now mi p \<and> has_body s r (pe_id p)) ?page)"
  proof -
    have "map fst ms = map pe_id (filter (\<lambda>p. stale now mi p \<and> has_body s r (pe_id p)) ?page)"
      using eff by (simp add: page_effect_def)
    from arg_cong [OF this, of "map sid_str"] show ?thesis by (simp add: case_prod_beta o_def)
  qed
  note rest = page_rest [OF Suc.prems(2), of "nat n" start]
  show ?case
  proof (cases "length ?page = nat n \<and> next_sid (pe_id (last ?page)) \<noteq> None")
    case False
    have "drop (nat n) ?L = []" if len: "length ?page = nat n"
    proof -
      have "next_sid (pe_id (last ?page)) = None" using False len by blast
      then show ?thesis using rest len assms(3) by simp
    qed
    moreover have "drop (nat n) ?L = []" if "length ?page \<noteq> nat n"
      using that page by simp
    ultimately have "drop (nat n) ?L = []" by blast
    then have "?page = ?L" using page by simp
    moreover have "page_cursor (nat n) ?page = ''0-0''"
      using False by (cases "next_sid (pe_id (last ?page))") (auto simp: page_cursor_def)
    ultimately show ?thesis using run ms by simp
  next
    case True
    then obtain k where k: "next_sid (pe_id (last ?page)) = Some k" by auto
    have drop: "from_id k (g_pel gr) = drop (nat n) ?L" using rest True k assms(3) by simp
    obtain gr' where gr': "group_of s g r' = Some gr'" "pel_ok gr'"
      "filter (\<lambda>p. pe_id p \<notin> pe_id ` set ?page) (g_pel gr') = filter (\<lambda>p. pe_id p \<notin> pe_id ` set ?page) (g_pel gr)"
      using page_effect_group [OF eff Suc.prems(2)] by blast
    have same: "from_id k (g_pel gr') = drop (nat n) ?L"
      using from_id_outside [OF _ gr'(3)] next_after_page [OF Suc.prems(2) _ _ k] True drop by metis
    have "0 < nat n" "nat n \<le> length ?L" using True assms(3) page by (simp, metis length_take min.cobounded1)
    then have "length (from_id k (g_pel gr')) < fuel" using same Suc.prems(3) by simp
    from Suc.IH [OF gr'(1,2) this] obtain ms2 r2 where "sweep fuel now s g c mi n (sid_str k) r' = Some (ms2, r2)"
      "map fst ms2 = map (sid_str \<circ> pe_id) (filter (\<lambda>p. stale now mi p \<and> has_body s r' (pe_id p)) (drop (nat n) ?L))"
      unfolding same by blast
    moreover have "has_body s r' = has_body s r" using eff by (simp add: page_effect_def has_body_def fun_eq_iff)
    moreover have "filter P ?L = filter P ?page @ filter P (drop (nat n) ?L)" for P
      unfolding page by (metis append_take_drop_id filter_append)
    ultimately show ?thesis
      using run ms True k next_sid_nonzero [OF k] by (simp add: page_cursor_def)
  qed
qed simp

section \<open>Properties\<close>

text \<open>
  the successor of a stream identifier. On well-formed identifiers \<open>next_stream_id\<close> returns the
  least identifier above its argument, and nothing at the end of the 64-bit identifier space.
\<close>

theorem next_stream_id_least:
  assumes "sid_ok i" "sid_ok j"
  shows "(case next_stream_id (sid_str i) of
       Inr None \<Rightarrow> \<not> sid_lt i j
     | Inr (Some t) \<Rightarrow> (\<exists>k. t = sid_str k \<and> sid_ok k \<and> sid_lt i k \<and> (sid_lt i j \<longrightarrow> sid_le k j))
     | Inl _ \<Rightarrow> False)"
proof (cases "next_sid i")
  case None
  then show ?thesis using assms next_sid_least by (simp add: next_stream_id_sid)
next
  case (Some k)
  then have "sid_ok k" using assms(1) by (rule next_sid_ok [rotated])
  moreover from this have "sid_lt i k" using Some assms(1) next_sid_least sid_order(1) by simp
  moreover have "sid_lt i j \<longrightarrow> sid_le k j" using Some assms next_sid_least by simp
  ultimately have "\<exists>k'. sid_str k = sid_str k' \<and> sid_ok k' \<and> sid_lt i k' \<and> (sid_lt i j \<longrightarrow> sid_le k' j)" by blast
  then show ?thesis using Some assms(1) by (simp add: next_stream_id_sid)
qed

theorem next_stream_id_least_witness:
  "\<exists>k. next_stream_id (sid_str (5, 2 ^ 64 - 1)) = Inr (Some (sid_str k)) \<and> sid_le k (6, 0)"
proof -
  have "sid_ok (5, 2 ^ 64 - 1)" "sid_ok (6, 0)" "sid_lt (5, 2 ^ 64 - 1) (6, 0)"
    by (simp_all add: sid_ok_def max_id_part_def sid_lt_def)
  from next_stream_id_least [OF this(1,2)] this(3) show ?thesis
    by (auto split: sum.splits option.splits)
qed

text \<open>
  C33: a recovery sweep is complete. Starting at the beginning of the pending list, pages of any
  allowed size end, and together they hand over, once and in order, exactly the entries that were
  idle long enough and still have a body.
\<close>

theorem sweep_claims_all_stale:
  assumes "group_of s g r = Some gr" "pel_ok gr" "1 \<le> n" "n \<le> 500" "1 \<le> mi" "length (g_pel gr) < fuel"
  shows "\<exists>ms r'. sweep fuel now s g c mi n ''0-0'' r = Some (ms, r')
    \<and> map fst ms = map (sid_str \<circ> pe_id) (filter (\<lambda>p. stale now mi p \<and> has_body s r (pe_id p)) (g_pel gr))"
proof -
  have all: "from_id (0, 0) (g_pel gr) = g_pel gr"
    unfolding from_id_def by (rule filter_True) (auto simp: sid_le_def)
  show ?thesis
    using sweep_complete [OF assms(1-5), of "(0, 0)" fuel now c] assms(6) unfolding all sid_str_zero by simp
qed

definition demo_group :: stream_group where
  "demo_group = \<lparr>g_last = (3, 0), g_pel = [\<lparr>pe_id = (1, 0), pe_consumer = ''a'', pe_time = 0\<rparr>,
     \<lparr>pe_id = (2, 0), pe_consumer = ''a'', pe_time = 0\<rparr>, \<lparr>pe_id = (3, 0), pe_consumer = ''b'', pe_time = 60000000\<rparr>]\<rparr>"

definition demo_pending :: redis where
  "demo_pending = put_stream ''s'' \<lparr>st_entries = [((1, 0), []), ((3, 0), [])], st_last = (3, 0),
     st_groups = (\<lambda>_. None)(''g'' := Some demo_group)\<rparr> empty_redis"

theorem sweep_claims_all_stale_witness:
  "\<exists>ms r'. sweep 4 60000000 ''s'' ''g'' ''c'' 30000 1 ''0-0'' demo_pending = Some (ms, r') \<and> map fst ms = [sid_str (1, 0)]"
proof -
  have "group_of ''s'' ''g'' demo_pending = Some demo_group" "pel_ok demo_group" "length (g_pel demo_group) < 4"
    by (simp_all add: demo_pending_def group_of_def put_stream_def demo_group_def pel_ok_def sid_lt_def sid_ok_def
        max_id_part_def)
  note sweep = sweep_claims_all_stale [OF this(1,2) _ _ _ this(3), of 1 30000 60000000 "''c''"]
  have "filter (\<lambda>p. stale 60000000 30000 p \<and> has_body ''s'' demo_pending (pe_id p)) (g_pel demo_group) =
      [\<lparr>pe_id = (1, 0), pe_consumer = ''a'', pe_time = 0\<rparr>]"
    by (simp add: demo_group_def stale_def idle_ms_def has_body_def demo_pending_def)
  with sweep show ?thesis by simp
qed

end
