(* ===== verification/Worker_Consumer.thy ===== *)
theory Worker_Consumer
  imports Worker_Contracts Worker_Guard Worker_Streams
begin

text \<open>
  The at-least-once stream consumer of \<open>src/worker/consumer.py\<close>: the checks of its configuration,
  the processing of one message (lock, lease, handler, acknowledgement, retry counter, dead
  letter), one iteration of a slot with its recovery page and its read, the delay between
  iterations, and the health of the consumer. A handler maps a message, the server and the state
  of its own world to its result. The environment decides the faults of the Redis calls and
  whether the heartbeat loses the message while the handler runs.
\<close>

section \<open>Configuration\<close>

record consumer_config =
  cc_stream :: string
  cc_group :: string
  cc_consumer_prefix :: string
  cc_concurrency :: int
  cc_block_milliseconds :: int
  cc_claim_idle_milliseconds :: int
  cc_claim_batch_size :: int
  cc_group_start_id :: sid
  cc_dead_letter_stream :: "string option"
  cc_lock_ttl_seconds :: int
  cc_lock_renew_interval_seconds :: int
  cc_consumer_gc_idle_milliseconds :: "int option"
  cc_max_retry_attempts :: int
  cc_retry_state_ttl_seconds :: int
  cc_retry_key_prefix :: string
  cc_redis_stream_mode :: string

definition check :: "bool \<Rightarrow> string \<Rightarrow> unit result" where
  "check ok m = (if ok then Inr () else Inl (ValueError m))"

definition config_post_init :: "consumer_config \<Rightarrow> unit result" where
  "config_post_init cfg =
     rbind (check (cc_redis_stream_mode cfg \<in> {''compat'', ''native''})
              ''redis_stream_mode must be compat or native'') (\<lambda>_.
     rbind (check (1 \<le> cc_concurrency cfg) ''concurrency must be positive'') (\<lambda>_.
     rbind (check (1 \<le> cc_block_milliseconds cfg) ''block_milliseconds must be positive'') (\<lambda>_.
     rbind (check (1 \<le> cc_claim_idle_milliseconds cfg) ''claim_idle_milliseconds must be positive'') (\<lambda>_.
     rbind (check (1 \<le> cc_claim_batch_size cfg \<and> cc_claim_batch_size cfg \<le> 500)
              ''claim_batch_size must be between 1 and 500'') (\<lambda>_.
     rbind (check (1 \<le> cc_lock_ttl_seconds cfg) ''lock_ttl_seconds must be positive'') (\<lambda>_.
     rbind (check (1 \<le> cc_lock_renew_interval_seconds cfg)
              ''lock_renew_interval_seconds must be positive'') (\<lambda>_.
     rbind (check (cc_lock_renew_interval_seconds cfg < cc_lock_ttl_seconds cfg)
              ''lock renewal must be faster than lock expiry'') (\<lambda>_.
     rbind (check (cc_lock_renew_interval_seconds cfg * 1000 < cc_claim_idle_milliseconds cfg)
              ''lease renewal must be faster than claim idle'') (\<lambda>_.
     rbind (check (1 \<le> cc_max_retry_attempts cfg) ''max_retry_attempts must be positive'') (\<lambda>_.
     rbind (check (cc_claim_idle_milliseconds cfg * cc_max_retry_attempts cfg div 1000
                     < cc_retry_state_ttl_seconds cfg)
              ''retry state TTL must exceed the maximum retry window'') (\<lambda>_.
     check (cc_retry_key_prefix cfg \<noteq> []) ''retry_key_prefix cannot be empty'')))))))))))"

section \<open>Group and consumers\<close>

text \<open>\<open>ensure_group\<close>: a group that exists already is no error.\<close>

fun contains :: "string \<Rightarrow> string \<Rightarrow> bool" where
  "contains p [] = (p = [])"
| "contains p (x # xs) = (take (length p) (x # xs) = p \<or> contains p xs)"

definition ensure_group :: "consumer_config \<Rightarrow> redis \<Rightarrow> unit result \<times> redis" where
  "ensure_group cfg r =
     (case xgroup_create (cc_stream cfg) (cc_group cfg) (cc_group_start_id cfg) r of
        (Inl (ResponseError m), r') \<Rightarrow> if contains ''BUSYGROUP'' m then (Inr (), r') else (Inl (ResponseError m), r')
      | res \<Rightarrow> res)"

record consumer_info =
  ci_name :: string
  ci_pending :: int
  ci_idle :: int

definition slot_name :: "consumer_config \<Rightarrow> nat \<Rightarrow> string" where
  "slot_name cfg i = cc_consumer_prefix cfg @ CHR ''-'' # str_nat i"

text \<open>\<open>cleanup_consumers\<close>: the names it deletes from the group.\<close>

definition stale_consumers :: "consumer_config \<Rightarrow> consumer_info list \<Rightarrow> string list" where
  "stale_consumers cfg infos = (case cc_consumer_gc_idle_milliseconds cfg of
       None \<Rightarrow> []
     | Some minimum_idle \<Rightarrow>
         map ci_name (filter (\<lambda>i. ci_name i \<notin> set (map (slot_name cfg) [0..<nat (cc_concurrency cfg)])
           \<and> ci_pending i = 0 \<and> minimum_idle \<le> ci_idle i) infos))"

section \<open>Acknowledgement, retry and dead letter\<close>

definition message_identity :: "consumer_config \<Rightarrow> string \<Rightarrow> string" where
  "message_identity cfg mid = cc_stream cfg @ CHR 0x00 # cc_group cfg @ CHR 0x00 # mid"

definition failure_id :: "(string \<Rightarrow> string) \<Rightarrow> consumer_config \<Rightarrow> string \<Rightarrow> string" where
  "failure_id sha256 cfg mid = sha256 (message_identity cfg mid)"

definition retry_state_key :: "(string \<Rightarrow> string) \<Rightarrow> consumer_config \<Rightarrow> string \<Rightarrow> string" where
  "retry_state_key sha256 cfg mid = cc_retry_key_prefix cfg @ CHR '':'' # sha256 (message_identity cfg mid)"

text \<open>\<open>XACK\<close> of an identifier given as text.\<close>

definition xack_text :: "consumer_config \<Rightarrow> string \<Rightarrow> redis \<Rightarrow> redis" where
  "xack_text cfg mid r = (case sid_parse mid of None \<Rightarrow> r | Some i \<Rightarrow> xack (cc_stream cfg) (cc_group cfg) i r)"

definition ack :: "(string \<Rightarrow> string) \<Rightarrow> consumer_config \<Rightarrow> fault \<Rightarrow> stream_message \<Rightarrow> redis \<Rightarrow> unit result \<times> redis" where
  "ack sha256 cfg ft msg = with_fault ft (swrite (\<lambda>r.
     if \<not> reclaimed msg then xack_text cfg (message_id msg) r
     else xack_text cfg (message_id msg) (redis_del (retry_state_key sha256 cfg (message_id msg)) r)))"

text \<open>The members of a dead-letter entry; \<open>dumps\<close> is the sorted JSON text of the fields.\<close>

definition dead_letter_fields ::
    "(string \<Rightarrow> string) \<Rightarrow> ((string \<times> string) list \<Rightarrow> string) \<Rightarrow> consumer_config \<Rightarrow> string \<Rightarrow> string \<Rightarrow> stream_message
      \<Rightarrow> string \<Rightarrow> int \<Rightarrow> string \<Rightarrow> (string \<times> string) list" where
  "dead_letter_fields sha256 dumps cfg at consumer msg why attempts err =
     [(''schema_version'', ''1''), (''failure_id'', failure_id sha256 cfg (message_id msg)),
      (''dead_lettered_at'', at), (''source_stream'', cc_stream cfg), (''source_group'', cc_group cfg),
      (''source_message_id'', message_id msg), (''consumer'', consumer), (''error_type'', err),
      (''reason'', why), (''retry_attempts'', py_str_int attempts),
      (''reclaimed'', if reclaimed msg then ''true'' else ''false''), (''fields'', dumps (msg_fields msg))]"

text \<open>What one run of the consumer knows of its surroundings.\<close>

record consumer_env =
  ce_now :: usec
  ce_isoformat :: "usec \<Rightarrow> string"
  ce_sha256 :: "string \<Rightarrow> string"
  ce_dumps :: "(string \<times> string) list \<Rightarrow> string"
  ce_ack_fault :: fault
  ce_retry_fault :: fault
  ce_dead_letter_fault :: fault

definition dead_letter ::
    "consumer_config \<Rightarrow> consumer_env \<Rightarrow> string \<Rightarrow> stream_message \<Rightarrow> string \<Rightarrow> int \<Rightarrow> string \<Rightarrow> redis \<Rightarrow> unit result \<times> redis" where
  "dead_letter cfg env consumer msg why attempts err = (case cc_dead_letter_stream cfg of
       None \<Rightarrow> spure (Inl (RuntimeError ''dead-letter stream is not configured''))
     | Some dlq \<Rightarrow> with_fault (ce_dead_letter_fault env) (swrite (\<lambda>r.
         xack_text cfg (message_id msg)
           (xadd (ce_now env) dlq (dead_letter_fields (ce_sha256 env) (ce_dumps env) cfg
                (ce_isoformat env (ce_now env)) consumer msg why attempts err)
             (redis_del (retry_state_key (ce_sha256 env) cfg (message_id msg)) r)))))"

definition or_else :: "string option \<Rightarrow> string \<Rightarrow> string" where
  "or_else m d = (case m of None \<Rightarrow> d | Some s \<Rightarrow> if s = [] then d else s)"

definition retry_or_dead_letter ::
    "consumer_config \<Rightarrow> consumer_env \<Rightarrow> string \<Rightarrow> stream_message \<Rightarrow> handler_result \<Rightarrow> redis
      \<Rightarrow> handler_result result \<times> redis" where
  "retry_or_dead_letter cfg env consumer msg res =
     sbind (with_fault (ce_retry_fault env)
              (increment_retry_script (ce_now env) (retry_state_key (ce_sha256 env) cfg (message_id msg))
                 (cc_retry_state_ttl_seconds cfg))) (\<lambda>attempts.
       if attempts < cc_max_retry_attempts cfg then spure (Inr res)
       else (let why = or_else (reason res) ''handler retry limit exhausted'' in
         sbind (dead_letter cfg env consumer msg why attempts (or_else (error_type res) ''retry_exhausted'')) (\<lambda>_.
           spure (Inr \<lparr>decision = DEAD_LETTER, outcome = ''dead_lettered'', reason = Some why, error_type = None\<rparr>))))"

section \<open>Handling a message\<close>

type_synonym 'w message_handler = "stream_message \<Rightarrow> redis \<times> 'w \<Rightarrow> handler_result result \<times> redis \<times> 'w"

text \<open>A Redis call inside a computation that also carries the handler's world.\<close>

definition on_redis :: "(redis \<Rightarrow> 'a result \<times> redis) \<Rightarrow> redis \<times> 'w \<Rightarrow> 'a result \<times> redis \<times> 'w" where
  "on_redis f s = (let (res, r) = f (fst s) in (res, r, snd s))"

fun is_PermanentMessageError :: "exn \<Rightarrow> bool" where
  "is_PermanentMessageError (PermanentMessageError _) = True"
| "is_PermanentMessageError _ = False"

definition finalize ::
    "consumer_config \<Rightarrow> consumer_env \<Rightarrow> string \<Rightarrow> stream_message \<Rightarrow> handler_result \<Rightarrow> redis \<Rightarrow> handler_result result \<times> redis" where
  "finalize cfg env consumer msg res = (case decision res of
       ACK \<Rightarrow> sbind (ack (ce_sha256 env) cfg (ce_ack_fault env) msg) (\<lambda>_. spure (Inr res))
     | RETRY \<Rightarrow> retry_or_dead_letter cfg env consumer msg res
     | DEAD_LETTER \<Rightarrow>
         sbind (dead_letter cfg env consumer msg (or_else (reason res) ''handler rejected message'') 0
                  (or_else (error_type res) ''handler_decision'')) (\<lambda>_. spure (Inr res))
     | DEFER \<Rightarrow> spure (Inr res))"

definition handle_and_finalize ::
    "consumer_config \<Rightarrow> consumer_env \<Rightarrow> string \<Rightarrow> 'w message_handler \<Rightarrow> stream_message \<Rightarrow> redis \<times> 'w
      \<Rightarrow> handler_result result \<times> redis \<times> 'w" where
  "handle_and_finalize cfg env consumer handler msg s =
     (let (res, s1) = handler msg s in
      (case res of
         Inr r \<Rightarrow> on_redis (finalize cfg env consumer msg r) s1
       | Inl e \<Rightarrow>
           if is_PermanentMessageError e
           then sbind (on_redis (dead_letter cfg env consumer msg (exn_str e) 0 (exn_type e))) (\<lambda>_.
                  spure (Inr \<lparr>decision = DEAD_LETTER, outcome = ''dead_lettered'', reason = Some (exn_str e),
                              error_type = Some (exn_type e)\<rparr>)) s1
           else if is_Exception e
           then on_redis (finalize cfg env consumer msg \<lparr>decision = RETRY, outcome = ''failed'',
                  reason = Some (describe_exn e), error_type = Some (exn_type e)\<rparr>) s1
           else (Inl e, s1)))"

text \<open>
  \<open>_run_with_lease\<close>: the handler and the heartbeat race. When the heartbeat fails first, the handler
  is cancelled wherever it stands; \<open>partial\<close> is what it had done by then.
\<close>

record 'w race =
  rc_heartbeat :: "exn option"
  rc_partial :: "redis \<times> 'w \<Rightarrow> redis \<times> 'w"

definition run_with_lease ::
    "consumer_config \<Rightarrow> consumer_env \<Rightarrow> 'w race \<Rightarrow> string \<Rightarrow> 'w message_handler \<Rightarrow> stream_message \<Rightarrow> redis \<times> 'w
      \<Rightarrow> handler_result result \<times> redis \<times> 'w" where
  "run_with_lease cfg env race consumer handler msg s = (case rc_heartbeat race of
       None \<Rightarrow> handle_and_finalize cfg env consumer handler msg s
     | Some e \<Rightarrow> (Inl e, rc_partial race s))"

text \<open>One heartbeat of \<open>_renew_lease_once\<close> for a message without a lock: \<open>XCLAIM\<close> with \<open>JUSTID\<close>.\<close>

definition renew_message :: "consumer_config \<Rightarrow> usec \<Rightarrow> string \<Rightarrow> sid \<Rightarrow> redis \<Rightarrow> unit result \<times> redis" where
  "renew_message cfg now consumer i r = (case group_of (cc_stream cfg) (cc_group cfg) r of
       None \<Rightarrow> (Inl (ResponseError ''NOGROUP''), r)
     | Some gr \<Rightarrow>
         if i \<in> pe_id ` set (g_pel gr)
         then (Inr (), put_group (cc_stream cfg) (cc_group cfg) (reassign now consumer i gr) r)
         else (Inl (StreamLeaseLostError (sid_str i)), r))"

definition renew_lease_once ::
    "consumer_config \<Rightarrow> usec \<Rightarrow> string \<Rightarrow> sid \<Rightarrow> (string \<times> string) option \<Rightarrow> redis \<Rightarrow> unit result \<times> redis" where
  "renew_lease_once cfg now consumer i lock r = (case lock of
       None \<Rightarrow> renew_message cfg now consumer i r
     | Some (key, token) \<Rightarrow>
         (let (renewed, r1) = renew_lock_script now key token (cc_lock_ttl_seconds cfg) r;
              (res, r2) = renew_message cfg now consumer i r1
          in if renewed \<noteq> 1 then (Inl (StreamLeaseLostError key), r2) else (res, r2)))"

text \<open>
  \<open>process_message\<close>: the message lock (\<open>lock_key\<close> of the handler), the run, and the release of the
  lock. The result is the outcome reported to the observer; an exception of the run is logged and
  leaves the message pending.
\<close>

record lock_env =
  le_token :: string
  le_acquire_fault :: "exn option"
  le_release_fault :: "exn option"

definition process_message ::
    "consumer_config \<Rightarrow> consumer_env \<Rightarrow> lock_env \<Rightarrow> 'w race \<Rightarrow> string \<Rightarrow> string option result \<Rightarrow> 'w message_handler
      \<Rightarrow> stream_message \<Rightarrow> redis \<times> 'w \<Rightarrow> string result \<times> redis \<times> 'w" where
  "process_message cfg env le race consumer lock_key handler msg s =
     (case lock_key of
        Inl e \<Rightarrow>
          if is_PermanentMessageError e
          then sbind (on_redis (dead_letter cfg env consumer msg (exn_str e) 0 (exn_type e)))
                 (\<lambda>_. spure (Inr ''dead_lettered'')) s
          else (Inl e, s)
      | Inr key \<Rightarrow>
         (let run = (\<lambda>s. case run_with_lease cfg env race consumer handler msg s of
               (Inr res, s') \<Rightarrow> (Inr (outcome res), s')
             | (Inl e, s') \<Rightarrow> if is_Exception e then (Inr ''failed'', s') else (Inl e, s'))
          in (case key of
            None \<Rightarrow> run s
          | Some k \<Rightarrow> (case le_acquire_fault le of
              Some e \<Rightarrow> (Inl e, s)
            | None \<Rightarrow>
               (let (acquired, r1) = set_nx_ex (ce_now env) k (le_token le) (cc_lock_ttl_seconds cfg) (fst s) in
                if \<not> acquired then (Inr ''contended'', r1, snd s)
                else (let (res, s2) = run (r1, snd s) in
                  (case le_release_fault le of
                     Some e \<Rightarrow> (Inl e, s2)
                   | None \<Rightarrow> (res, snd (release_lock_script (ce_now env) k (le_token le) (fst s2)), snd s2))))))))"

section \<open>Slots\<close>

text \<open>
  The messages of one iteration of \<open>_consume_slot\<close>. \<open>stop k\<close> says whether a stop was requested before the
  k-th message; the claimed or read messages are processed until then, and the result says whether
  the slot was stopped.
\<close>

fun process_all ::
    "(nat \<Rightarrow> bool) \<Rightarrow> nat \<Rightarrow> (stream_message \<Rightarrow> redis \<times> 'w \<Rightarrow> string result \<times> redis \<times> 'w) \<Rightarrow> stream_message list
      \<Rightarrow> redis \<times> 'w \<Rightarrow> (bool result) \<times> redis \<times> 'w" where
  "process_all stop k process [] s = (Inr False, s)"
| "process_all stop k process (m # ms) s =
     (if stop k then (Inr True, s)
      else sbind (process m) (\<lambda>_. process_all stop (Suc k) process ms) s)"

definition claim_stale :: "consumer_config \<Rightarrow> usec \<Rightarrow> string \<Rightarrow> string \<Rightarrow> redis
      \<Rightarrow> (string \<times> (string \<times> message_fields) list) result \<times> redis" where
  "claim_stale cfg now consumer cursor =
     claim_pending_page now (cc_stream cfg) (cc_group cfg) consumer (cc_claim_idle_milliseconds cfg) cursor
       (cc_claim_batch_size cfg)"

text \<open>How an iteration ends: at once again, after a delay (with the next delay), by return, or by raising.\<close>

datatype slot_action = Next_iteration int | Wait_then_retry int int | Slot_returns | Slot_raises exn

fun is_ResponseError :: "exn \<Rightarrow> bool" where
  "is_ResponseError (ResponseError _) = True"
| "is_ResponseError _ = False"

definition slot_except :: "int \<Rightarrow> int \<Rightarrow> exn \<Rightarrow> slot_action" where
  "slot_except retry_max delay e =
     (if \<not> is_Exception e \<or> is_ResponseError e then Slot_raises e
      else Wait_then_retry delay (min (delay * 2) retry_max))"

definition slot_iteration ::
    "consumer_config \<Rightarrow> int \<Rightarrow> int \<Rightarrow> usec \<Rightarrow> (nat \<Rightarrow> bool) \<Rightarrow> string
      \<Rightarrow> (stream_message \<Rightarrow> redis \<times> 'w \<Rightarrow> string result \<times> redis \<times> 'w) \<Rightarrow> string \<Rightarrow> int \<Rightarrow> redis \<times> 'w
      \<Rightarrow> slot_action \<times> string \<times> redis \<times> 'w" where
  "slot_iteration cfg retry_initial retry_max now stop consumer process cursor delay s =
     (case on_redis (claim_stale cfg now consumer cursor) s of
        (Inl e, s1) \<Rightarrow> (slot_except retry_max delay e, cursor, s1)
      | (Inr (cursor', claimed), s1) \<Rightarrow>
         (case process_all stop 0 process
                 (map (\<lambda>(i, fs). \<lparr>message_id = i, msg_fields = fs, reclaimed = True\<rparr>) claimed) s1 of
            (Inl e, s2) \<Rightarrow> (slot_except retry_max delay e, cursor', s2)
          | (Inr stopped, s2) \<Rightarrow>
             if stopped then (Slot_returns, cursor', s2)
             else (let delay1 = (if claimed \<noteq> [] then retry_initial else delay) in
              (case sbind (on_redis (xreadgroup1 now (cc_stream cfg) (cc_group cfg) consumer)) (\<lambda>entries.
                      process_all stop (length claimed) process
                        (map (\<lambda>(i, fs). \<lparr>message_id = sid_str i, msg_fields = fs, reclaimed = False\<rparr>) entries)) s2 of
                 (Inl e, s3) \<Rightarrow> (slot_except retry_max delay1 e, cursor', s3)
               | (Inr stopped, s3) \<Rightarrow> (if stopped then Slot_returns else Next_iteration retry_initial, cursor', s3)))))"

definition is_healthy :: "consumer_config \<Rightarrow> bool \<Rightarrow> bool \<Rightarrow> (nat \<Rightarrow> bool option) \<Rightarrow> bool list \<Rightarrow> bool" where
  "is_healthy cfg running stop_requested slot_health tasks_done =
     (running \<and> \<not> stop_requested
      \<and> int (length (filter (\<lambda>i. slot_health i \<noteq> None) [0..<nat (cc_concurrency cfg)])) = cc_concurrency cfg
      \<and> list_all (\<lambda>i. slot_health i = Some True) [0..<nat (cc_concurrency cfg)]
      \<and> list_all Not tasks_done)"

section \<open>Lemmas on the configuration\<close>

lemma check_Inr: "check b m = Inr u \<longleftrightarrow> b"
  by (auto simp: check_def)

lemma config_ok:
  assumes "config_post_init cfg = Inr u"
  shows "1 \<le> cc_claim_batch_size cfg" "cc_claim_batch_size cfg \<le> 500" "1 \<le> cc_claim_idle_milliseconds cfg"
    "cc_lock_renew_interval_seconds cfg * 1000 < cc_claim_idle_milliseconds cfg"
  using assms by (auto simp: config_post_init_def exn_simps check_Inr)

section \<open>Lemmas on one message\<close>

abbreviation pending :: "consumer_config \<Rightarrow> redis \<Rightarrow> sid set" where
  "pending cfg r \<equiv> set (pending_ids (cc_stream cfg) (cc_group cfg) r)"

text \<open>The dead-letter stream holds an entry that names the message.\<close>

definition in_dead_letter :: "consumer_config \<Rightarrow> string \<Rightarrow> redis \<Rightarrow> bool" where
  "in_dead_letter cfg mid r = (\<exists>dlq. cc_dead_letter_stream cfg = Some dlq
     \<and> (\<exists>fs \<in> set (map snd (st_entries (stream_of dlq r))). map_of fs ''source_message_id'' = Some mid))"

text \<open>A step on the server that does not lose the message: it stays pending or is dead-lettered.\<close>

definition kept :: "consumer_config \<Rightarrow> sid \<Rightarrow> redis \<Rightarrow> redis \<Rightarrow> bool" where
  "kept cfg i r r' = (i \<in> pending cfg r \<longrightarrow> i \<in> pending cfg r' \<or> in_dead_letter cfg (sid_str i) r')"

lemma pending_frame [simp]:
  "pending_ids s g (redis_put k v expiry r) = pending_ids s g r"
  "pending_ids s g (redis_del k r) = pending_ids s g r"
  "pending_ids s g (xadd now s' fs r) = pending_ids s g r"
  by (simp_all add: pending_ids_def group_of_frame)

lemma xack_text_entries [simp]: "st_entries (stream_of s (xack_text cfg mid r)) = st_entries (stream_of s r)"
  by (simp add: xack_text_def split: option.split)

lemma dead_letter_entry:
  assumes "cc_dead_letter_stream cfg = Some dlq"
  shows "in_dead_letter cfg (message_id msg)
    (xack_text cfg mid (xadd now dlq (dead_letter_fields sha256 dumps cfg at consumer msg why n err) r))"
  using assms by (simp add: in_dead_letter_def xadd_entries) (simp add: dead_letter_fields_def)

lemma dead_letter_kept:
  assumes "dead_letter cfg env consumer msg why n err r = (res, r')" "message_id msg = sid_str i"
  shows "kept cfg i r r'" "res = Inr u \<Longrightarrow> in_dead_letter cfg (sid_str i) r'"
proof -
  have "r' = r \<and> res \<noteq> Inr u \<or> in_dead_letter cfg (sid_str i) r'"
  proof (cases "cc_dead_letter_stream cfg")
    case None
    then show ?thesis using assms(1) by (auto simp: dead_letter_def spure_def)
  next
    case (Some dlq)
    note entry = dead_letter_entry [OF Some, of msg, unfolded assms(2)]
    show ?thesis using assms Some
      by (cases "ce_dead_letter_fault env") (auto simp: dead_letter_def swrite_def entry)
  qed
  then show "kept cfg i r r'" "res = Inr u \<Longrightarrow> in_dead_letter cfg (sid_str i) r'" by (auto simp: kept_def)
qed

lemma increment_pending:
  "pending_ids s g (snd (increment_retry_script now k ttl r)) = pending_ids s g r"
  by (simp add: increment_retry_script_def split: option.splits)

lemma with_fault_increment_pending:
  "pending_ids s g (snd (with_fault ft (increment_retry_script now k ttl) r)) = pending_ids s g r"
  by (cases ft) (simp_all add: increment_pending)

lemma retry_kept:
  assumes "retry_or_dead_letter cfg env consumer msg res0 r = (res, r')" "message_id msg = sid_str i"
  shows "kept cfg i r r'"
proof -
  let ?inc = "with_fault (ce_retry_fault env) (increment_retry_script (ce_now env)
    (retry_state_key (ce_sha256 env) cfg (message_id msg)) (cc_retry_state_ttl_seconds cfg))"
  obtain a r1 where inc: "?inc r = (a, r1)" by fastforce
  have same: "pending cfg r1 = pending cfg r" using with_fault_increment_pending inc by (metis snd_conv)
  consider "r' = r1" | why n err res1 where "dead_letter cfg env consumer msg why n err r1 = (res1, r')"
    using assms(1) inc by (cases a) (auto simp: retry_or_dead_letter_def sbind_eq spure_def Let_def split: if_splits)
  then show ?thesis
  proof cases
    case 1
    then show ?thesis using same by (simp add: kept_def)
  next
    case (2 why n err res1)
    from dead_letter_kept(1) [OF this assms(2)] same show ?thesis by (simp add: kept_def)
  qed
qed

lemma finalize_kept:
  assumes "finalize cfg env consumer msg res0 r = (res, r')" "message_id msg = sid_str i" "decision res0 \<noteq> ACK"
  shows "kept cfg i r r'"
proof (cases "decision res0")
  case RETRY
  then show ?thesis using assms(1,2) retry_kept by (simp add: finalize_def)
next
  case DEAD_LETTER
  then obtain why n err res1 where "dead_letter cfg env consumer msg why n err r = (res1, r')"
    using assms(1) by (auto simp: finalize_def sbind_eq spure_def)
  then show ?thesis using assms(2) dead_letter_kept(1) by blast
qed (use assms in \<open>auto simp: finalize_def spure_def kept_def\<close>)

lemma on_redis_eq: "on_redis f s = (res, s') \<longleftrightarrow> f (fst s) = (res, fst s') \<and> snd s' = snd s"
  by (cases s') (auto simp: on_redis_def split: prod.splits)

text \<open>A handler that leaves the pending list of its own group alone.\<close>

definition keeps_group :: "consumer_config \<Rightarrow> (redis \<times> 'w \<Rightarrow> 'a \<times> redis \<times> 'w) \<Rightarrow> bool" where
  "keeps_group cfg f = (\<forall>s. pending cfg (fst (snd (f s))) = pending cfg (fst s))"

lemma handle_kept:
  assumes "handle_and_finalize cfg env consumer handler msg s = (res, s')" "message_id msg = sid_str i"
    and "keeps_group cfg (handler msg)" "\<And>r s1. handler msg s = (Inr r, s1) \<Longrightarrow> decision r \<noteq> ACK"
  shows "kept cfg i (fst s) (fst s')"
proof -
  obtain hres s1 where run: "handler msg s = (hres, s1)" by (meson surj_pair)
  then have same: "pending cfg (fst s1) = pending cfg (fst s)"
    using assms(3) unfolding keeps_group_def by (metis fst_conv snd_conv)
  have "kept cfg i (fst s1) (fst s')"
  proof (cases hres)
    case (Inr r)
    then have "finalize cfg env consumer msg r (fst s1) = (res, fst s')"
      using assms(1) run by (simp add: handle_and_finalize_def on_redis_eq)
    then show ?thesis using finalize_kept assms(2,4) run Inr by blast
  next
    case (Inl e)
    then consider "s' = s1" | why n err res1 where "dead_letter cfg env consumer msg why n err (fst s1) = (res1, fst s')"
      | r where "finalize cfg env consumer msg r (fst s1) = (res, fst s')" "decision r = RETRY"
      using assms(1) run
      by (fastforce simp: handle_and_finalize_def sbind_eq spure_def on_redis_eq split: if_splits)
    then show ?thesis
      using dead_letter_kept(1) finalize_kept assms(2) by cases (auto simp: kept_def)
  qed
  then show ?thesis using same by (simp add: kept_def)
qed

lemma kept_keys:
  assumes "kept cfg i r r1" "pending_ids (cc_stream cfg) (cc_group cfg) r2 = pending_ids (cc_stream cfg) (cc_group cfg) r1"
    and "\<And>s. stream_of s r2 = stream_of s r1"
  shows "kept cfg i r r2"
  using assms by (auto simp: kept_def in_dead_letter_def)

lemma release_frame [simp]:
  "pending_ids s g (snd (release_lock_script now k v r)) = pending_ids s g r"
  "stream_of s (snd (release_lock_script now k v r)) = stream_of s r"
  by (simp_all add: release_lock_script_def)

lemma run_kept:
  assumes "run_with_lease cfg env race consumer handler msg s = (res, s')" "message_id msg = sid_str i"
    and "keeps_group cfg (handler msg)" "keeps_group cfg (\<lambda>s. ((), rc_partial race s))"
    and "\<And>r s1. handler msg s = (Inr r, s1) \<Longrightarrow> decision r \<noteq> ACK"
  shows "kept cfg i (fst s) (fst s')"
proof (cases "rc_heartbeat race")
  case None
  then have "handle_and_finalize cfg env consumer handler msg s = (res, s')"
    using assms(1) by (simp add: run_with_lease_def)
  then show ?thesis by (rule handle_kept [where handler = handler]) (use assms in auto)
next
  case (Some e)
  then show ?thesis using assms(1,4) by (cases s) (auto simp: run_with_lease_def kept_def keeps_group_def)
qed

lemma process_kept:
  assumes "process_message cfg env le race consumer lock_key handler msg s = (res, s')"
    and "message_id msg = sid_str i" "keeps_group cfg (handler msg)" "keeps_group cfg (\<lambda>s. ((), rc_partial race s))"
    and no: "\<And>s1 r s2. handler msg s1 = (Inr r, s2) \<Longrightarrow> decision r \<noteq> ACK"
  shows "kept cfg i (fst s) (fst s')"
proof (cases lock_key)
  case (Inl e)
  then consider "s' = s" | res1 where "dead_letter cfg env consumer msg (exn_str e) 0 (exn_type e) (fst s) = (res1, fst s')"
    using assms(1) by (fastforce simp: process_message_def sbind_eq spure_def on_redis_eq split: if_splits)
  then show ?thesis using dead_letter_kept(1) assms(2) by cases (auto simp: kept_def)
next
  case (Inr key)
  let ?run = "run_with_lease cfg env race consumer handler msg"
  have run: "kept cfg i (fst s0) (fst (snd (?run s0)))" for s0
    by (rule run_kept [where handler = handler, OF prod.collapse [symmetric] assms(2-4)]) (use no in blast)
  show ?thesis
  proof (cases key)
    case None
    then have "s' = snd (?run s)"
      using assms(1) Inr by (auto simp: process_message_def Let_def split: prod.splits sum.splits if_splits)
    then show ?thesis using run by simp
  next
    case (Some k)
    let ?r1 = "redis_put k (le_token le) (Some (ce_now env + seconds (cc_lock_ttl_seconds cfg))) (fst s)"
    have "s' = s \<or> fst s' = fst (snd (?run (?r1, snd s)))
        \<or> fst s' = snd (release_lock_script (ce_now env) k (le_token le) (fst (snd (?run (?r1, snd s)))))"
      using assms(1) Inr Some
      by (auto simp: process_message_def Let_def set_nx_ex_def split: prod.splits sum.splits if_splits option.splits)
    moreover have "kept cfg i (fst s) (fst (snd (?run (?r1, snd s))))"
      using run [of "(?r1, snd s)"] by (simp add: kept_def)
    ultimately show ?thesis using kept_keys by (fastforce simp: kept_def in_dead_letter_def)
  qed
qed

section \<open>The retry counter\<close>

text \<open>Consecutive retries of a message at the given times, each on a server that answers.\<close>

definition quiet_env :: "consumer_env \<Rightarrow> bool" where
  "quiet_env env = (ce_retry_fault env = NoFault \<and> ce_dead_letter_fault env = NoFault \<and> ce_ack_fault env = NoFault)"

fun retry_rounds ::
    "consumer_config \<Rightarrow> consumer_env \<Rightarrow> string \<Rightarrow> stream_message \<Rightarrow> handler_result \<Rightarrow> usec list \<Rightarrow> redis
      \<Rightarrow> handler_result result list \<times> redis" where
  "retry_rounds cfg env consumer msg res [] r = ([], r)"
| "retry_rounds cfg env consumer msg res (t # ts) r =
     (let (x, r1) = retry_or_dead_letter cfg (env\<lparr>ce_now := t\<rparr>) consumer msg res r;
          (xs, r2) = retry_rounds cfg env consumer msg res ts r1
      in (x # xs, r2))"

text \<open>Each time comes before the counter set at the previous one expires.\<close>

fun spaced :: "int \<Rightarrow> usec list \<Rightarrow> bool" where
  "spaced ttl (t # u # ts) = (u < t + seconds ttl \<and> spaced ttl (u # ts))"
| "spaced ttl ts = True"

text \<open>The counter of a message: the number of its retries, or none when it expired or was removed.\<close>

definition counter :: "consumer_config \<Rightarrow> consumer_env \<Rightarrow> string \<Rightarrow> usec \<Rightarrow> int \<Rightarrow> redis \<Rightarrow> bool" where
  "counter cfg env mid now n r = (redis_get now (retry_state_key (ce_sha256 env) cfg mid) r =
     (if n = 0 then None else Some (py_str_int n)))"

lemma retry_step:
  assumes "quiet_env env" "cc_dead_letter_stream cfg = Some dlq" "counter cfg env (message_id msg) (ce_now env) n r"
    and "n < cc_max_retry_attempts cfg" "0 \<le> n"
  shows "(if n + 1 < cc_max_retry_attempts cfg
     then \<exists>r'. retry_or_dead_letter cfg env consumer msg res r = (Inr res, r')
       \<and> (\<forall>t < ce_now env + seconds (cc_retry_state_ttl_seconds cfg). counter cfg env (message_id msg) t (n + 1) r')
     else \<exists>x r'. retry_or_dead_letter cfg env consumer msg res r = (Inr x, r') \<and> decision x = DEAD_LETTER
       \<and> in_dead_letter cfg (message_id msg) r')"
proof -
  let ?k = "retry_state_key (ce_sha256 env) cfg (message_id msg)" and ?ttl = "cc_retry_state_ttl_seconds cfg"
  let ?r1 = "redis_put ?k (py_str_int (n + 1)) (Some (ce_now env + seconds ?ttl)) r"
  have inc: "increment_retry_script (ce_now env) ?k ?ttl r = (Inr (n + 1), ?r1)"
    using assms(3,5) by (auto simp: increment_retry_script_def counter_def text_simps split: if_splits)
  show ?thesis
  proof (cases "n + 1 < cc_max_retry_attempts cfg")
    case True
    then show ?thesis
      using inc assms(1,5) by (simp add: retry_or_dead_letter_def sbind_def spure_def quiet_env_def counter_def live_def)
  next
    case False
    then show ?thesis
      using inc assms(1,2) dead_letter_entry [OF assms(2)]
      by (simp add: retry_or_dead_letter_def sbind_def spure_def quiet_env_def Let_def dead_letter_def swrite_def)
  qed
qed

lemma retry_rounds_budget:
  assumes "quiet_env env" "cc_dead_letter_stream cfg = Some dlq" "spaced (cc_retry_state_ttl_seconds cfg) ts"
    and "ts \<noteq> []" "counter cfg env (message_id msg) (hd ts) n r" "0 \<le> n" "n + int (length ts) = cc_max_retry_attempts cfg"
  shows "\<exists>x. fst (retry_rounds cfg env consumer msg res ts r) = replicate (length ts - 1) (Inr res) @ [Inr x]
    \<and> decision x = DEAD_LETTER \<and> in_dead_letter cfg (message_id msg) (snd (retry_rounds cfg env consumer msg res ts r))"
  using assms(3-7)
proof (induction ts arbitrary: n r)
  case (Cons t ts)
  let ?env = "env\<lparr>ce_now := t\<rparr>"
  have c: "counter cfg ?env (message_id msg) (ce_now ?env) n r" using Cons.prems(3) by (simp add: counter_def)
  have q: "quiet_env ?env" using assms(1) by (simp add: quiet_env_def)
  have n: "n < cc_max_retry_attempts cfg" using Cons.prems(5) by simp
  note step = retry_step [OF q assms(2) c n Cons.prems(4), of consumer res]
  show ?case
  proof (cases ts)
    case Nil
    then have "\<not> n + 1 < cc_max_retry_attempts cfg" using Cons.prems(5) by simp
    with step Nil show ?thesis by auto
  next
    case (Cons u us)
    have "n + 1 < cc_max_retry_attempts cfg" using Cons.prems(5) Cons by simp
    with step obtain r1 where r1: "retry_or_dead_letter cfg ?env consumer msg res r = (Inr res, r1)"
      and "\<forall>v < t + seconds (cc_retry_state_ttl_seconds cfg). counter cfg ?env (message_id msg) v (n + 1) r1" by auto
    moreover have "u < t + seconds (cc_retry_state_ttl_seconds cfg)" using Cons.prems(1) Cons by simp
    ultimately have "counter cfg env (message_id msg) (hd ts) (n + 1) r1" using Cons by (simp add: counter_def)
    from Cons.IH [OF _ _ this] Cons.prems(1,4,5) Cons obtain x where
      "fst (retry_rounds cfg env consumer msg res ts r1) = replicate (length ts - 1) (Inr res) @ [Inr x]"
      "decision x = DEAD_LETTER" "in_dead_letter cfg (message_id msg) (snd (retry_rounds cfg env consumer msg res ts r1))"
      by auto
    then show ?thesis using r1 Cons by (auto simp: case_prod_beta)
  qed
qed simp

section \<open>Properties\<close>


text \<open>A concrete consumer on the pending list of the streams example, with a handler that fails.\<close>

definition demo_config :: consumer_config where
  "demo_config = \<lparr>cc_stream = ''s'', cc_group = ''g'', cc_consumer_prefix = ''c'', cc_concurrency = 1,
     cc_block_milliseconds = 5000, cc_claim_idle_milliseconds = 30000, cc_claim_batch_size = 10,
     cc_group_start_id = (0, 0), cc_dead_letter_stream = Some ''dlq'', cc_lock_ttl_seconds = 60,
     cc_lock_renew_interval_seconds = 10, cc_consumer_gc_idle_milliseconds = None, cc_max_retry_attempts = 2,
     cc_retry_state_ttl_seconds = 86400, cc_retry_key_prefix = ''retries'', cc_redis_stream_mode = ''compat''\<rparr>"

definition demo_consumer_env :: consumer_env where
  "demo_consumer_env = \<lparr>ce_now = 60000000, ce_isoformat = (\<lambda>_. ''now''), ce_sha256 = (\<lambda>s. s), ce_dumps = (\<lambda>_. ''{}''),
     ce_ack_fault = NoFault, ce_retry_fault = NoFault, ce_dead_letter_fault = NoFault\<rparr>"

definition demo_stream_message :: stream_message where
  "demo_stream_message = \<lparr>message_id = sid_str (1, 0), msg_fields = [], reclaimed = True\<rparr>"

definition demo_failing_handler :: "unit message_handler" where
  "demo_failing_handler msg s = (Inl (ValueError ''boom''), s)"

definition demo_race :: "unit race" where
  "demo_race = \<lparr>rc_heartbeat = None, rc_partial = (\<lambda>s. s)\<rparr>"

definition demo_processed :: "string result \<times> redis \<times> unit" where
  "demo_processed = process_message demo_config demo_consumer_env
     \<lparr>le_token = ''t'', le_acquire_fault = None, le_release_fault = None\<rparr> demo_race ''c-0'' (Inr (Some ''lock''))
     demo_failing_handler demo_stream_message (demo_pending, ())"


text \<open>
  C28: the transport retry budget. A message whose handler keeps asking for a retry is handed back
  exactly \<open>max_retry_attempts - 1\<close> times and dead-lettered at the next attempt, as long as each
  attempt comes before the retry state of the previous one expires.
\<close>

theorem retry_budget:
  assumes "quiet_env env" "cc_dead_letter_stream cfg = Some dlq" "spaced (cc_retry_state_ttl_seconds cfg) ts"
    and "ts \<noteq> []" "int (length ts) = cc_max_retry_attempts cfg"
    and "redis_get (hd ts) (retry_state_key (ce_sha256 env) cfg (message_id msg)) r = None"
  shows "\<exists>x. fst (retry_rounds cfg env consumer msg res ts r) = replicate (length ts - 1) (Inr res) @ [Inr x]
    \<and> decision x = DEAD_LETTER \<and> in_dead_letter cfg (message_id msg) (snd (retry_rounds cfg env consumer msg res ts r))"
  using retry_rounds_budget [OF assms(1-4), of msg 0 r] assms(5,6) by (simp add: counter_def)

theorem retry_budget_witness:
  "\<exists>x. fst (retry_rounds demo_config demo_consumer_env ''c-0'' demo_stream_message (plain_result RETRY ''failed'')
      [0, 60000000] demo_pending) = [Inr (plain_result RETRY ''failed''), Inr x] \<and> decision x = DEAD_LETTER"
proof -
  have "quiet_env demo_consumer_env" "cc_dead_letter_stream demo_config = Some ''dlq''"
    "spaced (cc_retry_state_ttl_seconds demo_config) [0, 60000000]"
    "int (length [0 :: int, 60000000]) = cc_max_retry_attempts demo_config"
    by (simp_all add: quiet_env_def demo_consumer_env_def demo_config_def seconds_def)
  moreover have "redis_get (hd [0, 60000000])
      (retry_state_key (ce_sha256 demo_consumer_env) demo_config (message_id demo_stream_message)) demo_pending = None"
    by (simp add: demo_pending_def redis_get_def empty_redis_def)
  ultimately show ?thesis
    using retry_budget [of demo_consumer_env demo_config "''dlq''" "[0, 60000000]" demo_stream_message demo_pending
        "''c-0''" "plain_result RETRY ''failed''"] by auto
qed

text \<open>
  a live message is not stolen. With a configuration that passes the checks, an entry whose
  owner renewed it no longer than the renewal interval ago is in no recovery page, so no other
  consumer takes it over.
\<close>

theorem renewed_message_not_claimed:
  assumes "config_post_init cfg = Inr ()" "group_of (cc_stream cfg) (cc_group cfg) r = Some gr" "pel_ok gr"
    and "p \<in> set (g_pel gr)" "now \<le> pe_time p + seconds (cc_lock_renew_interval_seconds cfg)"
    and "claim_stale cfg now other (sid_str start) r = (Inr (cursor, claimed), r')"
  shows "sid_str (pe_id p) \<notin> fst ` set claimed"
proof -
  let ?page = "xpending start (nat (cc_claim_batch_size cfg)) gr"
  note cfg = config_ok [OF assms(1)]
  obtain ms where ms: "claimed = map (\<lambda>(i, fs). (sid_str i, fs)) ms"
    "map fst ms = map pe_id (filter (\<lambda>p. stale now (cc_claim_idle_milliseconds cfg) p
       \<and> has_body (cc_stream cfg) r (pe_id p)) ?page)"
    using claim_pending_page_run [OF assms(2,3) cfg(1-3) refl, of now other start] assms(6)
    by (auto simp: claim_stale_def page_effect_def)
  have "\<not> stale now (cc_claim_idle_milliseconds cfg) p"
    using assms(5) cfg(4) by (auto simp: stale_def idle_ms_def seconds_def)
  moreover have "q = p" if "q \<in> set (g_pel gr)" "pe_id q = pe_id p" for q
  proof -
    have "distinct (map pe_id (g_pel gr))" using assms(3) by (rule pel_ok_distinct)
    then show ?thesis using key_unique that assms(4) by metis
  qed
  moreover have "set ?page \<subseteq> set (g_pel gr)" by (auto simp: xpending_def dest: in_set_takeD)
  ultimately have "pe_id p \<notin> set (map fst ms)" unfolding ms(2) by auto
  then show ?thesis by (auto simp: ms(1) sid_str_inj image_iff)
qed

theorem renewed_message_not_claimed_witness:
  "\<exists>cursor claimed r'. claim_stale demo_config 60000000 ''other'' ''0-0'' demo_pending = (Inr (cursor, claimed), r')
     \<and> sid_str (3, 0) \<notin> fst ` set claimed"
proof -
  have g: "group_of (cc_stream demo_config) (cc_group demo_config) demo_pending = Some demo_group" "pel_ok demo_group"
    by (simp_all add: demo_config_def demo_pending_def group_of_def put_stream_def demo_group_def pel_ok_def sid_lt_def
        sid_ok_def max_id_part_def)
  have cfg: "config_post_init demo_config = Inr ()"
    by (simp add: config_post_init_def check_def demo_config_def)
  let ?p = "\<lparr>pe_id = (3, 0), pe_consumer = ''b'', pe_time = 60000000\<rparr>"
  have p: "?p \<in> set (g_pel demo_group)" "60000000 \<le> pe_time ?p + seconds (cc_lock_renew_interval_seconds demo_config)"
    by (simp_all add: demo_group_def demo_config_def seconds_def)
  obtain cursor claimed r' where run: "claim_stale demo_config 60000000 ''other'' (sid_str (0, 0)) demo_pending =
      (Inr (cursor, claimed), r')"
    using claim_pending_page_run [OF g config_ok(1-3) [OF cfg] refl] unfolding claim_stale_def by metis
  from renewed_message_not_claimed [OF cfg g p run] run show ?thesis by (auto simp: sid_str_zero)
qed

end
