(* ===== verification/Worker_Runtime.thy ===== *)
theory Worker_Runtime
  imports Worker_Consumer
begin

text \<open>
  The parts of \<open>src/worker/runtime.py\<close> and \<open>src/worker/config.py\<close> that decide something: the bounds
  and derived names of the settings, the consumer configurations and the guard built from them,
  the delay of the maintenance loops, the readiness of the process, its checks, and the answers of
  the health endpoint.
\<close>

section \<open>Settings\<close>

record settings =
  se_redis_stream_mode :: string
  se_namespace :: string
  se_executor_event_stream :: string
  se_command_stream_name :: "string option"
  se_event_group_name :: "string option"
  se_command_group_name :: "string option"
  se_instance_id :: string
  se_concurrency :: int
  se_ingress_concurrency :: "int option"
  se_dispatch_concurrency :: "int option"
  se_pool_size :: int
  se_batch_size :: int
  se_poll :: usec
  se_idle_poll :: usec
  se_claim_idle_milliseconds :: int
  se_lease_ttl_seconds :: int
  se_lease_renew_seconds :: int
  se_publish_lease_seconds :: int
  se_max_handler_attempts :: int
  se_shutdown :: usec
  se_request_timeout :: usec
  se_health_port :: int

definition at_least_one :: "int option \<Rightarrow> bool" where
  "at_least_one n = (case n of None \<Rightarrow> True | Some k \<Rightarrow> 1 \<le> k)"

definition settings_valid :: "settings \<Rightarrow> bool" where
  "settings_valid se = (se_redis_stream_mode se \<in> {''compat'', ''native''} \<and> se_namespace se \<noteq> []
     \<and> 1 \<le> se_concurrency se \<and> at_least_one (se_ingress_concurrency se) \<and> at_least_one (se_dispatch_concurrency se)
     \<and> 2 \<le> se_pool_size se \<and> 1 \<le> se_batch_size se \<and> se_batch_size se \<le> 500 \<and> 0 < se_poll se \<and> 0 < se_idle_poll se
     \<and> 2001 \<le> se_claim_idle_milliseconds se \<and> 3 \<le> se_lease_ttl_seconds se \<and> 1 \<le> se_lease_renew_seconds se
     \<and> 1 \<le> se_publish_lease_seconds se \<and> 1 \<le> se_max_handler_attempts se \<and> 0 \<le> se_shutdown se
     \<and> 0 < se_request_timeout se \<and> 0 \<le> se_health_port se \<and> se_health_port se \<le> 65535)"

text \<open>\<open>command_stream\<close>, \<open>event_group\<close>, \<open>command_group\<close>: a configured name unless it is empty.\<close>

definition command_stream :: "settings \<Rightarrow> string" where
  "command_stream se = or_else (se_command_stream_name se) (se_namespace se @ '':commands'')"

definition event_group :: "settings \<Rightarrow> string" where
  "event_group se = or_else (se_event_group_name se) (se_namespace se @ '':ingress'')"

definition command_group :: "settings \<Rightarrow> string" where
  "command_group se = or_else (se_command_group_name se) (se_namespace se @ '':dispatch'')"

definition or_int :: "int option \<Rightarrow> int \<Rightarrow> int" where
  "or_int n d = (case n of None \<Rightarrow> d | Some k \<Rightarrow> if k = 0 then d else k)"

definition ingress_workers :: "settings \<Rightarrow> int" where
  "ingress_workers se = or_int (se_ingress_concurrency se) (se_concurrency se)"

definition dispatch_workers :: "settings \<Rightarrow> int" where
  "dispatch_workers se = or_int (se_dispatch_concurrency se) (se_concurrency se)"

section \<open>Construction\<close>

definition worker_consumer :: "settings \<Rightarrow> string \<Rightarrow> string \<Rightarrow> string \<Rightarrow> int \<Rightarrow> consumer_config" where
  "worker_consumer se kind stream grp workers =
     \<lparr>cc_stream = stream, cc_group = grp, cc_consumer_prefix = se_instance_id se @ CHR ''-'' # kind,
      cc_concurrency = workers, cc_block_milliseconds = 1000,
      cc_claim_idle_milliseconds = se_claim_idle_milliseconds se, cc_claim_batch_size = se_batch_size se,
      cc_group_start_id = (0, 0), cc_dead_letter_stream = Some (se_namespace se @ CHR '':'' # kind @ '':dlq''),
      cc_lock_ttl_seconds = se_lease_ttl_seconds se,
      cc_lock_renew_interval_seconds = se_lease_renew_seconds se,
      cc_consumer_gc_idle_milliseconds = None, cc_max_retry_attempts = 5, cc_retry_state_ttl_seconds = 604800,
      cc_retry_key_prefix = se_namespace se @ '':transport-retries'',
      cc_redis_stream_mode = se_redis_stream_mode se\<rparr>"

text \<open>The constructor's checks: the guard, then the two consumer configurations.\<close>

definition ExecutorWorker_init :: "settings \<Rightarrow> (consumer_config \<times> consumer_config) result" where
  "ExecutorWorker_init se =
     rbind (SessionGuard_init (se_lease_ttl_seconds se) (se_lease_renew_seconds se)) (\<lambda>_.
     let ingress = worker_consumer se ''ingress'' (se_executor_event_stream se) (event_group se) (ingress_workers se);
         dispatch = worker_consumer se ''dispatch'' (command_stream se) (command_group se) (dispatch_workers se)
     in rbind (config_post_init ingress) (\<lambda>_. rbind (config_post_init dispatch) (\<lambda>_. Inr (ingress, dispatch))))"

section \<open>Maintenance loops\<close>

text \<open>\<open>_loop\<close>: the delay after an iteration; \<open>None\<close> is an iteration that raised.\<close>

definition or_usec :: "usec option \<Rightarrow> usec \<Rightarrow> usec" where
  "or_usec n d = (case n of None \<Rightarrow> d | Some k \<Rightarrow> if k = 0 then d else k)"

definition loop_delay :: "settings \<Rightarrow> usec option \<Rightarrow> usec \<Rightarrow> nat option \<Rightarrow> usec" where
  "loop_delay se interval delay result = (case result of
       Some n \<Rightarrow> or_usec interval (if n \<noteq> 0 then se_poll se else min (delay * 2) (se_idle_poll se))
     | None \<Rightarrow> min (max (delay * 2) 500000) (seconds 30))"

fun loop_delays :: "settings \<Rightarrow> usec option \<Rightarrow> nat option list \<Rightarrow> usec" where
  "loop_delays se interval [] = or_usec interval (se_poll se)"
| "loop_delays se interval (x # xs) = loop_delay se interval (loop_delays se interval xs) x"

section \<open>Readiness and health\<close>

definition add_readiness_check ::
    "bool \<Rightarrow> string \<Rightarrow> bool \<Rightarrow> 'c \<Rightarrow> (string \<times> 'c) list \<Rightarrow> (string \<times> 'c) list result" where
  "add_readiness_check running name is_callable chk checks =
     (if py_strip name = [] \<or> \<not> is_callable then Inl (ValueError ''Readiness check must have a name and callable'')
      else if running then Inl (RuntimeError ''Readiness checks must be added before run'')
      else if name \<in> fst ` set checks then Inl (ValueError (''Duplicate readiness check: '' @ name))
      else Inr (checks @ [(name, chk)]))"

text \<open>
  \<open>ready\<close>: the results of the probes; a check's \<open>None\<close> is an exception, and only the value \<open>True\<close>
  counts. A timeout or an exception of a probe makes the process not ready.
\<close>

definition ready :: "bool \<Rightarrow> bool list \<Rightarrow> bool \<Rightarrow> bool \<Rightarrow> bool option list \<Rightarrow> bool \<Rightarrow> bool" where
  "ready stop healthy redis_ok database_ok checks in_time =
     (if stop \<or> \<not> list_all (\<lambda>h. h) healthy then False
      else in_time \<and> redis_ok \<and> database_ok \<and> list_all (\<lambda>c. c = Some True) checks)"

datatype health_body = Plain string | Metrics

definition health_response :: "bool \<Rightarrow> string \<Rightarrow> string \<times> health_body" where
  "health_response is_ready path =
     (if path = ''/health/ready''
      then (if is_ready then (''200 OK'', Plain ''ok'') else (''503 Unavailable'', Plain ''not ready''))
      else if path = ''/metrics'' then (''200 OK'', Metrics)
      else if path \<noteq> ''/health/live'' then (''404 Not Found'', Plain ''not found'')
      else (''200 OK'', Plain ''ok''))"

section \<open>Properties\<close>

lemma workers_positive:
  assumes "settings_valid se"
  shows "1 \<le> ingress_workers se" "1 \<le> dispatch_workers se"
  using assms by (auto simp: settings_valid_def at_least_one_def ingress_workers_def dispatch_workers_def or_int_def
      split: option.splits)

lemma worker_consumer_valid:
  assumes "settings_valid se" "1 \<le> workers"
    and "se_lease_renew_seconds se * 2 < se_lease_ttl_seconds se"
    and "se_lease_renew_seconds se * 1000 < se_claim_idle_milliseconds se"
    and "se_claim_idle_milliseconds se * 5 div 1000 < 604800"
  shows "config_post_init (worker_consumer se kind stream grp workers) = Inr ()"
  using assms by (auto simp: config_post_init_def worker_consumer_def check_def settings_valid_def)

text \<open>
  which settings start a worker. Settings within their bounds build the guard and both
  consumers exactly when two renewals fit into the lease, a renewal comes before the claim idle
  time, and the retry window is within the week the retry state lives.
\<close>

theorem worker_starts_iff:
  assumes "settings_valid se"
  shows "(\<exists>c. ExecutorWorker_init se = Inr c) \<longleftrightarrow>
    se_lease_renew_seconds se * 2 < se_lease_ttl_seconds se
    \<and> se_lease_renew_seconds se * 1000 < se_claim_idle_milliseconds se
    \<and> se_claim_idle_milliseconds se * 5 div 1000 < 604800" (is "_ \<longleftrightarrow> ?ok")
proof
  assume ?ok
  then show "\<exists>c. ExecutorWorker_init se = Inr c"
    using assms workers_positive [OF assms] worker_consumer_valid [OF assms]
    by (simp add: ExecutorWorker_init_def SessionGuard_init_def settings_valid_def Let_def)
next
  assume "\<exists>c. ExecutorWorker_init se = Inr c"
  then show ?ok
    by (auto simp: ExecutorWorker_init_def SessionGuard_init_def Let_def exn_simps check_Inr config_post_init_def
        worker_consumer_def split: if_splits)
qed

definition demo_settings :: settings where
  "demo_settings = \<lparr>se_redis_stream_mode = ''compat'', se_namespace = ''executor-worker'',
     se_executor_event_stream = ''executor.events'', se_command_stream_name = None, se_event_group_name = None,
     se_command_group_name = None, se_instance_id = ''i'', se_concurrency = 4, se_ingress_concurrency = None,
     se_dispatch_concurrency = None, se_pool_size = 8, se_batch_size = 100, se_poll = 200000, se_idle_poll = 2000000,
     se_claim_idle_milliseconds = 30000, se_lease_ttl_seconds = 60, se_lease_renew_seconds = 1,
     se_publish_lease_seconds = 30, se_max_handler_attempts = 5, se_shutdown = 25000000,
     se_request_timeout = 10000000, se_health_port = 8011\<rparr>"

theorem worker_starts_iff_witness: "\<exists>c. ExecutorWorker_init demo_settings = Inr c"
proof -
  have "settings_valid demo_settings" by (simp add: settings_valid_def demo_settings_def at_least_one_def)
  from worker_starts_iff [OF this] show ?thesis by (simp add: demo_settings_def)
qed

text \<open>
  the maintenance loops never spin and never stall. Whatever sequence of successful, idle and
  failing iterations preceded, the delay of a polling loop is positive and at most the larger of
  thirty seconds and the two poll intervals.
\<close>

theorem loop_delay_bounds:
  assumes "settings_valid se"
  shows "0 < loop_delays se None results
    \<and> loop_delays se None results \<le> max (seconds 30) (max (se_poll se) (se_idle_poll se))"
proof (induction results)
  case Nil
  then show ?case using assms by (simp add: or_usec_def settings_valid_def)
next
  case (Cons x xs)
  then show ?case
    using assms by (auto simp: loop_delay_def or_usec_def settings_valid_def seconds_def split: option.splits)
qed

theorem loop_delay_bounds_witness: "loop_delays demo_settings None [None, Some 0, None] \<le> seconds 30"
proof -
  have "settings_valid demo_settings" by (simp add: settings_valid_def demo_settings_def at_least_one_def)
  from loop_delay_bounds [OF this, of "[None, Some 0, None]"] show ?thesis
    by (simp add: demo_settings_def seconds_def)
qed

end
