(* ===== verification/Agent_State.thy ===== *)
theory Agent_State
  imports Worker_Contracts
begin

text \<open>
  The data of the agent's session graph: task states (\<open>src/ex_agent/domain/enums.py\<close>), the signals
  that resume a waiting graph (\<open>src/ex_agent/domain/contracts.py\<close>), the checkpointed session state
  (\<open>src/agent/graph/state.py\<close>) and the snapshot a checkpointer returns. A key that may be absent
  from the state is an \<open>option\<close>; a dictionary is an association list.
\<close>

section \<open>Tasks and signals\<close>

datatype task_status =
    ACCEPTED | CLASSIFYING | ANSWERING | PLANNING | WAITING_FOR_APPROVAL | REVISING_PLAN
  | QUEUED_FOR_EXECUTION | EXECUTING | WAITING_FOR_EXECUTOR_EVENT | FINALIZING_EXECUTION
  | GENERATING_REPORT | SUCCEEDED | REJECTED | FAILED | CANCEL_REQUESTED | CANCELLED

fun is_terminal :: "task_status \<Rightarrow> bool" where
  "is_terminal SUCCEEDED = True"
| "is_terminal REJECTED = True"
| "is_terminal FAILED = True"
| "is_terminal CANCELLED = True"
| "is_terminal _ = False"

record plan_review =
  pr_decision :: string
  pr_plan_revision_id :: uuid
  pr_plan_revision_number :: int
  pr_public_payload_hash :: string
  pr_feedback :: "string option"
  pr_risk_acknowledged :: bool

record workflow_selection =
  ws_workflow_version_id :: "uuid option"
  ws_proposal_version :: int
  ws_public_payload_hash :: string
  ws_input_values :: json
  ws_risk_acknowledged :: bool

record boundary_signal =
  bs_execution_id :: uuid
  bs_event_id :: uuid
  bs_event_sequence :: int
  bs_event_type :: string

datatype resume_signal =
    ClarificationAnswer string
  | WorkflowSelectionDecision workflow_selection
  | ExecutionModeDecision string
  | RiskConfirmationDecision bool
  | PlanReviewDecision plan_review
  | ExecutorBoundarySignal boundary_signal
  | CancelRequestedSignal uuid "string option"

fun signal_type :: "resume_signal \<Rightarrow> string" where
  "signal_type (ClarificationAnswer _) = ''CLARIFICATION''"
| "signal_type (WorkflowSelectionDecision _) = ''WORKFLOW_SELECTION''"
| "signal_type (ExecutionModeDecision _) = ''EXECUTION_MODE''"
| "signal_type (RiskConfirmationDecision _) = ''REQUEST_RISK_CONFIRMATION''"
| "signal_type (PlanReviewDecision _) = ''PLAN_REVIEW''"
| "signal_type (ExecutorBoundarySignal _) = ''EXECUTOR_BOUNDARY''"
| "signal_type (CancelRequestedSignal _ _) = ''CANCEL_REQUESTED''"

fun is_executor_signal :: "resume_signal \<Rightarrow> bool" where
  "is_executor_signal (ExecutorBoundarySignal _) = True"
| "is_executor_signal _ = False"

fun is_cancel_signal :: "resume_signal \<Rightarrow> bool" where
  "is_cancel_signal (CancelRequestedSignal _ _) = True"
| "is_cancel_signal _ = False"

section \<open>The session state\<close>

record task_turn =
  tt_user_id :: string
  tt_project_id :: string
  tt_session_id :: string
  tt_active_task_id :: string
  tt_current_input_message_id :: string
  tt_user_message :: string
  tt_runtime_profile :: string

text \<open>The constraints of \<open>TaskTurn\<close>: every field has at least one character.\<close>

definition turn_valid :: "task_turn \<Rightarrow> bool" where
  "turn_valid t = (tt_user_id t \<noteq> [] \<and> tt_project_id t \<noteq> [] \<and> tt_session_id t \<noteq> [] \<and> tt_active_task_id t \<noteq> []
     \<and> tt_current_input_message_id t \<noteq> [] \<and> tt_user_message t \<noteq> [] \<and> tt_runtime_profile t \<noteq> [])"

text \<open>The business state of a task; \<open>wf_rest\<close> are the members this library does not look into.\<close>

record workflow =
  wf_turn :: task_turn
  wf_phase :: task_status
  wf_execution_id :: "string option"
  wf_external_signal :: "resume_signal option"
  wf_terminal_message :: "string option"
  wf_report_markdown :: "string option"
  wf_answer :: "string option"
  wf_rest :: "(string \<times> json) list"

record worker_action =
  wa_command_id :: string
  wa_task_id :: string
  wa_event :: executor_event

record api_receipt =
  ar_task_id :: string
  ar_fingerprint :: string

text \<open>\<open>invocation_owner\<close>: absent, the empty dictionary, or a source with an identifier.\<close>

datatype invocation_owner = No_owner | Owner string string

datatype chat_role = Human | AI

record chat_message =
  cm_role :: chat_role
  cm_id :: string
  cm_content :: string

record session_state =
  ss_turn :: "task_turn option"
  ss_schema_version :: "string option"
  ss_user_id :: "string option"
  ss_project_id :: "string option"
  ss_session_id :: "string option"
  ss_active_task_id :: "string option"
  ss_execution_id :: "string option"
  ss_workflow :: "workflow option"
  ss_messages :: "chat_message list"
  ss_task_requests :: "(string \<times> string) list"
  ss_ew_pending :: "worker_action option"
  ss_ew_receipts :: "(string \<times> string) list"
  ss_ew_sequences :: "(string \<times> int) list"
  ss_api_receipts :: "(string \<times> api_receipt) list"
  ss_invocation_owner :: "invocation_owner option"
  ss_failure_receipts :: "(string \<times> string) list"

definition empty_state :: session_state where
  "empty_state = \<lparr>ss_turn = None, ss_schema_version = None, ss_user_id = None, ss_project_id = None,
     ss_session_id = None, ss_active_task_id = None, ss_execution_id = None, ss_workflow = None, ss_messages = [],
     ss_task_requests = [], ss_ew_pending = None, ss_ew_receipts = [], ss_ew_sequences = [], ss_api_receipts = [],
     ss_invocation_owner = None, ss_failure_receipts = []\<rparr>"

text \<open>\<open>not snapshot.values\<close>: no key has been written.\<close>

definition no_values :: "session_state \<Rightarrow> bool" where
  "no_values v = (v = empty_state)"

section \<open>Snapshots\<close>

record graph_interrupt =
  gi_id :: string
  gi_value :: json

record graph_task =
  gt_name :: string
  gt_interrupts :: "graph_interrupt list"

record snapshot =
  sn_values :: session_state
  sn_next :: "string list"
  sn_tasks :: "graph_task list"
  sn_checkpoint_id :: "string option"

definition interrupts :: "snapshot \<Rightarrow> (string \<times> graph_interrupt) list" where
  "interrupts sn = concat (map (\<lambda>t. map (\<lambda>i. (gt_name t, i)) (gt_interrupts t)) (sn_tasks sn))"

text \<open>The input of a graph invocation: nothing (continue), a new turn, or the answer to an interrupt.\<close>

datatype resume_value = Signal resume_signal | Action worker_action

datatype graph_input = Continue | Start_turn task_turn | Resume string resume_value

text \<open>
  The compiled graph with its checkpointer is a parameter of its callers: a state of its own, from
  which a snapshot can be read, and an invocation with the API action of the call, if any.
\<close>

record api_action =
  aa_request_id :: string
  aa_task_id :: string
  aa_fingerprint :: string
  aa_target_node :: string

record 'g graph_api =
  aget_state :: "string \<Rightarrow> 'g \<Rightarrow> snapshot result"
  ainvoke :: "string \<Rightarrow> api_action option \<Rightarrow> graph_input \<Rightarrow> 'g \<Rightarrow> unit result \<times> 'g"

text \<open>The truth value of an optional text.\<close>

definition nonempty :: "string option \<Rightarrow> string option" where
  "nonempty m = (case m of None \<Rightarrow> None | Some s \<Rightarrow> if s = [] then None else Some s)"

section \<open>Dictionaries\<close>

text \<open>\<open>{**d, k: v}\<close>: a present key keeps its place.\<close>

fun dict_put :: "'k \<Rightarrow> 'v \<Rightarrow> ('k \<times> 'v) list \<Rightarrow> ('k \<times> 'v) list" where
  "dict_put k v [] = [(k, v)]"
| "dict_put k v ((k', v') # d) = (if k' = k then (k, v) # d else (k', v') # dict_put k v d)"

lemma map_of_dict_put [simp]: "map_of (dict_put k v d) = (map_of d)(k \<mapsto> v)"
  by (induction d) auto

lemma set_dict_put [simp]: "fst ` set (dict_put k v d) = insert k (fst ` set d)"
  by (induction k v d rule: dict_put.induct) (simp_all add: insert_commute)

lemma distinct_dict_put: "distinct (map fst d) \<Longrightarrow> distinct (map fst (dict_put k v d))"
proof (induction d)
  case (Cons x d)
  obtain k' v' where x: "x = (k', v')" by fastforce
  have "k' \<notin> fst ` set (dict_put k v d)" if "k' \<noteq> k"
    using that Cons.prems x set_dict_put [of k v d] by simp
  then show ?case using Cons x by auto
qed simp

end
