(* ===== verification/Agent_Session.thy ===== *)
theory Agent_Session
  imports Agent_State
begin

text \<open>
  The session graph's own code: the checks before a graph is started or resumed
  (\<open>src/agent/session.py\<close>), the nodes at the boundary to the worker and the admission of a task
  (\<open>src/agent/graph/nodes.py\<close>), the acceptance receipt of an API request
  (\<open>src/agent/admission/graph.py\<close>), and the adapter that carries an executor event into the graph
  (\<open>src/agent/integrations/langgraph_adapter.py\<close>). The hash of a turn is a parameter, and so is the
  pydantic parser of a resume payload.
\<close>

section \<open>Checks before an invocation\<close>

text \<open>\<open>boundary.get(key)\<close> and the comparison with a field of the signal.\<close>

definition attribute_error :: exn where
  "attribute_error = OtherException ''AttributeError'' ''object has no attribute get''"

text \<open>\<open>boundary.get('risk', {}).get('level')\<close>: a value that is not a dictionary has no \<open>get\<close>.\<close>

definition risk_level :: "json \<Rightarrow> json result" where
  "risk_level boundary = (case jget boundary ''risk'' of
       None \<Rightarrow> Inr JNull
     | Some (JObj kvs) \<Rightarrow> Inr (jget0 (JObj kvs) ''level'')
     | Some _ \<Rightarrow> Inl attribute_error)"

text \<open>\<open>(candidate.get('risk') or {}).get('level')\<close>.\<close>

definition candidate_risk_level :: "json \<Rightarrow> json result" where
  "candidate_risk_level candidate = (let risk = jget0 candidate ''risk'' in
     if \<not> truthy risk then Inr JNull
     else if is_jobj risk then Inr (jget0 risk ''level'') else Inl attribute_error)"

definition plan_is_current :: "json \<Rightarrow> plan_review \<Rightarrow> bool" where
  "plan_is_current boundary d =
     (jget0 boundary ''plan_revision_id'' = JStr (uuid_str (pr_plan_revision_id d))
      \<and> jget0 boundary ''plan_revision_number'' = JInt (pr_plan_revision_number d)
      \<and> jget0 boundary ''public_payload_hash'' = JStr (pr_public_payload_hash d))"

fun find_candidate :: "string \<Rightarrow> json list \<Rightarrow> json option result" where
  "find_candidate wid [] = Inr None"
| "find_candidate wid (c # cs) =
     (if \<not> is_jobj c then Inl (TypeError ''candidate'')
      else (case jget c ''workflow_version_id'' of
        None \<Rightarrow> Inl (KeyError ''workflow_version_id'')
      | Some j \<Rightarrow> if j = JStr wid then Inr (Some c) else find_candidate wid cs))"

definition validate_selection :: "json \<Rightarrow> workflow_selection \<Rightarrow> unit result" where
  "validate_selection boundary d =
     (if jget0 boundary ''proposal_version'' \<noteq> JInt (ws_proposal_version d)
      then Inl (SessionConflictError ''Workflow proposal is stale'')
      else (case ws_workflow_version_id d of
        None \<Rightarrow> Inr ()
      | Some wid \<Rightarrow>
          rbind (case jget boundary ''candidates'' of None \<Rightarrow> Inr [] | Some j \<Rightarrow> py_iter j) (\<lambda>items.
          rbind (find_candidate (uuid_str wid) items) (\<lambda>found.
            (case found of
               None \<Rightarrow> Inl (SessionConflictError ''Workflow candidate is stale'')
             | Some c \<Rightarrow>
                 if jget0 c ''public_payload_hash'' \<noteq> JStr (ws_public_payload_hash d)
                 then Inl (SessionConflictError ''Workflow candidate is stale'')
                 else rbind (candidate_risk_level c) (\<lambda>level.
                   if level = JStr ''HIGH'' \<and> \<not> ws_risk_acknowledged d
                   then Inl (SessionConflictError ''Risk acknowledgement is required'') else Inr ()))))))"

definition validate_user_decision :: "json \<Rightarrow> resume_signal \<Rightarrow> unit result" where
  "validate_user_decision boundary sig = (case sig of
       PlanReviewDecision d \<Rightarrow>
         if \<not> plan_is_current boundary d then Inl (SessionConflictError ''Plan decision is stale'')
         else if pr_decision d \<noteq> ''APPROVE'' then Inr ()
         else rbind (risk_level boundary) (\<lambda>level.
           if level = JStr ''HIGH'' \<and> \<not> pr_risk_acknowledged d
           then Inl (SessionConflictError ''Risk acknowledgement is required'') else Inr ())
     | WorkflowSelectionDecision d \<Rightarrow> validate_selection boundary d
     | _ \<Rightarrow> Inr ())"

definition owned_by :: "session_state \<Rightarrow> task_turn \<Rightarrow> bool" where
  "owned_by st turn = ((ss_user_id st = None \<or> ss_user_id st = Some (tt_user_id turn))
     \<and> (ss_project_id st = None \<or> ss_project_id st = Some (tt_project_id turn))
     \<and> (ss_session_id st = None \<or> ss_session_id st = Some (tt_session_id turn)))"

definition validate_start_snapshot :: "(task_turn \<Rightarrow> string) \<Rightarrow> snapshot \<Rightarrow> task_turn \<Rightarrow> bool result" where
  "validate_start_snapshot fp before turn = (let st = sn_values before in
     if \<not> owned_by st turn then Inl (SessionConflictError ''Session ownership mismatch'')
     else (case map_of (ss_task_requests st) (tt_active_task_id turn) of
       Some f \<Rightarrow>
         if f \<noteq> fp turn \<or> ss_active_task_id st \<noteq> Some (tt_active_task_id turn)
         then Inl (SessionConflictError ''Task ID reuse is forbidden'') else Inr True
     | None \<Rightarrow> if sn_next before \<noteq> [] then Inl (SessionConflictError ''Session has unfinished work'') else Inr False))"

definition expected_kind :: "resume_signal \<Rightarrow> string" where
  "expected_kind sig = (if is_cancel_signal sig then ''EXECUTOR_EVENT'' else signal_type sig)"

definition validate_boundary :: "task_turn \<Rightarrow> json \<Rightarrow> resume_signal \<Rightarrow> unit result" where
  "validate_boundary turn boundary sig =
     (if \<not> is_jobj boundary \<or> jget0 boundary ''kind'' \<noteq> JStr (expected_kind sig)
           \<or> jget0 boundary ''task_id'' \<noteq> JStr (tt_active_task_id turn)
      then Inl (SessionConflictError ''Interrupt kind mismatch'')
      else (case sig of
        CancelRequestedSignal task _ \<Rightarrow>
          if uuid_str task \<noteq> tt_active_task_id turn
          then Inl (SessionConflictError ''Cancel task identity mismatch'') else validate_user_decision boundary sig
      | _ \<Rightarrow> validate_user_decision boundary sig))"

definition validate_resume_snapshot ::
    "(task_turn \<Rightarrow> string) \<Rightarrow> (json \<Rightarrow> resume_signal result) \<Rightarrow> snapshot \<Rightarrow> task_turn \<Rightarrow> string \<Rightarrow> json
      \<Rightarrow> (resume_signal \<times> string) result" where
  "validate_resume_snapshot fp parse before turn iid answer_json =
     rbind (parse answer_json) (\<lambda>sig.
     if is_executor_signal sig then Inl (SessionConflictError ''Executor events belong to Worker'')
     else (let st = sn_values before in
      if ss_active_task_id st \<noteq> Some (tt_active_task_id turn)
         \<or> map_of (ss_task_requests st) (tt_active_task_id turn) \<noteq> Some (fp turn)
      then Inl (SessionConflictError ''Task identity mismatch'')
      else (case interrupts before of
        [(name, waiting)] \<Rightarrow>
          if gi_id waiting \<noteq> iid then Inl (SessionConflictError ''Interrupt is stale'')
          else rbind (validate_boundary turn (gi_value waiting) sig) (\<lambda>_. Inr (sig, name))
      | _ \<Rightarrow> Inl (SessionConflictError ''Interrupt is stale''))))"

section \<open>The coordinator\<close>

text \<open>\<open>SessionCoordinator.start\<close> and \<open>resume_user\<close>, inside the guard.\<close>

definition session_start ::
    "(task_turn \<Rightarrow> string) \<Rightarrow> 'g graph_api \<Rightarrow> task_turn \<Rightarrow> 'g \<Rightarrow> snapshot result \<times> 'g" where
  "session_start fp api turn =
     sbind (\<lambda>g. (aget_state api (tt_session_id turn) g, g)) (\<lambda>before.
     sbind (spure (validate_start_snapshot fp before turn)) (\<lambda>existing.
       if existing then spure (Inr before)
       else sbind (ainvoke api (tt_session_id turn) None (Start_turn turn))
              (\<lambda>_ g. (aget_state api (tt_session_id turn) g, g))))"

definition session_resume ::
    "(task_turn \<Rightarrow> string) \<Rightarrow> (json \<Rightarrow> resume_signal result) \<Rightarrow> 'g graph_api \<Rightarrow> task_turn \<Rightarrow> string \<Rightarrow> json \<Rightarrow> 'g
      \<Rightarrow> snapshot result \<times> 'g" where
  "session_resume fp parse api turn iid answer_json =
     sbind (\<lambda>g. (aget_state api (tt_session_id turn) g, g)) (\<lambda>before.
     sbind (spure (validate_resume_snapshot fp parse before turn iid answer_json)) (\<lambda>(sig, _).
     sbind (ainvoke api (tt_session_id turn) None (Resume iid (Signal sig)))
       (\<lambda>_ g. (aget_state api (tt_session_id turn) g, g))))"

section \<open>Nodes\<close>

text \<open>\<open>add_messages\<close>: a message with a known identifier replaces it, another one is appended.\<close>

definition add_message :: "chat_message \<Rightarrow> chat_message list \<Rightarrow> chat_message list" where
  "add_message m ms = (if cm_id m \<in> cm_id ` set ms then map (\<lambda>x. if cm_id x = cm_id m then m else x) ms else ms @ [m])"

definition new_workflow :: "task_turn \<Rightarrow> workflow" where
  "new_workflow turn = \<lparr>wf_turn = turn, wf_phase = ACCEPTED, wf_execution_id = None, wf_external_signal = None,
     wf_terminal_message = None, wf_report_markdown = None, wf_answer = None, wf_rest = []\<rparr>"

definition begin_task :: "(task_turn \<Rightarrow> string) \<Rightarrow> string \<Rightarrow> session_state \<Rightarrow> session_state result" where
  "begin_task fp thread_id st = (case ss_turn st of
       None \<Rightarrow> Inl (KeyError ''turn'')
     | Some turn \<Rightarrow>
        (if \<not> turn_valid turn then Inl (ValueError ''TaskTurn'')
         else if thread_id \<noteq> tt_session_id turn then Inl (ValueError ''thread_id must equal session_id'')
         else if \<not> owned_by st turn then Inl (ValueError ''Session ownership cannot change'')
         else if (case ss_workflow st of None \<Rightarrow> False | Some w \<Rightarrow> \<not> is_terminal (wf_phase w))
         then Inl (ValueError ''The session already has an unfinished task'')
         else if map_of (ss_task_requests st) (tt_active_task_id turn) \<noteq> None
         then Inl (ValueError ''Task ID has already been admitted'')
         else Inr (st\<lparr>ss_schema_version := Some ''session-1.0'', ss_session_id := Some (tt_session_id turn),
             ss_user_id := Some (tt_user_id turn), ss_project_id := Some (tt_project_id turn),
             ss_active_task_id := Some (tt_active_task_id turn), ss_execution_id := Some [],
             ss_workflow := Some (new_workflow turn),
             ss_task_requests := dict_put (tt_active_task_id turn) (fp turn) (ss_task_requests st),
             ss_ew_pending := None, ss_invocation_owner := Some No_owner,
             ss_messages := add_message \<lparr>cm_role = Human, cm_id = tt_current_input_message_id turn,
                               cm_content = tt_user_message turn\<rparr> (ss_messages st)\<rparr>)))"

text \<open>\<open>lift_node\<close>: a business node on the nested state; \<open>result_message\<close> is the chain of \<open>or\<close> over the messages.\<close>

definition result_message :: "workflow \<Rightarrow> string option" where
  "result_message w = (case nonempty (wf_terminal_message w) of
       Some m \<Rightarrow> Some m
     | None \<Rightarrow> (case nonempty (wf_report_markdown w) of Some m \<Rightarrow> Some m | None \<Rightarrow> nonempty (wf_answer w)))"

definition lift_node :: "(workflow \<Rightarrow> workflow result) \<Rightarrow> session_state \<Rightarrow> session_state result" where
  "lift_node node st = (case ss_workflow st of
       None \<Rightarrow> Inl (KeyError ''workflow'')
     | Some w0 \<Rightarrow> rbind (node w0) (\<lambda>w.
         let st1 = st\<lparr>ss_workflow := Some w,
               ss_execution_id := Some (case wf_execution_id w of None \<Rightarrow> [] | Some x \<Rightarrow> x)\<rparr>
         in (if is_terminal (wf_phase w)
             then (case result_message w of
                 None \<Rightarrow> Inr st1
               | Some m \<Rightarrow> (case ss_active_task_id st of
                   None \<Rightarrow> Inl (KeyError ''active_task_id'')
                 | Some t \<Rightarrow> Inr (st1\<lparr>ss_messages := add_message \<lparr>cm_role = AI, cm_id = ''task:'' @ t @ '':result'',
                                cm_content = m\<rparr> (ss_messages st)\<rparr>)))
             else Inr st1)))"

text \<open>\<open>register_execution\<close>: the binding store is a parameter; the sequence of a new execution starts at 0.\<close>

definition need_field :: "'a option \<Rightarrow> string \<Rightarrow> 'a result" where
  "need_field x k = (case x of None \<Rightarrow> Inl (KeyError k) | Some v \<Rightarrow> Inr v)"

definition last_sequence :: "session_state \<Rightarrow> string \<Rightarrow> int" where
  "last_sequence st exec = (case map_of (ss_ew_sequences st) exec of None \<Rightarrow> 0 | Some n \<Rightarrow> n)"

definition register_execution ::
    "(uuid \<Rightarrow> string \<Rightarrow> string \<Rightarrow> 'b \<Rightarrow> unit result \<times> 'b) \<Rightarrow> session_state \<Rightarrow> 'b \<Rightarrow> session_state result \<times> 'b" where
  "register_execution reg st =
     sbind (spure (rbind (need_field (ss_execution_id st) ''execution_id'') (\<lambda>exec.
              (case uuid_parse exec of None \<Rightarrow> Inl (ValueError ''badly formed UUID'')
               | Some u \<Rightarrow> rbind (need_field (ss_session_id st) ''session_id'') (\<lambda>sess.
                   rbind (need_field (ss_active_task_id st) ''active_task_id'') (\<lambda>task. Inr (exec, u, sess, task)))))))
       (\<lambda>(exec, u, sess, task). sbind (reg u sess task) (\<lambda>_.
          spure (Inr (st\<lparr>ss_ew_sequences := dict_put exec (last_sequence st exec) (ss_ew_sequences st)\<rparr>))))"

text \<open>
  \<open>wait_external_signal\<close> after its interrupt was answered; the answer is the resume value of the
  invocation. \<open>boundary_of\<close> is the validation of the event as a boundary signal.
\<close>

definition boundary_of :: "executor_event \<Rightarrow> resume_signal result" where
  "boundary_of e = (if event_type e \<in> {''execution.operation_completed'', ''execution.completed''} \<and> 1 \<le> event_sequence e
     then Inr (ExecutorBoundarySignal \<lparr>bs_execution_id = execution_id e, bs_event_id = event_id e,
            bs_event_sequence = event_sequence e, bs_event_type = event_type e\<rparr>)
     else Inl (ValueError ''event_type: literal error''))"

definition set_signal :: "resume_signal \<Rightarrow> session_state \<Rightarrow> session_state result" where
  "set_signal sig st = (case ss_workflow st of None \<Rightarrow> Inl (KeyError ''workflow'')
     | Some w \<Rightarrow> Inr (st\<lparr>ss_workflow := Some (w\<lparr>wf_external_signal := Some sig\<rparr>)\<rparr>))"

definition wait_external_signal :: "resume_value \<Rightarrow> session_state \<Rightarrow> session_state result" where
  "wait_external_signal answer st = (case answer of
       Signal (CancelRequestedSignal task why) \<Rightarrow>
         if Some (uuid_str task) \<noteq> ss_active_task_id st then Inl (ValueError ''Cancel task identity mismatch'')
         else rbind (set_signal (CancelRequestedSignal task why) st) (\<lambda>st1. Inr (st1\<lparr>ss_ew_pending := None\<rparr>))
     | Signal _ \<Rightarrow> Inl (ValueError ''Invalid worker action task identity'')
     | Action a \<Rightarrow>
         if Some (wa_task_id a) \<noteq> ss_active_task_id st then Inl (ValueError ''Invalid worker action task identity'')
         else if uuid_parse (wa_command_id a) = None then Inl (ValueError ''badly formed UUID'')
         else if Some (uuid_str (execution_id (wa_event a))) \<noteq> ss_execution_id st
         then Inl (ValueError ''Invalid worker action execution identity'')
         else if event_sequence (wa_event a) \<le> last_sequence st (uuid_str (execution_id (wa_event a)))
         then Inl (ValueError ''Worker action sequence is already applied'')
         else rbind (boundary_of (wa_event a)) (\<lambda>sig. rbind (set_signal sig st) (\<lambda>st1.
           Inr (st1\<lparr>ss_ew_pending := Some a, ss_invocation_owner := Some (Owner ''EXECUTOR'' (wa_command_id a))\<rparr>))))"

definition record_event_receipt :: "session_state \<Rightarrow> session_state result" where
  "record_event_receipt st = (case ss_ew_pending st of
       None \<Rightarrow> Inl (KeyError ''event'')
     | Some a \<Rightarrow> Inr (st\<lparr>ss_ew_receipts := dict_put (wa_command_id a) (uuid_str (event_id (wa_event a))) (ss_ew_receipts st),
         ss_ew_sequences := dict_put (uuid_str (execution_id (wa_event a))) (event_sequence (wa_event a))
                              (ss_ew_sequences st)\<rparr>))"

section \<open>The acceptance receipt\<close>

definition INPUT_NODES :: "string set" where
  "INPUT_NODES = {''begin_task'', ''clarify_request'', ''choose_execution_mode'', ''confirm_request_risk'',
     ''choose_workflow'', ''review_plan'', ''wait_external_signal''}"

definition with_api_receipt ::
    "string \<Rightarrow> (session_state \<Rightarrow> session_state result) \<Rightarrow> api_action option \<Rightarrow> session_state \<Rightarrow> session_state result" where
  "with_api_receipt name node action st =
     (if name \<notin> INPUT_NODES then node st
      else rbind (node st) (\<lambda>st1.
        (case action of
           None \<Rightarrow> Inr st1
         | Some a \<Rightarrow>
            if aa_target_node a \<noteq> name then Inr st1
            else if ss_active_task_id st1 \<noteq> Some (aa_task_id a) then Inl (ValueError ''API receipt Task mismatch'')
            else (let receipt = \<lparr>ar_task_id = aa_task_id a, ar_fingerprint = aa_fingerprint a\<rparr> in
              (case map_of (ss_api_receipts st) (aa_request_id a) of
                 Some old \<Rightarrow> if old \<noteq> receipt then Inl (ValueError ''API receipt identity mismatch'') else Inr st1
               | None \<Rightarrow> Inr (st1\<lparr>ss_api_receipts := dict_put (aa_request_id a) receipt (ss_api_receipts st),
                              ss_invocation_owner := Some (Owner ''API'' (aa_request_id a))\<rparr>))))))"

section \<open>The adapter\<close>

text \<open>What \<open>SessionGraphAdapter.__call__\<close> decides from the first snapshot.\<close>

datatype adapter_decision =
    Already_done
  | Continue_done
  | Continue_and_check
  | Resume_and_check string worker_action

definition event_action :: "event_context \<Rightarrow> worker_action" where
  "event_action ctx = \<lparr>wa_command_id = uuid_str (ctx_command_id ctx), wa_task_id = ctx_task_id ctx, wa_event = ctx_event ctx\<rparr>"

definition binding_active :: "session_state \<Rightarrow> event_context \<Rightarrow> bool" where
  "binding_active v ctx = (ss_active_task_id v = Some (ctx_task_id ctx)
     \<and> ss_execution_id v = Some (uuid_str (ctx_execution_id ctx)))"

definition foreign_owner :: "session_state \<Rightarrow> event_context \<Rightarrow> bool" where
  "foreign_owner v ctx = (ss_invocation_owner v \<noteq> None
     \<and> ss_invocation_owner v \<noteq> Some (Owner ''EXECUTOR'' (uuid_str (ctx_command_id ctx))))"

definition adapter_receipt :: "snapshot \<Rightarrow> event_context \<Rightarrow> string \<Rightarrow> adapter_decision result" where
  "adapter_receipt sn ctx receipt = (let v = sn_values sn in
     if receipt \<noteq> uuid_str (event_id (ctx_event ctx)) then Inl (RejectEvent ''Command receipt identity mismatch'')
     else if foreign_owner v ctx then Inr Already_done
     else if map_option wa_command_id (ss_ew_pending v) = Some (uuid_str (ctx_command_id ctx))
          \<and> sn_next sn \<noteq> [] \<and> interrupts sn = [] \<and> binding_active v ctx
     then Inr Continue_done else Inr Already_done)"

definition adapter_interrupted :: "snapshot \<Rightarrow> event_context \<Rightarrow> graph_interrupt \<Rightarrow> adapter_decision result" where
  "adapter_interrupted sn ctx boundary = (let b = gi_value boundary in
     if \<not> is_jobj b \<or> jget0 b ''kind'' \<noteq> JStr ''EXECUTOR_EVENT''
     then Inl (DeferEvent ''Checkpoint is waiting for user input'')
     else if jget0 b ''execution_id'' \<noteq> JStr (uuid_str (ctx_execution_id ctx)) \<or> jget0 b ''task_id'' \<noteq> JStr (ctx_task_id ctx)
     then Inl (RejectEvent ''Interrupt binding mismatch'')
     else if event_sequence (ctx_event ctx) \<le> last_sequence (sn_values sn) (uuid_str (ctx_execution_id ctx))
     then Inl (IgnoreEvent ''Older execution sequence already applied'')
     else Inr (Resume_and_check (gi_id boundary) (event_action ctx)))"

definition adapter_decide :: "snapshot \<Rightarrow> event_context \<Rightarrow> adapter_decision result" where
  "adapter_decide sn ctx = (let v = sn_values sn in
     (case map_of (ss_ew_receipts v) (uuid_str (ctx_command_id ctx)) of
        Some receipt \<Rightarrow> adapter_receipt sn ctx receipt
      | None \<Rightarrow>
         if no_values v then Inl (DeferEvent ''API has not checkpointed the execution yet'')
         else if \<not> binding_active v ctx
         then (if uuid_str (ctx_execution_id ctx) \<in> fst ` set (ss_ew_sequences v)
               then Inl (IgnoreEvent ''Event belongs to an inactive execution'')
               else Inl (DeferEvent ''API has not checkpointed this binding yet''))
         else if sn_next sn \<noteq> [] \<and> interrupts sn = []
         then (if ss_ew_pending v \<noteq> Some (event_action ctx) \<or> foreign_owner v ctx
               then Inl (DeferEvent ''Another invocation requires recovery'') else Inr Continue_and_check)
         else (case interrupts sn of
            [(_, boundary)] \<Rightarrow> adapter_interrupted sn ctx boundary
          | _ \<Rightarrow> if sn_next sn = [] then Inl (IgnoreEvent ''Execution graph already ended'')
                 else Inl (DeferEvent ''Expected exactly one Executor wait''))))"

text \<open>The whole call: \<open>project\<close> is the optional projector of snapshots.\<close>

definition adapter_call ::
    "'g graph_api \<Rightarrow> (snapshot \<Rightarrow> 'g \<Rightarrow> unit result \<times> 'g) \<Rightarrow> event_context \<Rightarrow> 'g \<Rightarrow> unit result \<times> 'g" where
  "adapter_call api project ctx =
     (let thread = graph_thread_id ctx; get = (\<lambda>g. (aget_state api thread g, g));
          check = sbind get (\<lambda>after. sbind (project after) (\<lambda>_.
            spure (if map_of (ss_ew_receipts (sn_values after)) (uuid_str (ctx_command_id ctx)) \<noteq>
                       Some (uuid_str (event_id (ctx_event ctx)))
                   then Inl (DeferEvent ''Handler has not recorded its receipt yet'') else Inr ())))
      in sbind get (\<lambda>sn. sbind (project sn) (\<lambda>_.
         sbind (spure (adapter_decide sn ctx)) (\<lambda>d.
           (case d of
              Already_done \<Rightarrow> spure (Inr ())
            | Continue_done \<Rightarrow> sbind (ainvoke api thread None Continue) (\<lambda>_. sbind get project)
            | Continue_and_check \<Rightarrow> sbind (ainvoke api thread None Continue) (\<lambda>_. check)
            | Resume_and_check iid a \<Rightarrow> sbind (ainvoke api thread None (Resume iid (Action a))) (\<lambda>_. check))))))"

end
