(* ===== verification/Agent_Session_Props.thy ===== *)
theory Agent_Session_Props
  imports Agent_Session Transitions Worker_Store
begin

text \<open>
  The session state as a state machine over its nodes, what no node takes back, and the properties
  of task admission, of the resume checks and of the event adapter.
\<close>

section \<open>Steps of the session graph\<close>

text \<open>
  Any order of: a new turn, a business node (an arbitrary function of the nested state) at any
  place, the registration of an execution, an answered wait and the receipt of an event.
\<close>

inductive session_step ::
    "(task_turn \<Rightarrow> string) \<Rightarrow> session_state \<Rightarrow> session_state \<Rightarrow> bool" for fp where
  se_begin: "with_api_receipt ''begin_task'' (begin_task fp thread) action (st\<lparr>ss_turn := Some turn\<rparr>) = Inr st' \<Longrightarrow>
     session_step fp st st'"
| se_node: "with_api_receipt name (lift_node node) action st = Inr st' \<Longrightarrow> session_step fp st st'"
| se_register: "register_execution (\<lambda>u sess task. register ns now u sess task ''agent'') st db = (Inr st', db') \<Longrightarrow>
     session_step fp st st'"
| se_wait: "with_api_receipt ''wait_external_signal'' (wait_external_signal answer) action st = Inr st' \<Longrightarrow>
     session_step fp st st'"
| se_record: "record_event_receipt st = Inr st' \<Longrightarrow> session_step fp st st'"

text \<open>The pending action is not older than what has been applied for its execution.\<close>

definition pending_ok :: "session_state \<Rightarrow> bool" where
  "pending_ok st = (\<forall>a. ss_ew_pending st = Some a \<longrightarrow>
     last_sequence st (uuid_str (execution_id (wa_event a))) \<le> event_sequence (wa_event a))"

definition extends :: "('k \<times> 'v) list \<Rightarrow> ('k \<times> 'v) list \<Rightarrow> bool" where
  "extends d d' = (\<forall>k v. map_of d k = Some v \<longrightarrow> map_of d' k = Some v)"

definition fixed :: "'a option \<Rightarrow> 'a option \<Rightarrow> bool" where
  "fixed x y = (x = None \<or> x = y)"

definition session_grows :: "session_state \<Rightarrow> session_state \<Rightarrow> bool" where
  "session_grows st st' = (extends (ss_task_requests st) (ss_task_requests st')
     \<and> extends (ss_api_receipts st) (ss_api_receipts st')
     \<and> (\<forall>x. last_sequence st x \<le> last_sequence st' x)
     \<and> fixed (ss_user_id st) (ss_user_id st') \<and> fixed (ss_project_id st) (ss_project_id st')
     \<and> fixed (ss_session_id st) (ss_session_id st'))"

lemmas growth_defs = session_grows_def extends_def fixed_def last_sequence_def pending_ok_def

section \<open>Frames of the nodes\<close>

lemma session_grows_refl [simp]: "session_grows st st"
  by (simp add: growth_defs)

lemma extends_trans [trans]: "extends x y \<Longrightarrow> extends y z \<Longrightarrow> extends x z"
  by (simp add: extends_def)

lemma fixed_trans [trans]: "fixed x y \<Longrightarrow> fixed y z \<Longrightarrow> fixed x z"
  by (auto simp: fixed_def)

lemma session_grows_trans:
  assumes "session_grows a b" "session_grows b c"
  shows "session_grows a c"
    using assms unfolding session_grows_def by (blast intro: extends_trans fixed_trans order_trans)

lemma receipt_cases:
  assumes "with_api_receipt name node action st = Inr st'"
  obtains "node st = Inr st'"
  | st1 k r own where "node st = Inr st1" "map_of (ss_api_receipts st) k = None"
      "st' = st1\<lparr>ss_api_receipts := dict_put k r (ss_api_receipts st), ss_invocation_owner := Some own\<rparr>"
proof (cases "name \<in> INPUT_NODES")
  case False
  then show ?thesis using assms that(1) by (simp add: with_api_receipt_def)
next
  case True
  then obtain st1 where st1: "node st = Inr st1" using assms by (auto simp: with_api_receipt_def rbind_eq_Inr)
  show ?thesis
  proof (cases action)
    case None
    then show ?thesis using assms st1 True that(1) by (simp add: with_api_receipt_def)
  next
    case (Some a)
    show ?thesis
    proof (cases "map_of (ss_api_receipts st) (aa_request_id a)")
      case None
      have "st' = st1 \<or> st' = st1\<lparr>ss_api_receipts := dict_put (aa_request_id a)
          \<lparr>ar_task_id = aa_task_id a, ar_fingerprint = aa_fingerprint a\<rparr> (ss_api_receipts st),
          ss_invocation_owner := Some (Owner ''API'' (aa_request_id a))\<rparr>"
        using assms st1 True Some None by (auto simp: with_api_receipt_def Let_def split: if_splits)
      then show ?thesis using that(1) that(2) [OF st1 None] st1 by metis
    next
      case old: (Some r)
      have "st' = st1"
        using assms st1 True Some old by (auto simp: with_api_receipt_def Let_def split: if_splits)
      then show ?thesis using that(1) st1 by simp
    qed
  qed
qed

text \<open>A node that respects the invariant and the growth does so with a receipt as well.\<close>

lemma receipt_grows:
  assumes run: "with_api_receipt name node action st = Inr st'"
    and node: "\<And>st1. node st = Inr st1 \<Longrightarrow> session_grows st st1 \<and> pending_ok st1 \<and> ss_api_receipts st1 = ss_api_receipts st"
  shows "session_grows st st' \<and> pending_ok st'"
  using run
proof (cases rule: receipt_cases)
  case (2 st1 k r own)
  with node [OF 2(1)] show ?thesis by (auto simp: growth_defs)
qed (use node in blast)

text \<open>The fields that carry the history; a node that leaves them alone grows trivially.\<close>

definition same_history :: "session_state \<Rightarrow> session_state \<Rightarrow> bool" where
  "same_history st st' = (ss_task_requests st' = ss_task_requests st \<and> ss_api_receipts st' = ss_api_receipts st
     \<and> ss_ew_sequences st' = ss_ew_sequences st \<and> ss_user_id st' = ss_user_id st
     \<and> ss_project_id st' = ss_project_id st \<and> ss_session_id st' = ss_session_id st)"

lemma same_history_grows:
  assumes "same_history st st'"
  shows "session_grows st st' \<and> ss_api_receipts st' = ss_api_receipts st"
  using assms by (simp add: same_history_def session_grows_def extends_def fixed_def last_sequence_def)

lemma same_history_sequence: "same_history st st' \<Longrightarrow> last_sequence st' = last_sequence st"
  by (rule ext) (simp add: same_history_def last_sequence_def)

lemma same_history_pending:
  assumes "same_history st st'" "pending_ok st" "ss_ew_pending st' = ss_ew_pending st"
  shows "pending_ok st'"
  using assms same_history_sequence [OF assms(1)] by (simp add: pending_ok_def)

lemma last_sequence_put:
  assumes "ss_ew_sequences st' = dict_put k v (ss_ew_sequences st)"
  shows "last_sequence st' x = (if x = k then v else last_sequence st x)"
  using assms by (simp add: last_sequence_def)

lemma begin_task_cases:
  assumes "begin_task fp thread st = Inr st1"
  obtains turn where "ss_turn st = Some turn" "owned_by st turn" "thread = tt_session_id turn"
    "map_of (ss_task_requests st) (tt_active_task_id turn) = None"
    "\<And>w. ss_workflow st = Some w \<Longrightarrow> is_terminal (wf_phase w)"
    "ss_workflow st1 = Some (new_workflow turn)" "ss_active_task_id st1 = Some (tt_active_task_id turn)"
    "ss_task_requests st1 = dict_put (tt_active_task_id turn) (fp turn) (ss_task_requests st)"
    "ss_api_receipts st1 = ss_api_receipts st" "ss_ew_sequences st1 = ss_ew_sequences st" "ss_ew_pending st1 = None"
    "ss_user_id st1 = Some (tt_user_id turn)" "ss_project_id st1 = Some (tt_project_id turn)"
    "ss_session_id st1 = Some (tt_session_id turn)" "ss_ew_receipts st1 = ss_ew_receipts st"
proof -
  obtain turn where turn: "ss_turn st = Some turn" using assms by (auto simp: begin_task_def split: option.splits)
  let ?busy = "case ss_workflow st of None \<Rightarrow> False | Some w \<Rightarrow> \<not> is_terminal (wf_phase w)"
  have ok: "turn_valid turn" "thread = tt_session_id turn" "owned_by st turn" "\<not> ?busy"
      "map_of (ss_task_requests st) (tt_active_task_id turn) = None"
    using assms turn unfolding begin_task_def by (simp_all split: if_split_asm)
  show ?thesis
  proof (rule that [OF turn ok(3) ok(2) ok(5)])
    fix w assume "ss_workflow st = Some w"
    then show "is_terminal (wf_phase w)" using ok(4) by simp
  qed (use assms turn ok in \<open>auto simp: begin_task_def\<close>)
qed

lemma begin_task_grows:
  assumes "begin_task fp thread st = Inr st1"
  shows "session_grows st st1 \<and> pending_ok st1 \<and> ss_api_receipts st1 = ss_api_receipts st"
  using assms
proof (cases rule: begin_task_cases)
  case (1 turn)
  then show ?thesis
    by (simp add: session_grows_def extends_def fixed_def owned_by_def pending_ok_def last_sequence_def)
qed

lemma lift_node_cases:
  assumes "lift_node node st = Inr st1"
  obtains w0 w where "ss_workflow st = Some w0" "node w0 = Inr w" "ss_workflow st1 = Some w"
    "same_history st st1" "ss_ew_pending st1 = ss_ew_pending st" "ss_ew_receipts st1 = ss_ew_receipts st"
    "ss_active_task_id st1 = ss_active_task_id st"
proof -
  obtain w0 where w0: "ss_workflow st = Some w0" using assms by (auto simp: lift_node_def split: option.splits)
  then obtain w where w: "node w0 = Inr w" using assms by (auto simp: lift_node_def rbind_eq_Inr)
  show ?thesis
  proof (cases "is_terminal (wf_phase w) \<and> result_message w \<noteq> None")
    case False
    then have "st1 = st\<lparr>ss_workflow := Some w,
        ss_execution_id := Some (case wf_execution_id w of None \<Rightarrow> [] | Some x \<Rightarrow> x)\<rparr>"
      using assms w0 w by (auto simp: lift_node_def Let_def split: if_split_asm)
    then show ?thesis by (intro that [OF w0 w]) (simp_all add: same_history_def)
  next
    case True
    then obtain m where m: "result_message w = Some m" by auto
    obtain t where "ss_active_task_id st = Some t"
      using assms w0 w m True by (auto simp: lift_node_def Let_def split: option.splits)
    then show ?thesis
      using assms m True w0 w by (intro that [OF w0 w]) (auto simp: lift_node_def Let_def same_history_def)
  qed
qed

lemma lift_node_grows:
  assumes "lift_node node st = Inr st1" "pending_ok st"
  shows "session_grows st st1 \<and> pending_ok st1 \<and> ss_api_receipts st1 = ss_api_receipts st"
  using assms(1) by (cases rule: lift_node_cases) (use assms(2) same_history_grows same_history_pending in blast)

text \<open>What a wait accepts: a cancellation of the active task, or a newer event of the active execution.\<close>

lemma set_signal_ok:
  assumes "set_signal sig st = Inr st1"
  obtains w where "ss_workflow st = Some w" "st1 = st\<lparr>ss_workflow := Some (w\<lparr>wf_external_signal := Some sig\<rparr>)\<rparr>"
  using assms by (auto simp: set_signal_def split: option.splits)

lemma wait_cases:
  assumes "wait_external_signal answer st = Inr st1"
  obtains task why where "answer = Signal (CancelRequestedSignal task why)"
      "Some (uuid_str task) = ss_active_task_id st" "same_history st st1" "ss_ew_pending st1 = None"
      "ss_ew_receipts st1 = ss_ew_receipts st"
  | a sig where "answer = Action a" "Some (wa_task_id a) = ss_active_task_id st" "boundary_of (wa_event a) = Inr sig"
      "Some (uuid_str (execution_id (wa_event a))) = ss_execution_id st"
      "last_sequence st (uuid_str (execution_id (wa_event a))) < event_sequence (wa_event a)"
      "same_history st st1" "ss_ew_pending st1 = Some a" "ss_ew_receipts st1 = ss_ew_receipts st"
proof (cases answer)
  case (Signal s)
  then obtain task why where s: "s = CancelRequestedSignal task why"
    using assms by (cases s) (simp_all add: wait_external_signal_def)
  then obtain st2 where "Some (uuid_str task) = ss_active_task_id st" "set_signal s st = Inr st2"
      "st1 = st2\<lparr>ss_ew_pending := None\<rparr>"
    using assms Signal by (auto simp: wait_external_signal_def rbind_eq_Inr split: if_split_asm)
  then show ?thesis
    by (intro that(1) [OF Signal [unfolded s]]) (auto simp: same_history_def elim!: set_signal_ok)
next
  case (Action a)
  let ?e = "wa_event a"
  have c: "Some (wa_task_id a) = ss_active_task_id st" "uuid_parse (wa_command_id a) \<noteq> None"
      "Some (uuid_str (execution_id ?e)) = ss_execution_id st"
      "\<not> event_sequence ?e \<le> last_sequence st (uuid_str (execution_id ?e))"
    using assms Action unfolding wait_external_signal_def by (simp_all split: if_split_asm)
  then obtain sig st2 where "boundary_of ?e = Inr sig" "set_signal sig st = Inr st2"
      "st1 = st2\<lparr>ss_ew_pending := Some a, ss_invocation_owner := Some (Owner ''EXECUTOR'' (wa_command_id a))\<rparr>"
    using assms Action by (auto simp: wait_external_signal_def rbind_eq_Inr)
  then show ?thesis using Action c by (intro that(2) [OF Action]) (auto simp: same_history_def elim!: set_signal_ok)
qed

lemma wait_grows:
  assumes "wait_external_signal answer st = Inr st1" "pending_ok st"
  shows "session_grows st st1 \<and> pending_ok st1 \<and> ss_api_receipts st1 = ss_api_receipts st"
  using assms(1)
proof (cases rule: wait_cases)
  case (1 task why)
  then show ?thesis using same_history_grows by (auto simp: pending_ok_def)
next
  case (2 a sig)
  then show ?thesis using same_history_grows [OF 2(6)] same_history_sequence [OF 2(6)] by (simp add: pending_ok_def)
qed

lemma put_sequence_grows:
  assumes "ss_ew_sequences st1 = dict_put k v (ss_ew_sequences st)" "last_sequence st k \<le> v"
    "ss_task_requests st1 = ss_task_requests st" "ss_api_receipts st1 = ss_api_receipts st"
    "ss_user_id st1 = ss_user_id st" "ss_project_id st1 = ss_project_id st" "ss_session_id st1 = ss_session_id st"
  shows "session_grows st st1"
  using assms last_sequence_put [OF assms(1)] by (simp add: session_grows_def extends_def fixed_def)

lemma register_execution_grows:
  assumes "register_execution reg st b = (Inr st1, b')" "pending_ok st"
  shows "session_grows st st1 \<and> pending_ok st1"
proof -
  obtain exec where st1: "st1 = st\<lparr>ss_ew_sequences := dict_put exec (last_sequence st exec) (ss_ew_sequences st)\<rparr>"
    using assms(1) unfolding register_execution_def sbind_eq spure_def by (auto simp: sbind_eq)
  have "session_grows st st1" by (rule put_sequence_grows [of _ exec "last_sequence st exec"]) (simp_all add: st1)
  moreover have "pending_ok st1"
    using assms(2) last_sequence_put [of st1 exec "last_sequence st exec" st]
    by (auto simp: pending_ok_def st1)
  ultimately show ?thesis by simp
qed

lemma record_grows:
  assumes "record_event_receipt st = Inr st1" "pending_ok st"
  shows "session_grows st st1 \<and> pending_ok st1"
proof -
  obtain a where a: "ss_ew_pending st = Some a"
    using assms(1) by (auto simp: record_event_receipt_def split: option.splits)
  let ?k = "uuid_str (execution_id (wa_event a))"
  have seq: "ss_ew_sequences st1 = dict_put ?k (event_sequence (wa_event a)) (ss_ew_sequences st)"
    and st1: "ss_ew_pending st1 = Some a" "ss_task_requests st1 = ss_task_requests st"
      "ss_api_receipts st1 = ss_api_receipts st" "ss_user_id st1 = ss_user_id st"
      "ss_project_id st1 = ss_project_id st" "ss_session_id st1 = ss_session_id st"
    using assms(1) a by (auto simp: record_event_receipt_def)
  have "session_grows st st1"
    by (rule put_sequence_grows [OF seq]) (use assms(2) a st1 in \<open>simp_all add: pending_ok_def\<close>)
  then show ?thesis using last_sequence_put [OF seq] st1 by (simp add: pending_ok_def)
qed

lemma session_step_grows:
  assumes "session_step fp st st'" "pending_ok st"
  shows "session_grows st st' \<and> pending_ok st'"
  using assms(1)
proof (cases rule: session_step.cases)
  case (se_begin thread action turn)
  have "session_grows (st\<lparr>ss_turn := Some turn\<rparr>) st' \<and> pending_ok st'"
    by (rule receipt_grows [OF se_begin begin_task_grows])
  then show ?thesis by (simp add: session_grows_def last_sequence_def)
next
  case (se_node name node action)
  show ?thesis by (rule receipt_grows [OF se_node lift_node_grows [OF _ assms(2)]])
next
  case (se_wait answer action)
  show ?thesis by (rule receipt_grows [OF se_wait wait_grows [OF _ assms(2)]])
next
  case (se_register ns now db db')
  show ?thesis by (rule register_execution_grows [OF se_register assms(2)])
next
  case se_record
  show ?thesis by (rule record_grows [OF se_record assms(2)])
qed

interpretation session: growth_system "\<lambda>st. st = empty_state" "session_step fp" pending_ok session_grows
  for fp
  by unfold_locales
    (use session_grows_trans session_step_grows in \<open>auto simp: empty_state_def pending_ok_def\<close>)

section \<open>What the adapter resumes\<close>

lemma adapter_resumeD:
  assumes "adapter_decide sn ctx = Inr (Resume_and_check iid a)"
  obtains "binding_active (sn_values sn) ctx" "a = event_action ctx"
    "last_sequence (sn_values sn) (uuid_str (ctx_execution_id ctx)) < event_sequence (ctx_event ctx)"
    "map_of (ss_ew_receipts (sn_values sn)) (uuid_str (ctx_command_id ctx)) = None"
    "\<exists>node b. interrupts sn = [(node, b)] \<and> gi_id b = iid"
proof -
  let ?v = "sn_values sn"
  have none: "map_of (ss_ew_receipts ?v) (uuid_str (ctx_command_id ctx)) = None"
    using assms by (auto simp: adapter_decide_def adapter_receipt_def Let_def split: option.splits if_splits)
  have active: "binding_active ?v ctx"
    using assms none by (auto simp: adapter_decide_def Let_def split: if_splits)
  obtain node b where one: "interrupts sn = [(node, b)]" "adapter_interrupted sn ctx b = Inr (Resume_and_check iid a)"
    using assms none by (auto simp: adapter_decide_def Let_def split: if_splits list.splits)
  have "last_sequence ?v (uuid_str (ctx_execution_id ctx)) < event_sequence (ctx_event ctx)"
      "a = event_action ctx" "gi_id b = iid"
    using one(2) by (auto simp: adapter_interrupted_def Let_def split: if_splits)
  then show ?thesis using that none active one(1) by blast
qed

lemma event_action_simps [simp]:
  "wa_event (event_action ctx) = ctx_event ctx" "wa_task_id (event_action ctx) = ctx_task_id ctx"
  "wa_command_id (event_action ctx) = uuid_str (ctx_command_id ctx)"
  by (simp_all add: event_action_def)

text \<open>A boundary event of the active execution that is newer than what was applied passes the wait.\<close>

lemma wait_accepts:
  assumes "binding_active st ctx" "execution_id (ctx_event ctx) = ctx_execution_id ctx" "valid_uuid (ctx_command_id ctx)"
    and "last_sequence st (uuid_str (ctx_execution_id ctx)) < event_sequence (ctx_event ctx)"
    and "boundary_of (ctx_event ctx) = Inr sig" "ss_workflow st = Some w"
  shows "\<exists>st1. wait_external_signal (Action (event_action ctx)) st = Inr st1"
  using assms uuid_round_trip [OF assms(3)] by (simp add: wait_external_signal_def binding_active_def set_signal_def)

lemma wait_record:
  assumes "wait_external_signal (Action a) st = Inr st1"
  obtains st2 where "record_event_receipt st1 = Inr st2"
    "map_of (ss_ew_receipts st2) (wa_command_id a) = Some (uuid_str (event_id (wa_event a)))"
    "last_sequence st2 (uuid_str (execution_id (wa_event a))) = event_sequence (wa_event a)"
  using assms
proof (cases rule: wait_cases)
  case (2 b sig)
  then show ?thesis by (intro that) (auto simp: record_event_receipt_def last_sequence_def)
qed simp

abbreviation reachable_session :: "(task_turn \<Rightarrow> string) \<Rightarrow> session_state \<Rightarrow> bool" where
  "reachable_session fp \<equiv> reachable (\<lambda>st. st = empty_state) (session_step fp)"

text \<open>The wait and the receipt of an event are steps of the graph.\<close>

lemma wait_record_steps:
  assumes "wait_external_signal answer st = Inr st1" "record_event_receipt st1 = Inr st2"
  shows "(session_step fp)\<^sup>*\<^sup>* st st2"
proof -
  have "session_step fp st st1"
    by (rule se_wait [where action = None and answer = answer]) (simp add: with_api_receipt_def assms(1))
  moreover have "session_step fp st1 st2" by (rule se_record) (rule assms(2))
  ultimately show ?thesis by simp
qed

section \<open>Properties\<close>

text \<open>
  No node takes history back. Along every run of the session graph an admitted task keeps its
  fingerprint, an accepted API request keeps its receipt, the applied sequence of an execution never
  decreases, and the owner of the session never changes once it is set.
\<close>

theorem session_history_kept:
  assumes "reachable_session fp st" "(session_step fp)\<^sup>*\<^sup>* st st'"
  shows "(map_of (ss_task_requests st) t = Some f \<longrightarrow> map_of (ss_task_requests st') t = Some f)
    \<and> (map_of (ss_api_receipts st) q = Some r \<longrightarrow> map_of (ss_api_receipts st') q = Some r)
    \<and> last_sequence st x \<le> last_sequence st' x
    \<and> (ss_user_id st = Some u \<longrightarrow> ss_user_id st' = Some u)
    \<and> (ss_project_id st = Some p \<longrightarrow> ss_project_id st' = Some p)
    \<and> (ss_session_id st = Some s \<longrightarrow> ss_session_id st' = Some s)"
  using session.reachable_grows [OF assms] by (auto simp: session_grows_def extends_def fixed_def)

definition demo_turn :: task_turn where
  "demo_turn = \<lparr>tt_user_id = ''u'', tt_project_id = ''p'', tt_session_id = ''s'', tt_active_task_id = ''t'',
     tt_current_input_message_id = ''m'', tt_user_message = ''hi'', tt_runtime_profile = ''default''\<rparr>"

definition demo_api :: api_action where
  "demo_api = \<lparr>aa_request_id = ''q'', aa_task_id = ''t'', aa_fingerprint = ''f'', aa_target_node = ''begin_task''\<rparr>"

definition demo_fp :: "task_turn \<Rightarrow> string" where
  "demo_fp t = tt_user_message t"

definition demo_started :: "session_state result" where
  "demo_started = with_api_receipt ''begin_task'' (begin_task demo_fp ''s'') (Some demo_api)
     (empty_state\<lparr>ss_turn := Some demo_turn\<rparr>)"

lemmas demo_session_defs = demo_started_def demo_turn_def demo_api_def demo_fp_def with_api_receipt_def INPUT_NODES_def
  begin_task_def turn_valid_def owned_by_def empty_state_def

lemma demo_started_reachable: "demo_started = Inr st \<Longrightarrow> reachable_session demo_fp st"
  by (rule reach_step [where s = empty_state])
    (auto simp: demo_started_def intro: reach_init se_begin [where thread = "''s''" and action = "Some demo_api"])

definition demo_node :: "workflow \<Rightarrow> workflow result" where
  "demo_node w = Inr (w\<lparr>wf_execution_id := Some (uuid_str 2)\<rparr>)"

lemma demo_submitted:
  obtains st st' where "demo_started = Inr st" "session_step demo_fp st st'" "ss_active_task_id st' = Some ''t''"
    "ss_execution_id st' = Some (uuid_str 2)" "ss_ew_sequences st' = []" "ss_ew_receipts st' = []"
    "\<exists>w. ss_workflow st' = Some w" "map_of (ss_task_requests st) ''t'' = Some ''hi''"
    "map_of (ss_api_receipts st) ''q'' = Some \<lparr>ar_task_id = ''t'', ar_fingerprint = ''f''\<rparr>"
proof -
  obtain st where st: "demo_started = Inr st" by (simp add: demo_session_defs)
  have w: "ss_workflow st = Some (new_workflow demo_turn)" "map_of (ss_task_requests st) ''t'' = Some ''hi''"
      "map_of (ss_api_receipts st) ''q'' = Some \<lparr>ar_task_id = ''t'', ar_fingerprint = ''f''\<rparr>"
      "ss_active_task_id st = Some ''t''" "ss_ew_sequences st = []" "ss_ew_receipts st = []"
    using st by (auto simp: demo_session_defs)
  obtain st' where st': "with_api_receipt ''submit'' (lift_node demo_node) None st = Inr st'"
      "ss_active_task_id st' = Some ''t''" "ss_execution_id st' = Some (uuid_str 2)" "ss_ew_sequences st' = []"
      "ss_ew_receipts st' = []" "\<exists>w. ss_workflow st' = Some w"
    using w by (auto simp: with_api_receipt_def INPUT_NODES_def lift_node_def new_workflow_def demo_node_def Let_def)
  show ?thesis by (rule that [OF st se_node [OF st'(1)] st'(2-6) w(2,3)])
qed

theorem session_history_kept_witness:
  "\<exists>st st'. demo_started = Inr st \<and> session_step demo_fp st st'
     \<and> map_of (ss_task_requests st') ''t'' = Some ''hi''
     \<and> map_of (ss_api_receipts st') ''q'' = Some \<lparr>ar_task_id = ''t'', ar_fingerprint = ''f''\<rparr>"
proof -
  obtain st st' where st: "demo_started = Inr st" and step: "session_step demo_fp st st'"
    and w: "map_of (ss_task_requests st) ''t'' = Some ''hi''"
      "map_of (ss_api_receipts st) ''q'' = Some \<lparr>ar_task_id = ''t'', ar_fingerprint = ''f''\<rparr>"
    by (rule demo_submitted)
  show ?thesis
    using session_history_kept [OF demo_started_reachable [OF st] r_into_rtranclp [of "session_step demo_fp", OF step],
        of "''t''" "''hi''" "''q''" "\<lparr>ar_task_id = ''t'', ar_fingerprint = ''f''\<rparr>"] st step w by blast
qed


definition demo_ctx :: event_context where
  "demo_ctx = \<lparr>ctx_namespace = ''w'', ctx_session_id = ''s'', ctx_task_id = ''t'', ctx_execution_id = 2, ctx_command_id = 7,
     ctx_event = \<lparr>event_id = 1, execution_id = 2, event_type = ''execution.completed'', event_sequence = 1,
       schema_version = ''1.0'', occurred_at = ''now'', payload = JNull, extra_fields = []\<rparr>\<rparr>"

definition demo_snapshot :: "session_state \<Rightarrow> snapshot" where
  "demo_snapshot st = \<lparr>sn_values = st, sn_next = [''wait_external_signal''],
     sn_tasks = [\<lparr>gt_name = ''wait_external_signal'', gt_interrupts = [\<lparr>gi_id = ''i'',
       gi_value = JObj [(''kind'', JStr ''EXECUTOR_EVENT''), (''task_id'', JStr ''t''), (''execution_id'', JStr (uuid_str 2))]\<rparr>]\<rparr>],
     sn_checkpoint_id = Some ''c''\<rparr>"


end
