(* ===== verification/Agent_Tables.thy ===== *)
theory Agent_Tables
  imports Agent_State
begin

text \<open>
  The agent's tables (\<open>src/ex_agent/persistence/models.py\<close>, \<open>src/agent/admission/models.py\<close>,
  \<open>src/agent/failure/models.py\<close>, \<open>src/agent/effects/models.py\<close>) as lists of rows, and the API request
  that admission stores (\<open>src/agent/admission/contracts.py\<close>). A status column holds a value of its
  enumeration. A JSON column that holds a dumped model is kept as the model. An identifier that
  \<open>uuid4\<close> generates for a message is \<open>None\<close>; the columns of task events that only the delivery of
  events uses, and indexes that are not unique, are left out.
\<close>

section \<open>Tasks, messages, events and locks\<close>

record task_row =
  t_id :: uuid
  t_user_id :: string
  t_project_id :: string
  t_session_id :: string
  t_input_message_id :: uuid
  t_user_message :: string
  t_status :: task_status
  t_execution_id :: "uuid option"
  t_current_interrupt :: "json option"
  t_terminal_message :: "string option"
  t_version :: int
  t_audit :: audit_cols

record message_row =
  m_id :: "uuid option"
  m_task_id :: uuid
  m_role :: string
  m_content :: string
  m_metadata :: json

record task_event =
  te_task_id :: uuid
  te_event_type :: string
  te_payload :: json

record lock_row =
  sl_session_id :: string
  sl_active_task_id :: uuid
  sl_execution_id :: "uuid option"
  sl_locked :: bool

record exec_binding_row =
  eb_task_id :: uuid
  eb_execution_id :: uuid
  eb_operation_id :: uuid
  eb_execution_version :: int
  eb_next_step_sequence :: int
  eb_last_event_sequence :: int

section \<open>API requests\<close>

datatype request_kind = Rq_START | Rq_RESUME | Rq_CANCEL

record api_request =
  rq_request_id :: uuid
  rq_turn :: task_turn
  rq_kind :: request_kind
  rq_interrupt_id :: "string option"
  rq_payload :: "json option"

text \<open>\<open>ApiRequest.validate_request\<close>; \<open>parse\<close> is \<open>validate_resume_signal\<close>.\<close>

definition validate_request :: "(json \<Rightarrow> resume_signal result) \<Rightarrow> api_request \<Rightarrow> unit result" where
  "validate_request parse q =
     (if uuid_parse (tt_active_task_id (rq_turn q)) = None then Inl (ValueError ''badly formed UUID'')
      else if uuid_parse (tt_current_input_message_id (rq_turn q)) = None then Inl (ValueError ''badly formed UUID'')
      else if rq_kind q = Rq_START
      then (if rq_interrupt_id q \<noteq> None \<or> rq_payload q \<noteq> None
            then Inl (ValueError ''START cannot carry a resume payload'') else Inr ())
      else (case (rq_interrupt_id q, rq_payload q) of
          (Some _, Some j) \<Rightarrow> rbind (parse j) (\<lambda>sig.
             if is_executor_signal sig then Inl (ValueError ''Executor events belong to Worker'')
             else if is_cancel_signal sig \<noteq> (rq_kind q = Rq_CANCEL)
             then Inl (ValueError ''Cancel signal requires CANCEL request kind'') else Inr ())
        | _ \<Rightarrow> Inl (ValueError ''Resume requires interrupt ID and payload'')))"

datatype request_state = Rs_PENDING | Rs_RUNNING | Rs_APPLIED | Rs_REJECTED | Rs_BLOCKED | Rs_COMPENSATED

text \<open>A row of \<open>agent_api_requests\<close>; \<open>RequestRecord\<close> has the same members.\<close>

record api_row =
  ap_request_id :: uuid
  ap_task_id :: uuid
  ap_session_id :: string
  ap_command :: api_request
  ap_fingerprint :: string
  ap_target_node :: string
  ap_base_checkpoint_id :: "string option"
  ap_state :: request_state
  ap_attempts :: int
  ap_next_attempt_at :: usec
  ap_last_error :: "string option"
  ap_audit :: audit_cols

text \<open>\<open>RequestRecord.action\<close>.\<close>

definition record_action :: "api_row \<Rightarrow> api_action" where
  "record_action r = \<lparr>aa_request_id = uuid_str (rq_request_id (ap_command r)),
     aa_task_id = tt_active_task_id (rq_turn (ap_command r)), aa_fingerprint = ap_fingerprint r,
     aa_target_node = ap_target_node r\<rparr>"

section \<open>Failure cleanups and executor effects\<close>

datatype cleanup_state = Fc_PENDING | Fc_BLOCKED | Fc_DONE

record cleanup_row =
  fc_task_id :: uuid
  fc_session_id :: string
  fc_turn :: task_turn
  fc_source :: json
  fc_reason :: string
  fc_state :: cleanup_state
  fc_version :: int
  fc_attempts :: int
  fc_next_attempt_at :: usec
  fc_last_error :: "string option"
  fc_execution_id :: "uuid option"
  fc_executor_status :: "string option"
  fc_preserve_terminal :: bool
  fc_final_status :: task_status
  fc_message :: "string option"
  fc_last_operation_id :: "uuid option"
  fc_last_operation_action :: "string option"
  fc_last_operation_hash :: "string option"
  fc_last_operation_reason :: "string option"
  fc_last_operation_at :: "usec option"
  fc_last_operation_by :: "string option"
  fc_audit :: audit_cols

record effect_row =
  ef_key :: string
  ef_task_id :: uuid
  ef_kind :: string
  ef_input_sha256 :: string
  ef_request_sha256 :: string
  ef_request :: json
  ef_response :: "json option"

section \<open>The database\<close>

record agent_db =
  db_tasks :: "task_row list"
  db_messages :: "message_row list"
  db_events :: "task_event list"
  db_locks :: "lock_row list"
  db_bindings :: "exec_binding_row list"
  db_requests :: "api_row list"
  db_cleanups :: "cleanup_row list"
  db_effects :: "effect_row list"

definition empty_agent_db :: agent_db where
  "empty_agent_db = \<lparr>db_tasks = [], db_messages = [], db_events = [], db_locks = [], db_bindings = [],
     db_requests = [], db_cleanups = [], db_effects = []\<rparr>"

text \<open>\<open>session.get(Row, key)\<close>.\<close>

definition task_of :: "uuid \<Rightarrow> agent_db \<Rightarrow> task_row option" where
  "task_of u db = find (\<lambda>t. t_id t = u) (db_tasks db)"

definition request_of :: "uuid \<Rightarrow> agent_db \<Rightarrow> api_row option" where
  "request_of u db = find (\<lambda>r. ap_request_id r = u) (db_requests db)"

definition cleanup_of :: "uuid \<Rightarrow> agent_db \<Rightarrow> cleanup_row option" where
  "cleanup_of u db = find (\<lambda>r. fc_task_id r = u) (db_cleanups db)"

definition lock_of :: "string \<Rightarrow> agent_db \<Rightarrow> lock_row option" where
  "lock_of s db = find (\<lambda>l. sl_session_id l = s) (db_locks db)"

definition effect_of :: "string \<Rightarrow> agent_db \<Rightarrow> effect_row option" where
  "effect_of k db = find (\<lambda>r. ef_key r = k) (db_effects db)"

text \<open>Flushed changes of one row, found by its key.\<close>

definition update_task :: "uuid \<Rightarrow> (task_row \<Rightarrow> task_row) \<Rightarrow> agent_db \<Rightarrow> agent_db" where
  "update_task u f db = db\<lparr>db_tasks := sql_update (\<lambda>t. t_id t = u) f (db_tasks db)\<rparr>"

definition update_request :: "uuid \<Rightarrow> (api_row \<Rightarrow> api_row) \<Rightarrow> agent_db \<Rightarrow> agent_db" where
  "update_request u f db = db\<lparr>db_requests := sql_update (\<lambda>r. ap_request_id r = u) f (db_requests db)\<rparr>"

definition update_cleanup :: "uuid \<Rightarrow> (cleanup_row \<Rightarrow> cleanup_row) \<Rightarrow> agent_db \<Rightarrow> agent_db" where
  "update_cleanup u f db = db\<lparr>db_cleanups := sql_update (\<lambda>r. fc_task_id r = u) f (db_cleanups db)\<rparr>"

definition add_event :: "uuid \<Rightarrow> string \<Rightarrow> json \<Rightarrow> agent_db \<Rightarrow> agent_db" where
  "add_event u ty pl db = db\<lparr>db_events := db_events db @ [\<lparr>te_task_id = u, te_event_type = ty, te_payload = pl\<rparr>]\<rparr>"

text \<open>The state of a service: its tables beside the graph with its checkpoints.\<close>

definition on_db :: "('d \<Rightarrow> 'a result \<times> 'd) \<Rightarrow> 'd \<times> 'g \<Rightarrow> 'a result \<times> 'd \<times> 'g" where
  "on_db f s = (let (res, d) = f (fst s) in (res, d, snd s))"

definition on_graph :: "('g \<Rightarrow> 'a result \<times> 'g) \<Rightarrow> 'd \<times> 'g \<Rightarrow> 'a result \<times> 'd \<times> 'g" where
  "on_graph f s = (let (res, g) = f (snd s) in (res, fst s, g))"

section \<open>Lemmas\<close>

named_theorems table_simps \<open>lookups after the update of a row\<close>

lemma update_tables [table_simps]:
  "db_tasks (update_task u f db) = sql_update (\<lambda>t. t_id t = u) f (db_tasks db)"
  "db_messages (update_task u f db) = db_messages db" "db_events (update_task u f db) = db_events db"
  "db_locks (update_task u f db) = db_locks db" "db_requests (update_task u f db) = db_requests db"
  "db_cleanups (update_task u f db) = db_cleanups db" "db_effects (update_task u f db) = db_effects db"
  "db_bindings (update_task u f db) = db_bindings db"
  "db_requests (update_request u g db) = sql_update (\<lambda>r. ap_request_id r = u) g (db_requests db)"
  "db_tasks (update_request u g db) = db_tasks db" "db_messages (update_request u g db) = db_messages db"
  "db_events (update_request u g db) = db_events db" "db_locks (update_request u g db) = db_locks db"
  "db_cleanups (update_request u g db) = db_cleanups db" "db_effects (update_request u g db) = db_effects db"
  "db_bindings (update_request u g db) = db_bindings db"
  "db_cleanups (update_cleanup u h db) = sql_update (\<lambda>r. fc_task_id r = u) h (db_cleanups db)"
  "db_tasks (update_cleanup u h db) = db_tasks db" "db_messages (update_cleanup u h db) = db_messages db"
  "db_events (update_cleanup u h db) = db_events db" "db_locks (update_cleanup u h db) = db_locks db"
  "db_requests (update_cleanup u h db) = db_requests db" "db_effects (update_cleanup u h db) = db_effects db"
  "db_bindings (update_cleanup u h db) = db_bindings db"
  by (simp_all add: update_task_def update_request_def update_cleanup_def)

lemma add_event_tables [table_simps]:
  "db_tasks (add_event u ty pl db) = db_tasks db" "db_messages (add_event u ty pl db) = db_messages db"
  "db_locks (add_event u ty pl db) = db_locks db" "db_requests (add_event u ty pl db) = db_requests db"
  "db_cleanups (add_event u ty pl db) = db_cleanups db" "db_effects (add_event u ty pl db) = db_effects db"
  "db_bindings (add_event u ty pl db) = db_bindings db"
  "db_events (add_event u ty pl db) = db_events db @ [\<lparr>te_task_id = u, te_event_type = ty, te_payload = pl\<rparr>]"
  by (simp_all add: add_event_def)

lemma find_update_key:
  assumes "\<And>r. k (f r) = k r"
  shows "find (\<lambda>r. k r = v) (sql_update (\<lambda>r. k r = u) f rows)
    = (if u = v then map_option f (find (\<lambda>r. k r = v) rows) else find (\<lambda>r. k r = v) rows)"
  using assms by (induction rows) (auto simp: sql_update_def)

lemma task_of_update [table_simps]:
  "(\<And>t. t_id (f t) = t_id t) \<Longrightarrow>
    task_of v (update_task u f db) = (if u = v then map_option f (task_of v db) else task_of v db)"
  unfolding task_of_def update_tables by (rule find_update_key)

lemma request_of_update [table_simps]:
  "(\<And>r. ap_request_id (f r) = ap_request_id r) \<Longrightarrow>
    request_of v (update_request u f db) = (if u = v then map_option f (request_of v db) else request_of v db)"
  unfolding request_of_def update_tables by (rule find_update_key)

lemma cleanup_of_update [table_simps]:
  "(\<And>r. fc_task_id (f r) = fc_task_id r) \<Longrightarrow>
    cleanup_of v (update_cleanup u f db) = (if u = v then map_option f (cleanup_of v db) else cleanup_of v db)"
  unfolding cleanup_of_def update_tables by (rule find_update_key)

lemma row_of_frames [table_simps]:
  "task_of v (update_request u g db) = task_of v db" "task_of v (update_cleanup u h db) = task_of v db"
  "task_of v (add_event w ty pl db) = task_of v db"
  "request_of v (update_task u f db) = request_of v db" "request_of v (update_cleanup u h db) = request_of v db"
  "request_of v (add_event w ty pl db) = request_of v db"
  "cleanup_of v (update_task u f db) = cleanup_of v db" "cleanup_of v (update_request u g db) = cleanup_of v db"
  "cleanup_of v (add_event w ty pl db) = cleanup_of v db"
  by (simp_all add: task_of_def request_of_def cleanup_of_def table_simps)

lemma row_of_key:
  "task_of u db = Some t \<Longrightarrow> t \<in> set (db_tasks db) \<and> t_id t = u"
  "request_of u db = Some r \<Longrightarrow> r \<in> set (db_requests db) \<and> ap_request_id r = u"
  "cleanup_of u db = Some c \<Longrightarrow> c \<in> set (db_cleanups db) \<and> fc_task_id c = u"
  by (auto simp: task_of_def request_of_def cleanup_of_def dest: find_SomeD)

end
