(* ===== verification/Agent_Projector.thy ===== *)
theory Agent_Projector
  imports Agent_Tables
begin

text \<open>
  The projection of a checkpoint into the task tables (\<open>src/agent/projections.py\<close>,
  \<open>TaskStateProjector\<close>): the status a snapshot stands for, and the write that is idempotent and never
  touches a finished task.
\<close>

section \<open>The projection\<close>

definition with_member :: "json \<Rightarrow> string \<Rightarrow> json \<Rightarrow> json" where
  "with_member j k v = (case j of JObj kvs \<Rightarrow> JObj (dict_put k v kvs) | _ \<Rightarrow> j)"

definition projected_status :: "task_status \<Rightarrow> json option \<Rightarrow> task_status" where
  "projected_status phase intr = (case intr of
       None \<Rightarrow> phase
     | Some j \<Rightarrow>
         if jget0 j ''kind'' = JStr ''PLAN_REVIEW'' then WAITING_FOR_APPROVAL
         else if jget0 j ''kind'' = JStr ''EXECUTOR_EVENT'' then WAITING_FOR_EXECUTOR_EVENT
         else PLANNING)"

fun status_value :: "task_status \<Rightarrow> string" where
  "status_value ACCEPTED = ''ACCEPTED''"
| "status_value CLASSIFYING = ''CLASSIFYING''"
| "status_value ANSWERING = ''ANSWERING''"
| "status_value PLANNING = ''PLANNING''"
| "status_value WAITING_FOR_APPROVAL = ''WAITING_FOR_APPROVAL''"
| "status_value REVISING_PLAN = ''REVISING_PLAN''"
| "status_value QUEUED_FOR_EXECUTION = ''QUEUED_FOR_EXECUTION''"
| "status_value EXECUTING = ''EXECUTING''"
| "status_value WAITING_FOR_EXECUTOR_EVENT = ''WAITING_FOR_EXECUTOR_EVENT''"
| "status_value FINALIZING_EXECUTION = ''FINALIZING_EXECUTION''"
| "status_value GENERATING_REPORT = ''GENERATING_REPORT''"
| "status_value SUCCEEDED = ''SUCCEEDED''"
| "status_value REJECTED = ''REJECTED''"
| "status_value FAILED = ''FAILED''"
| "status_value CANCEL_REQUESTED = ''CANCEL_REQUESTED''"
| "status_value CANCELLED = ''CANCELLED''"

definition projection_event :: "task_status \<Rightarrow> json option \<Rightarrow> json option \<Rightarrow> string \<times> json" where
  "projection_event status intr previous = (case intr of
       Some j \<Rightarrow> (''task.interrupted'', j)
     | None \<Rightarrow> (''task.status_changed'',
         JObj [(''status'', JStr (status_value status)), (''interrupt_cleared'', JBool (previous \<noteq> None))]))"

definition set_projection :: "usec \<Rightarrow> task_status \<Rightarrow> json option \<Rightarrow> task_row \<Rightarrow> task_row" where
  "set_projection now status intr t = t\<lparr>t_status := status, t_current_interrupt := intr,
     t_audit := touch_audit now ''AGENT'' (t_audit t), t_version := t_version t + 1\<rparr>"

definition projector_write :: "usec \<Rightarrow> uuid \<Rightarrow> task_status \<Rightarrow> json option \<Rightarrow> agent_db \<Rightarrow> unit result \<times> agent_db" where
  "projector_write now u status intr = transaction (\<lambda>db.
     (case task_of u db of
        None \<Rightarrow> (Inl (LookupError ''Graph Task projection target is missing''), db)
      | Some t \<Rightarrow>
          if is_terminal (t_status t) then (Inr (), db)
          else if is_terminal status then (Inl (ValueError ''Terminal graph state requires a committed Task result''), db)
          else if t_status t = status \<and> t_current_interrupt t = intr then (Inr (), db)
          else (let (ty, pl) = projection_event status intr (t_current_interrupt t)
                in (Inr (), add_event u ty pl (update_task u (set_projection now status intr) db)))))"

definition snapshot_interrupt :: "snapshot \<Rightarrow> json option result" where
  "snapshot_interrupt sn = (case interrupts sn of
       [] \<Rightarrow> Inr None
     | [(_, b)] \<Rightarrow> if is_jobj (gi_value b) then Inr (Some (with_member (gi_value b) ''interrupt_id'' (JStr (gi_id b))))
                  else Inl (TypeError ''Graph interrupt payload must be an object'')
     | _ \<Rightarrow> Inl (ValueError ''Task projection requires one interrupt at most''))"

definition project_snapshot :: "usec \<Rightarrow> snapshot \<Rightarrow> agent_db \<Rightarrow> unit result \<times> agent_db" where
  "project_snapshot now sn = (case (nonempty (ss_active_task_id (sn_values sn)), ss_workflow (sn_values sn)) of
       (Some task_id, Some w) \<Rightarrow>
         sbind (spure (snapshot_interrupt sn)) (\<lambda>intr.
         sbind (spure (case uuid_parse task_id of None \<Rightarrow> Inl (ValueError ''badly formed UUID'') | Some u \<Rightarrow> Inr u)) (\<lambda>u.
           projector_write now u (projected_status (wf_phase w) intr) intr))
     | _ \<Rightarrow> spure (Inr ()))"

section \<open>Lemmas\<close>

lemma set_projection_simps [simp]:
  "t_id (set_projection now status intr t) = t_id t" "t_status (set_projection now status intr t) = status"
  "t_current_interrupt (set_projection now status intr t) = intr"
  "t_version (set_projection now status intr t) = t_version t + 1"
  "t_session_id (set_projection now status intr t) = t_session_id t"
  "t_terminal_message (set_projection now status intr t) = t_terminal_message t"
  "t_execution_id (set_projection now status intr t) = t_execution_id t"
  by (simp_all add: set_projection_def)

text \<open>A write is skipped or replaces one unfinished task by one unfinished task and adds one event.\<close>

lemma projector_write_cases:
  assumes "projector_write now u status intr db = (res, db')"
  obtains (same) "db' = db"
  | (wrote) t ty pl where "task_of u db = Some t" "\<not> is_terminal (t_status t)" "\<not> is_terminal status" "res = Inr ()"
      "t_status t \<noteq> status \<or> t_current_interrupt t \<noteq> intr"
      "db' = add_event u ty pl (update_task u (set_projection now status intr) db)"
  using assms
  by (auto simp: projector_write_def transaction_def Let_def split: option.splits if_splits prod.splits)

lemma project_snapshot_cases:
  assumes "project_snapshot now sn db = (res, db')"
  obtains (same) "db' = db" | (wrote) u status intr where "projector_write now u status intr db = (res, db')"
  using assms
  by (auto simp: project_snapshot_def sbind_eq spure_def split: option.splits prod.splits)

section \<open>Properties\<close>

text \<open>
  projecting the same checkpoint again changes nothing. After a projection that succeeded, the
  next projection of the same snapshot succeeds and leaves every table as it is, so a redelivered
  event adds no task event and no version.
\<close>

theorem projection_idempotent:
  assumes "project_snapshot now sn db = (Inr (), db')"
  shows "project_snapshot later sn db' = (Inr (), db')"
proof -
  have again: "projector_write later u status intr db' = (Inr (), db')"
    if "projector_write now u status intr db = (Inr (), db')" for u status intr
    using that by (auto simp: projector_write_def transaction_def Let_def table_simps split: option.splits if_splits prod.splits)
  show ?thesis
    using assms again
    by (auto simp: project_snapshot_def sbind_eq spure_def split: option.splits prod.splits)
qed

text \<open>
  a finished task stays as it is. Whatever snapshot is projected, a task in a terminal state keeps
  its row, every other task keeps its identity, no task becomes terminal by projection, and the event
  log is only extended.
\<close>

theorem projection_keeps_finished:
  assumes "project_snapshot now sn db = (res, db')"
  shows "(task_of u db = Some t \<longrightarrow> is_terminal (t_status t) \<longrightarrow> task_of u db' = Some t)
    \<and> (task_of u db' = Some t' \<longrightarrow> is_terminal (t_status t') \<longrightarrow> task_of u db = Some t')
    \<and> (\<exists>es. db_events db' = db_events db @ es \<and> length es \<le> 1)"
  using assms
proof (cases rule: project_snapshot_cases)
  case (wrote v status intr)
  from wrote show ?thesis
  proof (cases rule: projector_write_cases)
    case (wrote t0 ty pl)
    then show ?thesis by (cases "u = v") (auto simp: table_simps)
  qed simp
qed simp

definition demo_task :: task_row where
  "demo_task = \<lparr>t_id = 5, t_user_id = ''u'', t_project_id = ''p'', t_session_id = ''s'', t_input_message_id = 6,
     t_user_message = ''hi'', t_status = ACCEPTED, t_execution_id = None, t_current_interrupt = None,
     t_terminal_message = None, t_version = 1, t_audit = new_audit 0 ''u''\<rparr>"

definition demo_projected :: snapshot where
  "demo_projected = \<lparr>sn_values = empty_state\<lparr>ss_active_task_id := Some (uuid_str 5), ss_workflow := Some
       \<lparr>wf_turn = \<lparr>tt_user_id = ''u'', tt_project_id = ''p'', tt_session_id = ''s'', tt_active_task_id = uuid_str 5,
          tt_current_input_message_id = uuid_str 6, tt_user_message = ''hi'', tt_runtime_profile = ''basic''\<rparr>,
        wf_phase = CLASSIFYING, wf_execution_id = None, wf_external_signal = None, wf_terminal_message = None,
        wf_report_markdown = None, wf_answer = None, wf_rest = []\<rparr>\<rparr>,
     sn_next = [], sn_tasks = [], sn_checkpoint_id = None\<rparr>"

lemma uuid_str_nonempty [simp]: "uuid_str u \<noteq> []"
  by (simp add: uuid_str_def Let_def)

lemma demo_projection:
  "project_snapshot 1 demo_projected (empty_agent_db\<lparr>db_tasks := [demo_task]\<rparr>)
    = (Inr (), add_event 5 ''task.status_changed'' (JObj [(''status'', JStr ''CLASSIFYING''), (''interrupt_cleared'', JBool False)])
        (update_task 5 (set_projection 1 CLASSIFYING None) (empty_agent_db\<lparr>db_tasks := [demo_task]\<rparr>)))"
  using uuid_round_trip [of 5]
  by (simp add: project_snapshot_def demo_projected_def nonempty_def sbind_def spure_def snapshot_interrupt_def interrupts_def
      projected_status_def projector_write_def transaction_def task_of_def demo_task_def valid_uuid_def projection_event_def)

theorem projection_idempotent_witness:
  "\<exists>db'. project_snapshot 1 demo_projected (empty_agent_db\<lparr>db_tasks := [demo_task]\<rparr>) = (Inr (), db')
     \<and> db_events db' \<noteq> [] \<and> project_snapshot 9 demo_projected db' = (Inr (), db')"
  using projection_idempotent [OF demo_projection, of 9] demo_projection by (simp add: table_simps)

theorem projection_keeps_finished_witness:
  "let db = empty_agent_db\<lparr>db_tasks := [demo_task\<lparr>t_status := FAILED\<rparr>]\<rparr> in
     task_of 5 (snd (project_snapshot 1 demo_projected db)) = Some (demo_task\<lparr>t_status := FAILED\<rparr>)"
proof -
  let ?db = "empty_agent_db\<lparr>db_tasks := [demo_task\<lparr>t_status := FAILED\<rparr>]\<rparr>"
  have "task_of 5 ?db = Some (demo_task\<lparr>t_status := FAILED\<rparr>)" by (simp add: task_of_def demo_task_def)
  moreover obtain res db' where run: "project_snapshot 1 demo_projected ?db = (res, db')" by (rule prod.exhaust)
  ultimately show ?thesis using projection_keeps_finished [OF run, THEN conjunct1, of 5] run by simp
qed

end
