(* ===== verification/Agent_Admission.thy ===== *)
theory Agent_Admission
  imports Agent_Projector Agent_Session Worker_Guard
begin

text \<open>
  API admission: the request store (\<open>src/agent/admission/store.py\<close>), the service that invokes the graph
  for an admitted request and proves from the checkpoint what happened
  (\<open>src/agent/admission/service.py\<close>), and the recovery pass (\<open>src/agent/admission/recovery.py\<close>). The
  parameters are the hashes of a turn (\<open>fp\<close>) and of a request (\<open>fpq\<close>), the pydantic parser of a resume
  payload (\<open>parse\<close>) and the compiled graph (\<open>api\<close>).
\<close>

section \<open>The request store\<close>

fun active_state :: "request_state \<Rightarrow> bool" where
  "active_state Rs_PENDING = True"
| "active_state Rs_RUNNING = True"
| "active_state Rs_BLOCKED = True"
| "active_state _ = False"

fun open_state :: "request_state \<Rightarrow> bool" where
  "open_state Rs_PENDING = True"
| "open_state Rs_RUNNING = True"
| "open_state _ = False"

text \<open>\<open>_record\<close>: a row whose fingerprint does not match its command is refused.\<close>

definition api_record :: "(api_request \<Rightarrow> string) \<Rightarrow> api_row \<Rightarrow> api_row result" where
  "api_record fpq row = (if fpq (ap_command row) \<noteq> ap_fingerprint row
     then Inl (ValueError ''Stored API request fingerprint mismatch'') else Inr row)"

definition request_get :: "(api_request \<Rightarrow> string) \<Rightarrow> uuid \<Rightarrow> agent_db \<Rightarrow> api_row option result" where
  "request_get fpq u db = (case request_of u db of
       None \<Rightarrow> Inr None
     | Some row \<Rightarrow> rbind (api_record fpq row) (\<lambda>r. Inr (Some r)))"

definition request_required :: "uuid \<Rightarrow> agent_db \<Rightarrow> api_row result" where
  "request_required u db = (case request_of u db of None \<Rightarrow> Inl (LookupError ''Unknown API request'') | Some r \<Rightarrow> Inr r)"

definition validate_command :: "(api_request \<Rightarrow> string) \<Rightarrow> api_row \<Rightarrow> api_request \<Rightarrow> unit result" where
  "validate_command fpq r command = (if ap_command r \<noteq> command \<or> ap_fingerprint r \<noteq> fpq command
     then Inl (SessionConflictError ''Request ID was reused with different input'') else Inr ())"

definition blocked_page :: "uuid option \<Rightarrow> int \<Rightarrow> agent_db \<Rightarrow> uuid list result" where
  "blocked_page after limit db =
     (if \<not> (1 \<le> limit \<and> limit \<le> 100) then Inl (ValueError ''Invalid blocked request page size'')
      else Inr (take (nat limit) (sort (map ap_request_id (filter (\<lambda>r. ap_state r = Rs_BLOCKED
        \<and> (case after of None \<Rightarrow> True | Some a \<Rightarrow> a < ap_request_id r)) (db_requests db))))))"

definition set_request_state :: "usec \<Rightarrow> request_state \<Rightarrow> api_row \<Rightarrow> api_row" where
  "set_request_state now st r = r\<lparr>ap_state := st, ap_audit := touch_audit now ''AGENT'' (ap_audit r)\<rparr>"

definition resolve_applied :: "usec \<Rightarrow> api_row \<Rightarrow> agent_db \<Rightarrow> unit result \<times> agent_db" where
  "resolve_applied now rec = transaction (\<lambda>db.
     (case request_required (rq_request_id (ap_command rec)) db of
        Inl e \<Rightarrow> (Inl e, db)
      | Inr row \<Rightarrow>
          if ap_state row \<noteq> Rs_BLOCKED \<or> ap_attempts row \<noteq> ap_attempts rec
          then (Inl (SessionConflictError ''Blocked request was superseded''), db)
          else (Inr (), update_request (ap_request_id row) (set_request_state now Rs_APPLIED) db)))"

section \<open>Admission of a task\<close>

definition same_task :: "task_row \<Rightarrow> task_turn \<Rightarrow> bool" where
  "same_task t turn = (t_user_id t = tt_user_id turn \<and> t_project_id t = tt_project_id turn
     \<and> t_session_id t = tt_session_id turn \<and> t_user_message t = tt_user_message turn
     \<and> Some (t_input_message_id t) = uuid_parse (tt_current_input_message_id turn))"

definition unfinished_task :: "string \<Rightarrow> agent_db \<Rightarrow> task_row option" where
  "unfinished_task sess db = find (\<lambda>t. t_session_id t = sess \<and> \<not> is_terminal (t_status t)) (db_tasks db)"

definition busy_with :: "string \<Rightarrow> agent_db \<Rightarrow> uuid option" where
  "busy_with sess db = (case lock_of sess db of
       Some l \<Rightarrow> if sl_locked l then Some (sl_active_task_id l) else map_option t_id (unfinished_task sess db)
     | None \<Rightarrow> map_option t_id (unfinished_task sess db))"

definition new_task :: "usec \<Rightarrow> uuid \<Rightarrow> uuid \<Rightarrow> task_turn \<Rightarrow> task_row" where
  "new_task now task msg turn = \<lparr>t_id = task, t_user_id = tt_user_id turn, t_project_id = tt_project_id turn,
     t_session_id = tt_session_id turn, t_input_message_id = msg, t_user_message = tt_user_message turn,
     t_status = ACCEPTED, t_execution_id = None, t_current_interrupt = None, t_terminal_message = None,
     t_version = 1, t_audit = new_audit now (tt_user_id turn)\<rparr>"

text \<open>\<open>_admit_task\<close>; the primary key of messages is checked by the flush.\<close>

definition start_task :: "usec \<Rightarrow> uuid \<Rightarrow> uuid \<Rightarrow> task_turn \<Rightarrow> agent_db \<Rightarrow> unit result \<times> agent_db" where
  "start_task now task msg turn db =
     (if Some msg \<in> set (map m_id (db_messages db)) then (Inl (IntegrityError ''agent_messages_pkey''), db)
      else (Inr (), add_event task ''task.accepted'' (JObj [(''status'', JStr ''ACCEPTED'')])
        (db\<lparr>db_tasks := db_tasks db @ [new_task now task msg turn],
            db_messages := db_messages db @ [\<lparr>m_id = Some msg, m_task_id = task, m_role = ''user'',
              m_content = tt_user_message turn, m_metadata = JObj []\<rparr>]\<rparr>)))"

definition admit_task :: "usec \<Rightarrow> api_request \<Rightarrow> agent_db \<Rightarrow> unit result \<times> agent_db" where
  "admit_task now command db = (let turn = rq_turn command in
     (case (uuid_parse (tt_active_task_id turn), uuid_parse (tt_current_input_message_id turn)) of
        (Some task, Some msg) \<Rightarrow>
          if cleanup_of task db \<noteq> None then (Inl (SessionConflictError ''Task failure cleanup forbids new input''), db)
          else if rq_kind command \<noteq> Rq_START
          then (case task_of task db of
              None \<Rightarrow> (Inl (SessionConflictError ''Task identity mismatch''), db)
            | Some t \<Rightarrow>
                if \<not> same_task t turn then (Inl (SessionConflictError ''Task identity mismatch''), db)
                else if is_terminal (t_status t) then (Inl (SessionConflictError ''Terminal Task cannot accept new input''), db)
                else (Inr (), db))
          else if task_of task db \<noteq> None
          then (Inl (SessionConflictError ''Task ID already exists; reuse its request ID''), db)
          else (case busy_with (tt_session_id turn) db of
              Some busy \<Rightarrow> (Inl (SessionBusyError (uuid_str busy) (''Session is busy with task '' @ uuid_str busy)), db)
            | None \<Rightarrow> start_task now task msg turn db)
      | _ \<Rightarrow> (Inl (ValueError ''badly formed UUID''), db)))"

section \<open>Accept, claim and finish\<close>

definition new_request :: "(api_request \<Rightarrow> string) \<Rightarrow> usec \<Rightarrow> uuid \<Rightarrow> api_request \<Rightarrow> string \<Rightarrow> string option \<Rightarrow> api_row" where
  "new_request fpq now task command target base = \<lparr>ap_request_id = rq_request_id command, ap_task_id = task,
     ap_session_id = tt_session_id (rq_turn command), ap_command = command, ap_fingerprint = fpq command,
     ap_target_node = target, ap_base_checkpoint_id = base, ap_state = Rs_PENDING, ap_attempts = 0,
     ap_next_attempt_at = now, ap_last_error = None, ap_audit = new_audit now (tt_user_id (rq_turn command))\<rparr>"

definition active_request :: "string \<Rightarrow> agent_db \<Rightarrow> api_row option" where
  "active_request sess db = find (\<lambda>r. ap_session_id r = sess \<and> active_state (ap_state r)) (db_requests db)"

definition insert_request ::
    "(api_request \<Rightarrow> string) \<Rightarrow> usec \<Rightarrow> api_request \<Rightarrow> string \<Rightarrow> string option \<Rightarrow> agent_db \<Rightarrow> api_row result \<times> agent_db" where
  "insert_request fpq now command target base db = (case uuid_parse (tt_active_task_id (rq_turn command)) of
       None \<Rightarrow> (Inl (ValueError ''badly formed UUID''), db)
     | Some task \<Rightarrow> (let row = new_request fpq now task command target base in
         (api_record fpq row, db\<lparr>db_requests := db_requests db @ [row]\<rparr>)))"

definition accept_body ::
    "(api_request \<Rightarrow> string) \<Rightarrow> usec \<Rightarrow> api_request \<Rightarrow> string \<Rightarrow> string option \<Rightarrow> agent_db \<Rightarrow> api_row result \<times> agent_db" where
  "accept_body fpq now command target base db = (case request_of (rq_request_id command) db of
       Some row \<Rightarrow> (rbind (api_record fpq row) (\<lambda>r. rbind (validate_command fpq r command) (\<lambda>_. Inr r)), db)
     | None \<Rightarrow> (case active_request (tt_session_id (rq_turn command)) db of
         Some r \<Rightarrow> (Inl (SessionBusyError (uuid_str (ap_task_id r)) ''Session has a pending API request''), db)
       | None \<Rightarrow> sbind (admit_task now command) (\<lambda>_. insert_request fpq now command target base) db))"

definition store_accept ::
    "(api_request \<Rightarrow> string) \<Rightarrow> usec \<Rightarrow> api_request \<Rightarrow> string \<Rightarrow> string option \<Rightarrow> agent_db \<Rightarrow> api_row result \<times> agent_db" where
  "store_accept fpq now command target base db =
     (case transaction (accept_body fpq now command target base) db of
        (Inl (IntegrityError m), db1) \<Rightarrow>
          (rbind (request_get fpq (rq_request_id command) db1) (\<lambda>found.
             (case found of
                Some r \<Rightarrow> rbind (validate_command fpq r command) (\<lambda>_. Inr r)
              | None \<Rightarrow> Inl (SessionConflictError ''API admission conflicts with existing work''))), db1)
      | res \<Rightarrow> res)"

text \<open>The changes of \<open>claim\<close>; \<open>or_text\<close> is \<open>row.last_error or ...\<close>.\<close>

definition or_text :: "string option \<Rightarrow> string \<Rightarrow> string" where
  "or_text m d = (case nonempty m of Some s \<Rightarrow> s | None \<Rightarrow> d)"

definition claim_row :: "usec \<Rightarrow> bool \<Rightarrow> int \<Rightarrow> usec \<Rightarrow> api_row \<Rightarrow> api_row" where
  "claim_row now cleaning max_attempts delay r =
     (if cleaning
      then r\<lparr>ap_state := Rs_BLOCKED, ap_last_error := Some ''Task failure cleanup owns this invocation'',
             ap_audit := (ap_audit r)\<lparr>updated_at := now\<rparr>\<rparr>
      else if max_attempts \<le> ap_attempts r
      then set_request_state now Rs_BLOCKED
             (r\<lparr>ap_last_error := Some (or_text (ap_last_error r) ''API recovery attempt limit reached'')\<rparr>)
      else set_request_state now Rs_RUNNING (r\<lparr>ap_attempts := ap_attempts r + 1, ap_next_attempt_at := now + delay\<rparr>))"

definition request_claim ::
    "(api_request \<Rightarrow> string) \<Rightarrow> usec \<Rightarrow> int \<Rightarrow> usec \<Rightarrow> uuid \<Rightarrow> agent_db \<Rightarrow> api_row result \<times> agent_db" where
  "request_claim fpq now max_attempts delay u = transaction (\<lambda>db.
     (case request_required u db of
        Inl e \<Rightarrow> (Inl e, db)
      | Inr row \<Rightarrow>
          if \<not> open_state (ap_state row) then (api_record fpq row, db)
          else (let f = claim_row now (cleanup_of (ap_task_id row) db \<noteq> None) max_attempts delay
                in (api_record fpq (f row), update_request u f db))))"

definition finish_row :: "usec \<Rightarrow> request_state \<Rightarrow> string option \<Rightarrow> usec \<Rightarrow> api_row \<Rightarrow> api_row" where
  "finish_row now st err delay r = set_request_state now st (r\<lparr>ap_last_error := err, ap_next_attempt_at := now + delay\<rparr>)"

definition request_finish ::
    "(api_request \<Rightarrow> string) \<Rightarrow> usec \<Rightarrow> api_row \<Rightarrow> request_state \<Rightarrow> string option \<Rightarrow> usec \<Rightarrow> agent_db \<Rightarrow> api_row result \<times> agent_db" where
  "request_finish fpq now rec st err delay db =
     (if st \<notin> {Rs_PENDING, Rs_APPLIED, Rs_REJECTED, Rs_BLOCKED} then (Inl (ValueError ''Invalid API request transition''), db)
      else transaction (\<lambda>db.
       (case request_required (rq_request_id (ap_command rec)) db of
          Inl e \<Rightarrow> (Inl e, db)
        | Inr row \<Rightarrow>
            if \<not> open_state (ap_state rec) \<or> ap_state row \<noteq> ap_state rec \<or> ap_attempts row \<noteq> ap_attempts rec
            then (Inl (SessionConflictError ''API request attempt was superseded''), db)
            else (api_record fpq (finish_row now st err delay row),
                  update_request (ap_request_id row) (finish_row now st err delay) db))) db)"

definition request_due :: "usec \<Rightarrow> int \<Rightarrow> agent_db \<Rightarrow> uuid list result" where
  "request_due now limit db =
     (if \<not> (1 \<le> limit \<and> limit \<le> 100) then Inl (ValueError ''Recovery batch limit must be between 1 and 100'')
      else Inr (map ap_request_id (take (nat limit)
        (sort_key ap_next_attempt_at (sort_key ap_request_id
          (filter (\<lambda>r. open_state (ap_state r) \<and> ap_next_attempt_at r \<le> now) (db_requests db)))))))"

definition defer_row :: "usec \<Rightarrow> usec \<Rightarrow> api_row \<Rightarrow> api_row" where
  "defer_row now delay r = (if open_state (ap_state r)
     then r\<lparr>ap_next_attempt_at := now + delay, ap_audit := touch_audit now ''AGENT'' (ap_audit r)\<rparr> else r)"

definition request_defer_busy :: "usec \<Rightarrow> uuid \<Rightarrow> usec \<Rightarrow> agent_db \<Rightarrow> unit result \<times> agent_db" where
  "request_defer_busy now u delay = transaction (\<lambda>db.
     (case request_required u db of Inl e \<Rightarrow> (Inl e, db) | Inr row \<Rightarrow> (Inr (), update_request u (defer_row now delay) db)))"

section \<open>What a checkpoint proves\<close>

definition accepted :: "snapshot \<Rightarrow> api_row \<Rightarrow> bool result" where
  "accepted sn r = (case map_of (ss_api_receipts (sn_values sn)) (uuid_str (rq_request_id (ap_command r))) of
       None \<Rightarrow> Inr False
     | Some receipt \<Rightarrow>
         if receipt \<noteq> \<lparr>ar_task_id = tt_active_task_id (rq_turn (ap_command r)), ar_fingerprint = ap_fingerprint r\<rparr>
         then Inl (UnsafeRecoveryError ''API acceptance receipt identity mismatch'') else Inr True)"

definition interrupted :: "snapshot \<Rightarrow> bool" where
  "interrupted sn = list_ex (\<lambda>t. gt_interrupts t \<noteq> []) (sn_tasks sn)"

definition owns_pending :: "snapshot \<Rightarrow> api_row \<Rightarrow> bool" where
  "owns_pending sn r = (sn_next sn \<noteq> [] \<and> \<not> interrupted sn
     \<and> ss_invocation_owner (sn_values sn) = Some (Owner ''API'' (uuid_str (rq_request_id (ap_command r)))))"

fun executor_owner :: "invocation_owner option \<Rightarrow> bool" where
  "executor_owner (Some (Owner src i)) = (src = ''EXECUTOR'' \<and> i \<noteq> [])"
| "executor_owner _ = False"

text \<open>\<open>next_invocation\<close>: \<open>None\<close> is "do not invoke"; otherwise the input of the invocation.\<close>

definition start_invocation :: "(task_turn \<Rightarrow> string) \<Rightarrow> snapshot \<Rightarrow> api_row \<Rightarrow> graph_input option result" where
  "start_invocation fp sn r = (let turn = rq_turn (ap_command r); st = sn_values sn in
     if sn_next sn = [''begin_task''] \<and> ss_turn st = Some turn then Inr (Some Continue)
     else if map_of (ss_task_requests st) (tt_active_task_id turn) \<noteq> None
     then Inl (UnsafeRecoveryError ''Task started without this API receipt'')
     else rbind (validate_start_snapshot fp sn turn) (\<lambda>_.
       if sn_checkpoint_id sn \<noteq> ap_base_checkpoint_id r then Inl (SessionConflictError ''Session changed after API admission'')
       else Inr (Some (Start_turn turn))))"

definition resume_invocation ::
    "(task_turn \<Rightarrow> string) \<Rightarrow> (json \<Rightarrow> resume_signal result) \<Rightarrow> snapshot \<Rightarrow> api_row \<Rightarrow> graph_input option result" where
  "resume_invocation fp parse sn r = (let command = ap_command r; turn = rq_turn command in
     (case (rq_interrupt_id command, rq_payload command) of
        (Some iid, Some answer) \<Rightarrow>
          if interrupted sn
          then rbind (validate_resume_snapshot fp parse sn turn iid answer) (\<lambda>(sig, name).
            if name \<noteq> ap_target_node r then Inl (SessionConflictError ''Input node changed after admission'')
            else Inr (Some (Resume iid (Signal sig))))
          else if sn_next sn = [ap_target_node r] \<and> sn_checkpoint_id sn = ap_base_checkpoint_id r
               \<and> map_of (ss_task_requests (sn_values sn)) (tt_active_task_id turn) = Some (fp turn)
          then Inr (Some Continue)
          else Inl (SessionConflictError ''Original interrupt is no longer available'')
      | _ \<Rightarrow> Inl AssertionError))"

definition next_invocation ::
    "(task_turn \<Rightarrow> string) \<Rightarrow> (json \<Rightarrow> resume_signal result) \<Rightarrow> snapshot \<Rightarrow> api_row \<Rightarrow> graph_input option result" where
  "next_invocation fp parse sn r = rbind (accepted sn r) (\<lambda>acc.
     if acc
     then (if owns_pending sn r then Inr (Some Continue)
           else if sn_next sn \<noteq> [] \<and> \<not> interrupted sn \<and> \<not> executor_owner (ss_invocation_owner (sn_values sn))
           then Inl (UnsafeRecoveryError ''Pending invocation owner is unknown'')
           else Inr None)
     else if rq_kind (ap_command r) = Rq_START then start_invocation fp sn r
     else resume_invocation fp parse sn r)"

text \<open>\<open>accepted(...) and not next_invocation(...)[0]\<close>.\<close>

definition proven_applied ::
    "(task_turn \<Rightarrow> string) \<Rightarrow> (json \<Rightarrow> resume_signal result) \<Rightarrow> snapshot \<Rightarrow> api_row \<Rightarrow> bool result" where
  "proven_applied fp parse sn r = rbind (accepted sn r) (\<lambda>acc.
     if \<not> acc then Inr False else rbind (next_invocation fp parse sn r) (\<lambda>nxt. Inr (nxt = None)))"

section \<open>The service\<close>

text \<open>What the service is built from, and what its surroundings do during one call.\<close>

record 'g service =
  sv_fp :: "task_turn \<Rightarrow> string"
  sv_fpq :: "api_request \<Rightarrow> string"
  sv_parse :: "json \<Rightarrow> resume_signal result"
  sv_graph :: "'g graph_api"
  sv_project :: "usec \<Rightarrow> snapshot \<Rightarrow> agent_db \<Rightarrow> unit result \<times> agent_db"
  sv_key :: "string \<Rightarrow> string"
  sv_ttl :: int
  sv_max_attempts :: int
  sv_retry :: usec

record service_env =
  ev_now :: usec
  ev_hold :: hold_env
  ev_finish_fault :: fault
  ev_error_fault :: fault

definition AdmissionService_init :: "int \<Rightarrow> usec \<Rightarrow> usec \<Rightarrow> unit result" where
  "AdmissionService_init max_attempts retry timeout =
     (if max_attempts < 1 \<or> retry \<le> 0 \<or> timeout \<le> 0 then Inl (ValueError ''Recovery budgets must be positive'') else Inr ())"

definition get_snapshot :: "'g service \<Rightarrow> string \<Rightarrow> agent_db \<times> 'g \<Rightarrow> snapshot result \<times> agent_db \<times> 'g" where
  "get_snapshot sv sess = on_graph (\<lambda>g. (aget_state (sv_graph sv) sess g, g))"

text \<open>\<open>AdmissionService.accept\<close>: under the session guard, with the checkpoint's checks before the store's.\<close>

definition accept_target :: "'g service \<Rightarrow> api_request \<Rightarrow> snapshot \<Rightarrow> string result" where
  "accept_target sv command before = (case rq_kind command of
       Rq_START \<Rightarrow> rbind (validate_start_snapshot (sv_fp sv) before (rq_turn command)) (\<lambda>started.
         if started then Inl (SessionConflictError ''Task already started; reuse its request ID'') else Inr ''begin_task'')
     | _ \<Rightarrow> (case (rq_interrupt_id command, rq_payload command) of
         (Some iid, Some answer) \<Rightarrow>
           rbind (validate_resume_snapshot (sv_fp sv) (sv_parse sv) before (rq_turn command) iid answer) (\<lambda>(_, target).
             if target \<notin> INPUT_NODES then Inl (SessionConflictError ''Unsupported input node'') else Inr target)
       | _ \<Rightarrow> Inl AssertionError))"

definition accept_guarded :: "'g service \<Rightarrow> service_env \<Rightarrow> api_request \<Rightarrow> agent_db \<times> 'g \<Rightarrow> api_row result \<times> agent_db \<times> 'g" where
  "accept_guarded sv ev command =
     sbind (on_db (\<lambda>db. (request_get (sv_fpq sv) (rq_request_id command) db, db))) (\<lambda>found.
       (case found of
          Some r \<Rightarrow> spure (rbind (validate_command (sv_fpq sv) r command) (\<lambda>_. Inr r))
        | None \<Rightarrow> sbind (get_snapshot sv (tt_session_id (rq_turn command))) (\<lambda>before.
            sbind (spure (accept_target sv command before)) (\<lambda>target.
              on_db (store_accept (sv_fpq sv) (ev_now ev) command target (sn_checkpoint_id before))))))"

definition held ::
    "'g service \<Rightarrow> service_env \<Rightarrow> string \<Rightarrow> ('s \<Rightarrow> 'a result \<times> 's) \<Rightarrow> redis \<Rightarrow> 's \<Rightarrow> 'a result \<times> redis \<times> 's" where
  "held sv ev sess body = hold (sv_key sv sess) (sv_ttl sv) (ev_hold ev) (\<lambda>r s. let (res, s') = body s in (res, r, s'))"

definition service_accept ::
    "'g service \<Rightarrow> service_env \<Rightarrow> api_request \<Rightarrow> redis \<Rightarrow> agent_db \<times> 'g \<Rightarrow> api_row result \<times> redis \<times> agent_db \<times> 'g" where
  "service_accept sv ev command = held sv ev (tt_session_id (rq_turn command)) (accept_guarded sv ev command)"

text \<open>\<open>_execute\<close>: the invocation, its proof, and the settlement of its errors.\<close>

definition invoke_and_prove :: "'g service \<Rightarrow> api_row \<Rightarrow> graph_input option \<Rightarrow> agent_db \<times> 'g \<Rightarrow> snapshot result \<times> agent_db \<times> 'g" where
  "invoke_and_prove sv r nxt = (let sess = tt_session_id (rq_turn (ap_command r)) in
     sbind (case nxt of None \<Rightarrow> spure (Inr ())
            | Some i \<Rightarrow> on_graph (ainvoke (sv_graph sv) sess (Some (record_action r)) i)) (\<lambda>_.
     sbind (get_snapshot sv sess) (\<lambda>after.
     sbind (spure (accepted after r)) (\<lambda>acc.
     sbind (spure (if acc then Inr () else Inl (UnsafeRecoveryError ''Graph did not checkpoint API acceptance''))) (\<lambda>_.
     sbind (spure (next_invocation (sv_fp sv) (sv_parse sv) after r)) (\<lambda>again.
       spure (if again = None then Inr after
              else Inl (UnsafeRecoveryError ''Graph returned with unfinished API work''))))))))"

definition execute_body :: "'g service \<Rightarrow> service_env \<Rightarrow> api_row \<Rightarrow> agent_db \<times> 'g \<Rightarrow> api_row result \<times> agent_db \<times> 'g" where
  "execute_body sv ev r = (let finish = (\<lambda>st err. on_db (with_fault (ev_finish_fault ev)
         (request_finish (sv_fpq sv) (ev_now ev) r st err 0))) in
     sbind (get_snapshot sv (tt_session_id (rq_turn (ap_command r)))) (\<lambda>before.
       (case next_invocation (sv_fp sv) (sv_parse sv) before r of
          Inl e \<Rightarrow> if is_SessionConflict e then finish Rs_REJECTED (Some (exn_str e)) else spure (Inl e)
        | Inr nxt \<Rightarrow> sbind (invoke_and_prove sv r nxt) (\<lambda>after.
            sbind (on_db (sv_project sv (ev_now ev) after)) (\<lambda>_. finish Rs_APPLIED None)))))"

definition retry_delay :: "'g service \<Rightarrow> int \<Rightarrow> usec" where
  "retry_delay sv attempts = min (seconds 300) (sv_retry sv * 2 ^ nat (min (attempts - 1) 6))"

fun is_Unsafe :: "exn \<Rightarrow> bool" where
  "is_Unsafe (UnsafeRecoveryError _) = True"
| "is_Unsafe _ = False"

definition execute_claimed :: "'g service \<Rightarrow> service_env \<Rightarrow> api_row \<Rightarrow> agent_db \<times> 'g \<Rightarrow> api_row result \<times> agent_db \<times> 'g" where
  "execute_claimed sv ev r s =
     (case execute_body sv ev r s of
        (Inr x, s1) \<Rightarrow> (Inr x, s1)
      | (Inl e, s1) \<Rightarrow>
          (let settle = (\<lambda>st err delay. on_db (with_fault (ev_error_fault ev)
                 (request_finish (sv_fpq sv) (ev_now ev) r st err delay)))
           in if is_Unsafe e then settle Rs_BLOCKED (Some (exn_str e)) 0 s1
              else if is_Exception e
              then settle (if sv_max_attempts sv \<le> ap_attempts r then Rs_BLOCKED else Rs_PENDING)
                     (Some (take 2000 (describe_exn e))) (retry_delay sv (ap_attempts r)) s1
              else (Inl e, s1)))"

text \<open>\<open>execute\<close>: read again under the guard, spend no attempt on a finished invocation, then claim.\<close>

definition last_attempt_done :: "'g service \<Rightarrow> api_row \<Rightarrow> agent_db \<times> 'g \<Rightarrow> snapshot option result \<times> agent_db \<times> 'g" where
  "last_attempt_done sv r =
     (if ap_attempts r < sv_max_attempts sv then spure (Inr None)
      else sbind (get_snapshot sv (tt_session_id (rq_turn (ap_command r)))) (\<lambda>before.
        spure (case proven_applied (sv_fp sv) (sv_parse sv) before r of
            Inl e \<Rightarrow> if is_Unsafe e then Inr None else Inl e
          | Inr done \<Rightarrow> Inr (if done then Some before else None))))"

definition execute_guarded :: "'g service \<Rightarrow> service_env \<Rightarrow> uuid \<Rightarrow> agent_db \<times> 'g \<Rightarrow> api_row result \<times> agent_db \<times> 'g" where
  "execute_guarded sv ev u =
     sbind (on_db (\<lambda>db. (request_get (sv_fpq sv) u db, db))) (\<lambda>found.
       (case found of
          None \<Rightarrow> spure (Inl AssertionError)
        | Some r \<Rightarrow>
           if \<not> open_state (ap_state r) then spure (Inr r)
           else sbind (last_attempt_done sv r) (\<lambda>proof.
             (case proof of
                Some before \<Rightarrow> sbind (on_db (sv_project sv (ev_now ev) before)) (\<lambda>_.
                  on_db (request_finish (sv_fpq sv) (ev_now ev) r Rs_APPLIED None 0))
              | None \<Rightarrow> sbind (on_db (request_claim (sv_fpq sv) (ev_now ev) (sv_max_attempts sv) (sv_retry sv) u)) (\<lambda>claimed.
                  if ap_state claimed \<noteq> Rs_RUNNING then spure (Inr claimed) else execute_claimed sv ev claimed)))))"

fun is_DeferEvent :: "exn \<Rightarrow> bool" where
  "is_DeferEvent (DeferEvent _) = True"
| "is_DeferEvent _ = False"

definition service_execute ::
    "'g service \<Rightarrow> service_env \<Rightarrow> uuid \<Rightarrow> redis \<Rightarrow> agent_db \<times> 'g \<Rightarrow> api_row result \<times> redis \<times> agent_db \<times> 'g" where
  "service_execute sv ev u rd s = (case request_get (sv_fpq sv) u (fst s) of
       Inl e \<Rightarrow> (Inl e, rd, s)
     | Inr None \<Rightarrow> (Inl (LookupError ''Unknown API request''), rd, s)
     | Inr (Some r) \<Rightarrow>
        (case held sv ev (tt_session_id (rq_turn (ap_command r))) (execute_guarded sv ev u) rd s of
           (Inl e, rd1, s1) \<Rightarrow>
             if is_DeferEvent e
             then (let (res, s2) = sbind (on_db (request_defer_busy (ev_now ev) u (sv_retry sv))) (\<lambda>_.
                         on_db (\<lambda>db. (rbind (request_get (sv_fpq sv) u db) (\<lambda>found.
                           case found of Some x \<Rightarrow> Inr x | None \<Rightarrow> Inl AssertionError), db))) s1
                   in (res, rd1, s2))
             else (Inl e, rd1, s1)
         | res \<Rightarrow> res))"

definition service_handle ::
    "'g service \<Rightarrow> service_env \<Rightarrow> service_env \<Rightarrow> api_request \<Rightarrow> redis \<Rightarrow> agent_db \<times> 'g \<Rightarrow> api_row result \<times> redis \<times> agent_db \<times> 'g" where
  "service_handle sv ev1 ev2 command rd s = (case service_accept sv ev1 command rd s of
       (Inl e, rd1, s1) \<Rightarrow> (Inl e, rd1, s1)
     | (Inr r, rd1, s1) \<Rightarrow>
         if \<not> open_state (ap_state r) then (Inr r, rd1, s1) else service_execute sv ev2 (rq_request_id command) rd1 s1)"

text \<open>
  \<open>RequestRecovery.once\<close>: the due requests, one after the other; an exception of one of them is logged
  and does not stop the others.
\<close>

definition RequestRecovery_init :: "int \<Rightarrow> int \<Rightarrow> usec \<Rightarrow> unit result" where
  "RequestRecovery_init concurrency batch_size poll =
     (if \<not> (1 \<le> concurrency \<and> concurrency \<le> 32) \<or> \<not> (1 \<le> batch_size \<and> batch_size \<le> 100)
      then Inl (ValueError ''Invalid request recovery concurrency/batch size'')
      else if poll \<le> 0 then Inl (ValueError ''Recovery poll interval must be positive'') else Inr ())"

fun recover_all :: "'g service \<Rightarrow> (uuid \<Rightarrow> service_env) \<Rightarrow> uuid list \<Rightarrow> redis \<Rightarrow> agent_db \<times> 'g \<Rightarrow> redis \<times> agent_db \<times> 'g" where
  "recover_all sv env [] rd s = (rd, s)"
| "recover_all sv env (u # us) rd s = (let (_, rd1, s1) = service_execute sv (env u) u rd s in recover_all sv env us rd1 s1)"

definition recovery_once ::
    "'g service \<Rightarrow> (uuid \<Rightarrow> service_env) \<Rightarrow> usec \<Rightarrow> int \<Rightarrow> redis \<Rightarrow> agent_db \<times> 'g \<Rightarrow> nat result \<times> redis \<times> agent_db \<times> 'g" where
  "recovery_once sv env now batch rd s = (case request_due now batch (fst s) of
       Inl e \<Rightarrow> (Inl e, rd, s)
     | Inr ids \<Rightarrow> (let (rd1, s1) = recover_all sv env ids rd s in (Inr (length ids), rd1, s1)))"

end
