(* ===== verification/Agent_Effects.thy ===== *)
theory Agent_Effects
  imports Agent_Projector
begin

text \<open>
  Effects on the executor: the journal of prepared requests and their responses
  (\<open>src/agent/effects/store.py\<close>, \<open>journal.py\<close>), the sender (\<open>runner.py\<close>), and the business writes that
  follow a journaled response (\<open>projections.py\<close>). The digest of a JSON value is a parameter, and so are
  the HTTP call, the restoration of input files and the pydantic models of the responses.
\<close>

section \<open>The effect store\<close>

text \<open>\<open>_record\<close>: a request whose checksum does not match is refused.\<close>

definition effect_record :: "(json \<Rightarrow> string) \<Rightarrow> effect_row \<Rightarrow> effect_row result" where
  "effect_record digest r = (if digest (ef_request r) \<noteq> ef_request_sha256 r
     then Inl (ValueError ''Persisted Executor request checksum mismatch'') else Inr r)"

definition effect_get :: "(json \<Rightarrow> string) \<Rightarrow> string \<Rightarrow> agent_db \<Rightarrow> effect_row option result" where
  "effect_get digest key db = (case effect_of key db of
       None \<Rightarrow> Inr None
     | Some r \<Rightarrow> rbind (effect_record digest r) (\<lambda>x. Inr (Some x)))"

definition validate_identity :: "effect_row \<Rightarrow> uuid \<Rightarrow> string \<Rightarrow> string \<Rightarrow> unit result" where
  "validate_identity r task kind sha = (if (ef_task_id r, ef_kind r, ef_input_sha256 r) \<noteq> (task, kind, sha)
     then Inl (ValueError ''Executor effect key was reused with different input'') else Inr ())"

text \<open>\<open>column ->> key\<close>. The text of an array or object is no UUID, whatever it holds.\<close>

fun json_text :: "json \<Rightarrow> string option" where
  "json_text JNull = None"
| "json_text (JBool b) = Some (if b then ''true'' else ''false'')"
| "json_text (JInt i) = Some (py_str_int i)"
| "json_text (JFloat t) = Some t"
| "json_text (JStr s) = Some s"
| "json_text _ = Some ''[]''"

definition astext :: "json \<Rightarrow> string \<Rightarrow> string option" where
  "astext j k = (case jget j k of None \<Rightarrow> None | Some v \<Rightarrow> json_text v)"

definition effect_ids :: "effect_row \<Rightarrow> string list" where
  "effect_ids r = List.map_filter nonempty
     [astext (ef_request r) ''execution_id'', Option.bind (ef_response r) (\<lambda>j. astext j ''execution_id'')]"

fun parse_uuids :: "string list \<Rightarrow> uuid list result" where
  "parse_uuids [] = Inr []"
| "parse_uuids (s # ss) = (case uuid_parse s of
      None \<Rightarrow> Inl (ValueError ''badly formed hexadecimal UUID string'')
    | Some u \<Rightarrow> rbind (parse_uuids ss) (\<lambda>us. Inr (u # us)))"

definition execution_references :: "uuid \<Rightarrow> agent_db \<Rightarrow> (uuid list \<times> nat) result" where
  "execution_references task db = (let rows = filter (\<lambda>r. ef_task_id r = task) (db_effects db) in
     rbind (parse_uuids (concat (map effect_ids rows))) (\<lambda>ids.
       Inr (ids, length (filter (\<lambda>r. ef_kind r = ''submit'') rows))))"

definition new_effect :: "(json \<Rightarrow> string) \<Rightarrow> string \<Rightarrow> uuid \<Rightarrow> string \<Rightarrow> string \<Rightarrow> json \<Rightarrow> effect_row" where
  "new_effect digest key task kind sha request = \<lparr>ef_key = key, ef_task_id = task, ef_kind = kind, ef_input_sha256 = sha,
     ef_request_sha256 = digest request, ef_request = request, ef_response = None\<rparr>"

definition effect_prepare ::
    "(json \<Rightarrow> string) \<Rightarrow> string \<Rightarrow> uuid \<Rightarrow> string \<Rightarrow> string \<Rightarrow> json \<Rightarrow> agent_db \<Rightarrow> effect_row result \<times> agent_db" where
  "effect_prepare digest key task kind sha request = transaction (\<lambda>db.
     (let insert = effect_of key db = None;
          row = (case effect_of key db of Some r \<Rightarrow> r | None \<Rightarrow> new_effect digest key task kind sha request);
          db1 = (if insert then db\<lparr>db_effects := db_effects db @ [row]\<rparr> else db)
      in if insert \<and> task_of task db = None then (Inl (IntegrityError ''agent_executor_effects_task_id_fkey''), db)
         else (rbind (effect_record digest row) (\<lambda>r. rbind (validate_identity r task kind sha) (\<lambda>_. Inr r)), db1)))"

definition drop_version :: "json \<Rightarrow> json" where
  "drop_version j = (case j of JObj kvs \<Rightarrow> JObj (filter (\<lambda>(k, _). k \<noteq> ''execution_version'') kvs) | _ \<Rightarrow> j)"

definition effect_complete :: "(json \<Rightarrow> string) \<Rightarrow> string \<Rightarrow> json \<Rightarrow> agent_db \<Rightarrow> effect_row result \<times> agent_db" where
  "effect_complete digest key response = transaction (\<lambda>db.
     (case effect_of key db of
        None \<Rightarrow> (Inl (LookupError ''Executor request was not prepared''), db)
      | Some r \<Rightarrow> (case ef_response r of
          Some previous \<Rightarrow>
            if drop_version response \<noteq> drop_version previous
            then (Inl (ValueError ''Executor effect response identity changed''), db)
            else (effect_record digest r, db)
        | None \<Rightarrow> (effect_record digest (r\<lparr>ef_response := Some response\<rparr>),
            db\<lparr>db_effects := sql_update (\<lambda>x. ef_key x = key) (\<lambda>x. x\<lparr>ef_response := Some response\<rparr>) (db_effects db)\<rparr>))))"

section \<open>The journal\<close>

text \<open>
  \<open>EffectJournal.run\<close>. \<open>prepare\<close> and \<open>send\<close> are the caller's; \<open>send\<close> has a world of its own. The two
  faults are those of the database calls.
\<close>

definition journal_run ::
    "(json \<Rightarrow> string) \<Rightarrow> fault \<Rightarrow> fault \<Rightarrow> uuid \<Rightarrow> string \<Rightarrow> string \<Rightarrow> json
      \<Rightarrow> (agent_db \<times> 'w \<Rightarrow> json result \<times> agent_db \<times> 'w) \<Rightarrow> (json \<Rightarrow> 'w \<Rightarrow> json result \<times> 'w)
      \<Rightarrow> agent_db \<times> 'w \<Rightarrow> effect_row result \<times> agent_db \<times> 'w" where
  "journal_run digest pf cf task key kind inputs prepare send =
     sbind (on_db (\<lambda>db. (effect_get digest key db, db))) (\<lambda>found.
     sbind (case found of
         Some r \<Rightarrow> spure (Inr r)
       | None \<Rightarrow> sbind prepare (\<lambda>request. on_db (with_fault pf (effect_prepare digest key task kind (digest inputs) request)))) (\<lambda>r.
     sbind (spure (validate_identity r task kind (digest inputs))) (\<lambda>_.
       (case ef_response r of
          Some _ \<Rightarrow> spure (Inr r)
        | None \<Rightarrow> sbind (on_graph (send (ef_request r))) (\<lambda>response.
            on_db (with_fault cf (effect_complete digest key response)))))))"

section \<open>The sender\<close>

record command_response =
  cr_execution_id :: uuid
  cr_version :: int
  cr_operation_id :: "uuid option"

record 'w sender =
  sd_restore :: "json \<Rightarrow> 'w \<Rightarrow> unit result \<times> 'w"
  sd_post :: "json \<Rightarrow> json \<Rightarrow> 'w \<Rightarrow> json result \<times> 'w"
  sd_artifact :: "json \<Rightarrow> json result"
  sd_command :: "json \<Rightarrow> command_response result"

definition member :: "json \<Rightarrow> string \<Rightarrow> json result" where
  "member j k = (case jget j k of None \<Rightarrow> Inl (KeyError k) | Some v \<Rightarrow> Inr v)"

definition command_receipt :: "json \<Rightarrow> json \<Rightarrow> command_response \<Rightarrow> json result" where
  "command_receipt request kind response =
     (if jget0 request ''execution_id'' \<noteq> JNull \<and> jget0 request ''execution_id'' \<noteq> JStr (uuid_str (cr_execution_id response))
      then Inl (ValueError ''Executor response has another Execution ID'')
      else (let needs = kind \<in> {JStr ''submit'', JStr ''append''};
                operation = (if needs then cr_operation_id response else None)
        in if needs \<and> operation = None then Inl (ValueError ''Executor response omitted Operation'')
           else Inr (JObj [(''execution_id'', JStr (uuid_str (cr_execution_id response))),
             (''execution_version'', JInt (cr_version response)),
             (''operation_id'', case operation of None \<Rightarrow> JNull | Some u \<Rightarrow> JStr (uuid_str u))])))"

definition effect_send :: "'w sender \<Rightarrow> json \<Rightarrow> 'w \<Rightarrow> json result \<times> 'w" where
  "effect_send sd request =
     sbind (sd_restore sd (case jget request ''files'' of None \<Rightarrow> JArr [] | Some j \<Rightarrow> j)) (\<lambda>_.
     sbind (spure (rbind (member request ''path'') (\<lambda>path. rbind (member request ''body'') (\<lambda>body. Inr (path, body))))) (\<lambda>(path, body).
     sbind (sd_post sd path body) (\<lambda>raw.
     sbind (spure (member request ''kind'')) (\<lambda>kind.
       spure (if kind = JStr ''report'' then sd_artifact sd raw
              else rbind (sd_command sd raw) (command_receipt request kind))))))"

section \<open>Business writes after a response\<close>

definition binding_of :: "uuid \<Rightarrow> agent_db \<Rightarrow> exec_binding_row option" where
  "binding_of u db = find (\<lambda>b. eb_task_id b = u) (db_bindings db)"

definition update_binding :: "uuid \<Rightarrow> (exec_binding_row \<Rightarrow> exec_binding_row) \<Rightarrow> agent_db \<Rightarrow> agent_db" where
  "update_binding u f db = db\<lparr>db_bindings := sql_update (\<lambda>b. eb_task_id b = u) f (db_bindings db)\<rparr>"

definition create_binding ::
    "usec \<Rightarrow> task_row \<Rightarrow> uuid \<Rightarrow> int \<Rightarrow> uuid option \<Rightarrow> int option \<Rightarrow> bool \<Rightarrow> agent_db \<Rightarrow> unit result \<times> agent_db" where
  "create_binding now t exec version operation nxt create db = (case operation of
       None \<Rightarrow> (Inl (LookupError ''Executor binding does not exist''), db)
     | Some op \<Rightarrow>
         if \<not> create then (Inl (LookupError ''Executor binding does not exist''), db)
         else (case nxt of
           None \<Rightarrow> (Inl (ValueError ''Initial binding requires Step sequence''), db)
         | Some n \<Rightarrow>
             if t_execution_id t \<noteq> None \<and> t_execution_id t \<noteq> Some exec
             then (Inl (ValueError ''Task is bound to another Execution''), db)
             else if exec \<in> eb_execution_id ` set (db_bindings db)
             then (Inl (IntegrityError ''agent_executor_bindings_execution_id_key''), db)
             else (Inr (), (update_task (t_id t) (\<lambda>x. x\<lparr>t_execution_id := Some exec,
                        t_audit := touch_audit now ''AGENT'' (t_audit x)\<rparr>) db)
                 \<lparr>db_locks := sql_update (\<lambda>l. sl_session_id l = t_session_id t \<and> sl_active_task_id l = t_id t)
                        (\<lambda>l. l\<lparr>sl_execution_id := Some exec\<rparr>) (db_locks db),
                  db_bindings := db_bindings db @ [\<lparr>eb_task_id = t_id t, eb_execution_id = exec, eb_operation_id = op,
                        eb_execution_version = version, eb_next_step_sequence = n, eb_last_event_sequence = 0\<rparr>]\<rparr>)))"

definition advance_binding :: "exec_binding_row \<Rightarrow> uuid \<Rightarrow> uuid option \<Rightarrow> int option \<Rightarrow> bool \<Rightarrow> exec_binding_row result" where
  "advance_binding b exec operation nxt create =
     (if eb_execution_id b \<noteq> exec then Inl (ValueError ''Task is bound to another Execution'')
      else (case nxt of
        None \<Rightarrow> Inr b
      | Some n \<Rightarrow>
          if n = eb_next_step_sequence b
          then (if operation \<noteq> Some (eb_operation_id b) then Inl (ValueError ''Step sequence has another Operation'') else Inr b)
          else if eb_next_step_sequence b < n
          then (case operation of
              None \<Rightarrow> Inl (ValueError ''Invalid binding sequence advance'')
            | Some op \<Rightarrow> if create then Inl (ValueError ''Invalid binding sequence advance'')
                         else Inr (b\<lparr>eb_next_step_sequence := n, eb_operation_id := op\<rparr>))
          else Inr b))"

definition effect_binding ::
    "usec \<Rightarrow> uuid \<Rightarrow> uuid \<Rightarrow> int \<Rightarrow> uuid option \<Rightarrow> int option \<Rightarrow> bool \<Rightarrow> agent_db \<Rightarrow> unit result \<times> agent_db" where
  "effect_binding now task exec version operation nxt create = transaction (\<lambda>db.
     (case task_of task db of
        None \<Rightarrow> (Inl (LookupError ''Unknown effect Task''), db)
      | Some t \<Rightarrow> (case binding_of task db of
          None \<Rightarrow> create_binding now t exec version operation nxt create db
        | Some b \<Rightarrow> (case advance_binding b exec operation nxt create of
            Inl e \<Rightarrow> (Inl e, db)
          | Inr b' \<Rightarrow> (Inr (), update_binding task
              (\<lambda>_. b'\<lparr>eb_execution_version := max (eb_execution_version b') version\<rparr>) db)))))"

definition last_answer :: "uuid \<Rightarrow> agent_db \<Rightarrow> message_row option" where
  "last_answer task db = (case filter (\<lambda>m. m_task_id m = task \<and> m_role m = ''assistant'') (db_messages db) of
       [] \<Rightarrow> None | ms \<Rightarrow> Some (last ms))"

definition set_terminal :: "usec \<Rightarrow> task_status \<Rightarrow> string option \<Rightarrow> task_row \<Rightarrow> task_row" where
  "set_terminal now status message t = t\<lparr>t_status := status, t_terminal_message := message, t_current_interrupt := None,
     t_audit := touch_audit now ''AGENT'' (t_audit t), t_version := t_version t + 1\<rparr>"

definition add_answer :: "uuid \<Rightarrow> string \<Rightarrow> json \<Rightarrow> agent_db \<Rightarrow> agent_db" where
  "add_answer task message metadata db = db\<lparr>db_messages := db_messages db @ [\<lparr>m_id = None, m_task_id = task,
     m_role = ''assistant'', m_content = message, m_metadata = metadata\<rparr>]\<rparr>"

definition release_lock :: "uuid \<Rightarrow> agent_db \<Rightarrow> agent_db" where
  "release_lock task db = db\<lparr>db_locks := filter (\<lambda>l. sl_active_task_id l \<noteq> task) (db_locks db)\<rparr>"

definition effect_terminal :: "usec \<Rightarrow> uuid \<Rightarrow> task_status \<Rightarrow> string \<Rightarrow> json \<Rightarrow> agent_db \<Rightarrow> unit result \<times> agent_db" where
  "effect_terminal now task status message metadata db =
     (if \<not> is_terminal status then (Inl (ValueError ''Terminal projection requires terminal status''), db)
      else transaction (\<lambda>db.
       (case task_of task db of
          None \<Rightarrow> (Inl (LookupError ''Unknown terminal Task''), db)
        | Some t \<Rightarrow>
           if is_terminal (t_status t)
           then (if t_status t \<noteq> status \<or> t_terminal_message t \<noteq> Some message
                   \<or> (case last_answer task db of None \<Rightarrow> True
                      | Some m \<Rightarrow> m_content m \<noteq> message \<or> m_metadata m \<noteq> metadata)
                 then (Inl (ValueError ''Terminal Task result cannot change''), db) else (Inr (), db))
           else (Inr (), release_lock task (add_event task ''task.completed'' (JObj [(''status'', JStr (status_value status))])
                  (add_answer task message metadata (update_task task (set_terminal now status (Some message)) db)))))) db)"

definition effect_promotion :: "uuid \<Rightarrow> agent_db \<Rightarrow> unit result \<times> agent_db" where
  "effect_promotion task = transaction (\<lambda>db.
     (case task_of task db of
        None \<Rightarrow> (Inl (ValueError ''Promotion requires a successful Task''), db)
      | Some t \<Rightarrow>
          if t_status t \<noteq> SUCCEEDED then (Inl (ValueError ''Promotion requires a successful Task''), db)
          else if \<exists>e \<in> set (db_events db). te_task_id e = task \<and> te_event_type e = ''workflow.promotion_available''
          then (Inr (), db)
          else (Inr (), add_event task ''workflow.promotion_available''
            (JObj [(''task_id'', JStr (uuid_str task)),
                   (''draft_path'', JStr (''/api/v1/tasks/'' @ uuid_str task @ ''/workflow-promotion-draft''))]) db)))"

end
