(* ===== verification/Agent_Failure.thy ===== *)
theory Agent_Failure
  imports Agent_Admission Agent_Effects
begin

text \<open>
  The durable cleanup of a failed task: its store (\<open>src/agent/failure/store.py\<close>). A cleanup is created
  once per task, is worked on in numbered attempts, collects the proof that the executor has ended,
  and finishes the task, its open requests and its session lock in one transaction.
\<close>

section \<open>Rows\<close>

definition cleanup_required :: "uuid \<Rightarrow> agent_db \<Rightarrow> cleanup_row result" where
  "cleanup_required u db = (case cleanup_of u db of None \<Rightarrow> Inl (LookupError ''Unknown failure cleanup'') | Some r \<Rightarrow> Inr r)"

definition fenced :: "cleanup_row \<Rightarrow> agent_db \<Rightarrow> cleanup_row result" where
  "fenced rec db = rbind (cleanup_required (fc_task_id rec) db) (\<lambda>row.
     if fc_state row \<noteq> Fc_PENDING \<or> fc_attempts row \<noteq> fc_attempts rec
     then Inl (ValueError ''Cleanup attempt was superseded'') else Inr row)"

definition touch :: "usec \<Rightarrow> string \<Rightarrow> cleanup_row \<Rightarrow> cleanup_row" where
  "touch now actor r = r\<lparr>fc_version := fc_version r + 1, fc_audit := touch_audit now actor (fc_audit r)\<rparr>"

text \<open>An operation on a fenced row: the change of the row, which is also the result.\<close>

definition fenced_update :: "(cleanup_row \<Rightarrow> cleanup_row) \<Rightarrow> cleanup_row \<Rightarrow> agent_db \<Rightarrow> cleanup_row result \<times> agent_db" where
  "fenced_update f rec = transaction (\<lambda>db. (case fenced rec db of
       Inl e \<Rightarrow> (Inl e, db)
     | Inr row \<Rightarrow> (Inr (f row), update_cleanup (fc_task_id row) f db)))"

definition cleanup_defer_busy :: "usec \<Rightarrow> uuid \<Rightarrow> usec \<Rightarrow> agent_db \<Rightarrow> unit result \<times> agent_db" where
  "cleanup_defer_busy now u delay = transaction (\<lambda>db. (case cleanup_required u db of
       Inl e \<Rightarrow> (Inl e, db)
     | Inr row \<Rightarrow> (Inr (), if fc_state row = Fc_PENDING
         then update_cleanup u (\<lambda>r. touch now ''AGENT'' (r\<lparr>fc_next_attempt_at := now + delay\<rparr>)) db else db)))"

section \<open>Operators\<close>

text \<open>\<open>ORDER BY updated_at DESC, task_id DESC\<close>: the keys are unique, so the order is determined.\<close>

definition newest_first :: "cleanup_row list \<Rightarrow> cleanup_row list" where
  "newest_first rows = rev (sort_key (\<lambda>r. updated_at (fc_audit r)) (sort_key fc_task_id rows))"

definition cleanup_blocked_page :: "(usec \<times> uuid) option \<Rightarrow> int \<Rightarrow> agent_db \<Rightarrow> cleanup_row list result" where
  "cleanup_blocked_page before limit db =
     (if \<not> (1 \<le> limit \<and> limit \<le> 100) then Inl (ValueError ''Page size must be between 1 and 100'')
      else Inr (take (nat limit + 1) (newest_first (filter (\<lambda>r. fc_state r = Fc_BLOCKED
        \<and> (case before of None \<Rightarrow> True
           | Some (at, u) \<Rightarrow> updated_at (fc_audit r) < at \<or> updated_at (fc_audit r) = at \<and> fc_task_id r < u))
        (db_cleanups db)))))"

record operation =
  op_id :: uuid
  op_hash :: string
  op_action :: string
  op_actor :: string
  op_reason :: string
  op_expected_version :: int

definition reopen_row :: "usec \<Rightarrow> operation \<Rightarrow> cleanup_row \<Rightarrow> cleanup_row" where
  "reopen_row now q r = touch now (op_actor q) (r\<lparr>fc_state := Fc_PENDING, fc_attempts := 0, fc_next_attempt_at := now,
     fc_last_error := None, fc_last_operation_id := Some (op_id q), fc_last_operation_action := Some (op_action q),
     fc_last_operation_hash := Some (op_hash q), fc_last_operation_reason := Some (take 2000 (op_reason q)),
     fc_last_operation_at := Some now, fc_last_operation_by := Some (op_actor q)\<rparr>)"

fun cleanup_state_value :: "cleanup_state \<Rightarrow> string" where
  "cleanup_state_value Fc_PENDING = ''PENDING''"
| "cleanup_state_value Fc_BLOCKED = ''BLOCKED''"
| "cleanup_state_value Fc_DONE = ''DONE''"

definition json_opt :: "string option \<Rightarrow> json" where
  "json_opt m = (case m of None \<Rightarrow> JNull | Some s \<Rightarrow> JStr s)"

definition retry_blocked :: "usec \<Rightarrow> uuid \<Rightarrow> operation \<Rightarrow> agent_db \<Rightarrow> (cleanup_row \<times> bool) result \<times> agent_db" where
  "retry_blocked now u q db =
     (if op_action q \<notin> {''RETRY'', ''FINALIZE''} then (Inl (ValueError ''Unsupported failure operation''), db)
      else transaction (\<lambda>db. (case cleanup_required u db of
          Inl e \<Rightarrow> (Inl e, db)
        | Inr row \<Rightarrow>
            if fc_last_operation_id row = Some (op_id q)
            then (if fc_last_operation_hash row \<noteq> Some (op_hash q)
                  then (Inl (FailureOperationConflict ''Idempotency key was reused with another request''), db)
                  else (Inr (row, True), db))
            else if fc_state row \<noteq> Fc_BLOCKED then (Inl (FailureOperationConflict (''Failure cleanup is not BLOCKED: '' @ cleanup_state_value (fc_state row))), db)
            else if fc_version row \<noteq> op_expected_version q
            then (Inl (FailureOperationConflict ''Failure cleanup version changed; refresh before retry''), db)
            else (let row' = reopen_row now q row in
              (Inr (row', False), add_event u ''task.failure_cleanup_operator_requested''
                 (JObj [(''operation_id'', JStr (uuid_str (op_id q))), (''action'', JStr (op_action q)),
                        (''actor'', JStr (op_actor q)), (''reason'', json_opt (fc_last_operation_reason row')),
                        (''previous_error'', json_opt (fc_last_error row)), (''version'', JInt (fc_version row'))])
                 (update_cleanup u (reopen_row now q) db))))) db)"

section \<open>Creation\<close>

definition start_turn :: "task_row \<Rightarrow> agent_db \<Rightarrow> task_turn" where
  "start_turn t db = (case find (\<lambda>r. ap_task_id r = t_id t \<and> rq_kind (ap_command r) = Rq_START) (db_requests db) of
       Some r \<Rightarrow> rq_turn (ap_command r)
     | None \<Rightarrow> \<lparr>tt_user_id = t_user_id t, tt_project_id = t_project_id t, tt_session_id = t_session_id t,
         tt_active_task_id = uuid_str (t_id t), tt_current_input_message_id = uuid_str (t_input_message_id t),
         tt_user_message = t_user_message t, tt_runtime_profile = ''basic''\<rparr>)"

definition new_cleanup :: "usec \<Rightarrow> task_row \<Rightarrow> task_turn \<Rightarrow> json \<Rightarrow> string \<Rightarrow> uuid option \<Rightarrow> cleanup_row" where
  "new_cleanup now t turn source why exec = (let terminal = is_terminal (t_status t) in
     \<lparr>fc_task_id = t_id t, fc_session_id = t_session_id t, fc_turn = turn, fc_source = source, fc_reason = take 2000 why,
      fc_state = Fc_PENDING, fc_version = 1, fc_attempts = 0, fc_next_attempt_at = now, fc_last_error = None,
      fc_execution_id = (if exec \<noteq> None then exec else t_execution_id t),
      fc_executor_status = (if terminal then Some ''ALREADY_TERMINAL'' else None), fc_preserve_terminal = terminal,
      fc_final_status = (if terminal then t_status t else FAILED),
      fc_message = (if terminal then t_terminal_message t else None),
      fc_last_operation_id = None, fc_last_operation_action = None, fc_last_operation_hash = None,
      fc_last_operation_reason = None, fc_last_operation_at = None, fc_last_operation_by = None,
      fc_audit = new_audit now ''AGENT''\<rparr>)"

text \<open>The long chat lock is taken, or kept, until the cleanup ends.\<close>

definition take_lock :: "cleanup_row \<Rightarrow> agent_db \<Rightarrow> unit result \<times> agent_db" where
  "take_lock row db = (case lock_of (fc_session_id row) db of
       Some l \<Rightarrow>
         if sl_active_task_id l \<noteq> fc_task_id row then (Inl (ValueError ''Another Task owns the session lock''), db)
         else (Inr (), db\<lparr>db_locks := sql_update (\<lambda>l. sl_session_id l = fc_session_id row) (\<lambda>l. l\<lparr>sl_locked := True\<rparr>) (db_locks db)\<rparr>)
     | None \<Rightarrow>
         if fc_task_id row \<in> sl_active_task_id ` set (db_locks db)
         then (Inl (IntegrityError ''agent_session_locks_active_task_id_key''), db)
         else (Inr (), db\<lparr>db_locks := db_locks db @ [\<lparr>sl_session_id = fc_session_id row, sl_active_task_id = fc_task_id row,
                sl_execution_id = fc_execution_id row, sl_locked = True\<rparr>]\<rparr>))"

definition create_cleanup :: "cleanup_row \<Rightarrow> agent_db \<Rightarrow> cleanup_row result \<times> agent_db" where
  "create_cleanup row db = (let db1 = db\<lparr>db_cleanups := db_cleanups db @ [row]\<rparr> in
     if fc_preserve_terminal row then (Inr row, db1)
     else sbind (take_lock row) (\<lambda>_. sbind (swrite (add_event (fc_task_id row) ''task.failure_cleanup_pending''
            (JObj [(''source'', fc_source row), (''reason'', JStr (fc_reason row))]))) (\<lambda>_. spure (Inr row))) db1)"

definition cleanup_ensure ::
    "usec \<Rightarrow> uuid \<Rightarrow> string \<Rightarrow> json \<Rightarrow> string \<Rightarrow> uuid option \<Rightarrow> agent_db \<Rightarrow> cleanup_row result \<times> agent_db" where
  "cleanup_ensure now u sess source why exec = transaction (\<lambda>db.
     (case task_of u db of
        None \<Rightarrow> (Inl (ValueError ''Failure source Task identity mismatch''), db)
      | Some t \<Rightarrow>
         if t_session_id t \<noteq> sess then (Inl (ValueError ''Failure source Task identity mismatch''), db)
         else (case cleanup_of u db of
           Some existing \<Rightarrow>
             if fc_session_id existing \<noteq> sess
                \<or> exec \<noteq> None \<and> fc_execution_id existing \<noteq> None \<and> fc_execution_id existing \<noteq> exec
             then (Inl (ValueError ''Existing failure binding mismatch''), db) else (Inr existing, db)
         | None \<Rightarrow>
             if exec \<noteq> None \<and> t_execution_id t \<noteq> None \<and> t_execution_id t \<noteq> exec
             then (Inl (ValueError ''Failure source Execution identity mismatch''), db)
             else (let turn = start_turn t db in
               if \<not> turn_valid turn then (Inl (ValueError ''TaskTurn''), db)
               else if is_terminal (t_status t) \<and> nonempty (t_terminal_message t) = None
               then (Inl (ValueError ''Terminal Task has no durable result''), db)
               else create_cleanup (new_cleanup now t turn source why exec) db))))"

section \<open>Attempts\<close>

definition may_bind :: "uuid option \<Rightarrow> uuid \<Rightarrow> bool" where
  "may_bind x exec = (x = None \<or> x = Some exec)"

definition bind_execution :: "usec \<Rightarrow> cleanup_row \<Rightarrow> uuid \<Rightarrow> agent_db \<Rightarrow> cleanup_row result \<times> agent_db" where
  "bind_execution now rec exec = transaction (\<lambda>db. (case fenced rec db of
       Inl e \<Rightarrow> (Inl e, db)
     | Inr row \<Rightarrow>
        if \<not> may_bind (fc_execution_id row) exec then (Inl (ValueError ''Cleanup Execution identity cannot change''), db)
        else (case task_of (fc_task_id row) db of
          None \<Rightarrow> (Inl AssertionError, db)
        | Some t \<Rightarrow>
           if \<not> may_bind (t_execution_id t) exec then (Inl (ValueError ''Task Execution identity cannot change''), db)
           else (case lock_of (fc_session_id row) db of
             None \<Rightarrow> (Inl (ValueError ''Cleanup session lock is missing''), db)
           | Some l \<Rightarrow>
              if sl_active_task_id l \<noteq> fc_task_id row then (Inl (ValueError ''Cleanup session lock is missing''), db)
              else if \<not> may_bind (sl_execution_id l) exec then (Inl (ValueError ''Lock Execution identity cannot change''), db)
              else (let f = (\<lambda>r. touch now ''AGENT'' (r\<lparr>fc_execution_id := Some exec\<rparr>)) in
                (Inr (f row), (update_task (fc_task_id row) (\<lambda>x. x\<lparr>t_execution_id := Some exec,
                     t_audit := touch_audit now ''AGENT'' (t_audit x), t_version := t_version x + 1\<rparr>)
                   (update_cleanup (fc_task_id row) f db))
                   \<lparr>db_locks := sql_update (\<lambda>l. sl_session_id l = fc_session_id row)
                      (\<lambda>l. l\<lparr>sl_execution_id := Some exec\<rparr>) (db_locks db)\<rparr>))))))"

definition claim_cleanup_row :: "usec \<Rightarrow> int \<Rightarrow> usec \<Rightarrow> cleanup_row \<Rightarrow> cleanup_row" where
  "claim_cleanup_row now max_attempts delay r = touch now ''AGENT''
     (if max_attempts \<le> fc_attempts r
      then r\<lparr>fc_state := Fc_BLOCKED, fc_last_error := Some (or_text (fc_last_error r) ''Cleanup attempt limit reached'')\<rparr>
      else r\<lparr>fc_attempts := fc_attempts r + 1, fc_next_attempt_at := now + delay\<rparr>)"

definition cleanup_claim :: "usec \<Rightarrow> uuid \<Rightarrow> int \<Rightarrow> usec \<Rightarrow> agent_db \<Rightarrow> cleanup_row result \<times> agent_db" where
  "cleanup_claim now u max_attempts delay = transaction (\<lambda>db. (case cleanup_required u db of
       Inl e \<Rightarrow> (Inl e, db)
     | Inr row \<Rightarrow>
         if fc_state row \<noteq> Fc_PENDING then (Inr row, db)
         else (Inr (claim_cleanup_row now max_attempts delay row), update_cleanup u (claim_cleanup_row now max_attempts delay) db)))"

definition cleanup_confirm :: "usec \<Rightarrow> cleanup_row \<Rightarrow> uuid option \<Rightarrow> string \<Rightarrow> string \<Rightarrow> agent_db \<Rightarrow> cleanup_row result \<times> agent_db" where
  "cleanup_confirm now rec exec status message db =
     (if status \<notin> {''NOT_REQUIRED'', ''SUCCEEDED'', ''FAILED'', ''CANCELLED''}
      then (Inl (ValueError ''Executor terminal proof is required''), db)
      else fenced_update (\<lambda>r. touch now ''AGENT'' (r\<lparr>fc_execution_id := exec, fc_executor_status := Some status,
             fc_message := Some message\<rparr>)) rec db)"

definition cleanup_defer :: "usec \<Rightarrow> cleanup_row \<Rightarrow> string \<Rightarrow> usec \<Rightarrow> bool \<Rightarrow> agent_db \<Rightarrow> cleanup_row result \<times> agent_db" where
  "cleanup_defer now rec err delay blocked = fenced_update (\<lambda>r. touch now ''AGENT''
     (r\<lparr>fc_state := (if blocked then Fc_BLOCKED else Fc_PENDING), fc_last_error := Some (take 2000 err),
        fc_next_attempt_at := now + delay\<rparr>)) rec"

definition cleanup_due :: "usec \<Rightarrow> int \<Rightarrow> agent_db \<Rightarrow> uuid list result" where
  "cleanup_due now limit db =
     (if \<not> (1 \<le> limit \<and> limit \<le> 100) then Inl (ValueError ''Cleanup batch size must be between 1 and 100'')
      else Inr (map fc_task_id (take (nat limit) (sort_key fc_next_attempt_at (sort_key fc_task_id
        (filter (\<lambda>r. fc_state r = Fc_PENDING \<and> fc_next_attempt_at r \<le> now) (db_cleanups db)))))))"

section \<open>The end of a cleanup\<close>

definition exec_json :: "uuid option \<Rightarrow> json" where
  "exec_json x = (case x of None \<Rightarrow> JNull | Some u \<Rightarrow> JStr (uuid_str u))"

definition compensate :: "usec \<Rightarrow> uuid \<Rightarrow> agent_db \<Rightarrow> agent_db" where
  "compensate now u db = db\<lparr>db_requests := sql_update (\<lambda>r. ap_task_id r = u \<and> active_state (ap_state r))
     (set_request_state now Rs_COMPENSATED) (db_requests db)\<rparr>"

definition fail_task :: "usec \<Rightarrow> cleanup_row \<Rightarrow> string \<Rightarrow> agent_db \<Rightarrow> agent_db" where
  "fail_task now row message db = (let u = fc_task_id row in
     add_event u ''task.completed'' (JObj [(''status'', JStr (status_value (fc_final_status row))),
         (''failure_source'', fc_source row), (''executor_status'', json_opt (fc_executor_status row))])
       (add_answer u message (JObj [(''execution_id'', exec_json (fc_execution_id row)), (''failure_source'', fc_source row),
           (''executor_status'', json_opt (fc_executor_status row))])
         (update_task u (\<lambda>t. (set_terminal now (fc_final_status row) (Some message) t)
             \<lparr>t_execution_id := fc_execution_id row\<rparr>) db)))"

definition close_cleanup :: "usec \<Rightarrow> uuid \<Rightarrow> agent_db \<Rightarrow> agent_db" where
  "close_cleanup now u db = update_cleanup u (\<lambda>r. touch now ''AGENT'' (r\<lparr>fc_state := Fc_DONE, fc_last_error := None\<rparr>))
     (release_lock u (compensate now u db))"

definition cleanup_finish :: "usec \<Rightarrow> cleanup_row \<Rightarrow> agent_db \<Rightarrow> unit result \<times> agent_db" where
  "cleanup_finish now rec db =
     (if nonempty (fc_executor_status rec) = None \<or> nonempty (fc_message rec) = None
      then (Inl (ValueError ''Cannot finish without terminal proof''), db)
      else transaction (\<lambda>db. (case fenced rec db of
          Inl e \<Rightarrow> (Inl e, db)
        | Inr row \<Rightarrow> (case task_of (fc_task_id row) db of
            None \<Rightarrow> (Inl AssertionError, db)
          | Some t \<Rightarrow>
             if is_terminal (t_status t)
             then (if t_status t \<noteq> fc_final_status row \<or> t_terminal_message t \<noteq> fc_message row
                   then (Inl (ValueError ''Existing terminal result cannot change''), db)
                   else (Inr (), close_cleanup now (fc_task_id row) db))
             else (case fc_message row of
                 None \<Rightarrow> (Inl (IntegrityError ''agent_messages.content''), db)
               | Some message \<Rightarrow> (Inr (), close_cleanup now (fc_task_id row) (fail_task now row message db)))))) db)"

end
