(* ===== verification/Agent_Failure_Service.thy ===== *)
theory Agent_Failure_Service
  imports Agent_Failure Worker_Store
begin

text \<open>
  The compensation of a failed task: the settlement of its checkpoint (\<open>src/agent/failure/graph.py\<close>),
  the proof that the executor ended (\<open>executor.py\<close>), the service that runs one guarded attempt
  (\<open>service.py\<close>), the recovery pass (\<open>recovery.py\<close>) and the operator's requests (\<open>operations.py\<close>). The
  graph with its checkpointer and the executor's HTTP interface are parameters; both live in the
  world \<open>'g\<close>.
\<close>

section \<open>Settlement of the checkpoint\<close>

record 'g cleanup_graph =
  cg_get :: "string \<Rightarrow> 'g \<Rightarrow> snapshot result"
  cg_update :: "string \<Rightarrow> (session_state \<Rightarrow> session_state) \<Rightarrow> string \<Rightarrow> 'g \<Rightarrow> unit result \<times> 'g"

definition validate_target :: "(task_turn \<Rightarrow> string) \<Rightarrow> snapshot \<Rightarrow> cleanup_row \<Rightarrow> bool result" where
  "validate_target fp sn rec = (let v = sn_values sn; turn = fc_turn rec; task = uuid_str (fc_task_id rec);
       check = (case map_of (ss_task_requests v) task of
           None \<Rightarrow> Inr True
         | Some f \<Rightarrow> if f \<noteq> fp turn then Inl (UnsafeCleanupError ''Task checkpoint fingerprint mismatch'') else Inr True)
     in if \<not> owned_by v turn then Inl (UnsafeCleanupError ''Checkpoint ownership mismatch'')
        else (case nonempty (ss_active_task_id v) of
            None \<Rightarrow> check
          | Some active \<Rightarrow>
              if active = task then check
              else if fc_preserve_terminal rec then Inr False
              else if sn_next sn \<noteq> [] \<or> (case ss_workflow v of None \<Rightarrow> True | Some w \<Rightarrow> \<not> is_terminal (wf_phase w))
              then Inl (UnsafeCleanupError ''Another Task owns the checkpoint'')
              else if map_of (ss_task_requests v) task \<noteq> None
              then Inl (UnsafeCleanupError ''Cannot rewind an old failed Task'') else check))"

definition settle_update :: "(task_turn \<Rightarrow> string) \<Rightarrow> cleanup_row \<Rightarrow> string \<Rightarrow> session_state \<Rightarrow> session_state \<Rightarrow> session_state" where
  "settle_update fp rec message v st = (let turn = fc_turn rec; task = uuid_str (fc_task_id rec);
       w0 = (if ss_active_task_id v = Some task then (case ss_workflow v of Some w \<Rightarrow> w | None \<Rightarrow> new_workflow turn)
             else new_workflow turn);
       exec = (case fc_execution_id rec of None \<Rightarrow> [] | Some u \<Rightarrow> uuid_str u);
       w = w0\<lparr>wf_phase := fc_final_status rec, wf_terminal_message := Some message,
              wf_execution_id := (if exec = [] then wf_execution_id w0 else Some exec)\<rparr>
     in st\<lparr>ss_turn := Some turn, ss_user_id := Some (tt_user_id turn), ss_project_id := Some (tt_project_id turn),
          ss_session_id := Some (tt_session_id turn), ss_active_task_id := Some task, ss_execution_id := Some exec,
          ss_workflow := Some w, ss_ew_pending := None, ss_invocation_owner := Some (Owner ''FAILURE'' task),
          ss_task_requests := dict_put task (fp turn) (ss_task_requests v),
          ss_failure_receipts := dict_put task message (ss_failure_receipts v),
          ss_ew_sequences := (if exec = [] then ss_ew_sequences v else dict_put exec (last_sequence v exec) (ss_ew_sequences v)),
          ss_messages := add_message \<lparr>cm_role = AI, cm_id = ''task:'' @ task @ '':result'', cm_content = message\<rparr>
            (add_message \<lparr>cm_role = Human, cm_id = tt_current_input_message_id turn, cm_content = tt_user_message turn\<rparr>
              (ss_messages st))\<rparr>)"

definition already_settled :: "snapshot \<Rightarrow> cleanup_row \<Rightarrow> bool" where
  "already_settled sn rec = (sn_next sn = []
     \<and> map_of (ss_failure_receipts (sn_values sn)) (uuid_str (fc_task_id rec)) = fc_message rec \<and> fc_message rec \<noteq> None)"

definition settle_graph :: "(task_turn \<Rightarrow> string) \<Rightarrow> 'g cleanup_graph \<Rightarrow> cleanup_row \<Rightarrow> 'g \<Rightarrow> unit result \<times> 'g" where
  "settle_graph fp cg rec = (let sess = fc_session_id rec; get = (\<lambda>g. (cg_get cg sess g, g)) in
     (case (nonempty (fc_executor_status rec), nonempty (fc_message rec)) of
        (Some _, Some message) \<Rightarrow>
          sbind get (\<lambda>sn. sbind (spure (validate_target fp sn rec)) (\<lambda>target.
            if \<not> target \<or> already_settled sn rec then spure (Inr ())
            else sbind (cg_update cg sess (\<lambda>st. st) ''__end__'') (\<lambda>_. sbind get (\<lambda>cleared.
              sbind (cg_update cg sess (settle_update fp rec message (sn_values cleared)) ''failure_settled'') (\<lambda>_.
                sbind get (\<lambda>after. spure (if sn_next after \<noteq> []
                  then Inl (UnsafeCleanupError ''Failure settlement left pending graph work'') else Inr ())))))))
      | _ \<Rightarrow> spure (Inl (UnsafeCleanupError ''No durable terminal proof''))))"

section \<open>Proof that the executor ended\<close>

record 'g executor_api =
  ex_result :: "uuid \<Rightarrow> 'g \<Rightarrow> (uuid \<times> string) result \<times> 'g"
  ex_executions :: "(string \<times> string) list \<Rightarrow> 'g \<Rightarrow> json result \<times> 'g"
  ex_sender :: "'g sender"
  ex_digest :: "json \<Rightarrow> string"
  ex_cancel_payload :: "string \<Rightarrow> string \<Rightarrow> json"

definition TERMINAL :: "string set" where
  "TERMINAL = {''SUCCEEDED'', ''FAILED'', ''CANCELLED''}"

definition RUNNING_STATES :: "string set" where
  "RUNNING_STATES = {''QUEUED'', ''DISPATCHED'', ''RUNNING'', ''WAITING_FOR_OPERATION'', ''FINALIZING'', ''CANCEL_REQUESTED''}"

definition known_ids :: "cleanup_row \<Rightarrow> snapshot \<Rightarrow> agent_db \<Rightarrow> uuid list result" where
  "known_ids rec sn db = (case task_of (fc_task_id rec) db of
       None \<Rightarrow> Inl AssertionError
     | Some t \<Rightarrow>
        (let stored = List.map_filter (\<lambda>x. x) [fc_execution_id rec, t_execution_id t,
               map_option eb_execution_id (binding_of (fc_task_id rec) db)]
         in if ss_active_task_id (sn_values sn) \<noteq> Some (uuid_str (fc_task_id rec)) then Inr stored
            else (case nonempty (ss_execution_id (sn_values sn)) of
                None \<Rightarrow> Inr stored
              | Some s \<Rightarrow> rbind (parse_uuids [s]) (\<lambda>us. Inr (stored @ us)))))"

text \<open>
  \<open>ExecutorClient.find_task_execution\<close> on the page of the executions endpoint: an ambiguous page or
  another task's execution is an error, never a choice.
\<close>

definition lookup_item :: "(string \<times> string) list \<Rightarrow> json \<Rightarrow> uuid option result" where
  "lookup_item identity item =
     rbind (if is_jobj item then member item ''context'' else Inl (TypeError ''item'')) (\<lambda>ctx.
     if \<not> is_jobj ctx then Inl attribute_error
     else if \<not> list_all (\<lambda>(k, v). jget0 ctx k = JStr v) identity then Inl (ValueError ''Execution lookup returned another Task'')
     else rbind (member item ''execution_id'') (\<lambda>x. (case x of
         JStr u \<Rightarrow> rbind (parse_uuids [u]) (\<lambda>us. Inr (Some (hd us)))
       | _ \<Rightarrow> Inl attribute_error)))"

definition lookup_page :: "(string \<times> string) list \<Rightarrow> json \<Rightarrow> uuid option result" where
  "lookup_page identity page =
     rbind (if is_jobj page then member page ''items'' else Inl (TypeError ''page'')) (\<lambda>items.
       (case (items, jget0 page ''has_more'') of
          (JArr [], JBool False) \<Rightarrow> Inr None
        | (JArr [item], JBool False) \<Rightarrow> lookup_item identity item
        | _ \<Rightarrow> Inl (ValueError ''Task execution lookup is ambiguous'')))"

definition find_task_execution :: "'g executor_api \<Rightarrow> cleanup_row \<Rightarrow> 'g \<Rightarrow> uuid option result \<times> 'g" where
  "find_task_execution ex rec = (let identity = [(''user_id'', tt_user_id (fc_turn rec)), (''project_id'', tt_project_id (fc_turn rec)),
       (''session_id'', fc_session_id rec), (''task_id'', uuid_str (fc_task_id rec))]
     in sbind (ex_executions ex identity) (\<lambda>page. spure (lookup_page identity page)))"

definition executor_resolve ::
    "'g executor_api \<Rightarrow> cleanup_row \<Rightarrow> snapshot \<Rightarrow> agent_db \<times> 'g \<Rightarrow> uuid option result \<times> agent_db \<times> 'g" where
  "executor_resolve ex rec sn =
     sbind (on_db (\<lambda>db. (known_ids rec sn db, db))) (\<lambda>known.
     sbind (on_db (\<lambda>db. (execution_references (fc_task_id rec) db, db))) (\<lambda>(refs, submissions).
       if 1 < submissions then spure (Inl (UnsafeCleanupError ''Multiple submission identities need review''))
       else (case remdups (known @ refs) of
           [u] \<Rightarrow> spure (Inr (Some u))
         | _ # _ # _ \<Rightarrow> spure (Inl (UnsafeCleanupError ''Conflicting Execution identities''))
         | [] \<Rightarrow>
             if submissions = 0 then spure (Inr None)
             else (\<lambda>s. case on_graph (find_task_execution ex rec) s of
                 (Inl e, s1) \<Rightarrow> (Inl (if is_ValueError e then UnsafeCleanupError (exn_str e) else e), s1)
               | (Inr None, s1) \<Rightarrow> (Inl (CleanupPending ''Submitted Execution ID is not yet confirmed''), s1)
               | (Inr (Some u), s1) \<Rightarrow> (Inr (Some u), s1)))))"

definition executor_status :: "'g executor_api \<Rightarrow> uuid \<Rightarrow> 'g \<Rightarrow> string result \<times> 'g" where
  "executor_status ex exec = sbind (ex_result ex exec) (\<lambda>(found, current).
     spure (if found \<noteq> exec then Inl (UnsafeCleanupError ''Executor result identity mismatch'')
            else if current \<notin> TERMINAL \<union> RUNNING_STATES then Inl (UnsafeCleanupError ''Unknown Executor lifecycle status'')
            else Inr current))"

definition cancel_key :: "cleanup_row \<Rightarrow> string" where
  "cancel_key rec = ''task:'' @ uuid_str (fc_task_id rec) @ '':failure-cancel''"

definition cancel_request :: "'g executor_api \<Rightarrow> cleanup_row \<Rightarrow> uuid \<Rightarrow> json" where
  "cancel_request ex rec exec = JObj [(''kind'', JStr ''failure_cancel''), (''execution_id'', JStr (uuid_str exec)),
     (''path'', JStr (''/executions/'' @ uuid_str exec @ ''/cancel'')),
     (''body'', ex_cancel_payload ex (cancel_key rec) (''Agent workflow failed: '' @ fc_reason rec))]"

text \<open>\<open>confirm\<close>: a conflict answer (409) to the cancellation is no error; the state decides.\<close>

definition cancel_execution :: "'g executor_api \<Rightarrow> cleanup_row \<Rightarrow> uuid \<Rightarrow> agent_db \<times> 'g \<Rightarrow> unit result \<times> agent_db \<times> 'g" where
  "cancel_execution ex rec exec s =
     (case journal_run (ex_digest ex) NoFault NoFault (fc_task_id rec) (cancel_key rec) ''failure_cancel''
             (JObj [(''execution_id'', JStr (uuid_str exec)), (''reason'', JStr (fc_reason rec))])
             (spure (Inr (cancel_request ex rec exec))) (effect_send (ex_sender ex)) s of
        (Inr _, s1) \<Rightarrow> (Inr (), s1)
      | (Inl e, s1) \<Rightarrow> if e = ExecutorRequestError 409 then (Inr (), s1) else (Inl e, s1))"

definition executor_confirm :: "'g executor_api \<Rightarrow> cleanup_row \<Rightarrow> uuid \<Rightarrow> agent_db \<times> 'g \<Rightarrow> string result \<times> agent_db \<times> 'g" where
  "executor_confirm ex rec exec =
     sbind (on_graph (executor_status ex exec)) (\<lambda>current.
       if current \<in> TERMINAL then spure (Inr current)
       else sbind (cancel_execution ex rec exec) (\<lambda>_.
         sbind (on_graph (executor_status ex exec)) (\<lambda>final.
           spure (if final \<in> TERMINAL then Inr final
                  else Inl (CleanupPending ''Executor cancellation is not yet terminal'')))))"

text \<open>\<open>failure_message\<close>; its Korean text is given as the bytes of its UTF-8 encoding.\<close>

definition utf8 :: "nat list \<Rightarrow> string" where
  "utf8 bs = map char_of bs"

definition failure_message :: "string \<Rightarrow> string \<Rightarrow> string" where
  "failure_message why status =
     utf8 [65, 103, 101, 110, 116, 32, 236, 178, 152, 235, 166, 172, 236, 151, 144, 32, 236, 139, 164, 237, 140, 168, 237, 150, 136, 236, 138, 181, 235, 139, 136, 235, 139, 164, 58, 32]
     @ why @ ''. '' @
     (if status = ''NOT_REQUIRED''
      then utf8 [69, 120, 101, 99, 117, 116, 111, 114, 236, 151, 144, 32, 236, 160, 156, 236, 182, 156, 235, 144, 156, 32, 236, 139, 164, 237, 150, 137, 236, 157, 180, 32, 236, 151, 134, 236, 138, 181, 235, 139, 136, 235, 139, 164, 46]
      else utf8 [236, 151, 176, 234, 178, 176, 235, 144, 156, 32, 69, 120, 101, 99, 117, 116, 111, 114, 32, 236, 139, 164, 237, 150, 137, 236, 157, 152, 32] @ status
        @ utf8 [32, 236, 162, 133, 235, 163, 140, 235, 165, 188, 32, 237, 153, 149, 236, 157, 184, 237, 150, 136, 236, 138, 181, 235, 139, 136, 235, 139, 164, 46])"

section \<open>The service\<close>

record 'g failure_service =
  fs_admission :: "'g service"
  fs_graph :: "'g cleanup_graph"
  fs_executor :: "'g executor_api"
  fs_max_attempts :: int
  fs_retry :: usec

definition FailureService_init :: "int \<Rightarrow> usec \<Rightarrow> usec \<Rightarrow> unit result" where
  "FailureService_init max_attempts retry timeout =
     (if max_attempts < 1 \<or> retry \<le> 0 \<or> timeout \<le> 0 then Inl (ValueError ''Cleanup budgets must be positive'') else Inr ())"

definition cleanup_snapshot :: "'g failure_service \<Rightarrow> string \<Rightarrow> agent_db \<times> 'g \<Rightarrow> snapshot result \<times> agent_db \<times> 'g" where
  "cleanup_snapshot fs sess = on_graph (\<lambda>g. (cg_get (fs_graph fs) sess g, g))"

text \<open>\<open>capture_api\<close>: a blocked request is resolved by the checkpoint's proof, or becomes a cleanup.\<close>

definition blocked_request :: "'g failure_service \<Rightarrow> uuid \<Rightarrow> agent_db \<Rightarrow> api_row option result" where
  "blocked_request fs u db = rbind (request_get (sv_fpq (fs_admission fs)) u db) (\<lambda>found.
     Inr (case found of Some r \<Rightarrow> if ap_state r = Rs_BLOCKED then Some r else None | None \<Rightarrow> None))"

text \<open>\<open>UnsafeRecoveryError\<close> and \<open>CleanupPending\<close> are \<open>RuntimeError\<close>s.\<close>

fun is_RuntimeError :: "exn \<Rightarrow> bool" where
  "is_RuntimeError (RuntimeError _) = True"
| "is_RuntimeError (UnsafeRecoveryError _) = True"
| "is_RuntimeError (UnsafeCleanupError _) = True"
| "is_RuntimeError (CleanupPending _) = True"
| "is_RuntimeError (FailureOperationConflict _) = True"
| "is_RuntimeError (LeaseLostError _) = True"
| "is_RuntimeError (StreamLeaseLostError _) = True"
| "is_RuntimeError _ = False"

definition proven_or_not :: "'g failure_service \<Rightarrow> snapshot \<Rightarrow> api_row \<Rightarrow> bool result" where
  "proven_or_not fs sn r = (case proven_applied (sv_fp (fs_admission fs)) (sv_parse (fs_admission fs)) sn r of
       Inl e \<Rightarrow> if is_RuntimeError e \<or> is_ValueError e then Inr False else Inl e
     | Inr b \<Rightarrow> Inr b)"

definition capture_api_guarded :: "'g failure_service \<Rightarrow> usec \<Rightarrow> uuid \<Rightarrow> agent_db \<times> 'g \<Rightarrow> unit result \<times> agent_db \<times> 'g" where
  "capture_api_guarded fs now u =
     sbind (on_db (\<lambda>db. (blocked_request fs u db, db))) (\<lambda>found. (case found of
         None \<Rightarrow> spure (Inr ())
       | Some r \<Rightarrow>
          (let turn = rq_turn (ap_command r); sess = tt_session_id turn in
           sbind (spure (parse_uuids [tt_active_task_id turn])) (\<lambda>tasks. let task = hd tasks in
           sbind (on_db (\<lambda>db. (Inr (cleanup_of task db), db))) (\<lambda>existing.
           sbind (if existing \<noteq> None then spure (Inr False)
                  else sbind (cleanup_snapshot fs sess) (\<lambda>sn. spure (proven_or_not fs sn r))) (\<lambda>applied.
             if applied then on_db (resolve_applied now r)
             else sbind (on_db (cleanup_ensure now task sess
                    (JObj [(''kind'', JStr ''API''), (''request_id'', JStr (uuid_str u))])
                    (or_text (ap_last_error r) ''API invocation attempts exhausted'') None)) (\<lambda>_. spure (Inr ()))))))))"

definition capture_api ::
    "'g failure_service \<Rightarrow> service_env \<Rightarrow> uuid \<Rightarrow> redis \<Rightarrow> agent_db \<times> 'g \<Rightarrow> unit result \<times> redis \<times> agent_db \<times> 'g" where
  "capture_api fs ev u rd s = (case blocked_request fs u (fst s) of
       Inl e \<Rightarrow> (Inl e, rd, s)
     | Inr None \<Rightarrow> (Inr (), rd, s)
     | Inr (Some r) \<Rightarrow> held (fs_admission fs) ev (tt_session_id (rq_turn (ap_command r))) (capture_api_guarded fs (ev_now ev) u) rd s)"

text \<open>\<open>capture_worker\<close>: beside the agent's tables stand the worker's.\<close>

definition failed_command :: "string \<Rightarrow> uuid \<Rightarrow> worker_db \<Rightarrow> command_view option" where
  "failed_command ns cid wdb = (case command ns cid wdb of
       Some v \<Rightarrow> if c_state (v_row v) = Cmd_FAILED then Some v else None | None \<Rightarrow> None)"

definition worker_owns_pending :: "snapshot \<Rightarrow> uuid \<Rightarrow> bool" where
  "worker_owns_pending sn cid = (sn_next sn \<noteq> [] \<and> \<not> interrupted sn
     \<and> ss_invocation_owner (sn_values sn) = Some (Owner ''EXECUTOR'' (uuid_str cid)))"

definition on_worker :: "(worker_db \<Rightarrow> 'a result \<times> worker_db) \<Rightarrow> (agent_db \<times> 'g) \<times> worker_db \<Rightarrow> 'a result \<times> (agent_db \<times> 'g) \<times> worker_db" where
  "on_worker f s = (let (res, w) = f (snd s) in (res, fst s, w))"

definition on_agent :: "(agent_db \<times> 'g \<Rightarrow> 'a result \<times> agent_db \<times> 'g) \<Rightarrow> (agent_db \<times> 'g) \<times> worker_db
    \<Rightarrow> 'a result \<times> (agent_db \<times> 'g) \<times> worker_db" where
  "on_agent f s = (let (res, a) = f (fst s) in (res, a, snd s))"

definition cleanup_binding_ok :: "cleanup_row \<Rightarrow> event_context \<Rightarrow> bool" where
  "cleanup_binding_ok rec ctx = (fc_session_id rec = ctx_session_id ctx
     \<and> (fc_execution_id rec = None \<or> fc_execution_id rec = Some (ctx_execution_id ctx)))"

definition capture_worker_guarded ::
    "'g failure_service \<Rightarrow> string \<Rightarrow> usec \<Rightarrow> uuid \<Rightarrow> (agent_db \<times> 'g) \<times> worker_db \<Rightarrow> unit result \<times> (agent_db \<times> 'g) \<times> worker_db" where
  "capture_worker_guarded fs ns now cid =
     sbind (on_worker (\<lambda>w. (Inr (failed_command ns cid w), w))) (\<lambda>found. (case found of
         None \<Rightarrow> spure (Inr ())
       | Some v \<Rightarrow>
         (let ctx = store_context ns v;
              resolve = (\<lambda>why. on_worker (resolve_failed ns now cid False ''agent-cleanup'' why)) in
          sbind (spure (parse_uuids [ctx_task_id ctx])) (\<lambda>tasks. let task = hd tasks in
          sbind (on_agent (on_db (\<lambda>db. (Inr (cleanup_of task db), db)))) (\<lambda>existing. (case existing of
              Some rec \<Rightarrow>
                if \<not> cleanup_binding_ok rec ctx then spure (Inl (UnsafeCleanupError ''Failed command binding mismatch''))
                else if fc_state rec = Fc_DONE then resolve ''Task failure cleanup completed'' else spure (Inr ())
            | None \<Rightarrow>
                sbind (on_agent (cleanup_snapshot fs (graph_thread_id ctx))) (\<lambda>sn.
                  if map_of (ss_ew_receipts (sn_values sn)) (uuid_str cid) = Some (uuid_str (event_id (ctx_event ctx)))
                     \<and> \<not> worker_owns_pending sn cid
                  then resolve ''Checkpoint proves event applied''
                  else sbind (on_agent (on_db (cleanup_ensure now task (ctx_session_id ctx)
                         (JObj [(''kind'', JStr ''WORKER''), (''namespace'', JStr ns), (''command_id'', JStr (uuid_str cid)),
                                (''event_id'', JStr (uuid_str (event_id (ctx_event ctx))))])
                         (or_text (c_last_error (v_row v)) ''Worker handler attempts exhausted'')
                         (Some (ctx_execution_id ctx))))) (\<lambda>_. spure (Inr ())))))))))"

definition capture_worker ::
    "'g failure_service \<Rightarrow> string \<Rightarrow> service_env \<Rightarrow> uuid \<Rightarrow> redis \<Rightarrow> (agent_db \<times> 'g) \<times> worker_db
      \<Rightarrow> unit result \<times> redis \<times> (agent_db \<times> 'g) \<times> worker_db" where
  "capture_worker fs ns ev cid rd s = (case failed_command ns cid (snd s) of
       None \<Rightarrow> (Inr (), rd, s)
     | Some v \<Rightarrow> held (fs_admission fs) ev (v_session_id v) (capture_worker_guarded fs ns (ev_now ev) cid) rd s)"

text \<open>One attempt: the proof of the executor's end, the settlement of the graph, the end of the task.\<close>

definition attempt_proof :: "'g failure_service \<Rightarrow> usec \<Rightarrow> cleanup_row \<Rightarrow> snapshot \<Rightarrow> agent_db \<times> 'g \<Rightarrow> cleanup_row result \<times> agent_db \<times> 'g" where
  "attempt_proof fs now rec sn =
     (if fc_executor_status rec \<noteq> None then spure (Inr rec)
      else sbind (executor_resolve (fs_executor fs) rec sn) (\<lambda>exec. (case exec of
          None \<Rightarrow> on_db (cleanup_confirm now rec None ''NOT_REQUIRED'' (failure_message (fc_reason rec) ''NOT_REQUIRED''))
        | Some u \<Rightarrow> sbind (on_db (bind_execution now rec u)) (\<lambda>rec1.
            sbind (executor_confirm (fs_executor fs) rec1 u) (\<lambda>status.
              on_db (cleanup_confirm now rec1 (Some u) status (failure_message (fc_reason rec1) status)))))))"

definition attempt :: "'g failure_service \<Rightarrow> service_env \<Rightarrow> cleanup_row \<Rightarrow> agent_db \<times> 'g \<Rightarrow> unit result \<times> agent_db \<times> 'g" where
  "attempt fs ev rec =
     sbind (cleanup_snapshot fs (fc_session_id rec)) (\<lambda>sn.
     sbind (spure (validate_target (sv_fp (fs_admission fs)) sn rec)) (\<lambda>_.
     sbind (attempt_proof fs (ev_now ev) rec sn) (\<lambda>rec1.
     sbind (on_graph (settle_graph (sv_fp (fs_admission fs)) (fs_graph fs) rec1)) (\<lambda>_.
       on_db (with_fault (ev_finish_fault ev) (cleanup_finish (ev_now ev) rec1))))))"

fun is_UnsafeCleanup :: "exn \<Rightarrow> bool" where
  "is_UnsafeCleanup (UnsafeCleanupError _) = True"
| "is_UnsafeCleanup _ = False"

definition cleanup_delay :: "'g failure_service \<Rightarrow> int \<Rightarrow> usec" where
  "cleanup_delay fs attempts = min (seconds 300) (fs_retry fs * 2 ^ nat (min (attempts - 1) 6))"

definition run_attempt :: "'g failure_service \<Rightarrow> service_env \<Rightarrow> cleanup_row \<Rightarrow> agent_db \<times> 'g \<Rightarrow> unit result \<times> agent_db \<times> 'g" where
  "run_attempt fs ev rec s = (case attempt fs ev rec s of
       (Inr x, s1) \<Rightarrow> (Inr x, s1)
     | (Inl e, s1) \<Rightarrow>
         if \<not> is_Exception e then (Inl e, s1)
         else sbind (on_db (with_fault (ev_error_fault ev) (cleanup_defer (ev_now ev) rec (describe_exn e)
                (cleanup_delay fs (fc_attempts rec))
                (is_UnsafeCleanup e \<or> fs_max_attempts fs \<le> fc_attempts rec)))) (\<lambda>_. spure (Inr ())) s1)"

text \<open>The check before a claim: with evidence on record, the checkpoint may already be settled.\<close>

definition settled_before :: "'g failure_service \<Rightarrow> cleanup_row \<Rightarrow> snapshot \<Rightarrow> bool result" where
  "settled_before fs rec sn = (if already_settled sn rec then Inr True
     else rbind (validate_target (sv_fp (fs_admission fs)) sn rec) (\<lambda>target. Inr (\<not> target)))"

definition claim_and_attempt :: "'g failure_service \<Rightarrow> service_env \<Rightarrow> uuid \<Rightarrow> agent_db \<times> 'g \<Rightarrow> unit result \<times> agent_db \<times> 'g" where
  "claim_and_attempt fs ev u =
     sbind (on_db (cleanup_claim (ev_now ev) u (fs_max_attempts fs) (fs_retry fs))) (\<lambda>rec.
       if fc_state rec \<noteq> Fc_PENDING then spure (Inr ()) else run_attempt fs ev rec)"

definition cleanup_guarded :: "'g failure_service \<Rightarrow> service_env \<Rightarrow> uuid \<Rightarrow> agent_db \<times> 'g \<Rightarrow> unit result \<times> agent_db \<times> 'g" where
  "cleanup_guarded fs ev u = sbind (on_db (\<lambda>db. (Inr (cleanup_of u db), db))) (\<lambda>found. (case found of
       None \<Rightarrow> spure (Inl AssertionError)
     | Some rec \<Rightarrow>
        if fc_state rec \<noteq> Fc_PENDING then spure (Inr ())
        else if nonempty (fc_executor_status rec) = None \<or> nonempty (fc_message rec) = None then claim_and_attempt fs ev u
        else sbind (cleanup_snapshot fs (fc_session_id rec)) (\<lambda>sn. (case settled_before fs rec sn of
            Inr True \<Rightarrow> on_db (cleanup_finish (ev_now ev) rec)
          | Inr False \<Rightarrow> claim_and_attempt fs ev u
          | Inl e \<Rightarrow> if is_UnsafeCleanup e
                     then sbind (on_db (cleanup_defer (ev_now ev) rec (describe_exn e) 0 True)) (\<lambda>_. spure (Inr ()))
                     else spure (Inl e)))))"

definition failure_execute ::
    "'g failure_service \<Rightarrow> service_env \<Rightarrow> uuid \<Rightarrow> redis \<Rightarrow> agent_db \<times> 'g \<Rightarrow> unit result \<times> redis \<times> agent_db \<times> 'g" where
  "failure_execute fs ev u rd s = (case cleanup_of u (fst s) of
       None \<Rightarrow> (Inr (), rd, s)
     | Some rec \<Rightarrow>
        if fc_state rec \<noteq> Fc_PENDING then (Inr (), rd, s)
        else (case held (fs_admission fs) ev (fc_session_id rec) (cleanup_guarded fs ev u) rd s of
           (Inl e, rd1, s1) \<Rightarrow>
             if is_DeferEvent e
             then (let (res, s2) = on_db (cleanup_defer_busy (ev_now ev) u (fs_retry fs)) s1 in (res, rd1, s2))
             else (Inl e, rd1, s1)
         | res \<Rightarrow> res))"

text \<open>\<open>protect\<close>: while a cleanup owns the task, the handler is not run.\<close>

definition protect :: "(event_context \<Rightarrow> agent_db \<times> 'g \<Rightarrow> unit result \<times> agent_db \<times> 'g) \<Rightarrow> event_context \<Rightarrow> agent_db \<times> 'g \<Rightarrow> unit result \<times> agent_db \<times> 'g" where
  "protect handler ctx s = (case parse_uuids [ctx_task_id ctx] of
       Inl e \<Rightarrow> (Inl e, s)
     | Inr tasks \<Rightarrow> (case cleanup_of (hd tasks) (fst s) of
         None \<Rightarrow> handler ctx s
       | Some rec \<Rightarrow>
           (Inl (if fc_session_id rec \<noteq> ctx_session_id ctx then UnsafeCleanupError ''Cleanup handler identity mismatch''
                 else if fc_state rec = Fc_DONE then IgnoreEvent ''Task failure cleanup has completed''
                 else DeferEvent ''Task failure cleanup owns this invocation''), s)))"

section \<open>Recovery\<close>

definition FailureRecovery_init :: "int \<Rightarrow> int \<Rightarrow> usec \<Rightarrow> unit result" where
  "FailureRecovery_init batch_size concurrency poll =
     (if \<not> (1 \<le> batch_size \<and> batch_size \<le> 100) \<or> \<not> (1 \<le> concurrency \<and> concurrency \<le> 32) \<or> poll \<le> 0
      then Inl (ValueError ''Invalid failure recovery budget'') else Inr ())"

record recovery_cursors =
  rc_api :: "uuid option"
  rc_worker :: "(uuid \<times> int) option"

text \<open>
  \<open>_safe\<close> around each item: an exception is logged, and the next item follows. \<open>ids[-1]\<close> is the cursor
  after a full page, and the scan starts again after a page that is not full.
\<close>

definition next_cursor :: "('a \<Rightarrow> 'c) \<Rightarrow> int \<Rightarrow> 'a list \<Rightarrow> 'c option" where
  "next_cursor key batch rows = (if int (length rows) = batch \<and> rows \<noteq> [] then Some (key (last rows)) else None)"

fun safe_all :: "('a \<Rightarrow> redis \<Rightarrow> 's \<Rightarrow> unit result \<times> redis \<times> 's) \<Rightarrow> 'a list \<Rightarrow> redis \<Rightarrow> 's \<Rightarrow> unit result \<times> redis \<times> 's" where
  "safe_all call [] rd s = (Inr (), rd, s)"
| "safe_all call (x # xs) rd s = (case call x rd s of
      (Inr _, rd1, s1) \<Rightarrow> safe_all call xs rd1 s1
    | (Inl e, rd1, s1) \<Rightarrow> if is_Exception e then safe_all call xs rd1 s1 else (Inl e, rd1, s1))"

definition lift_agent :: "(redis \<Rightarrow> agent_db \<times> 'g \<Rightarrow> 'a result \<times> redis \<times> agent_db \<times> 'g) \<Rightarrow> redis \<Rightarrow> (agent_db \<times> 'g) \<times> worker_db
    \<Rightarrow> 'a result \<times> redis \<times> (agent_db \<times> 'g) \<times> worker_db" where
  "lift_agent f rd s = (let (res, rd1, a) = f rd (fst s) in (res, rd1, a, snd s))"

definition failure_once ::
    "'g failure_service \<Rightarrow> string option \<Rightarrow> (uuid \<Rightarrow> service_env) \<Rightarrow> usec \<Rightarrow> int \<Rightarrow> recovery_cursors \<Rightarrow> redis \<Rightarrow> (agent_db \<times> 'g) \<times> worker_db
      \<Rightarrow> unit result \<times> recovery_cursors \<times> redis \<times> (agent_db \<times> 'g) \<times> worker_db" where
  "failure_once fs ns env now batch cur rd s = (case blocked_page (rc_api cur) batch (fst (fst s)) of
       Inl e \<Rightarrow> (Inl e, cur, rd, s)
     | Inr ids \<Rightarrow> (case safe_all (\<lambda>u. lift_agent (capture_api fs (env u) u)) ids rd s of
         (Inl e, rd1, s1) \<Rightarrow> (Inl e, cur, rd1, s1)
       | (Inr _, rd1, s1) \<Rightarrow>
          (let cur1 = cur\<lparr>rc_api := next_cursor (\<lambda>u. u) batch ids\<rparr>;
               (wres, cur2, rd2, s2) = (case ns of
                  None \<Rightarrow> (Inr (), cur1, rd1, s1)
                | Some n \<Rightarrow> (case failed_page n (rc_worker cur1) batch (snd s1) of
                    Inl e \<Rightarrow> (Inl e, cur1, rd1, s1)
                  | Inr rows \<Rightarrow> (case safe_all (\<lambda>(cid, _, _). capture_worker fs n (env cid) cid) rows rd1 s1 of
                      (Inl e, rd2, s2) \<Rightarrow> (Inl e, cur1, rd2, s2)
                    | (Inr _, rd2, s2) \<Rightarrow> (Inr (), cur1\<lparr>rc_worker := next_cursor (\<lambda>(_, x, n). (x, n)) batch rows\<rparr>, rd2, s2))))
           in (case wres of
               Inl e \<Rightarrow> (Inl e, cur2, rd2, s2)
             | Inr _ \<Rightarrow> (case cleanup_due now batch (fst (fst s2)) of
                 Inl e \<Rightarrow> (Inl e, cur2, rd2, s2)
               | Inr due \<Rightarrow> (case safe_all (\<lambda>u. lift_agent (failure_execute fs (env u) u)) due rd2 s2 of
                   (res, rd3, s3) \<Rightarrow> (res, cur2, rd3, s3)))))))"

section \<open>Operators\<close>

text \<open>\<open>FailureOperatorPolicy\<close>: the comma-separated list of users.\<close>

definition authorize :: "string \<Rightarrow> string \<Rightarrow> unit result" where
  "authorize user_ids actor = (if actor \<notin> py_strip ` set (filter (\<lambda>v. py_strip v \<noteq> []) (split_on (CHR '','') user_ids))
     then Inl (OperationsForbidden ''User is not authorized for failure operations'') else Inr ())"

record cleanup_page =
  pg_items :: "cleanup_row list"
  pg_next :: "(usec \<times> uuid) option"
  pg_has_more :: bool

text \<open>\<open>FailureOperations.blocked\<close>; a cursor is the decoded pair of its time and task.\<close>

definition operations_blocked :: "string \<Rightarrow> string \<Rightarrow> (usec \<times> uuid) option \<Rightarrow> int \<Rightarrow> agent_db \<Rightarrow> cleanup_page result" where
  "operations_blocked user_ids actor before limit db =
     rbind (authorize user_ids actor) (\<lambda>_. rbind (cleanup_blocked_page before limit db) (\<lambda>rows.
       let has_more = limit < int (length rows); visible = take (nat limit) rows
       in Inr \<lparr>pg_items = visible, pg_next = (if has_more \<and> visible \<noteq> []
              then Some (updated_at (fc_audit (last visible)), fc_task_id (last visible)) else None), pg_has_more = has_more\<rparr>))"

definition operations_detail :: "string \<Rightarrow> string \<Rightarrow> uuid \<Rightarrow> agent_db \<Rightarrow> cleanup_row result" where
  "operations_detail user_ids actor u db = rbind (authorize user_ids actor) (\<lambda>_. (case cleanup_of u db of
       None \<Rightarrow> Inl (LookupError (''Unknown failure cleanup: '' @ uuid_str u)) | Some row \<Rightarrow> Inr row))"

record operation_input =
  oi_idempotency_key :: string
  oi_expected_version :: int
  oi_reason :: string

text \<open>\<open>_request\<close>; \<open>uuid5\<close> and \<open>request_hash\<close> are the name-based identifier and the digest of the request.\<close>

definition operations_request ::
    "'g failure_service \<Rightarrow> service_env \<Rightarrow> (string \<Rightarrow> uuid) \<Rightarrow> (uuid \<Rightarrow> string \<Rightarrow> operation_input \<Rightarrow> string) \<Rightarrow> string \<Rightarrow> string \<Rightarrow> string \<Rightarrow> bool
      \<Rightarrow> operation_input \<Rightarrow> uuid \<Rightarrow> redis \<Rightarrow> agent_db \<times> 'g \<Rightarrow> (cleanup_row \<times> bool) result \<times> redis \<times> agent_db \<times> 'g" where
  "operations_request fs ev uuid5 request_hash user_ids actor action finalize q u rd s = (case authorize user_ids actor of
       Inl e \<Rightarrow> (Inl e, rd, s)
     | Inr _ \<Rightarrow>
        (let op = \<lparr>op_id = uuid5 (''ex-agent/failure-operation/'' @ actor @ ''/'' @ uuid_str u @ ''/'' @ oi_idempotency_key q),
               op_hash = request_hash u action q, op_action = action, op_actor = actor, op_reason = oi_reason q,
               op_expected_version = oi_expected_version q\<rparr>
         in (case on_db (retry_blocked (ev_now ev) u op) s of
            (Inl e, s1) \<Rightarrow> (Inl e, rd, s1)
          | (Inr (row, replayed), s1) \<Rightarrow>
             (case (if finalize \<and> fc_state row = Fc_PENDING
                    then (case failure_execute fs ev u rd s1 of
                        (Inl e, rd2, s2) \<Rightarrow> (Inl e, rd2, s2)
                      | (Inr _, rd2, s2) \<Rightarrow> (case cleanup_of u (fst s2) of
                          None \<Rightarrow> (Inl (LookupError (''Unknown failure cleanup: '' @ uuid_str u)), rd2, s2)
                        | Some row2 \<Rightarrow> (Inr row2, rd2, s2)))
                    else (Inr row, rd, s1)) of
                (Inl e, rd2, s2) \<Rightarrow> (Inl e, rd2, s2)
              | (Inr row2, rd2, s2) \<Rightarrow>
                  if finalize \<and> fc_state row2 \<noteq> Fc_DONE
                  then (Inl (FailureOperationConflict (or_text (fc_last_error row2)
                          ''Terminal Executor and checkpoint evidence is incomplete'')), rd2, s2)
                  else (Inr (row2, replayed), rd2, s2)))))"

end
