(* ===== verification/Agent_Tasks.thy ===== *)
theory Agent_Tasks
  imports Agent_Failure
begin

text \<open>
  What the nodes of the business graph write to the tables of the agent by themselves: the status of the task, the lock of its session
  (\<open>TaskRepository\<close>, \<open>src/ex_agent/persistence/repositories/tasks.py\<close>) and the progress of its execution
  (\<open>ExecutionRepository.update\<close>, \<open>executions.py\<close>). Unlike the projection and the end of a task, \<open>update_status\<close> does not look at the
  status that it replaces; its optional \<open>payload\<close>, which the session runtime never gives, is left out.
\<close>

definition required_task :: "uuid \<Rightarrow> agent_db \<Rightarrow> task_row result" where
  "required_task u db = (case task_of u db of None \<Rightarrow> Inl (LookupError (''Unknown task: '' @ uuid_str u)) | Some t \<Rightarrow> Inr t)"

definition set_status :: "usec \<Rightarrow> task_status \<Rightarrow> task_row \<Rightarrow> task_row" where
  "set_status now status t = t\<lparr>t_status := status, t_audit := touch_audit now ''AGENT'' (t_audit t), t_version := t_version t + 1\<rparr>"

definition task_update_status :: "usec \<Rightarrow> uuid \<Rightarrow> task_status \<Rightarrow> agent_db \<Rightarrow> unit result \<times> agent_db" where
  "task_update_status now u status = transaction (\<lambda>db.
     (case required_task u db of
        Inl e \<Rightarrow> (Inl e, db)
      | Inr _ \<Rightarrow> (Inr (), add_event u ''task.status_changed'' (JObj [(''status'', JStr (status_value status))]) (update_task u (set_status now status) db))))"

definition task_lock_session :: "uuid \<Rightarrow> agent_db \<Rightarrow> unit result \<times> agent_db" where
  "task_lock_session u = transaction (\<lambda>db.
     (case required_task u db of
        Inl e \<Rightarrow> (Inl e, db)
      | Inr t \<Rightarrow> (case lock_of (t_session_id t) db of
            Some l \<Rightarrow>
              if sl_active_task_id l \<noteq> u
              then (Inl (OtherException ''SessionLockedError'' (''Session is locked by task '' @ uuid_str (sl_active_task_id l))), db) else (Inr (), db)
          | None \<Rightarrow>
              if u \<in> sl_active_task_id ` set (db_locks db) then (Inl (IntegrityError ''agent_session_locks_active_task_id_key''), db)
              else (Inr (), db\<lparr>db_locks := db_locks db @ [\<lparr>sl_session_id = t_session_id t, sl_active_task_id = u, sl_execution_id = None,
                     sl_locked = True\<rparr>]\<rparr>))))"

text \<open>\<open>ExecutionRepository.update\<close>: what is not given stays, and the last event never goes back.\<close>

definition execution_update :: "uuid \<Rightarrow> uuid option \<Rightarrow> int option \<Rightarrow> int option \<Rightarrow> int option \<Rightarrow> agent_db \<Rightarrow> unit result \<times> agent_db" where
  "execution_update task operation version nxt event = transaction (\<lambda>db.
     (case binding_of task db of
        None \<Rightarrow> (Inl (LookupError ''Executor binding does not exist''), db)
      | Some _ \<Rightarrow> (Inr (), update_binding task (\<lambda>b. b\<lparr>eb_operation_id := (case operation of None \<Rightarrow> eb_operation_id b | Some x \<Rightarrow> x),
          eb_execution_version := (case version of None \<Rightarrow> eb_execution_version b | Some x \<Rightarrow> x), eb_next_step_sequence := (case nxt of None \<Rightarrow> eb_next_step_sequence b | Some x \<Rightarrow> x),
          eb_last_event_sequence := (case event of None \<Rightarrow> eb_last_event_sequence b | Some e \<Rightarrow> max (eb_last_event_sequence b) e)\<rparr>) db)))"

lemma set_status_row:
  "t_id (set_status now status t) = t_id t" "t_status (set_status now status t) = status" "t_session_id (set_status now status t) = t_session_id t"
  "t_terminal_message (set_status now status t) = t_terminal_message t"
  by (simp_all add: set_status_def)

lemma update_status_cases:
  obtains (unknown) "task_of u db = None" "snd (task_update_status now u status db) = db"
  | (changed) t where "task_of u db = Some t"
      "task_update_status now u status db = (Inr (), add_event u ''task.status_changed'' (JObj [(''status'', JStr (status_value status))])
         (update_task u (set_status now status) db))"
  using that by (cases "task_of u db") (auto simp: task_update_status_def required_task_def transaction_def)

lemma lock_session_cases:
  obtains (same) "snd (task_lock_session u db) = db"
  | (locked) t where "task_of u db = Some t" "lock_of (t_session_id t) db = None"
      "task_lock_session u db = (Inr (), db\<lparr>db_locks := db_locks db @ [\<lparr>sl_session_id = t_session_id t, sl_active_task_id = u,
         sl_execution_id = None, sl_locked = True\<rparr>]\<rparr>)"
  using that by (cases "task_of u db"; cases "lock_of (t_session_id (the (task_of u db))) db"; cases "u \<in> sl_active_task_id ` set (db_locks db)")
    (auto simp: task_lock_session_def required_task_def transaction_def split: if_splits)

end
