(* ===== verification/Agent_System.thy ===== *)
theory Agent_System
  imports Agent_Tasks Transitions
begin

text \<open>
  The agent's database under all its writers: admission, projection, effects, failure cleanup and the nodes of the graph. Each
  store operation is one transaction and so one step; any number of processes run them in any order.
  The invariant says how tasks, requests, locks and cleanups agree, and the growth relation what no
  operation takes back.
\<close>

section \<open>The invariant\<close>

abbreviation unfinished :: "task_row \<Rightarrow> bool" where
  "unfinished t \<equiv> \<not> is_terminal (t_status t)"

text \<open>Task identifiers are unique, and a session has at most one unfinished task.\<close>

definition tasks_ok :: "task_row list \<Rightarrow> bool" where
  "tasks_ok ts = (distinct (map t_id ts) \<and> (\<forall>t \<in> set ts. \<forall>t' \<in> set ts.
     unfinished t \<and> unfinished t' \<and> t_session_id t = t_session_id t' \<longrightarrow> t_id t = t_id t'))"

definition request_ok :: "task_row list \<Rightarrow> api_row \<Rightarrow> bool" where
  "request_ok ts r = (rq_request_id (ap_command r) = ap_request_id r \<and> ap_session_id r = tt_session_id (rq_turn (ap_command r))
     \<and> 0 \<le> ap_attempts r \<and> (\<exists>t \<in> set ts. t_id t = ap_task_id r \<and> t_session_id t = ap_session_id r))"

text \<open>A session has at most one active request, and it belongs to the session's unfinished task, if any.\<close>

definition requests_ok :: "task_row list \<Rightarrow> api_row list \<Rightarrow> bool" where
  "requests_ok ts rs = (distinct (map ap_request_id rs) \<and> (\<forall>r \<in> set rs. request_ok ts r)
     \<and> (\<forall>r \<in> set rs. \<forall>r' \<in> set rs. active_state (ap_state r) \<and> active_state (ap_state r')
          \<and> ap_session_id r = ap_session_id r' \<longrightarrow> ap_request_id r = ap_request_id r')
     \<and> (\<forall>r \<in> set rs. \<forall>t \<in> set ts. active_state (ap_state r) \<and> unfinished t
          \<and> ap_session_id r = t_session_id t \<longrightarrow> ap_task_id r = t_id t))"

text \<open>A lock is held for an unfinished task of its session.\<close>

definition locks_ok :: "task_row list \<Rightarrow> lock_row list \<Rightarrow> bool" where
  "locks_ok ts ls = (\<forall>l \<in> set ls. \<exists>t \<in> set ts. t_id t = sl_active_task_id l \<and> t_session_id t = sl_session_id l \<and> unfinished t)"

text \<open>A cleanup ends its task with a terminal status; a finished cleanup has a finished task and no active request.\<close>

definition cleanup_ok :: "task_row list \<Rightarrow> api_row list \<Rightarrow> cleanup_row \<Rightarrow> bool" where
  "cleanup_ok ts rs c = (is_terminal (fc_final_status c)
     \<and> (\<exists>t \<in> set ts. t_id t = fc_task_id c \<and> t_session_id t = fc_session_id c
        \<and> (fc_state c = Fc_DONE \<or> fc_preserve_terminal c \<longrightarrow> is_terminal (t_status t)))
     \<and> (fc_state c = Fc_DONE \<longrightarrow> (\<forall>r \<in> set rs. ap_task_id r = fc_task_id c \<longrightarrow> \<not> active_state (ap_state r))))"

definition cleanups_ok :: "task_row list \<Rightarrow> api_row list \<Rightarrow> cleanup_row list \<Rightarrow> bool" where
  "cleanups_ok ts rs cs = (distinct (map fc_task_id cs) \<and> (\<forall>c \<in> set cs. cleanup_ok ts rs c))"

definition agent_inv :: "agent_db \<Rightarrow> bool" where
  "agent_inv db = (tasks_ok (db_tasks db) \<and> requests_ok (db_tasks db) (db_requests db)
     \<and> locks_ok (db_tasks db) (db_locks db) \<and> cleanups_ok (db_tasks db) (db_requests db) (db_cleanups db))"

lemma tasks_okD:
  assumes "tasks_ok ts" "t \<in> set ts" "t' \<in> set ts" "unfinished t" "unfinished t'" "t_session_id t = t_session_id t'"
  shows "t_id t = t_id t'"
  using assms unfolding tasks_ok_def by blast

lemma requests_okD:
  assumes "requests_ok ts rs" "r \<in> set rs" "active_state (ap_state r)"
  shows "r' \<in> set rs \<Longrightarrow> active_state (ap_state r') \<Longrightarrow> ap_session_id r = ap_session_id r' \<Longrightarrow> ap_request_id r = ap_request_id r'"
    "t \<in> set ts \<Longrightarrow> unfinished t \<Longrightarrow> ap_session_id r = t_session_id t \<Longrightarrow> ap_task_id r = t_id t"
  using assms unfolding requests_ok_def by blast+

lemma empty_agent_inv: "agent_inv empty_agent_db"
  by (simp add: agent_inv_def empty_agent_db_def tasks_ok_def requests_ok_def locks_ok_def cleanups_ok_def)

section \<open>Changes of one table\<close>

subsection \<open>Tasks\<close>

text \<open>The change of a task that keeps its identity and never reopens it.\<close>

definition tasks_le :: "task_row list \<Rightarrow> task_row list \<Rightarrow> bool" where
  "tasks_le ts ts' = ((\<forall>t \<in> set ts. \<exists>t' \<in> set ts'. t_id t' = t_id t \<and> t_session_id t' = t_session_id t
        \<and> (is_terminal (t_status t) \<longrightarrow> is_terminal (t_status t')))
     \<and> (\<forall>t' \<in> set ts'. unfinished t' \<longrightarrow> (\<exists>t \<in> set ts. t_id t = t_id t' \<and> t_session_id t = t_session_id t' \<and> unfinished t)))"

definition keeps_task :: "(task_row \<Rightarrow> task_row) \<Rightarrow> task_row \<Rightarrow> bool" where
  "keeps_task f t = (t_id (f t) = t_id t \<and> t_session_id (f t) = t_session_id t
     \<and> (is_terminal (t_status t) \<longrightarrow> is_terminal (t_status (f t))))"

lemma tasks_le_update:
  assumes "\<And>t. t \<in> set ts \<Longrightarrow> t_id t = u \<Longrightarrow> keeps_task f t"
  shows "tasks_le ts (sql_update (\<lambda>t. t_id t = u) f ts)"
  unfolding tasks_le_def in_sql_update
proof (intro conjI ballI)
  fix t assume "t \<in> set ts"
  then show "\<exists>t' \<in> set (sql_update (\<lambda>t. t_id t = u) f ts). t_id t' = t_id t \<and> t_session_id t' = t_session_id t
      \<and> (is_terminal (t_status t) \<longrightarrow> is_terminal (t_status t'))"
    using assms by (intro bexI [of _ "if t_id t = u then f t else t"]) (auto simp: keeps_task_def in_sql_update)
next
  fix t' assume "t' \<in> set (sql_update (\<lambda>t. t_id t = u) f ts)"
  then obtain t where "t \<in> set ts" "t' = (if t_id t = u then f t else t)" by (auto simp: in_sql_update)
  then show "unfinished t' \<longrightarrow> (\<exists>t \<in> set ts. t_id t = t_id t' \<and> t_session_id t = t_session_id t' \<and> unfinished t)"
    using assms [of t] by (cases "t_id t = u") (auto simp: keeps_task_def)
qed

lemma tasks_ok_update:
  assumes "tasks_ok ts" "\<And>t. t \<in> set ts \<Longrightarrow> t_id t = u \<Longrightarrow> keeps_task f t"
  shows "tasks_ok (sql_update (\<lambda>t. t_id t = u) f ts)"
proof -
  have "map t_id (sql_update (\<lambda>t. t_id t = u) f ts) = map t_id ts"
    using assms(2) by (auto simp: sql_update_def keeps_task_def)
  moreover have le: "tasks_le ts (sql_update (\<lambda>t. t_id t = u) f ts)" by (rule tasks_le_update) (rule assms(2))
  have "t_id t = t_id t'"
    if h: "t \<in> set (sql_update (\<lambda>t. t_id t = u) f ts)" "t' \<in> set (sql_update (\<lambda>t. t_id t = u) f ts)"
      "unfinished t" "unfinished t'" "t_session_id t = t_session_id t'" for t t'
  proof -
    have old: "\<exists>a \<in> set ts. t_id a = t_id x \<and> t_session_id a = t_session_id x \<and> unfinished a"
      if "x \<in> set (sql_update (\<lambda>t. t_id t = u) f ts)" "unfinished x" for x
      using le that unfolding tasks_le_def by blast
    obtain a where a: "a \<in> set ts" "t_id a = t_id t" "t_session_id a = t_session_id t" "unfinished a"
      using old [OF h(1,3)] by blast
    obtain b where b: "b \<in> set ts" "t_id b = t_id t'" "t_session_id b = t_session_id t'" "unfinished b"
      using old [OF h(2,4)] by blast
    have "t_id a = t_id b" using tasks_okD [OF assms(1) a(1) b(1) a(4) b(4)] a(3) b(3) h(5) by simp
    then show ?thesis using a(2) b(2) by simp
  qed
  moreover have "distinct (map t_id ts)" using assms(1) unfolding tasks_ok_def by blast
  ultimately show ?thesis unfolding tasks_ok_def by (simp only:) blast
qed

lemma requests_ok_le:
  assumes "requests_ok ts rs" "tasks_le ts ts'"
  shows "requests_ok ts' rs"
proof -
  have "request_ok ts' r" if "request_ok ts r" for r
    using that assms(2) unfolding request_ok_def tasks_le_def by metis
  moreover have "ap_task_id r = t_id t"
    if "r \<in> set rs" "t \<in> set ts'" "active_state (ap_state r)" "unfinished t" "ap_session_id r = t_session_id t" for r t
    using that assms unfolding requests_ok_def tasks_le_def by metis
  ultimately show ?thesis using assms(1) unfolding requests_ok_def by blast
qed

lemma cleanups_ok_le:
  assumes "cleanups_ok ts rs cs" "tasks_le ts ts'"
  shows "cleanups_ok ts' rs cs"
  using assms unfolding cleanups_ok_def cleanup_ok_def tasks_le_def by metis

lemma locks_ok_update:
  assumes "locks_ok ts ls" "\<And>t. t \<in> set ts \<Longrightarrow> t_id t = u \<Longrightarrow> keeps_task f t \<and> (unfinished t \<longrightarrow> unfinished (f t))"
  shows "locks_ok (sql_update (\<lambda>t. t_id t = u) f ts) ls"
  unfolding locks_ok_def
proof
  fix l assume "l \<in> set ls"
  then obtain t where t: "t \<in> set ts" "t_id t = sl_active_task_id l" "t_session_id t = sl_session_id l" "unfinished t"
    using assms(1) unfolding locks_ok_def by blast
  let ?t = "if t_id t = u then f t else t"
  have "?t \<in> set (sql_update (\<lambda>t. t_id t = u) f ts)" using t(1) by (auto simp: sql_simps)
  then show "\<exists>t \<in> set (sql_update (\<lambda>t. t_id t = u) f ts). t_id t = sl_active_task_id l
      \<and> t_session_id t = sl_session_id l \<and> unfinished t"
    using t assms(2) [OF t(1)] by (intro bexI [of _ ?t]) (auto simp: keeps_task_def)
qed

text \<open>When the task ends, its lock goes with it.\<close>

lemma locks_ok_release:
  assumes "locks_ok ts ls" "\<And>t. t \<in> set ts \<Longrightarrow> t_id t = u \<Longrightarrow> keeps_task f t"
  shows "locks_ok (sql_update (\<lambda>t. t_id t = u) f ts) (filter (\<lambda>l. sl_active_task_id l \<noteq> u) ls)"
  unfolding locks_ok_def
proof
  fix l assume l: "l \<in> set (filter (\<lambda>l. sl_active_task_id l \<noteq> u) ls)"
  then obtain t where t: "t \<in> set ts" "t_id t = sl_active_task_id l" "t_session_id t = sl_session_id l" "unfinished t"
    using assms(1) unfolding locks_ok_def by auto
  moreover have "t \<in> set (sql_update (\<lambda>t. t_id t = u) f ts)" using t l by (auto simp: sql_simps intro!: bexI [of _ t])
  ultimately show "\<exists>t \<in> set (sql_update (\<lambda>t. t_id t = u) f ts). t_id t = sl_active_task_id l
      \<and> t_session_id t = sl_session_id l \<and> unfinished t" by blast
qed

lemma locks_ok_subset: "locks_ok ts ls \<Longrightarrow> set ls' \<subseteq> set ls \<Longrightarrow> locks_ok ts ls'"
  by (auto simp: locks_ok_def)

lemma locks_ok_rows:
  assumes "locks_ok ts ls" "\<And>l. sl_active_task_id (f l) = sl_active_task_id l \<and> sl_session_id (f l) = sl_session_id l"
  shows "locks_ok ts (sql_update p f ls)"
  using assms by (fastforce simp: locks_ok_def sql_simps)

subsection \<open>Requests\<close>

definition keeps_request :: "(api_row \<Rightarrow> api_row) \<Rightarrow> api_row \<Rightarrow> bool" where
  "keeps_request f r = (ap_request_id (f r) = ap_request_id r \<and> ap_command (f r) = ap_command r
     \<and> ap_session_id (f r) = ap_session_id r \<and> ap_task_id (f r) = ap_task_id r
     \<and> ap_attempts r \<le> ap_attempts (f r) \<and> (active_state (ap_state (f r)) \<longrightarrow> active_state (ap_state r)))"

lemma updated_request:
  assumes "\<And>r. r \<in> set rs \<Longrightarrow> p r \<Longrightarrow> keeps_request f r" "x \<in> set (sql_update p f rs)"
  obtains r where "r \<in> set rs" "ap_request_id x = ap_request_id r" "ap_command x = ap_command r"
    "ap_session_id x = ap_session_id r" "ap_task_id x = ap_task_id r" "ap_attempts r \<le> ap_attempts x"
    "active_state (ap_state x) \<longrightarrow> active_state (ap_state r)"
proof -
  obtain r where r: "r \<in> set rs" "x = (if p r then f r else r)" using assms(2) by (auto simp: in_sql_update)
  show ?thesis using assms(1) [OF r(1)] r(2) by (intro that [OF r(1)]) (auto simp: keeps_request_def)
qed

lemma requests_ok_update:
  assumes "requests_ok ts rs" "\<And>r. r \<in> set rs \<Longrightarrow> p r \<Longrightarrow> keeps_request f r"
  shows "requests_ok ts (sql_update p f rs)"
proof -
  have "map ap_request_id (sql_update p f rs) = map ap_request_id rs"
    using assms(2) by (auto simp: sql_update_def keeps_request_def)
  moreover have "request_ok ts x" if x: "x \<in> set (sql_update p f rs)" for x
  proof (rule updated_request [OF assms(2) x], assumption, assumption)
    fix r assume "r \<in> set rs" "ap_request_id x = ap_request_id r" "ap_command x = ap_command r"
      "ap_session_id x = ap_session_id r" "ap_task_id x = ap_task_id r" "ap_attempts r \<le> ap_attempts x"
    moreover from this(1) have "request_ok ts r" using assms(1) by (simp add: requests_ok_def)
    ultimately show ?thesis unfolding request_ok_def by (metis order_trans)
  qed
  moreover have "ap_request_id x = ap_request_id y"
    if xy: "x \<in> set (sql_update p f rs)" "y \<in> set (sql_update p f rs)" and act: "active_state (ap_state x)" "active_state (ap_state y)"
      "ap_session_id x = ap_session_id y" for x y
  proof -
    obtain a where a: "a \<in> set rs" "ap_request_id x = ap_request_id a" "ap_session_id x = ap_session_id a" "active_state (ap_state a)"
      by (rule updated_request [OF assms(2) xy(1)]) (use act in auto)
    obtain b where b: "b \<in> set rs" "ap_request_id y = ap_request_id b" "ap_session_id y = ap_session_id b" "active_state (ap_state b)"
      by (rule updated_request [OF assms(2) xy(2)]) (use act in auto)
    have "ap_request_id a = ap_request_id b" using requests_okD(1) [OF assms(1) a(1) a(4) b(1) b(4)] a(3) b(3) act(3) by simp
    then show ?thesis using a b by simp
  qed
  moreover have "ap_task_id x = t_id t"
    if x: "x \<in> set (sql_update p f rs)" and t: "t \<in> set ts" "active_state (ap_state x)" "unfinished t" "ap_session_id x = t_session_id t" for x t
  proof -
    obtain a where a: "a \<in> set rs" "ap_task_id x = ap_task_id a" "ap_session_id x = ap_session_id a" "active_state (ap_state a)"
      by (rule updated_request [OF assms(2) x]) (use t in auto)
    then show ?thesis using requests_okD(2) [OF assms(1) a(1) a(4) t(1) t(3)] t(4) by simp
  qed
  moreover have "distinct (map ap_request_id rs)" using assms(1) unfolding requests_ok_def by blast
  ultimately show ?thesis unfolding requests_ok_def by (simp only:) blast
qed

lemma cleanups_ok_requests:
  assumes "cleanups_ok ts rs cs" "\<And>r. r \<in> set rs \<Longrightarrow> p r \<Longrightarrow> keeps_request f r"
  shows "cleanups_ok ts (sql_update p f rs) cs"
proof -
  have "\<not> active_state (ap_state x)"
    if h: "c \<in> set cs" "fc_state c = Fc_DONE" "x \<in> set (sql_update p f rs)" "ap_task_id x = fc_task_id c" for c x
  proof -
    obtain a where "a \<in> set rs" "ap_task_id x = ap_task_id a" "active_state (ap_state x) \<longrightarrow> active_state (ap_state a)"
      by (rule updated_request [OF assms(2) h(3)]) auto
    then show ?thesis using h assms(1) unfolding cleanups_ok_def cleanup_ok_def by auto
  qed
  then show ?thesis using assms(1) unfolding cleanups_ok_def cleanup_ok_def by blast
qed

subsection \<open>Cleanups\<close>

definition keeps_cleanup :: "(cleanup_row \<Rightarrow> cleanup_row) \<Rightarrow> cleanup_row \<Rightarrow> bool" where
  "keeps_cleanup f c = (fc_task_id (f c) = fc_task_id c \<and> fc_session_id (f c) = fc_session_id c
     \<and> fc_preserve_terminal (f c) = fc_preserve_terminal c \<and> fc_final_status (f c) = fc_final_status c)"

lemma cleanups_ok_update:
  assumes "cleanups_ok ts rs cs" "\<And>c. c \<in> set cs \<Longrightarrow> fc_task_id c = u \<Longrightarrow> keeps_cleanup f c"
    and "\<And>c. c \<in> set cs \<Longrightarrow> fc_task_id c = u \<Longrightarrow> fc_state (f c) = Fc_DONE \<Longrightarrow>
      (\<exists>t \<in> set ts. t_id t = u \<and> t_session_id t = fc_session_id c \<and> is_terminal (t_status t))
      \<and> (\<forall>r \<in> set rs. ap_task_id r = u \<longrightarrow> \<not> active_state (ap_state r))"
  shows "cleanups_ok ts rs (sql_update (\<lambda>c. fc_task_id c = u) f cs)"
proof -
  have "map fc_task_id (sql_update (\<lambda>c. fc_task_id c = u) f cs) = map fc_task_id cs"
    using assms(2) by (auto simp: sql_update_def keeps_cleanup_def)
  moreover have "cleanup_ok ts rs x"
    if x: "x \<in> set (sql_update (\<lambda>c. fc_task_id c = u) f cs)" for x
  proof -
    obtain c where c: "c \<in> set cs" "x = (if fc_task_id c = u then f c else c)" using x by (auto simp: sql_simps)
    show ?thesis
    proof (cases "fc_task_id c = u")
      case False
      then show ?thesis using c assms(1) unfolding cleanups_ok_def by simp
    next
      case True
      then have k: "fc_task_id x = fc_task_id c" "fc_session_id x = fc_session_id c"
          "fc_preserve_terminal x = fc_preserve_terminal c" "fc_final_status x = fc_final_status c"
        using c assms(2) by (auto simp: keeps_cleanup_def)
      show ?thesis
      proof (cases "fc_state x = Fc_DONE")
        case False
        then show ?thesis using c(1) k assms(1) unfolding cleanups_ok_def cleanup_ok_def by metis
      next
        case fin: True
        moreover have "is_terminal (fc_final_status c)" using assms(1) c(1) by (simp add: cleanups_ok_def cleanup_ok_def)
        ultimately show ?thesis using assms(3) [OF c(1) True] c True k unfolding cleanup_ok_def by (metis (full_types))
      qed
    qed
  qed
  moreover have "distinct (map fc_task_id cs)" using assms(1) unfolding cleanups_ok_def by blast
  ultimately show ?thesis unfolding cleanups_ok_def by (simp only:) blast
qed

section \<open>The invariant under each operation\<close>

lemmas ok_defs = tasks_ok_def requests_ok_def locks_ok_def cleanups_ok_def

lemma agent_inv_frames [table_simps]:
  "agent_inv (add_event u ty pl db) = agent_inv db" "agent_inv (add_answer u m md db) = agent_inv db"
  "agent_inv (db\<lparr>db_effects := es\<rparr>) = agent_inv db" "agent_inv (update_binding u g db) = agent_inv db"
  "agent_inv (db\<lparr>db_bindings := bs\<rparr>) = agent_inv db"
  by (simp_all add: agent_inv_def add_event_def add_answer_def update_binding_def)

lemma inv_transaction:
  assumes "agent_inv db" "agent_inv (snd (body db))"
  shows "agent_inv (snd (transaction body db))"
  using assms by (cases "body db") (auto simp: transaction_def split: sum.splits)

lemma inv_update_task:
  assumes "agent_inv db" "\<And>t. t \<in> set (db_tasks db) \<Longrightarrow> t_id t = u \<Longrightarrow> keeps_task f t \<and> (unfinished t \<longrightarrow> unfinished (f t))"
  shows "agent_inv (update_task u f db)"
  using assms tasks_le_update [of "db_tasks db" u f]
  by (auto simp: agent_inv_def table_simps intro: tasks_ok_update requests_ok_le cleanups_ok_le locks_ok_update)

lemma inv_end_task:
  assumes "agent_inv db" "\<And>t. t \<in> set (db_tasks db) \<Longrightarrow> t_id t = u \<Longrightarrow> keeps_task f t"
  shows "agent_inv (release_lock u (update_task u f db))"
  using assms tasks_le_update [of "db_tasks db" u f]
  by (auto simp: agent_inv_def release_lock_def table_simps
      intro: tasks_ok_update requests_ok_le cleanups_ok_le locks_ok_release)

lemma inv_update_requests:
  assumes "agent_inv db" "\<And>r. r \<in> set (db_requests db) \<Longrightarrow> p r \<Longrightarrow> keeps_request f r"
  shows "agent_inv (db\<lparr>db_requests := sql_update p f (db_requests db)\<rparr>)"
  using assms requests_ok_update [of _ "db_requests db" p f] cleanups_ok_requests [of _ "db_requests db" _ p f]
  by (simp add: agent_inv_def)

lemma inv_update_request:
  assumes "agent_inv db" "\<And>r. r \<in> set (db_requests db) \<Longrightarrow> ap_request_id r = u \<Longrightarrow> keeps_request f r"
  shows "agent_inv (update_request u f db)"
  unfolding update_request_def by (rule inv_update_requests) (use assms in auto)

lemma inv_update_cleanup:
  assumes "agent_inv db" "\<And>c. c \<in> set (db_cleanups db) \<Longrightarrow> fc_task_id c = u \<Longrightarrow> keeps_cleanup f c \<and> fc_state (f c) \<noteq> Fc_DONE"
  shows "agent_inv (update_cleanup u f db)"
  using assms cleanups_ok_update [of "db_tasks db" "db_requests db" "db_cleanups db" u f]
  by (simp add: agent_inv_def table_simps)

lemma inv_locks:
  assumes "agent_inv db" "locks_ok (db_tasks db) ls"
  shows "agent_inv (db\<lparr>db_locks := ls\<rparr>)"
  using assms by (simp add: agent_inv_def)

lemma task_only:
  assumes "agent_inv db" "task_of u db = Some t" "x \<in> set (db_tasks db)" "t_id x = u"
  shows "x = t"
proof -
  have "distinct (map t_id (db_tasks db))" using assms(1) unfolding agent_inv_def tasks_ok_def by blast
  then show ?thesis using key_unique [of t_id "db_tasks db" x t] row_of_key(1) [OF assms(2)] assms(3,4) by simp
qed

subsection \<open>Projection and effects\<close>

lemma projector_write_inv:
  assumes "agent_inv db"
  shows "agent_inv (snd (projector_write now u status intr db))"
proof -
  obtain res db' where run: "projector_write now u status intr db = (res, db')" by (rule prod.exhaust)
  then show ?thesis
  proof (cases rule: projector_write_cases)
    case (wrote t ty pl)
    note only = task_only [OF assms wrote(1)]
    have "agent_inv (update_task u (set_projection now status intr) db)"
      by (rule inv_update_task [OF assms]) (use only wrote(2,3) in \<open>auto simp: keeps_task_def\<close>)
    then show ?thesis using run wrote by (simp add: table_simps)
  qed (use assms run in simp)
qed

lemma effect_prepare_inv:
  assumes "agent_inv db"
  shows "agent_inv (snd (effect_prepare digest key task kind sha request db))"
  unfolding effect_prepare_def
  by (rule inv_transaction) (use assms in \<open>simp_all add: Let_def table_simps\<close>)

lemma effect_complete_inv:
  assumes "agent_inv db"
  shows "agent_inv (snd (effect_complete digest key response db))"
  unfolding effect_complete_def
proof (rule inv_transaction [OF assms])
  show "agent_inv (snd (case effect_of key db of
        None \<Rightarrow> (Inl (LookupError ''Executor request was not prepared''), db)
      | Some r \<Rightarrow> (case ef_response r of
          Some previous \<Rightarrow>
            if drop_version response \<noteq> drop_version previous
            then (Inl (ValueError ''Executor effect response identity changed''), db)
            else (effect_record digest r, db)
        | None \<Rightarrow> (effect_record digest (r\<lparr>ef_response := Some response\<rparr>),
            db\<lparr>db_effects := sql_update (\<lambda>x. ef_key x = key) (\<lambda>x. x\<lparr>ef_response := Some response\<rparr>) (db_effects db)\<rparr>))))"
    using assms by (cases "effect_of key db"; cases "ef_response (the (effect_of key db))") (simp_all add: table_simps)
qed

lemma create_binding_inv:
  assumes "agent_inv db"
  shows "agent_inv (snd (create_binding now t exec version operation nxt create db))"
proof -
  let ?db1 = "update_task (t_id t) (\<lambda>x. x\<lparr>t_execution_id := Some exec, t_audit := touch_audit now ''AGENT'' (t_audit x)\<rparr>) db"
  have inv1: "agent_inv ?db1" by (rule inv_update_task [OF assms]) (simp add: keeps_task_def)
  have "locks_ok (db_tasks ?db1) (sql_update p (\<lambda>l. l\<lparr>sl_execution_id := Some exec\<rparr>) (db_locks db))" for p
    by (rule locks_ok_rows) (use inv1 in \<open>simp_all add: agent_inv_def table_simps\<close>)
  from inv_locks [OF inv1 this] show ?thesis
    using assms by (cases operation; cases nxt) (simp_all add: create_binding_def table_simps)
qed

lemma effect_binding_inv:
  assumes "agent_inv db"
  shows "agent_inv (snd (effect_binding now task exec version operation nxt create db))"
  unfolding effect_binding_def
proof (rule inv_transaction [OF assms], cases "task_of task db")
  case (Some t)
  show "agent_inv (snd (case task_of task db of
        None \<Rightarrow> (Inl (LookupError ''Unknown effect Task''), db)
      | Some t \<Rightarrow> (case binding_of task db of
          None \<Rightarrow> create_binding now t exec version operation nxt create db
        | Some b \<Rightarrow> (case advance_binding b exec operation nxt create of
            Inl e \<Rightarrow> (Inl e, db)
          | Inr b' \<Rightarrow> (Inr (), update_binding task
              (\<lambda>_. b'\<lparr>eb_execution_version := max (eb_execution_version b') version\<rparr>) db)))))"
    using assms create_binding_inv [OF assms] Some
    by (cases "binding_of task db"; cases "advance_binding (the (binding_of task db)) exec operation nxt create")
      (simp_all add: table_simps)
qed (use assms in simp)

lemma keeps_set_terminal:
  assumes "is_terminal status"
  shows "keeps_task (set_terminal now status m) t"
  using assms by (simp add: keeps_task_def set_terminal_def)

lemma release_frames [table_simps]:
  "release_lock u (add_event v ty pl db) = add_event v ty pl (release_lock u db)"
  "release_lock u (add_answer v m md db) = add_answer v m md (release_lock u db)"
  by (simp_all add: release_lock_def add_event_def add_answer_def)

lemma effect_terminal_inv:
  assumes "agent_inv db"
  shows "agent_inv (snd (effect_terminal now task status message metadata db))"
proof (cases "is_terminal status")
  case True
  let ?closed = "release_lock task (update_task task (set_terminal now status (Some message)) db)"
  have "agent_inv ?closed" by (rule inv_end_task [OF assms]) (rule keeps_set_terminal [OF True])
  then have ended: "agent_inv (release_lock task (add_event task ty pl (add_answer task message metadata
      (update_task task (set_terminal now status (Some message)) db))))" for ty pl
    by (simp add: table_simps)
  show ?thesis
    unfolding effect_terminal_def using True
    by (simp, intro inv_transaction [OF assms]) (use assms ended in \<open>auto split: option.split\<close>)
qed (use assms in \<open>simp add: effect_terminal_def\<close>)

lemma effect_promotion_inv:
  assumes "agent_inv db"
  shows "agent_inv (snd (effect_promotion task db))"
  unfolding effect_promotion_def
  by (rule inv_transaction [OF assms]) (use assms in \<open>auto simp: table_simps split: option.split\<close>)

subsection \<open>Admission\<close>

lemma keeps_request_rows:
  "active_state (ap_state r) \<Longrightarrow> keeps_request (set_request_state now st) r"
  "open_state (ap_state r) \<Longrightarrow> keeps_request (claim_row now cleaning m d) r"
  "open_state (ap_state r) \<Longrightarrow> keeps_request (finish_row now st err d) r"
  "keeps_request (defer_row now d) r"
  by (cases "ap_state r"; simp add: keeps_request_def set_request_state_def claim_row_def finish_row_def defer_row_def)+

lemma request_only:
  assumes "agent_inv db" "request_of u db = Some r" "x \<in> set (db_requests db)" "ap_request_id x = u"
  shows "x = r"
proof -
  have "distinct (map ap_request_id (db_requests db))" using assms(1) unfolding agent_inv_def requests_ok_def by blast
  then show ?thesis using key_unique [of ap_request_id "db_requests db" x r] row_of_key(2) [OF assms(2)] assms(3,4) by simp
qed

lemma inv_update_request_row:
  assumes "agent_inv db" "request_of u db = Some r" "keeps_request f r"
  shows "agent_inv (update_request u f db)"
  by (rule inv_update_request [OF assms(1)]) (use request_only [OF assms(1,2)] assms(3) in auto)

lemma request_claim_inv:
  assumes "agent_inv db"
  shows "agent_inv (snd (request_claim fpq now m d u db))"
  unfolding request_claim_def
proof (rule inv_transaction [OF assms])
  show "agent_inv (snd (case request_required u db of
        Inl e \<Rightarrow> (Inl e, db)
      | Inr row \<Rightarrow>
          if \<not> open_state (ap_state row) then (api_record fpq row, db)
          else (let f = claim_row now (cleanup_of (ap_task_id row) db \<noteq> None) m d
                in (api_record fpq (f row), update_request u f db))))"
    using assms inv_update_request_row [OF assms _ keeps_request_rows(2)]
    by (auto simp: request_required_def Let_def split: option.split)
qed

lemma request_finish_inv:
  assumes "agent_inv db"
  shows "agent_inv (snd (request_finish fpq now rec st err d db))"
proof -
  have upd: "agent_inv (update_request (ap_request_id row) (finish_row now st err d) db)"
    if "request_of u db = Some row" "open_state (ap_state row)" for u row
    using inv_update_request_row [OF assms that(1) keeps_request_rows(3) [OF that(2)]] row_of_key(2) [OF that(1)] by simp
  show ?thesis
  proof (cases "st \<in> {Rs_PENDING, Rs_APPLIED, Rs_REJECTED, Rs_BLOCKED}")
    case True
    have "agent_inv (snd (transaction (\<lambda>db.
        (case request_required (rq_request_id (ap_command rec)) db of
          Inl e \<Rightarrow> (Inl e, db)
        | Inr row \<Rightarrow>
            if \<not> open_state (ap_state rec) \<or> ap_state row \<noteq> ap_state rec \<or> ap_attempts row \<noteq> ap_attempts rec
            then (Inl (SessionConflictError ''API request attempt was superseded''), db)
            else (api_record fpq (finish_row now st err d row),
                  update_request (ap_request_id row) (finish_row now st err d) db))) db))"
      by (rule inv_transaction [OF assms])
        (use assms upd in \<open>auto simp: request_required_def split: option.split\<close>)
    with True show ?thesis unfolding request_finish_def by simp
  qed (use assms in \<open>simp add: request_finish_def\<close>)
qed

lemma resolve_applied_inv:
  assumes "agent_inv db"
  shows "agent_inv (snd (resolve_applied now rec db))"
proof -
  have upd: "agent_inv (update_request (ap_request_id row) (set_request_state now Rs_APPLIED) db)"
    if "request_of u db = Some row" "ap_state row = Rs_BLOCKED" for u row
    using inv_update_request_row [OF assms that(1) keeps_request_rows(1)] row_of_key(2) [OF that(1)] that(2) by simp
  show ?thesis
    unfolding resolve_applied_def
    by (rule inv_transaction [OF assms]) (use assms upd in \<open>auto simp: request_required_def split: option.split\<close>)
qed

lemma request_defer_busy_inv:
  assumes "agent_inv db"
  shows "agent_inv (snd (request_defer_busy now u d db))"
  unfolding request_defer_busy_def
  by (rule inv_transaction [OF assms])
    (use assms inv_update_request [OF assms keeps_request_rows(4)] in \<open>auto simp: request_required_def split: option.split\<close>)

lemma tasks_ok_append:
  assumes ok: "tasks_ok ts" and new: "\<And>x. x \<in> set ts \<Longrightarrow> t_id x \<noteq> t_id t"
    and over: "\<And>x. x \<in> set ts \<Longrightarrow> t_session_id x = t_session_id t \<Longrightarrow> is_terminal (t_status x)"
  shows "tasks_ok (ts @ [t])"
proof -
  have "distinct (map t_id (ts @ [t]))" using ok new unfolding tasks_ok_def by (simp add: image_iff) metis
  moreover have "t_id x = t_id y"
    if h: "x \<in> set (ts @ [t])" "y \<in> set (ts @ [t])" "unfinished x" "unfinished y" "t_session_id x = t_session_id y" for x y
  proof -
    consider "x \<in> set ts" "y \<in> set ts" | "x = t" "y = t" | "x = t" "y \<in> set ts" | "x \<in> set ts" "y = t" using h(1,2) by auto
    then show ?thesis
    proof cases
      case 1
      then show ?thesis by (rule tasks_okD [OF ok]) (fact h)+
    next
      case 3
      then show ?thesis using over [OF 3(2)] h by simp
    next
      case 4
      then show ?thesis using over [OF 4(1)] h by simp
    qed simp
  qed
  ultimately show ?thesis unfolding tasks_ok_def by blast
qed

lemma requests_ok_new_task:
  assumes ok: "requests_ok ts rs" and quiet: "\<And>r. r \<in> set rs \<Longrightarrow> ap_session_id r = t_session_id t \<Longrightarrow> \<not> active_state (ap_state r)"
  shows "requests_ok (ts @ [t]) rs"
proof -
  have "request_ok (ts @ [t]) r" if "r \<in> set rs" for r
  proof -
    have "request_ok ts r" using ok that unfolding requests_ok_def by blast
    then show ?thesis unfolding request_ok_def set_append by blast
  qed
  moreover have "ap_task_id r = t_id x"
    if "r \<in> set rs" "x \<in> set (ts @ [t])" "active_state (ap_state r)" "unfinished x" "ap_session_id r = t_session_id x" for r x
  proof (cases "x = t")
    case True
    then show ?thesis using quiet [OF that(1)] that(3,5) by simp
  next
    case False
    then show ?thesis using requests_okD(2) [OF ok that(1,3)] that(2,4,5) by simp
  qed
  ultimately show ?thesis using ok unfolding requests_ok_def by blast
qed

lemma requests_ok_append:
  assumes ok: "requests_ok ts rs" and new: "\<And>x. x \<in> set rs \<Longrightarrow> ap_request_id x \<noteq> ap_request_id r" and "request_ok ts r"
    and quiet: "\<And>x. x \<in> set rs \<Longrightarrow> ap_session_id x = ap_session_id r \<Longrightarrow> \<not> active_state (ap_state x)"
    and one: "\<And>t. t \<in> set ts \<Longrightarrow> unfinished t \<Longrightarrow> t_session_id t = ap_session_id r \<Longrightarrow> ap_task_id r = t_id t"
  shows "requests_ok ts (rs @ [r])"
proof -
  have "distinct (map ap_request_id (rs @ [r]))" using ok new unfolding requests_ok_def by (simp add: image_iff) metis
  moreover have "request_ok ts x" if "x \<in> set (rs @ [r])" for x
    using ok assms(3) that unfolding requests_ok_def by auto
  moreover have "ap_request_id x = ap_request_id y"
    if h: "x \<in> set (rs @ [r])" "y \<in> set (rs @ [r])" "active_state (ap_state x)" "active_state (ap_state y)"
      "ap_session_id x = ap_session_id y" for x y
  proof -
    consider "x \<in> set rs" "y \<in> set rs" | "x = r" "y = r" | "x = r" "y \<in> set rs" | "x \<in> set rs" "y = r" using h(1,2) by auto
    then show ?thesis
    proof cases
      case 1
      show ?thesis by (rule requests_okD(1) [OF ok 1(1) h(3) 1(2)]) (fact h)+
    next
      case 3
      then show ?thesis using quiet [OF 3(2)] h by simp
    next
      case 4
      then show ?thesis using quiet [OF 4(1)] h by simp
    qed simp
  qed
  moreover have "ap_task_id x = t_id t"
    if h: "x \<in> set (rs @ [r])" "t \<in> set ts" "active_state (ap_state x)" "unfinished t" "ap_session_id x = t_session_id t" for x t
  proof (cases "x = r")
    case True
    then show ?thesis using one [OF h(2,4)] h(5) by simp
  next
    case False
    then show ?thesis using requests_okD(2) [OF ok _ h(3) h(2) h(4) h(5)] h(1) by simp
  qed
  ultimately show ?thesis unfolding requests_ok_def by blast
qed

text \<open>A new task enters a session without unfinished task and without active request.\<close>

lemma start_task_inv:
  assumes inv: "agent_inv db" and fresh: "task_of task db = None"
    and idle: "unfinished_task (tt_session_id turn) db = None" "active_request (tt_session_id turn) db = None"
  shows "agent_inv (snd (start_task now task msg turn db))"
proof -
  let ?t = "new_task now task msg turn"
  let ?ts = "db_tasks db @ [?t]"
  have new: "t_id x \<noteq> task" if "x \<in> set (db_tasks db)" for x using fresh that by (auto simp: task_of_def find_None_iff)
  have over: "is_terminal (t_status x)" if "x \<in> set (db_tasks db)" "t_session_id x = tt_session_id turn" for x
    using idle(1) that by (auto simp: unfinished_task_def find_None_iff)
  have quiet: "\<not> active_state (ap_state r)" if "r \<in> set (db_requests db)" "ap_session_id r = tt_session_id turn" for r
    using idle(2) that by (auto simp: active_request_def find_None_iff)
  have t: "t_id ?t = task" "t_session_id ?t = tt_session_id turn" by (simp_all add: new_task_def)
  have "tasks_ok ?ts" by (rule tasks_ok_append) (use inv new over t in \<open>simp_all add: agent_inv_def\<close>)
  moreover have "requests_ok ?ts (db_requests db)"
    by (rule requests_ok_new_task) (use inv quiet t in \<open>simp_all add: agent_inv_def\<close>)
  moreover have "locks_ok ?ts (db_locks db)" using inv unfolding agent_inv_def locks_ok_def by auto
  moreover have "cleanups_ok ?ts (db_requests db) (db_cleanups db)"
    using inv unfolding agent_inv_def cleanups_ok_def cleanup_ok_def by auto
  ultimately show ?thesis using inv by (simp add: start_task_def agent_inv_def table_simps)
qed

lemma insert_request_inv:
  assumes inv: "agent_inv db" and fresh: "request_of (rq_request_id command) db = None"
    and idle: "active_request (tt_session_id (rq_turn command)) db = None"
    and task: "uuid_parse (tt_active_task_id (rq_turn command)) = Some task" "cleanup_of task db = None"
    and t: "t \<in> set (db_tasks db)" "t_id t = task" "t_session_id t = tt_session_id (rq_turn command)" "unfinished t"
  shows "agent_inv (snd (insert_request fpq now command target base db))"
proof -
  let ?r = "new_request fpq now task command target base"
  have new: "ap_request_id x \<noteq> rq_request_id command" if "x \<in> set (db_requests db)" for x
    using fresh that by (auto simp: request_of_def find_None_iff)
  have quiet: "\<not> active_state (ap_state x)" if "x \<in> set (db_requests db)" "ap_session_id x = tt_session_id (rq_turn command)" for x
    using idle that by (auto simp: active_request_def find_None_iff)
  have r: "ap_request_id ?r = rq_request_id command" "ap_session_id ?r = tt_session_id (rq_turn command)" "ap_task_id ?r = task"
      "ap_command ?r = command" "ap_attempts ?r = 0"
    by (simp_all add: new_request_def)
  have ok: "tasks_ok (db_tasks db)" using inv by (simp add: agent_inv_def)
  have one: "t_id x = task" if "x \<in> set (db_tasks db)" "unfinished x" "t_session_id x = tt_session_id (rq_turn command)" for x
    using tasks_okD [OF ok that(1) t(1) that(2) t(4)] that(3) t by simp
  have "request_ok (db_tasks db) ?r" using r t by (auto simp: request_ok_def)
  then have "requests_ok (db_tasks db) (db_requests db @ [?r])"
    by (intro requests_ok_append) (use inv new quiet one r in \<open>auto simp: agent_inv_def\<close>)
  moreover have "cleanups_ok (db_tasks db) (db_requests db @ [?r]) (db_cleanups db)"
    using inv r task(2) unfolding agent_inv_def cleanups_ok_def cleanup_ok_def by (auto simp: cleanup_of_def find_None_iff)
  ultimately show ?thesis using inv task(1) by (simp add: insert_request_def agent_inv_def Let_def)
qed

text \<open>Admission of a task either refuses, finds the task it resumes, or starts a new one.\<close>

lemma admit_task_cases [consumes 1, case_names refused resumed started]:
  assumes "admit_task now command db = (res, db')"
  obtains (refused) e where "res = Inl e" "db' = db"
  | (resumed) task t where "res = Inr ()" "db' = db" "rq_kind command \<noteq> Rq_START"
      "uuid_parse (tt_active_task_id (rq_turn command)) = Some task"
      "cleanup_of task db = None" "task_of task db = Some t" "same_task t (rq_turn command)" "unfinished t"
  | (started) task msg where "res = Inr ()" "start_task now task msg (rq_turn command) db = (Inr (), db')" "rq_kind command = Rq_START"
      "uuid_parse (tt_active_task_id (rq_turn command)) = Some task"
      "uuid_parse (tt_current_input_message_id (rq_turn command)) = Some msg"
      "cleanup_of task db = None" "task_of task db = None" "busy_with (tt_session_id (rq_turn command)) db = None"
proof (cases res)
  case (Inl e)
  then have "db' = db"
    using assms by (auto simp: admit_task_def start_task_def Let_def split: option.splits if_splits)
  then show ?thesis using that(1) Inl by blast
next
  case (Inr u)
  then show ?thesis
    using assms that(2,3) by (auto simp: admit_task_def Let_def split: option.splits if_splits)
qed

lemma start_task_row:
  assumes "start_task now task msg turn db = (Inr (), db')"
  shows "db_tasks db' = db_tasks db @ [new_task now task msg turn]" "db_requests db' = db_requests db"
    "db_cleanups db' = db_cleanups db" "db_locks db' = db_locks db" "db_effects db' = db_effects db"
    "db_bindings db' = db_bindings db"
    "db_events db' = db_events db @ [\<lparr>te_task_id = task, te_event_type = ''task.accepted'', te_payload = JObj [(''status'', JStr ''ACCEPTED'')]\<rparr>]"
  using assms by (auto simp: start_task_def add_event_def split: if_splits)

lemma not_busy: "busy_with sess db = None \<Longrightarrow> unfinished_task sess db = None"
  by (auto simp: busy_with_def split: option.splits if_splits)

lemma same_rows:
  "db_requests db' = db_requests db \<Longrightarrow> request_of u db' = request_of u db"
  "db_requests db' = db_requests db \<Longrightarrow> active_request sess db' = active_request sess db"
  "db_cleanups db' = db_cleanups db \<Longrightarrow> cleanup_of u db' = cleanup_of u db"
  by (simp_all add: request_of_def active_request_def cleanup_of_def)

lemma accept_body_inv:
  assumes inv: "agent_inv db"
  shows "agent_inv (snd (accept_body fpq now command target base db))"
proof (cases "request_of (rq_request_id command) db = None \<and> active_request (tt_session_id (rq_turn command)) db = None")
  case True
  then have fresh: "request_of (rq_request_id command) db = None"
    and idle: "active_request (tt_session_id (rq_turn command)) db = None" by simp_all
  obtain res db1 where run: "admit_task now command db = (res, db1)" by (rule prod.exhaust)
  then have "agent_inv (snd (sbind (admit_task now command) (\<lambda>_. insert_request fpq now command target base) db))"
  proof (cases rule: admit_task_cases)
    case (refused e)
    then show ?thesis using run inv by (simp add: sbind_def)
  next
    case (resumed task t)
    have "agent_inv (snd (insert_request fpq now command target base db))"
      using row_of_key(1) [OF resumed(6)] resumed(7)
      by (intro insert_request_inv [OF inv fresh idle resumed(4,5), of t]) (use resumed(8) in \<open>simp_all add: same_task_def\<close>)
    then show ?thesis using run resumed by (simp add: sbind_def)
  next
    case (started task msg)
    note rows = start_task_row [OF started(2)]
    have inv1: "agent_inv db1" using start_task_inv [OF inv started(7) not_busy [OF started(8)] idle, of now msg] started(2) by simp
    have same: "request_of (rq_request_id command) db1 = None" "active_request (tt_session_id (rq_turn command)) db1 = None"
        "cleanup_of task db1 = None"
      using same_rows [of db1 db] rows(2,3) fresh idle started(6) by simp_all
    have "agent_inv (snd (insert_request fpq now command target base db1))"
      by (rule insert_request_inv [OF inv1 same(1,2) started(4) same(3), of "new_task now task msg (rq_turn command)"])
        (simp_all add: rows(1) new_task_def)
    then show ?thesis using run started by (simp add: sbind_def)
  qed
  then show ?thesis using fresh idle by (simp add: accept_body_def)
qed (use inv in \<open>auto simp: accept_body_def split: option.split\<close>)

lemma store_accept_db: "snd (store_accept fpq now command target base db) = snd (transaction (accept_body fpq now command target base) db)"
  by (auto simp: store_accept_def split: prod.splits sum.splits exn.splits)

lemma store_accept_inv:
  assumes "agent_inv db"
  shows "agent_inv (snd (store_accept fpq now command target base db))"
  unfolding store_accept_db by (rule inv_transaction [OF assms]) (rule accept_body_inv [OF assms])

subsection \<open>Failure cleanup\<close>

lemma fencedD:
  assumes "fenced rec db = Inr row"
  shows "cleanup_of (fc_task_id rec) db = Some row" "fc_task_id row = fc_task_id rec" "fc_state row = Fc_PENDING"
    "fc_attempts row = fc_attempts rec"
  using assms row_of_key(3) [of "fc_task_id rec" db row]
  by (auto simp: fenced_def cleanup_required_def split: option.splits if_splits)

lemma cleanup_only:
  assumes "agent_inv db" "cleanup_of u db = Some c" "x \<in> set (db_cleanups db)" "fc_task_id x = u"
  shows "x = c"
proof -
  have "distinct (map fc_task_id (db_cleanups db))" using assms(1) unfolding agent_inv_def cleanups_ok_def by blast
  then show ?thesis using key_unique [of fc_task_id "db_cleanups db" x c] row_of_key(3) [OF assms(2)] assms(3,4) by simp
qed

lemma cleanup_row_ok: "agent_inv db \<Longrightarrow> cleanup_of u db = Some c \<Longrightarrow> cleanup_ok (db_tasks db) (db_requests db) c"
  using row_of_key(3) unfolding agent_inv_def cleanups_ok_def by blast

lemma inv_update_cleanup_row:
  assumes "agent_inv db" "cleanup_of u db = Some c" "keeps_cleanup f c" "fc_state (f c) \<noteq> Fc_DONE"
  shows "agent_inv (update_cleanup u f db)"
  by (rule inv_update_cleanup [OF assms(1)]) (use cleanup_only [OF assms(1,2)] assms(3,4) in auto)

lemma fenced_update_inv:
  assumes inv: "agent_inv db" and f: "\<And>c. fc_state c = Fc_PENDING \<Longrightarrow> keeps_cleanup f c \<and> fc_state (f c) \<noteq> Fc_DONE"
  shows "agent_inv (snd (fenced_update f rec db))"
  unfolding fenced_update_def
proof (rule inv_transaction [OF inv], cases "fenced rec db")
  case (Inr row)
  note row = fencedD [OF Inr]
  have "agent_inv (update_cleanup (fc_task_id row) f db)"
    by (rule inv_update_cleanup_row [OF inv, of _ row]) (use row f [OF row(3)] in simp_all)
  then show "agent_inv (snd (case fenced rec db of Inl e \<Rightarrow> (Inl e, db)
      | Inr row \<Rightarrow> (Inr (f row), update_cleanup (fc_task_id row) f db)))" using Inr by simp
qed (use inv in simp)

lemma cleanup_confirm_inv: "agent_inv db \<Longrightarrow> agent_inv (snd (cleanup_confirm now rec exec status message db))"
  by (auto simp: cleanup_confirm_def keeps_cleanup_def touch_def intro!: fenced_update_inv)

lemma cleanup_defer_inv: "agent_inv db \<Longrightarrow> agent_inv (snd (cleanup_defer now rec err delay blocked db))"
  by (auto simp: cleanup_defer_def keeps_cleanup_def touch_def intro!: fenced_update_inv)

lemma cleanup_defer_busy_inv:
  assumes "agent_inv db"
  shows "agent_inv (snd (cleanup_defer_busy now u delay db))"
  unfolding cleanup_defer_busy_def
  by (rule inv_transaction [OF assms])
    (use assms in \<open>auto simp: cleanup_required_def keeps_cleanup_def touch_def intro!: inv_update_cleanup_row split: option.split\<close>)

lemma cleanup_claim_inv:
  assumes "agent_inv db"
  shows "agent_inv (snd (cleanup_claim now u m d db))"
  unfolding cleanup_claim_def
  by (rule inv_transaction [OF assms])
    (use assms in \<open>auto simp: cleanup_required_def keeps_cleanup_def claim_cleanup_row_def touch_def
        intro!: inv_update_cleanup_row split: option.split if_splits\<close>)

lemma retry_blocked_inv:
  assumes "agent_inv db"
  shows "agent_inv (snd (retry_blocked now u q db))"
proof (cases "op_action q \<in> {''RETRY'', ''FINALIZE''}")
  case True
  have upd: "agent_inv (update_cleanup u (reopen_row now q) db)" if "cleanup_of u db = Some c" for c
    by (rule inv_update_cleanup_row [OF assms that]) (simp_all add: keeps_cleanup_def reopen_row_def touch_def)
  have "agent_inv (snd (transaction body db))" if "agent_inv (snd (body db))" for body :: "agent_db \<Rightarrow> (cleanup_row \<times> bool) result \<times> agent_db"
    using that by (rule inv_transaction [OF assms])
  then show ?thesis
    unfolding retry_blocked_def using True assms upd
    by (simp only: if_not_P not_not simp_thms)
      (auto simp: cleanup_required_def table_simps Let_def split: option.split)
qed (use assms in \<open>simp add: retry_blocked_def\<close>)

lemma locks_ok_take:
  assumes "agent_inv db" "t \<in> set (db_tasks db)" "t_id t = fc_task_id row" "t_session_id t = fc_session_id row" "unfinished t"
  shows "locks_ok (db_tasks db) (db_locks (snd (take_lock row db)))"
proof -
  have ok: "locks_ok (db_tasks db) (db_locks db)" using assms(1) by (simp add: agent_inv_def)
  have "locks_ok (db_tasks db) (sql_update p (\<lambda>l. l\<lparr>sl_locked := True\<rparr>) (db_locks db))" for p
    by (rule locks_ok_rows [OF ok]) simp
  moreover have "locks_ok (db_tasks db) (db_locks db @ [\<lparr>sl_session_id = fc_session_id row,
      sl_active_task_id = fc_task_id row, sl_execution_id = fc_execution_id row, sl_locked = True\<rparr>])"
    using ok assms(2-5) by (auto simp: locks_ok_def)
  ultimately show ?thesis using ok by (auto simp: take_lock_def split: option.split)
qed

lemma take_lock_frame: "snd (take_lock row db) = db\<lparr>db_locks := db_locks (snd (take_lock row db))\<rparr>"
  by (auto simp: take_lock_def split: option.split)

lemma cleanups_ok_append:
  assumes "cleanups_ok ts rs cs" "cleanup_ok ts rs c" "\<And>x. x \<in> set cs \<Longrightarrow> fc_task_id x \<noteq> fc_task_id c"
  shows "cleanups_ok ts rs (cs @ [c])"
  using assms unfolding cleanups_ok_def by (auto simp: image_iff) metis

lemma create_cleanup_inv:
  assumes inv: "agent_inv db" and t: "task_of u db = Some t" "cleanup_of u db = None"
  shows "agent_inv (snd (create_cleanup (new_cleanup now t turn source why exec) db))"
proof -
  let ?c = "new_cleanup now t turn source why exec"
  let ?db = "db\<lparr>db_cleanups := db_cleanups db @ [?c]\<rparr>"
  have c: "fc_task_id ?c = t_id t" "fc_session_id ?c = t_session_id t" "fc_preserve_terminal ?c = is_terminal (t_status t)"
    by (simp_all add: new_cleanup_def Let_def)
  have row: "t \<in> set (db_tasks db)" "t_id t = u" using row_of_key(1) [OF t(1)] by simp_all
  have "cleanup_ok (db_tasks db) (db_requests db) ?c"
    using row by (auto simp: cleanup_ok_def new_cleanup_def Let_def intro!: bexI [of _ t])
  then have "cleanups_ok (db_tasks db) (db_requests db) (db_cleanups db @ [?c])"
    by (rule cleanups_ok_append [rotated]) (use inv t(2) row(2) c in \<open>auto simp: agent_inv_def cleanup_of_def find_None_iff\<close>)
  then have inv1: "agent_inv ?db" using inv by (simp add: agent_inv_def)
  show ?thesis
  proof (cases "is_terminal (t_status t)")
    case False
    have "agent_inv (snd (take_lock ?c ?db))"
      by (subst take_lock_frame, rule inv_locks [OF inv1])
        (rule locks_ok_take [OF inv1, of t], use row c False in simp_all)
    then show ?thesis using False c
      by (cases "take_lock ?c ?db"; cases "fst (take_lock ?c ?db)")
        (auto simp: create_cleanup_def Let_def sbind_def swrite_def spure_def table_simps)
  qed (use inv1 c in \<open>simp add: create_cleanup_def Let_def\<close>)
qed

lemma cleanup_ensure_inv:
  assumes "agent_inv db"
  shows "agent_inv (snd (cleanup_ensure now u sess source why exec db))"
  unfolding cleanup_ensure_def
  by (rule inv_transaction [OF assms])
    (use assms create_cleanup_inv [OF assms] in \<open>auto simp: Let_def split: option.split\<close>)

lemma bind_execution_inv:
  assumes inv: "agent_inv db"
  shows "agent_inv (snd (bind_execution now rec exec db))"
proof -
  let ?f = "\<lambda>r. touch now ''AGENT'' (r\<lparr>fc_execution_id := Some exec\<rparr>)"
  have upd: "agent_inv ((update_task u (\<lambda>x. x\<lparr>t_execution_id := Some exec, t_audit := touch_audit now ''AGENT'' (t_audit x),
        t_version := t_version x + 1\<rparr>) (update_cleanup u ?f db))
      \<lparr>db_locks := sql_update p (\<lambda>l. l\<lparr>sl_execution_id := Some exec\<rparr>) (db_locks db)\<rparr>)"
    if "cleanup_of u db = Some c" "fc_state c = Fc_PENDING" for u c p
  proof -
    have inv1: "agent_inv (update_cleanup u ?f db)"
      by (rule inv_update_cleanup_row [OF inv that(1)]) (use that(2) in \<open>simp_all add: keeps_cleanup_def touch_def\<close>)
    have inv2: "agent_inv (update_task u (\<lambda>x. x\<lparr>t_execution_id := Some exec, t_audit := touch_audit now ''AGENT'' (t_audit x),
        t_version := t_version x + 1\<rparr>) (update_cleanup u ?f db))" (is "agent_inv ?db2")
      by (rule inv_update_task [OF inv1]) (simp add: keeps_task_def)
    have "locks_ok (db_tasks ?db2) (sql_update p (\<lambda>l. l\<lparr>sl_execution_id := Some exec\<rparr>) (db_locks db))"
      by (rule locks_ok_rows) (use inv2 in \<open>simp_all add: agent_inv_def table_simps\<close>)
    then show ?thesis by (rule inv_locks [OF inv2])
  qed
  show ?thesis
    unfolding bind_execution_def
  proof (rule inv_transaction [OF inv], cases "fenced rec db")
    case (Inr row)
    note row = fencedD [OF Inr]
    show "agent_inv (snd (case fenced rec db of
        Inl e \<Rightarrow> (Inl e, db)
      | Inr row \<Rightarrow>
         if \<not> may_bind (fc_execution_id row) exec then (Inl (ValueError ''Cleanup Execution identity cannot change''), db)
         else (case task_of (fc_task_id row) db of
           None \<Rightarrow> (Inl AssertionError, db)
         | Some t \<Rightarrow>
            if \<not> may_bind (t_execution_id t) exec then (Inl (ValueError ''Task Execution identity cannot change''), db)
            else (case lock_of (fc_session_id row) db of
              None \<Rightarrow> (Inl (ValueError ''Cleanup session lock is missing''), db)
            | Some l \<Rightarrow>
               if sl_active_task_id l \<noteq> fc_task_id row then (Inl (ValueError ''Cleanup session lock is missing''), db)
               else if \<not> may_bind (sl_execution_id l) exec then (Inl (ValueError ''Lock Execution identity cannot change''), db)
               else (let f = ?f in
                 (Inr (f row), (update_task (fc_task_id row) (\<lambda>x. x\<lparr>t_execution_id := Some exec,
                      t_audit := touch_audit now ''AGENT'' (t_audit x), t_version := t_version x + 1\<rparr>)
                    (update_cleanup (fc_task_id row) f db))
                    \<lparr>db_locks := sql_update (\<lambda>l. sl_session_id l = fc_session_id row)
                       (\<lambda>l. l\<lparr>sl_execution_id := Some exec\<rparr>) (db_locks db)\<rparr>))))))"
      using inv Inr row upd [of "fc_task_id row" row "\<lambda>l. sl_session_id l = fc_session_id row"]
      by (simp add: Let_def split: option.split)
  qed (use inv in simp)
qed

text \<open>The end of a cleanup, from a database whose only lock trouble is the lock of the ended task.\<close>

lemma close_cleanup_inv:
  assumes inv: "agent_inv (release_lock u db)" and over: "\<And>t. t \<in> set (db_tasks db) \<Longrightarrow> t_id t = u \<Longrightarrow> is_terminal (t_status t)"
  shows "agent_inv (close_cleanup now u db)"
proof -
  let ?db = "compensate now u (release_lock u db)"
  have swap: "release_lock u (compensate now u db) = ?db" by (simp add: release_lock_def compensate_def)
  have inv1: "agent_inv ?db"
    unfolding compensate_def by (rule inv_update_requests [OF inv]) (auto intro: keeps_request_rows)
  have quiet: "\<not> active_state (ap_state r)" if h: "r \<in> set (db_requests ?db)" "ap_task_id r = u" for r
  proof -
    obtain x where "r = (if ap_task_id x = u \<and> active_state (ap_state x) then set_request_state now Rs_COMPENSATED x else x)"
      using h(1) unfolding compensate_def by (auto simp: in_sql_update)
    then show ?thesis
      using h(2) by (cases "ap_task_id x = u \<and> active_state (ap_state x)") (simp_all add: set_request_state_def)
  qed
  have tasks: "db_tasks ?db = db_tasks db" by (simp add: compensate_def release_lock_def)
  have "cleanups_ok (db_tasks ?db) (db_requests ?db) (sql_update (\<lambda>c. fc_task_id c = u)
      (\<lambda>r. touch now ''AGENT'' (r\<lparr>fc_state := Fc_DONE, fc_last_error := None\<rparr>)) (db_cleanups ?db))"
  proof (rule cleanups_ok_update)
    show ok: "cleanups_ok (db_tasks ?db) (db_requests ?db) (db_cleanups ?db)" using inv1 by (simp add: agent_inv_def)
    fix c assume c: "c \<in> set (db_cleanups ?db)" "fc_task_id c = u"
    then have "cleanup_ok (db_tasks ?db) (db_requests ?db) c" using ok unfolding cleanups_ok_def by blast
    then obtain t where "t \<in> set (db_tasks ?db)" "t_id t = u" "t_session_id t = fc_session_id c"
      using c(2) unfolding cleanup_ok_def by blast
    then show "(\<exists>t \<in> set (db_tasks ?db). t_id t = u \<and> t_session_id t = fc_session_id c \<and> is_terminal (t_status t))
        \<and> (\<forall>r \<in> set (db_requests ?db). ap_task_id r = u \<longrightarrow> \<not> active_state (ap_state r))"
      using over quiet unfolding tasks by blast
  qed (simp add: keeps_cleanup_def touch_def)
  then show ?thesis using inv1 unfolding close_cleanup_def swap by (simp add: agent_inv_def table_simps)
qed

lemma fail_task_release:
  assumes inv: "agent_inv db" and "is_terminal (fc_final_status row)" "fc_task_id row = u"
  shows "agent_inv (release_lock u (fail_task now row message db))"
proof -
  have "agent_inv (release_lock u (update_task u (\<lambda>t. (set_terminal now (fc_final_status row) (Some message) t)
      \<lparr>t_execution_id := fc_execution_id row\<rparr>) db))"
    by (rule inv_end_task [OF inv]) (use assms(2) in \<open>simp add: keeps_task_def set_terminal_def\<close>)
  then show ?thesis using assms(3) by (simp add: fail_task_def Let_def table_simps)
qed

lemma fail_task_over:
  assumes "is_terminal (fc_final_status row)" "t \<in> set (db_tasks (fail_task now row message db))" "t_id t = fc_task_id row"
  shows "is_terminal (t_status t)"
proof -
  let ?f = "\<lambda>t. (set_terminal now (fc_final_status row) (Some message) t)\<lparr>t_execution_id := fc_execution_id row\<rparr>"
  have "db_tasks (fail_task now row message db) = sql_update (\<lambda>t. t_id t = fc_task_id row) ?f (db_tasks db)"
    by (simp add: fail_task_def add_answer_def Let_def table_simps)
  then obtain x where "t = (if t_id x = fc_task_id row then ?f x else x)" using assms(2) by (auto simp: in_sql_update)
  then show ?thesis using assms(1,3) by (cases "t_id x = fc_task_id row") (simp_all add: set_terminal_def)
qed

lemma release_inv: "agent_inv db \<Longrightarrow> agent_inv (release_lock u db)"
  unfolding release_lock_def by (rule inv_locks) (auto simp: agent_inv_def elim: locks_ok_subset)

text \<open>What a successful end of a cleanup has done, and from what.\<close>

lemma cleanup_finish_cases [consumes 1, case_names refused preserved failed]:
  assumes "cleanup_finish now rec db = (res, db')"
  obtains (refused) e where "res = Inl e" "db' = db"
  | (preserved) row t where "res = Inr ()" "fenced rec db = Inr row" "task_of (fc_task_id row) db = Some t"
      "is_terminal (t_status t)" "t_status t = fc_final_status row" "t_terminal_message t = fc_message row"
      "db' = close_cleanup now (fc_task_id row) db"
  | (failed) row t message where "res = Inr ()" "fenced rec db = Inr row" "task_of (fc_task_id row) db = Some t"
      "unfinished t" "fc_message row = Some message"
      "db' = close_cleanup now (fc_task_id row) (fail_task now row message db)"
proof (cases res)
  case (Inl e)
  then have "db' = db" using assms by (auto simp: cleanup_finish_def transaction_def split: if_splits prod.splits sum.splits)
  then show ?thesis using that(1) Inl by blast
next
  case (Inr u)
  then show ?thesis
    using assms that(2,3) by (auto simp: cleanup_finish_def exn_simps split: if_splits sum.splits option.splits)
qed

lemma cleanup_finish_inv:
  assumes inv: "agent_inv db"
  shows "agent_inv (snd (cleanup_finish now rec db))"
proof -
  obtain res db' where run: "cleanup_finish now rec db = (res, db')" by (rule prod.exhaust)
  then show ?thesis
  proof (cases rule: cleanup_finish_cases)
    case (preserved row t)
    have "agent_inv (close_cleanup now (fc_task_id row) db)"
      by (rule close_cleanup_inv [OF release_inv [OF inv]]) (use task_only [OF inv preserved(3)] preserved(4) in blast)
    then show ?thesis using run preserved by simp
  next
    case (failed row t message)
    have final: "is_terminal (fc_final_status row)"
      using cleanup_row_ok [OF inv fencedD(1) [OF failed(2)]] by (simp add: cleanup_ok_def)
    have "agent_inv (close_cleanup now (fc_task_id row) (fail_task now row message db))"
      by (rule close_cleanup_inv) (use final fail_task_release [OF inv] fail_task_over in blast)+
    then show ?thesis using run failed by simp
  qed (use run inv in simp)
qed

subsection \<open>Writes of graph nodes\<close>

text \<open>A node changes the status of an unfinished task to an unfinished one, and takes the lock for an unfinished task.\<close>

lemma task_status_inv:
  assumes inv: "agent_inv db" and t: "task_of u db = Some t" "unfinished t" and status: "\<not> is_terminal status"
  shows "agent_inv (snd (task_update_status now u status db))"
proof (cases rule: update_status_cases [of u db now status])
  case (changed t')
  have "agent_inv (update_task u (set_status now status) db)"
    by (rule inv_update_task [OF inv]) (use task_only [OF inv t(1)] t(2) status in \<open>auto simp: keeps_task_def set_status_row\<close>)
  then show ?thesis by (simp add: changed(2) table_simps)
qed (simp add: inv)

lemma lock_session_inv:
  assumes inv: "agent_inv db" and t: "task_of u db = Some t" "unfinished t"
  shows "agent_inv (snd (task_lock_session u db))"
proof (cases rule: lock_session_cases [of u db])
  case (locked t')
  have "locks_ok (db_tasks db) (db_locks db)" using inv by (simp add: agent_inv_def)
  then have "locks_ok (db_tasks db) (db_locks db @ [\<lparr>sl_session_id = t_session_id t', sl_active_task_id = u, sl_execution_id = None, sl_locked = True\<rparr>])"
    using row_of_key(1) [OF t(1)] t locked(1) by (auto simp: locks_ok_def)
  then show ?thesis using inv_locks [OF inv] by (simp add: locked(3))
qed (simp add: inv)

lemma execution_update_inv: "agent_inv db \<Longrightarrow> agent_inv (snd (execution_update task operation version nxt event db))"
  unfolding execution_update_def by (rule inv_transaction) (auto simp: table_simps split: option.split)

end
