(* ===== verification/Agent_Steps.thy ===== *)
theory Agent_Steps
  imports Agent_System
begin

text \<open>
  The agent's database as a state machine: one step per store operation, by any process and in any
  order. Beside the invariant of \<open>Agent_System\<close> stands what no step takes back: the result of a finished
  task, the state of a settled request, a finished cleanup, a prepared request and its response, and
  every event and message.
\<close>

section \<open>Rows that are only extended\<close>

text \<open>The rows keep their places, each is related to its successor, and new rows come after them.\<close>

definition rows_kept :: "('a \<Rightarrow> 'a \<Rightarrow> bool) \<Rightarrow> 'a list \<Rightarrow> 'a list \<Rightarrow> bool" where
  "rows_kept P xs ys = list_all2 P xs (take (length xs) ys)"

lemma rows_kept_refl: "(\<And>x. P x x) \<Longrightarrow> rows_kept P xs xs"
  by (simp add: rows_kept_def list_all2_refl)

lemma rows_kept_length: "rows_kept P xs ys \<Longrightarrow> length xs \<le> length ys"
  by (auto simp: rows_kept_def dest: list_all2_lengthD)

lemma rows_kept_trans:
  assumes "\<And>x y z. P x y \<Longrightarrow> P y z \<Longrightarrow> P x z" "rows_kept P xs ys" "rows_kept P ys zs"
  shows "rows_kept P xs zs"
proof -
  have n: "length xs \<le> length ys" using assms(2) by (rule rows_kept_length)
  have "list_all2 P (take (length xs) ys) (take (length xs) (take (length ys) zs))"
    using assms(3) unfolding rows_kept_def by (rule list_all2_takeI)
  then have "list_all2 P (take (length xs) ys) (take (length xs) zs)" using n by (simp add: min_absorb1)
  with assms(1,2) show ?thesis unfolding rows_kept_def by (blast intro: list_all2_trans [of P P P])
qed

lemma rows_kept_append: "(\<And>x. P x x) \<Longrightarrow> rows_kept P xs (xs @ ys)"
  by (simp add: rows_kept_def list_all2_refl)

lemma rows_kept_update:
  assumes "\<And>x. P x x" "\<And>x. x \<in> set xs \<Longrightarrow> p x \<Longrightarrow> P x (f x)"
  shows "rows_kept P xs (sql_update p f xs)"
  using assms by (auto simp: rows_kept_def sql_update_def list_all2_conv_all_nth)

lemma rows_keptD:
  assumes "rows_kept P xs ys" "x \<in> set xs"
  obtains y where "y \<in> set ys" "P x y"
proof -
  obtain i where "i < length xs" "xs ! i = x" using assms(2) by (auto simp: in_set_conv_nth)
  then show ?thesis
    using assms(1) rows_kept_length [OF assms(1)] that [of "ys ! i"] by (auto simp: rows_kept_def list_all2_conv_all_nth)
qed

lemma rows_kept_old:
  assumes "rows_kept P xs ys" "y \<in> set ys" "length ys = length xs"
  obtains x where "x \<in> set xs" "P x y"
  using assms that by (auto simp: rows_kept_def list_all2_conv_all_nth in_set_conv_nth)

section \<open>What is kept of each row\<close>

definition task_kept :: "task_row \<Rightarrow> task_row \<Rightarrow> bool" where
  "task_kept t t' = (t_id t' = t_id t \<and> t_user_id t' = t_user_id t \<and> t_project_id t' = t_project_id t
     \<and> t_session_id t' = t_session_id t \<and> t_input_message_id t' = t_input_message_id t \<and> t_user_message t' = t_user_message t
     \<and> (is_terminal (t_status t) \<longrightarrow> t_status t' = t_status t \<and> t_terminal_message t' = t_terminal_message t))"

definition request_kept :: "int \<Rightarrow> api_row \<Rightarrow> api_row \<Rightarrow> bool" where
  "request_kept m r r' = (ap_request_id r' = ap_request_id r \<and> ap_task_id r' = ap_task_id r \<and> ap_session_id r' = ap_session_id r
     \<and> ap_command r' = ap_command r \<and> ap_fingerprint r' = ap_fingerprint r \<and> ap_target_node r' = ap_target_node r
     \<and> ap_base_checkpoint_id r' = ap_base_checkpoint_id r \<and> ap_attempts r \<le> ap_attempts r' \<and> ap_attempts r' \<le> max m (ap_attempts r)
     \<and> (\<not> active_state (ap_state r) \<longrightarrow> ap_state r' = ap_state r \<and> ap_attempts r' = ap_attempts r)
     \<and> (ap_state r = Rs_BLOCKED \<longrightarrow> \<not> open_state (ap_state r')))"

definition cleanup_kept :: "cleanup_row \<Rightarrow> cleanup_row \<Rightarrow> bool" where
  "cleanup_kept c c' = (fc_task_id c' = fc_task_id c \<and> fc_session_id c' = fc_session_id c \<and> fc_turn c' = fc_turn c
     \<and> fc_source c' = fc_source c \<and> fc_reason c' = fc_reason c \<and> fc_final_status c' = fc_final_status c
     \<and> fc_preserve_terminal c' = fc_preserve_terminal c \<and> fc_version c \<le> fc_version c'
     \<and> (fc_state c = Fc_DONE \<longrightarrow> c' = c))"

definition effect_kept :: "effect_row \<Rightarrow> effect_row \<Rightarrow> bool" where
  "effect_kept e e' = (e'\<lparr>ef_response := ef_response e\<rparr> = e \<and> (ef_response e \<noteq> None \<longrightarrow> e' = e))"

lemma effect_kept_key: "effect_kept e e' \<Longrightarrow> ef_key e' = ef_key e"
  unfolding effect_kept_def by (cases e; cases e') simp

lemmas kept_defs = task_kept_def request_kept_def cleanup_kept_def effect_kept_def

lemma kept_refl: "task_kept t t" "request_kept m r r" "cleanup_kept c c" "effect_kept e e"
  by (auto simp: kept_defs)

lemma kept_trans:
  "task_kept t t' \<Longrightarrow> task_kept t' t'' \<Longrightarrow> task_kept t t''"
  "request_kept m r r' \<Longrightarrow> request_kept m r' r'' \<Longrightarrow> request_kept m r r''"
  "cleanup_kept c c' \<Longrightarrow> cleanup_kept c' c'' \<Longrightarrow> cleanup_kept c c''"
  "effect_kept e e' \<Longrightarrow> effect_kept e' e'' \<Longrightarrow> effect_kept e e''"
  by (auto simp: kept_defs) (cases "ap_state r'"; cases "ap_state r"; simp)+

definition db_grows :: "int \<Rightarrow> agent_db \<Rightarrow> agent_db \<Rightarrow> bool" where
  "db_grows m db db' = (rows_kept task_kept (db_tasks db) (db_tasks db') \<and> rows_kept (request_kept m) (db_requests db) (db_requests db')
     \<and> rows_kept cleanup_kept (db_cleanups db) (db_cleanups db') \<and> rows_kept effect_kept (db_effects db) (db_effects db')
     \<and> rows_kept (=) (db_events db) (db_events db') \<and> rows_kept (=) (db_messages db) (db_messages db'))"

lemma db_grows_refl: "db_grows m db db"
  by (auto simp: db_grows_def intro: rows_kept_refl kept_refl)

lemma db_grows_trans:
  assumes "db_grows m a b" "db_grows m b c"
  shows "db_grows m a c"
  using assms unfolding db_grows_def by (blast intro: rows_kept_trans kept_trans)

section \<open>Growth of the single changes\<close>

text \<open>A table that is not touched grows trivially.\<close>

lemmas grow_intros = rows_kept_refl rows_kept_append rows_kept_update kept_refl

lemma grows_update_task:
  assumes "\<And>t. t \<in> set (db_tasks db) \<Longrightarrow> t_id t = u \<Longrightarrow> task_kept t (f t)"
  shows "db_grows m db (update_task u f db)"
  using assms by (auto simp: db_grows_def table_simps intro!: grow_intros)

lemma grows_update_requests:
  assumes "\<And>r. r \<in> set (db_requests db) \<Longrightarrow> p r \<Longrightarrow> request_kept m r (f r)"
  shows "db_grows m db (db\<lparr>db_requests := sql_update p f (db_requests db)\<rparr>)"
  using assms by (auto simp: db_grows_def intro!: grow_intros)

lemma grows_update_cleanup:
  assumes "\<And>c. c \<in> set (db_cleanups db) \<Longrightarrow> fc_task_id c = u \<Longrightarrow> cleanup_kept c (f c)"
  shows "db_grows m db (update_cleanup u f db)"
  using assms by (auto simp: db_grows_def table_simps intro!: grow_intros)

lemma grows_update_effects:
  assumes "\<And>e. e \<in> set (db_effects db) \<Longrightarrow> p e \<Longrightarrow> effect_kept e (f e)"
  shows "db_grows m db (db\<lparr>db_effects := sql_update p f (db_effects db)\<rparr>)"
  using assms by (auto simp: db_grows_def intro!: grow_intros)

lemma grows_inserts:
  "db_grows m db (add_event u ty pl db)" "db_grows m db (add_answer u msg md db)"
  "db_grows m db (db\<lparr>db_effects := db_effects db @ es\<rparr>)" "db_grows m db (db\<lparr>db_cleanups := db_cleanups db @ cs\<rparr>)"
  "db_grows m db (db\<lparr>db_requests := db_requests db @ rs\<rparr>)"
  "db_grows m db (db\<lparr>db_tasks := db_tasks db @ ts, db_messages := db_messages db @ ms\<rparr>)"
  by (auto simp: db_grows_def table_simps add_answer_def intro!: grow_intros)

lemma grows_locks:
  "db_grows m db (db'\<lparr>db_locks := ls\<rparr>) = db_grows m db db'" "db_grows m db (db'\<lparr>db_bindings := bs\<rparr>) = db_grows m db db'"
  "db_grows m db (release_lock u db') = db_grows m db db'" "db_grows m db (update_binding u g db') = db_grows m db db'"
  by (simp_all add: db_grows_def release_lock_def update_binding_def)

lemma grows_transaction:
  assumes "db_grows m db (snd (body db))"
  shows "db_grows m db (snd (transaction body db))"
  using assms by (cases "body db") (auto simp: transaction_def db_grows_refl split: sum.splits)

lemma grows_task_row:
  assumes "agent_inv db" "task_of u db = Some t" "task_kept t (f t)"
  shows "db_grows m db (update_task u f db)"
  by (rule grows_update_task) (use task_only [OF assms(1,2)] assms(3) in blast)

lemma grows_request_row:
  assumes "agent_inv db" "request_of u db = Some r" "request_kept m r (f r)"
  shows "db_grows m db (update_request u f db)"
  unfolding update_request_def by (rule grows_update_requests) (use request_only [OF assms(1,2)] assms(3) in blast)

lemma grows_cleanup_row:
  assumes "agent_inv db" "cleanup_of u db = Some c" "cleanup_kept c (f c)"
  shows "db_grows m db (update_cleanup u f db)"
  by (rule grows_update_cleanup) (use cleanup_only [OF assms(1,2)] assms(3) in blast)

section \<open>Growth of each operation\<close>

lemma projector_write_grows:
  assumes "agent_inv db"
  shows "db_grows m db (snd (projector_write now u status intr db))"
proof -
  obtain res db' where run: "projector_write now u status intr db = (res, db')" by (rule prod.exhaust)
  then show ?thesis
  proof (cases rule: projector_write_cases)
    case (wrote t ty pl)
    have "db_grows m db (update_task u (set_projection now status intr) db)"
      by (rule grows_task_row [OF assms wrote(1)]) (use wrote(2) in \<open>simp add: task_kept_def set_projection_def\<close>)
    then show ?thesis using run wrote by (auto intro: db_grows_trans grows_inserts)
  qed (use run in \<open>simp_all add: db_grows_refl\<close>)
qed

lemma effect_prepare_grows: "db_grows m db (snd (effect_prepare digest key task kind sha request db))"
  unfolding effect_prepare_def by (rule grows_transaction) (simp add: Let_def db_grows_refl grows_inserts)

lemma effect_complete_grows:
  assumes "distinct (map ef_key (db_effects db))"
  shows "db_grows m db (snd (effect_complete digest key response db))"
proof -
  have "db_grows m db (db\<lparr>db_effects := sql_update (\<lambda>x. ef_key x = key) (\<lambda>x. x\<lparr>ef_response := Some response\<rparr>) (db_effects db)\<rparr>)"
    if "effect_of key db = Some r" "ef_response r = None" for r
  proof (rule grows_update_effects)
    fix e assume e: "e \<in> set (db_effects db)" "ef_key e = key"
    have "r \<in> set (db_effects db)" "ef_key r = key" using that(1) by (auto simp: effect_of_def dest: find_SomeD)
    then have "e = r" using key_unique [OF assms e(1)] e(2) by simp
    then show "effect_kept e (e\<lparr>ef_response := Some response\<rparr>)" using that(2) by (simp add: effect_kept_def)
  qed
  then show ?thesis
    unfolding effect_complete_def by (intro grows_transaction) (auto simp: db_grows_refl split: option.split)
qed

lemma effect_binding_grows: "db_grows m db (snd (effect_binding now task exec version operation nxt create db))"
proof -
  have "db_grows m db (update_task u (\<lambda>x. x\<lparr>t_execution_id := Some exec, t_audit := touch_audit now ''AGENT'' (t_audit x)\<rparr>) db)" for u
    by (rule grows_update_task) (simp add: task_kept_def)
  then have "db_grows m db (snd (create_binding now t exec version operation nxt create db))" for t
    by (cases operation; cases nxt) (simp_all add: create_binding_def grows_locks db_grows_refl)
  then show ?thesis
    unfolding effect_binding_def
    by (intro grows_transaction) (auto simp: grows_locks db_grows_refl split: option.split sum.split)
qed

lemma effect_terminal_grows:
  assumes inv: "agent_inv db"
  shows "db_grows m db (snd (effect_terminal now task status message metadata db))"
proof (cases "is_terminal status")
  case True
  have ended: "db_grows m db (release_lock task (add_event task ty pl (add_answer task message metadata
      (update_task task (set_terminal now status (Some message)) db))))" if "task_of task db = Some t" "unfinished t" for t ty pl
  proof -
    have "db_grows m db (update_task task (set_terminal now status (Some message)) db)"
      by (rule grows_task_row [OF inv that(1)]) (use that(2) in \<open>simp add: task_kept_def set_terminal_def\<close>)
    then show ?thesis unfolding grows_locks by (rule db_grows_trans [OF db_grows_trans]) (rule grows_inserts)+
  qed
  show ?thesis
    unfolding effect_terminal_def using True
    by (simp, intro grows_transaction) (use ended in \<open>auto simp: db_grows_refl split: option.split\<close>)
qed (simp add: effect_terminal_def db_grows_refl)

lemma effect_promotion_grows: "db_grows m db (snd (effect_promotion task db))"
  unfolding effect_promotion_def
  by (rule grows_transaction) (auto simp: db_grows_refl grows_inserts split: option.split)

lemma request_kept_rows:
  "active_state (ap_state r) \<Longrightarrow> \<not> open_state st \<Longrightarrow> request_kept m r (set_request_state now st r)"
  "open_state (ap_state r) \<Longrightarrow> request_kept m r (claim_row now cleaning m d r)"
  "open_state (ap_state r) \<Longrightarrow> request_kept m r (finish_row now st err d r)"
  "request_kept m r (defer_row now d r)"
  by (cases "ap_state r"; simp add: request_kept_def set_request_state_def claim_row_def finish_row_def defer_row_def)+

lemma request_claim_grows:
  assumes "agent_inv db"
  shows "db_grows m db (snd (request_claim fpq now m d u db))"
proof -
  have "db_grows m db (update_request u (claim_row now cleaning m d) db)"
    if "request_of u db = Some row" "open_state (ap_state row)" for row cleaning
    by (rule grows_request_row [OF assms that(1)]) (rule request_kept_rows(2) [OF that(2)])
  then show ?thesis
    unfolding request_claim_def
    by (intro grows_transaction) (auto simp: request_required_def Let_def db_grows_refl split: option.split)
qed

lemma request_finish_grows:
  assumes inv: "agent_inv db"
  shows "db_grows m db (snd (request_finish fpq now rec st err d db))"
proof -
  have upd: "db_grows m db (update_request (ap_request_id row) (finish_row now st err d) db)"
    if "request_of u db = Some row" "open_state (ap_state row)" for u row
  proof -
    have "db_grows m db (update_request u (finish_row now st err d) db)"
      by (rule grows_request_row [OF inv that(1)]) (rule request_kept_rows(3) [OF that(2)])
    then show ?thesis using row_of_key(2) [OF that(1)] by simp
  qed
  have "db_grows m db (snd (transaction body db))" if "db_grows m db (snd (body db))" for body :: "agent_db \<Rightarrow> api_row result \<times> agent_db"
    using that by (rule grows_transaction)
  then show ?thesis
    unfolding request_finish_def using upd
    by (cases "st \<in> {Rs_PENDING, Rs_APPLIED, Rs_REJECTED, Rs_BLOCKED}")
      (auto simp: request_required_def db_grows_refl split: option.split)
qed

lemma resolve_applied_grows:
  assumes inv: "agent_inv db"
  shows "db_grows m db (snd (resolve_applied now rec db))"
proof -
  have upd: "db_grows m db (update_request (ap_request_id row) (set_request_state now Rs_APPLIED) db)"
    if "request_of u db = Some row" "ap_state row = Rs_BLOCKED" for u row
  proof -
    have "db_grows m db (update_request u (set_request_state now Rs_APPLIED) db)"
      by (rule grows_request_row [OF inv that(1)]) (rule request_kept_rows(1), simp_all add: that(2))
    then show ?thesis using row_of_key(2) [OF that(1)] by simp
  qed
  show ?thesis
    unfolding resolve_applied_def
    by (rule grows_transaction) (use upd in \<open>auto simp: request_required_def db_grows_refl split: option.split\<close>)
qed

lemma request_defer_busy_grows: "db_grows m db (snd (request_defer_busy now u d db))"
  unfolding request_defer_busy_def update_request_def
  by (rule grows_transaction) (auto simp: request_required_def db_grows_refl
      intro!: grows_update_requests request_kept_rows(4) split: option.split)

lemma store_accept_grows: "db_grows m db (snd (store_accept fpq now command target base db))"
proof -
  obtain res db1 where run: "admit_task now command db = (res, db1)" by (rule prod.exhaust)
  have "db_grows m db db1"
    using run
  proof (cases rule: admit_task_cases)
    case (started task msg)
    then show ?thesis by (auto simp: start_task_def split: if_splits intro: db_grows_trans grows_inserts)
  qed (simp_all add: db_grows_refl)
  moreover have "db_grows m db1 (snd (insert_request fpq now command target base db1))"
    by (simp add: insert_request_def Let_def db_grows_refl grows_inserts split: option.split)
  ultimately have "db_grows m db (snd (accept_body fpq now command target base db))"
    using run by (auto simp: accept_body_def sbind_def db_grows_refl intro: db_grows_trans split: option.split sum.split)
  then show ?thesis unfolding store_accept_db by (rule grows_transaction)
qed

lemma fenced_update_grows:
  assumes inv: "agent_inv db" and f: "\<And>c. fc_state c = Fc_PENDING \<Longrightarrow> cleanup_kept c (f c)"
  shows "db_grows m db (snd (fenced_update f rec db))"
proof -
  have "db_grows m db (update_cleanup (fc_task_id row) f db)" if row: "fenced rec db = Inr row" for row
    by (rule grows_cleanup_row [OF inv]) (use fencedD [OF row] f in auto)
  then show ?thesis
    unfolding fenced_update_def by (intro grows_transaction) (auto simp: db_grows_refl split: sum.split)
qed

lemma cleanup_confirm_grows: "agent_inv db \<Longrightarrow> db_grows m db (snd (cleanup_confirm now rec exec status message db))"
  by (auto simp: cleanup_confirm_def cleanup_kept_def touch_def db_grows_refl intro!: fenced_update_grows)

lemma cleanup_defer_grows: "agent_inv db \<Longrightarrow> db_grows m db (snd (cleanup_defer now rec err delay blocked db))"
  by (auto simp: cleanup_defer_def cleanup_kept_def touch_def intro!: fenced_update_grows)

lemma cleanup_defer_busy_grows:
  assumes "agent_inv db"
  shows "db_grows m db (snd (cleanup_defer_busy now u delay db))"
  unfolding cleanup_defer_busy_def
  by (rule grows_transaction) (auto simp: cleanup_required_def cleanup_kept_def touch_def db_grows_refl
      intro!: grows_cleanup_row [OF assms] split: option.split)

lemma cleanup_claim_grows:
  assumes "agent_inv db"
  shows "db_grows m db (snd (cleanup_claim now u mx d db))"
  unfolding cleanup_claim_def
  by (rule grows_transaction) (auto simp: cleanup_required_def cleanup_kept_def claim_cleanup_row_def touch_def db_grows_refl
      intro!: grows_cleanup_row [OF assms] split: option.split)

lemma retry_blocked_grows:
  assumes inv: "agent_inv db"
  shows "db_grows m db (snd (retry_blocked now u q db))"
proof -
  have "db_grows m db (add_event u ty pl (update_cleanup u (reopen_row now q) db))"
    if "cleanup_of u db = Some row" "fc_state row = Fc_BLOCKED" for row ty pl
  proof -
    have "db_grows m db (update_cleanup u (reopen_row now q) db)"
      by (rule grows_cleanup_row [OF inv that(1)]) (use that(2) in \<open>simp add: cleanup_kept_def reopen_row_def touch_def\<close>)
    then show ?thesis by (rule db_grows_trans) (rule grows_inserts)
  qed
  moreover have "db_grows m db (snd (transaction body db))" if "db_grows m db (snd (body db))"
    for body :: "agent_db \<Rightarrow> (cleanup_row \<times> bool) result \<times> agent_db"
    using that by (rule grows_transaction)
  ultimately show ?thesis
    unfolding retry_blocked_def by (auto simp: cleanup_required_def Let_def db_grows_refl split: option.split)
qed

lemma cleanup_ensure_grows: "db_grows m db (snd (cleanup_ensure now u sess source why exec db))"
proof -
  have "db_grows m db (snd (create_cleanup row db))" for row
  proof -
    let ?db = "db\<lparr>db_cleanups := db_cleanups db @ [row]\<rparr>"
    have "db_grows m db (snd (take_lock row ?db))"
      by (subst take_lock_frame) (simp add: grows_locks grows_inserts del: take_lock_frame)
    then show ?thesis
      by (cases "take_lock row ?db"; cases "fst (take_lock row ?db)")
        (auto simp: create_cleanup_def Let_def sbind_def swrite_def spure_def intro: grows_inserts db_grows_trans)
  qed
  then show ?thesis
    unfolding cleanup_ensure_def
    by (intro grows_transaction) (auto simp: Let_def db_grows_refl split: option.split)
qed

lemma bind_execution_grows:
  assumes inv: "agent_inv db"
  shows "db_grows m db (snd (bind_execution now rec exec db))"
proof -
  have "db_grows m db (update_task u (\<lambda>x. x\<lparr>t_execution_id := Some exec, t_audit := touch_audit now ''AGENT'' (t_audit x),
        t_version := t_version x + 1\<rparr>) (update_cleanup u (\<lambda>r. touch now ''AGENT'' (r\<lparr>fc_execution_id := Some exec\<rparr>)) db))"
    if "fenced rec db = Inr row" "u = fc_task_id row" for u row
  proof (rule db_grows_trans)
    show "db_grows m db (update_cleanup u (\<lambda>r. touch now ''AGENT'' (r\<lparr>fc_execution_id := Some exec\<rparr>)) db)"
      by (rule grows_cleanup_row [OF inv, of u row]) (use fencedD [OF that(1)] that(2) in \<open>simp_all add: cleanup_kept_def touch_def\<close>)
  qed (rule grows_update_task, simp add: task_kept_def)
  then show ?thesis
    unfolding bind_execution_def
    by (intro grows_transaction) (auto simp: Let_def db_grows_refl grows_locks split: option.split sum.split)
qed

lemma close_cleanup_grows:
  assumes "agent_inv db0" "cleanup_of u db0 = Some row" "fc_state row = Fc_PENDING" "db_grows m db0 db"
    "db_cleanups db = db_cleanups db0"
  shows "db_grows m db0 (close_cleanup now u db)"
proof -
  have "db_grows m db (compensate now u db)"
    unfolding compensate_def by (rule grows_update_requests) (auto intro: request_kept_rows)
  then have "db_grows m db (release_lock u (compensate now u db))" by (simp add: grows_locks)
  moreover have "db_grows m (release_lock u (compensate now u db)) (close_cleanup now u db)"
    unfolding close_cleanup_def
  proof (rule grows_update_cleanup)
    fix c assume "c \<in> set (db_cleanups (release_lock u (compensate now u db)))" "fc_task_id c = u"
    then have "c = row" using cleanup_only [OF assms(1,2)] assms(5) by (simp add: release_lock_def compensate_def)
    then show "cleanup_kept c (touch now ''AGENT'' (c\<lparr>fc_state := Fc_DONE, fc_last_error := None\<rparr>))"
      using assms(3) by (simp add: cleanup_kept_def touch_def)
  qed
  ultimately show ?thesis using assms(4) by (blast intro: db_grows_trans)
qed

lemma cleanup_finish_grows:
  assumes inv: "agent_inv db"
  shows "db_grows m db (snd (cleanup_finish now rec db))"
proof -
  obtain res db' where run: "cleanup_finish now rec db = (res, db')" by (rule prod.exhaust)
  then show ?thesis
  proof (cases rule: cleanup_finish_cases)
    case (preserved row t)
    note row = fencedD [OF preserved(2)]
    show ?thesis
      using run preserved(7) row by (simp add: close_cleanup_grows [OF inv row(1) row(3) db_grows_refl])
  next
    case (failed row t message)
    note row = fencedD [OF failed(2)]
    let ?f = "\<lambda>t. (set_terminal now (fc_final_status row) (Some message) t)\<lparr>t_execution_id := fc_execution_id row\<rparr>"
    have "db_grows m db (update_task (fc_task_id row) ?f db)"
      by (rule grows_task_row [OF inv failed(3)]) (use failed(4) in \<open>simp add: task_kept_def set_terminal_def\<close>)
    then have "db_grows m db (fail_task now row message db)"
      unfolding fail_task_def Let_def by (rule db_grows_trans [OF db_grows_trans]) (rule grows_inserts)+
    then have "db_grows m db (close_cleanup now (fc_task_id rec) (fail_task now row message db))"
      by (rule close_cleanup_grows [OF inv row(1) row(3)]) (simp add: fail_task_def add_answer_def Let_def table_simps)
    then show ?thesis using run failed(6) row by simp
  qed (use run in \<open>simp add: db_grows_refl\<close>)
qed

lemma task_status_grows:
  assumes inv: "agent_inv db" and t: "task_of u db = Some t" "unfinished t"
  shows "db_grows m db (snd (task_update_status now u status db))"
proof (cases rule: update_status_cases [of u db now status])
  case (changed t')
  have "db_grows m db (update_task u (set_status now status) db)"
    by (rule grows_task_row [OF inv t(1)]) (use t(2) in \<open>simp add: task_kept_def set_status_def\<close>)
  then show ?thesis unfolding changed(2) snd_conv by (rule db_grows_trans) (rule grows_inserts)
qed (simp add: db_grows_refl)

lemma lock_session_grows: "db_grows m db (snd (task_lock_session u db))"
  by (cases rule: lock_session_cases [of u db]) (simp_all add: db_grows_refl grows_locks)

lemma execution_update_grows: "db_grows m db (snd (execution_update task operation version nxt event db))"
  unfolding execution_update_def by (rule grows_transaction) (simp add: db_grows_refl grows_locks split: option.split)

section \<open>The step relation\<close>

text \<open>
  One step per transaction of the stores. \<open>m\<close> is the attempt limit of the admission service, the same
  for every process; digests, times, budgets of cleanups and all arguments are arbitrary. The nodes of the
  graph run under the lease of the session and so write only while their task is unfinished; the statuses
  they set are unfinished ones.
\<close>

inductive agent_step :: "int \<Rightarrow> agent_db \<Rightarrow> agent_db \<Rightarrow> bool" for m :: int where
  st_accept: "agent_step m db (snd (store_accept fpq now command target base db))"
| st_claim: "agent_step m db (snd (request_claim fpq now m d u db))"
| st_finish: "agent_step m db (snd (request_finish fpq now rec st err d db))"
| st_resolve: "agent_step m db (snd (resolve_applied now rec db))"
| st_defer: "agent_step m db (snd (request_defer_busy now u d db))"
| st_project: "agent_step m db (snd (project_snapshot now sn db))"
| st_prepare: "agent_step m db (snd (effect_prepare digest key task kind sha request db))"
| st_complete: "agent_step m db (snd (effect_complete digest key response db))"
| st_binding: "agent_step m db (snd (effect_binding now task exec version operation nxt create db))"
| st_terminal: "agent_step m db (snd (effect_terminal now task status message metadata db))"
| st_promotion: "agent_step m db (snd (effect_promotion task db))"
| st_ensure: "agent_step m db (snd (cleanup_ensure now u sess source why exec db))"
| st_bind: "agent_step m db (snd (bind_execution now c exec db))"
| st_cleanup_claim: "agent_step m db (snd (cleanup_claim now u mx d db))"
| st_cleanup_confirm: "agent_step m db (snd (cleanup_confirm now c uexec status message db))"
| st_cleanup_defer: "agent_step m db (snd (cleanup_defer now c err d blocked db))"
| st_cleanup_defer_busy: "agent_step m db (snd (cleanup_defer_busy now u d db))"
| st_retry_blocked: "agent_step m db (snd (retry_blocked now u q db))"
| st_cleanup_finish: "agent_step m db (snd (cleanup_finish now c db))"
| st_status: "task_of u db = Some t \<Longrightarrow> unfinished t \<Longrightarrow> \<not> is_terminal status \<Longrightarrow> agent_step m db (snd (task_update_status now u status db))"
| st_lock: "task_of u db = Some t \<Longrightarrow> unfinished t \<Longrightarrow> agent_step m db (snd (task_lock_session u db))"
| st_update: "agent_step m db (snd (execution_update task operation version nxt event db))"

text \<open>All operations but three leave the effects alone and add neither tasks nor requests.\<close>

definition frame :: "agent_db \<Rightarrow> agent_db \<Rightarrow> bool" where
  "frame db db' = (db_effects db' = db_effects db \<and> length (db_tasks db') = length (db_tasks db)
     \<and> length (db_requests db') = length (db_requests db))"

lemma sql_update_length: "length (sql_update p f xs) = length xs"
  by (simp add: sql_update_def)

lemma frame_refl: "frame db db"
  by (simp add: frame_def)

lemma frame_transaction: "frame db (snd (body db)) \<Longrightarrow> frame db (snd (transaction body db))"
  by (cases "body db") (auto simp: transaction_def frame_refl split: sum.splits)

lemmas frame_simps = frame_def table_simps sql_update_length add_answer_def release_lock_def update_binding_def

lemma frame_admission:
  "frame db (snd (request_claim fpq now mx d u db))" "frame db (snd (request_finish fpq now rec st err d db))"
  "frame db (snd (resolve_applied now rec db))" "frame db (snd (request_defer_busy now u d db))"
  unfolding request_claim_def request_finish_def resolve_applied_def request_defer_busy_def request_required_def
  by (auto simp: frame_simps Let_def transaction_def split: option.split sum.split prod.split)

lemma frame_projection: "frame db (snd (project_snapshot now sn db))"
proof -
  have wr: "frame db (snd (projector_write now u status intr db))" for u status intr
    unfolding projector_write_def
    by (rule frame_transaction) (auto simp: frame_simps Let_def split: option.split prod.split)
  obtain res db' where run: "project_snapshot now sn db = (res, db')" by (rule prod.exhaust)
  then have "frame db db'"
  proof (cases rule: project_snapshot_cases)
    case (wrote u status intr)
    then show ?thesis using wr [of u status intr] by simp
  qed (simp add: frame_refl)
  then show ?thesis using run by simp
qed

lemma frame_effects:
  "frame db (snd (effect_binding now task exec version operation nxt create db))"
  "frame db (snd (effect_terminal now task status message metadata db))" "frame db (snd (effect_promotion task db))"
  unfolding effect_binding_def effect_terminal_def effect_promotion_def create_binding_def
  by (auto simp: frame_simps Let_def transaction_def split: option.split sum.split prod.split)

lemma frame_cleanups:
  "frame db (snd (cleanup_claim now u mx d db))" "frame db (snd (cleanup_confirm now c uexec status message db))"
  "frame db (snd (cleanup_defer now c err d blocked db))" "frame db (snd (cleanup_defer_busy now u d db))"
  "frame db (snd (retry_blocked now u q db))" "frame db (snd (bind_execution now c exec db))"
  unfolding cleanup_claim_def cleanup_confirm_def cleanup_defer_def fenced_update_def cleanup_defer_busy_def retry_blocked_def
    bind_execution_def cleanup_required_def
  by (auto simp: frame_simps Let_def transaction_def split: option.split sum.split prod.split)

lemma frame_ensure: "frame db (snd (cleanup_ensure now u sess source why exec db))"
proof -
  have "frame db (snd (create_cleanup row db))" for row
  proof -
    let ?db = "db\<lparr>db_cleanups := db_cleanups db @ [row]\<rparr>"
    have "frame db (snd (take_lock row ?db))" by (auto simp: take_lock_def frame_simps split: option.split)
    then show ?thesis
      by (cases "take_lock row ?db"; cases "fst (take_lock row ?db)")
        (auto simp: create_cleanup_def Let_def sbind_def swrite_def spure_def frame_simps)
  qed
  then show ?thesis
    unfolding cleanup_ensure_def
    by (intro frame_transaction) (auto simp: Let_def frame_refl split: option.split)
qed

lemma frame_finish: "frame db (snd (cleanup_finish now c db))"
proof -
  obtain res db' where run: "cleanup_finish now c db = (res, db')" by (rule prod.exhaust)
  then have "frame db db'"
    by (cases rule: cleanup_finish_cases)
      (auto simp: frame_simps close_cleanup_def compensate_def fail_task_def Let_def)
  then show ?thesis using run by simp
qed

lemma frame_nodes:
  "frame db (snd (task_update_status now u status db))" "frame db (snd (task_lock_session u db))"
  "frame db (snd (execution_update task operation version nxt event db))"
  unfolding task_update_status_def task_lock_session_def execution_update_def required_task_def
  by (auto simp: frame_simps Let_def transaction_def split: option.split sum.split prod.split)

lemmas frames = frame_nodes frame_admission frame_projection frame_effects frame_cleanups frame_ensure frame_finish

section \<open>The invariant and the growth of all steps\<close>

definition system_inv :: "int \<Rightarrow> agent_db \<Rightarrow> bool" where
  "system_inv m db = (agent_inv db \<and> distinct (map ef_key (db_effects db)) \<and> (\<forall>r \<in> set (db_requests db). ap_attempts r \<le> max 0 m))"

lemma system_inv_frame:
  assumes "system_inv m db" "agent_inv db'" "frame db db'" "db_grows m db db'"
  shows "system_inv m db'"
proof -
  have "ap_attempts r' \<le> max 0 m" if r': "r' \<in> set (db_requests db')" for r'
  proof -
    have "rows_kept (request_kept m) (db_requests db) (db_requests db')" using assms(4) by (simp add: db_grows_def)
    moreover have "length (db_requests db') = length (db_requests db)" using assms(3) by (simp add: frame_def)
    ultimately obtain r where "r \<in> set (db_requests db)" "request_kept m r r'" using r' by (metis rows_kept_old)
    then show ?thesis using assms(1) by (fastforce simp: request_kept_def system_inv_def)
  qed
  then show ?thesis using assms(1-3) by (simp add: system_inv_def frame_def)
qed

lemma project_snapshot_inv: "agent_inv db \<Longrightarrow> agent_inv (snd (project_snapshot now sn db))"
proof -
  assume inv: "agent_inv db"
  obtain res db' where run: "project_snapshot now sn db = (res, db')" by (rule prod.exhaust)
  then have "agent_inv db'"
  proof (cases rule: project_snapshot_cases)
    case (wrote u status intr)
    then show ?thesis using projector_write_inv [OF inv, of now u status intr] by simp
  qed (simp add: inv)
  then show ?thesis using run by simp
qed

lemma project_snapshot_grows: "agent_inv db \<Longrightarrow> db_grows m db (snd (project_snapshot now sn db))"
proof -
  assume inv: "agent_inv db"
  obtain res db' where run: "project_snapshot now sn db = (res, db')" by (rule prod.exhaust)
  then have "db_grows m db db'"
  proof (cases rule: project_snapshot_cases)
    case (wrote u status intr)
    then show ?thesis using projector_write_grows [OF inv, of m now u status intr] by simp
  qed (simp add: db_grows_refl)
  then show ?thesis using run by simp
qed

lemmas inv_ops = store_accept_inv request_claim_inv request_finish_inv resolve_applied_inv request_defer_busy_inv
  project_snapshot_inv effect_prepare_inv effect_complete_inv effect_binding_inv effect_terminal_inv effect_promotion_inv
  cleanup_ensure_inv bind_execution_inv cleanup_claim_inv cleanup_confirm_inv cleanup_defer_inv cleanup_defer_busy_inv
  retry_blocked_inv cleanup_finish_inv task_status_inv lock_session_inv execution_update_inv

lemmas grow_ops = store_accept_grows request_claim_grows request_finish_grows resolve_applied_grows request_defer_busy_grows
  project_snapshot_grows effect_prepare_grows effect_complete_grows effect_binding_grows effect_terminal_grows effect_promotion_grows
  cleanup_ensure_grows bind_execution_grows cleanup_claim_grows cleanup_confirm_grows cleanup_defer_grows cleanup_defer_busy_grows
  retry_blocked_grows cleanup_finish_grows task_status_grows lock_session_grows execution_update_grows

lemma agent_step_inv: "agent_step m db db' \<Longrightarrow> agent_inv db \<Longrightarrow> agent_inv db'"
  by (induction rule: agent_step.induct) (rule inv_ops; assumption)+

lemma agent_step_grows:
  assumes "agent_step m db db'" "agent_inv db" "distinct (map ef_key (db_effects db))"
  shows "db_grows m db db'"
  using assms by (induction rule: agent_step.induct) (rule grow_ops; assumption)+

text \<open>The rows that acceptance adds, and the effect that preparation adds.\<close>

lemma store_accept_rows:
  shows "db_effects (snd (store_accept fpq now command target base db)) = db_effects db"
    and "db_requests (snd (store_accept fpq now command target base db)) = db_requests db
      \<or> (\<exists>task. db_requests (snd (store_accept fpq now command target base db)) = db_requests db @ [new_request fpq now task command target base])"
    and "db_tasks (snd (store_accept fpq now command target base db)) = db_tasks db
      \<or> (\<exists>task msg. busy_with (tt_session_id (rq_turn command)) db = None
          \<and> db_tasks (snd (store_accept fpq now command target base db)) = db_tasks db @ [new_task now task msg (rq_turn command)])"
proof -
  obtain res db1 where run: "admit_task now command db = (res, db1)" by (rule prod.exhaust)
  have "db_effects db1 = db_effects db \<and> db_requests db1 = db_requests db \<and> (db_tasks db1 = db_tasks db
      \<or> (\<exists>task msg. busy_with (tt_session_id (rq_turn command)) db = None \<and> db_tasks db1 = db_tasks db @ [new_task now task msg (rq_turn command)]))"
    using run
  proof (cases rule: admit_task_cases)
    case (started task msg)
    then show ?thesis using start_task_row [OF started(2)] by blast
  qed simp_all
  then show "db_effects (snd (store_accept fpq now command target base db)) = db_effects db"
    and "db_requests (snd (store_accept fpq now command target base db)) = db_requests db
      \<or> (\<exists>task. db_requests (snd (store_accept fpq now command target base db)) = db_requests db @ [new_request fpq now task command target base])"
    and "db_tasks (snd (store_accept fpq now command target base db)) = db_tasks db
      \<or> (\<exists>task msg. busy_with (tt_session_id (rq_turn command)) db = None
          \<and> db_tasks (snd (store_accept fpq now command target base db)) = db_tasks db @ [new_task now task msg (rq_turn command)])"
    using run unfolding store_accept_db
    by (auto simp: transaction_def accept_body_def sbind_def insert_request_def Let_def split: option.split sum.split prod.split)
qed

lemma prepare_distinct:
  assumes "distinct (map ef_key (db_effects db))"
  shows "distinct (map ef_key (db_effects (snd (effect_prepare digest key task kind sha request db))))"
proof -
  have "ef_key e \<noteq> key" if "effect_of key db = None" "e \<in> set (db_effects db)" for e
    using that by (auto simp: effect_of_def find_None_iff)
  then show ?thesis
    using assms
    by (auto simp: effect_prepare_def transaction_def Let_def new_effect_def split: option.split sum.split prod.split)
qed

lemma agent_step_cases:
  assumes "agent_step m db db'"
  obtains (framed) "frame db db'"
  | (accepted) fpq now command target base where "db' = snd (store_accept fpq now command target base db)"
  | (prepared) digest key task kind sha request where "db' = snd (effect_prepare digest key task kind sha request db)"
  | (completed) digest key response where "db' = snd (effect_complete digest key response db)"
  using assms by cases (auto intro: frames)

lemma frame_prepare: "db_tasks (snd (effect_prepare digest key task kind sha request db)) = db_tasks db"
    "db_requests (snd (effect_prepare digest key task kind sha request db)) = db_requests db"
  by (auto simp: effect_prepare_def transaction_def Let_def split: option.split sum.split prod.split)

lemma frame_complete: "db_tasks (snd (effect_complete digest key response db)) = db_tasks db"
    "db_requests (snd (effect_complete digest key response db)) = db_requests db"
    "map ef_key (db_effects (snd (effect_complete digest key response db))) = map ef_key (db_effects db)"
  by (auto simp: effect_complete_def transaction_def sql_update_def split: option.split sum.split prod.split)

lemma agent_step_system_inv:
  assumes inv: "system_inv m db" and step: "agent_step m db db'"
  shows "system_inv m db'"
proof -
  have ok: "agent_inv db" "distinct (map ef_key (db_effects db))" "\<And>r. r \<in> set (db_requests db) \<Longrightarrow> ap_attempts r \<le> max 0 m"
    using inv by (simp_all add: system_inv_def)
  note inv' = agent_step_inv [OF step ok(1)]
  show ?thesis
    using step
  proof (cases rule: agent_step_cases)
    case framed
    then show ?thesis using system_inv_frame [OF inv inv'] agent_step_grows [OF step ok(1,2)] by blast
  next
    case (accepted fpq now command target base)
    have "db_effects db' = db_effects db" unfolding accepted by (rule store_accept_rows(1))
    moreover have "ap_attempts r \<le> max 0 m" if "r \<in> set (db_requests db')" for r
      using store_accept_rows(2) [of fpq now command target base db] that ok(3) unfolding accepted by (auto simp: new_request_def)
    ultimately show ?thesis using inv' ok(2) by (simp add: system_inv_def)
  next
    case (prepared digest key task kind sha request)
    then show ?thesis using inv' ok prepare_distinct [OF ok(2)] by (simp add: system_inv_def frame_prepare)
  next
    case (completed digest key response)
    then show ?thesis using inv' ok by (simp add: system_inv_def frame_complete)
  qed
qed

abbreviation reachable_agent :: "int \<Rightarrow> agent_db \<Rightarrow> bool" where
  "reachable_agent m \<equiv> reachable (\<lambda>db. db = empty_agent_db) (agent_step m)"

interpretation agent: growth_system "\<lambda>db. db = empty_agent_db" "agent_step m" "system_inv m" "db_grows m" for m
proof unfold_locales
  fix db :: agent_db
  show "db = empty_agent_db \<Longrightarrow> system_inv m db"
    by (simp add: system_inv_def empty_agent_inv) (simp add: empty_agent_db_def)
next
  fix db db' :: agent_db
  assume "system_inv m db" "agent_step m db db'"
  then show "db_grows m db db'" using agent_step_grows by (simp add: system_inv_def)
qed (fact agent_step_system_inv db_grows_refl db_grows_trans)+

lemma reachable_agent_inv: "reachable_agent m db \<Longrightarrow> agent_inv db"
  using agent.reachable_inv [of m db] by (simp add: system_inv_def)

end
