(* ===== verification/Agent_Props.thy ===== *)
theory Agent_Props
  imports Agent_Steps
begin

text \<open>
  What holds of every reachable state of the agent's database, and across every interleaving of its
  writers: one task at a time in a session, results that are written once, attempts within their
  budget, claims that fence off their predecessors, and sessions that become free again.
\<close>

section \<open>A concrete history\<close>

definition demo_start :: api_request where
  "demo_start = \<lparr>rq_request_id = 3, rq_turn = \<lparr>tt_user_id = ''u'', tt_project_id = ''p'', tt_session_id = ''s'',
     tt_active_task_id = uuid_str 5, tt_current_input_message_id = uuid_str 6, tt_user_message = ''hi'',
     tt_runtime_profile = ''basic''\<rparr>, rq_kind = Rq_START, rq_interrupt_id = None, rq_payload = None\<rparr>"

definition demo_fpq :: "api_request \<Rightarrow> string" where
  "demo_fpq q = tt_user_message (rq_turn q)"

text \<open>The first request of a session is accepted, claimed, and its task ends.\<close>

definition demo_accepted :: agent_db where
  "demo_accepted = snd (store_accept demo_fpq 0 demo_start ''begin_task'' None empty_agent_db)"

definition demo_claimed :: agent_db where
  "demo_claimed = snd (request_claim demo_fpq 0 3 5 3 demo_accepted)"

definition demo_failed :: agent_db where
  "demo_failed = snd (effect_terminal 1 5 FAILED ''no'' JNull demo_claimed)"

lemma demo_agent_reachable: "reachable_agent 3 demo_accepted" "reachable_agent 3 demo_claimed" "reachable_agent 3 demo_failed"
proof -
  show a: "reachable_agent 3 demo_accepted"
    unfolding demo_accepted_def by (rule reach_step) (rule reach_init, rule refl, rule st_accept)
  show c: "reachable_agent 3 demo_claimed"
    unfolding demo_claimed_def by (rule reach_step, rule a, rule st_claim)
  show "reachable_agent 3 demo_failed"
    unfolding demo_failed_def by (rule reach_step, rule c, rule st_terminal)
qed

lemma demo_task_uuid: "uuid_parse (uuid_str 5) = Some 5" "uuid_parse (uuid_str 6) = Some 6"
  by (simp_all add: uuid_round_trip valid_uuid_def)

lemmas demo_agent_defs = demo_start_def demo_fpq_def demo_task_uuid empty_agent_db_def

lemma demo_accepted_eq: "demo_accepted = \<lparr>db_tasks = [new_task 0 5 6 (rq_turn demo_start)],
    db_messages = [\<lparr>m_id = Some 6, m_task_id = 5, m_role = ''user'', m_content = ''hi'', m_metadata = JObj []\<rparr>],
    db_events = [\<lparr>te_task_id = 5, te_event_type = ''task.accepted'', te_payload = JObj [(''status'', JStr ''ACCEPTED'')]\<rparr>],
    db_locks = [], db_bindings = [], db_requests = [new_request demo_fpq 0 5 demo_start ''begin_task'' None],
    db_cleanups = [], db_effects = []\<rparr>"
  by (simp add: demo_accepted_def store_accept_db accept_body_def transaction_def admit_task_def start_task_def insert_request_def
      api_record_def new_request_def sbind_def request_of_def active_request_def cleanup_of_def task_of_def busy_with_def lock_of_def
      unfinished_task_def add_event_def Let_def demo_agent_defs)

lemma demo_claimed_eq: "demo_claimed = demo_accepted\<lparr>db_requests := [claim_row 0 False 3 5 (new_request demo_fpq 0 5 demo_start ''begin_task'' None)]\<rparr>"
  by (simp add: demo_claimed_def demo_accepted_eq request_claim_def transaction_def request_required_def request_of_def cleanup_of_def
      new_request_def claim_row_def set_request_state_def api_record_def update_request_def sql_update_def Let_def demo_agent_defs)

lemma demo_failed_eq: "demo_failed = add_event 5 ''task.completed'' (JObj [(''status'', JStr ''FAILED'')])
    (add_answer 5 ''no'' JNull (demo_claimed\<lparr>db_tasks := [set_terminal 1 FAILED (Some ''no'') (new_task 0 5 6 (rq_turn demo_start))]\<rparr>))"
  by (simp add: demo_failed_def effect_terminal_def transaction_def demo_claimed_eq demo_accepted_eq task_of_def new_task_def
      update_task_def sql_update_def release_lock_def add_event_def add_answer_def)

section \<open>A row in a later state\<close>

lemma task_later:
  assumes "reachable_agent m db" "(agent_step m)\<^sup>*\<^sup>* db db'" "task_of u db = Some t"
  obtains t' where "task_of u db' = Some t'" "task_kept t t'"
proof -
  have "t \<in> set (db_tasks db)" "t_id t = u" using row_of_key(1) [OF assms(3)] by simp_all
  then obtain t' where t': "t' \<in> set (db_tasks db')" "task_kept t t'"
    using agent.reachable_grows [OF assms(1,2)] rows_keptD [of task_kept "db_tasks db" "db_tasks db'" t] by (auto simp: db_grows_def)
  have "agent_inv db'" by (rule reachable_agent_inv [OF reachable_rtranclp [OF assms(2,1)]])
  then have "distinct (map t_id (db_tasks db'))" by (simp add: agent_inv_def tasks_ok_def)
  then have "task_of u db' = Some t'"
    unfolding task_of_def using find_key [of t_id "db_tasks db'" t'] t' \<open>t_id t = u\<close> by (simp add: task_kept_def)
  then show ?thesis using t'(2) by (rule that)
qed

lemma request_later:
  assumes "reachable_agent m db" "(agent_step m)\<^sup>*\<^sup>* db db'" "request_of u db = Some r"
  obtains r' where "request_of u db' = Some r'" "request_kept m r r'"
proof -
  have "r \<in> set (db_requests db)" "ap_request_id r = u" using row_of_key(2) [OF assms(3)] by simp_all
  then obtain r' where r': "r' \<in> set (db_requests db')" "request_kept m r r'"
    using agent.reachable_grows [OF assms(1,2)] rows_keptD [of "request_kept m" "db_requests db" "db_requests db'" r]
    by (auto simp: db_grows_def)
  have "agent_inv db'" by (rule reachable_agent_inv [OF reachable_rtranclp [OF assms(2,1)]])
  then have "distinct (map ap_request_id (db_requests db'))" by (simp add: agent_inv_def requests_ok_def)
  then have "request_of u db' = Some r'"
    unfolding request_of_def using find_key [of ap_request_id "db_requests db'" r'] r' \<open>ap_request_id r = u\<close> by (simp add: request_kept_def)
  then show ?thesis using r'(2) by (rule that)
qed

lemma request_row_ok: "agent_inv db \<Longrightarrow> request_of u db = Some r \<Longrightarrow> request_ok (db_tasks db) r"
  using row_of_key(2) unfolding agent_inv_def requests_ok_def by blast

text \<open>A claim that hands out a running attempt has written it.\<close>

lemma claim_running:
  assumes "agent_inv db" "request_claim fpq now m d u db = (Inr rec, db1)" "ap_state rec = Rs_RUNNING"
  shows "request_of u db1 = Some rec" "rq_request_id (ap_command rec) = u"
    "\<And>row. request_of u db = Some row \<Longrightarrow> ap_attempts rec = ap_attempts row + 1 \<and> ap_attempts row < m"
proof -
  obtain row where row: "request_of u db = Some row" using assms(2) by (auto simp: request_claim_def exn_simps request_required_def split: option.splits)
  have "open_state (ap_state row)"
    using assms(2,3) row by (auto simp: request_claim_def exn_simps request_required_def api_record_def split: if_splits)
  then have r: "rec = claim_row now (cleanup_of (ap_task_id row) db \<noteq> None) m d row" "db1 = update_request u (claim_row now (cleanup_of (ap_task_id row) db \<noteq> None) m d) db"
    using assms(2) row by (auto simp: request_claim_def exn_simps request_required_def api_record_def Let_def split: if_splits)
  have key: "ap_request_id (claim_row now b m d x) = ap_request_id x" for b x by (simp add: claim_row_def set_request_state_def)
  show "request_of u db1 = Some rec" using r row request_of_update [OF key] by simp
  show "rq_request_id (ap_command rec) = u"
    using request_row_ok [OF assms(1) row] row_of_key(2) [OF row] r(1) by (simp add: request_ok_def claim_row_def set_request_state_def)
  fix row' assume "request_of u db = Some row'"
  then have "row' = row" using row by simp
  moreover have "\<not> m \<le> ap_attempts row" "cleanup_of (ap_task_id row) db = None"
    using assms(3) r(1) by (auto simp: claim_row_def set_request_state_def split: if_splits)
  ultimately show "ap_attempts rec = ap_attempts row' + 1 \<and> ap_attempts row' < m"
    using r(1) by (simp add: claim_row_def set_request_state_def)
qed

section \<open>Properties\<close>





text \<open>
  C17: a claim fences off every earlier one. When a request is claimed, and later claimed again by another
  process, the record of the first claim can settle nothing any more, whatever happened in between.
\<close>

theorem superseded_claim_refused:
  assumes "reachable_agent m db" "request_claim fpq now m d u db = (Inr rec, db1)" "ap_state rec = Rs_RUNNING"
    and "(agent_step m)\<^sup>*\<^sup>* db1 db2" "request_claim fpq' now' m d' u db2 = (Inr rec', db3)" "ap_state rec' = Rs_RUNNING"
    and "(agent_step m)\<^sup>*\<^sup>* db3 db4" "st \<in> {Rs_PENDING, Rs_APPLIED, Rs_REJECTED, Rs_BLOCKED}"
  shows "ap_attempts rec < ap_attempts rec'
    \<and> request_finish fpq now'' rec st err d'' db4 = (Inl (SessionConflictError ''API request attempt was superseded''), db4)"
proof -
  note first = claim_running [OF reachable_agent_inv [OF assms(1)] assms(2,3)]
  have r1: "reachable_agent m db1" using reach_step [OF assms(1) st_claim] assms(2) by (metis snd_conv)
  have r2: "reachable_agent m db2" by (rule reachable_rtranclp [OF assms(4) r1])
  note second = claim_running [OF reachable_agent_inv [OF r2] assms(5,6)]
  have r3: "reachable_agent m db3" using reach_step [OF r2 st_claim] assms(5) by (metis snd_conv)
  obtain x where x: "request_of u db2 = Some x" "ap_attempts rec \<le> ap_attempts x"
    by (rule request_later [OF r1 assms(4) first(1)]) (auto simp: request_kept_def)
  obtain y where y: "request_of u db4 = Some y" "ap_attempts rec' \<le> ap_attempts y"
    by (rule request_later [OF r3 assms(7) second(1)]) (auto simp: request_kept_def)
  have "ap_attempts rec < ap_attempts rec'" using second(3) [OF x(1)] x(2) by simp
  then show ?thesis
    using y first(2) assms(8) by (auto simp: request_finish_def request_required_def transaction_def)
qed

theorem superseded_claim_refused_witness:
  "\<exists>rec rec' db3. request_claim demo_fpq 0 3 5 3 demo_accepted = (Inr rec, demo_claimed)
    \<and> request_claim demo_fpq 9 3 5 3 demo_claimed = (Inr rec', db3) \<and> ap_attempts rec < ap_attempts rec'
    \<and> request_finish demo_fpq 10 rec Rs_APPLIED None 0 db3 = (Inl (SessionConflictError ''API request attempt was superseded''), db3)"
proof -
  let ?r = "new_request demo_fpq 0 5 demo_start ''begin_task'' None"
  have first: "request_claim demo_fpq 0 3 5 3 demo_accepted = (Inr (claim_row 0 False 3 5 ?r), demo_claimed)"
    unfolding demo_claimed_eq
    by (simp add: demo_accepted_eq request_claim_def transaction_def request_required_def request_of_def cleanup_of_def
        new_request_def claim_row_def set_request_state_def api_record_def update_request_def sql_update_def Let_def demo_agent_defs)
  obtain db3 where second: "request_claim demo_fpq 9 3 5 3 demo_claimed = (Inr (claim_row 9 False 3 5 (claim_row 0 False 3 5 ?r)), db3)"
    by (simp add: demo_claimed_eq demo_accepted_eq request_claim_def transaction_def request_required_def request_of_def cleanup_of_def
        new_request_def claim_row_def set_request_state_def api_record_def update_request_def sql_update_def Let_def demo_agent_defs)
  have running: "ap_state (claim_row 0 False 3 5 ?r) = Rs_RUNNING" "ap_state (claim_row 9 False 3 5 (claim_row 0 False 3 5 ?r)) = Rs_RUNNING"
    by (simp_all add: claim_row_def set_request_state_def new_request_def)
  show ?thesis
    using superseded_claim_refused [OF demo_agent_reachable(1) first running(1) rtranclp.rtrancl_refl second running(2) rtranclp.rtrancl_refl,
        of Rs_APPLIED 10 None 0] first second by auto
qed

text \<open>
  no request is ever claimed more often than the limit allows: in every reachable state its count of
  attempts lies between 0 and the limit.
\<close>

theorem attempts_within_budget:
  assumes "reachable_agent m db" "r \<in> set (db_requests db)"
  shows "0 \<le> ap_attempts r \<and> ap_attempts r \<le> max 0 m"
proof -
  have "request_ok (db_tasks db) r"
    using reachable_agent_inv [OF assms(1)] assms(2) unfolding agent_inv_def requests_ok_def by blast
  moreover have "ap_attempts r \<le> max 0 m"
    using agent.reachable_inv [OF assms(1)] assms(2) by (simp add: system_inv_def)
  ultimately show ?thesis by (simp add: request_ok_def)
qed

theorem attempts_within_budget_witness: "ap_attempts (hd (db_requests demo_claimed)) \<le> 3 \<and> db_requests demo_claimed \<noteq> []"
  using attempts_within_budget [OF demo_agent_reachable(2), of "hd (db_requests demo_claimed)"] by (simp add: demo_claimed_eq)

section \<open>Sessions as locks\<close>

text \<open>
  The abstract session: its owner, if any, and the tasks that owned it before. A new task enters an idle
  session and never returns; nothing else changes the owner.
\<close>

inductive session_spec :: "uuid option \<times> uuid set \<Rightarrow> uuid option \<times> uuid set \<Rightarrow> bool" where
  stutter: "session_spec s s"
| admit: "u \<notin> past \<Longrightarrow> session_spec (None, past) (Some u, past)"
| release: "session_spec (Some u, past) (None, insert u past)"

definition session_abs :: "string \<Rightarrow> agent_db \<Rightarrow> uuid option \<times> uuid set" where
  "session_abs sess db = (map_option t_id (unfinished_task sess db),
     {t_id t |t. t \<in> set (db_tasks db) \<and> t_session_id t = sess \<and> is_terminal (t_status t)})"

lemma unfinished_owner:
  assumes "tasks_ok (db_tasks db)" "t \<in> set (db_tasks db)" "t_session_id t = sess" "unfinished t"
  shows "map_option t_id (unfinished_task sess db) = Some (t_id t)"
proof (cases "unfinished_task sess db")
  case None
  then show ?thesis using assms(2-4) by (auto simp: unfinished_task_def find_None_iff)
next
  case (Some x)
  then have "x \<in> set (db_tasks db)" "t_session_id x = sess" "unfinished x" by (auto simp: unfinished_task_def dest: find_SomeD)
  then show ?thesis using Some tasks_okD [OF assms(1) _ assms(2) _ assms(4)] assms(3) by simp
qed

lemma unfinished_none: "unfinished_task sess db = None \<longleftrightarrow> (\<forall>t \<in> set (db_tasks db). t_session_id t = sess \<longrightarrow> is_terminal (t_status t))"
  by (auto simp: unfinished_task_def find_None_iff)

lemma session_spec_frame:
  assumes inv: "agent_inv db" "agent_inv db'" and kept: "list_all2 task_kept (db_tasks db) (db_tasks db')"
  shows "session_spec (session_abs sess db) (session_abs sess db')"
proof -
  have ok: "tasks_ok (db_tasks db)" "tasks_ok (db_tasks db')" using inv by (simp_all add: agent_inv_def)
  have fwd: "\<exists>t' \<in> set (db_tasks db'). task_kept t t'" if "t \<in> set (db_tasks db)" for t
    using kept that by (metis list_all2_conv_all_nth in_set_conv_nth)
  have bwd: "\<exists>t \<in> set (db_tasks db). task_kept t t'" if "t' \<in> set (db_tasks db')" for t'
    using kept that by (metis list_all2_conv_all_nth in_set_conv_nth)
  let ?over = "\<lambda>db. {t_id t |t. t \<in> set (db_tasks db) \<and> t_session_id t = sess \<and> is_terminal (t_status t)}"
  have sub: "?over db \<subseteq> ?over db'"
  proof
    fix u assume "u \<in> ?over db"
    then obtain t where t: "t \<in> set (db_tasks db)" "u = t_id t" "t_session_id t = sess" "is_terminal (t_status t)" by blast
    then obtain t' where "t' \<in> set (db_tasks db')" "task_kept t t'" using fwd by blast
    then show "u \<in> ?over db'" using t by (intro CollectI exI [of _ t']) (simp add: task_kept_def)
  qed
  show ?thesis
  proof (cases "unfinished_task sess db")
    case None
    then have old: "is_terminal (t_status t)" if "t \<in> set (db_tasks db)" "t_session_id t = sess" for t
      using that by (simp add: unfinished_none)
    have new: "t_id t' \<in> ?over db \<and> is_terminal (t_status t')" if h: "t' \<in> set (db_tasks db')" "t_session_id t' = sess" for t'
    proof -
      obtain t where "t \<in> set (db_tasks db)" "task_kept t t'" using bwd [OF h(1)] by blast
      then show ?thesis using old [of t] h(2) by (auto simp: task_kept_def)
    qed
    then have "unfinished_task sess db' = None" by (simp add: unfinished_none)
    moreover have "?over db' = ?over db" using new sub by blast
    ultimately show ?thesis using None by (simp add: session_abs_def session_spec.stutter)
  next
    case (Some x)
    then have x: "x \<in> set (db_tasks db)" "t_session_id x = sess" "unfinished x" by (auto simp: unfinished_task_def dest: find_SomeD)
    obtain x' where x': "x' \<in> set (db_tasks db')" "task_kept x x'" using fwd [OF x(1)] by blast
    have other: "t_id t' = t_id x \<or> t_id t' \<in> ?over db \<and> is_terminal (t_status t')"
      if h: "t' \<in> set (db_tasks db')" "t_session_id t' = sess" for t'
    proof -
      obtain t where t: "t \<in> set (db_tasks db)" "task_kept t t'" using bwd [OF h(1)] by blast
      show ?thesis
      proof (cases "unfinished t")
        case True
        then show ?thesis using tasks_okD [OF ok(1) t(1) x(1) True x(3)] t(2) h(2) x(2) by (simp add: task_kept_def)
      next
        case False
        then show ?thesis using t h(2) by (auto simp: task_kept_def)
      qed
    qed
    have id: "t' = x'" if "t' \<in> set (db_tasks db')" "t_id t' = t_id x" for t'
    proof -
      have "distinct (map t_id (db_tasks db'))" using ok(2) unfolding tasks_ok_def by blast
      then show ?thesis using key_unique [of t_id "db_tasks db'" t' x'] that x' by (simp add: task_kept_def)
    qed
    have sx: "t_session_id x' = sess" "t_id x' = t_id x" using x' x(2) by (simp_all add: task_kept_def)
    show ?thesis
    proof (cases "unfinished x'")
      case True
      have "?over db' \<subseteq> ?over db"
      proof
        fix u assume "u \<in> ?over db'"
        then obtain t' where t': "t' \<in> set (db_tasks db')" "u = t_id t'" "t_session_id t' = sess" "is_terminal (t_status t')" by blast
        then have "t_id t' \<noteq> t_id x" using id [OF t'(1)] True by auto
        then show "u \<in> ?over db" using other [OF t'(1,3)] t'(2) by simp
      qed
      then have "?over db' = ?over db" using sub by simp
      moreover have "map_option t_id (unfinished_task sess db') = Some (t_id x)" using unfinished_owner [OF ok(2) x'(1) sx(1) True] sx by simp
      ultimately have "session_abs sess db' = session_abs sess db" using Some by (simp only: session_abs_def option.map)
      then show ?thesis by (simp only: session_spec.stutter)
    next
      case False
      have "t_id x \<in> ?over db'" using x'(1) sx False by (intro CollectI exI [of _ x']) simp
      moreover have "?over db' \<subseteq> insert (t_id x) (?over db)"
      proof
        fix u assume "u \<in> ?over db'"
        then obtain t' where t': "t' \<in> set (db_tasks db')" "u = t_id t'" "t_session_id t' = sess" by blast
        then show "u \<in> insert (t_id x) (?over db)" using other [OF t'(1,3)] by blast
      qed
      ultimately have "?over db' = insert (t_id x) (?over db)" using sub by blast
      moreover have "unfinished_task sess db' = None" unfolding unfinished_none using other id False by blast
      ultimately show ?thesis using Some by (simp add: session_abs_def session_spec.release)
    qed
  qed
qed

lemma session_spec_accept:
  assumes inv: "agent_inv db'" and idle: "busy_with (t_session_id t) db = None" and new: "db_tasks db' = db_tasks db @ [t]" and t: "unfinished t"
  shows "session_spec (session_abs sess db) (session_abs sess db')"
proof (cases "sess = t_session_id t")
  case True
  let ?over = "\<lambda>db. {t_id t |t. t \<in> set (db_tasks db) \<and> t_session_id t = sess \<and> is_terminal (t_status t)}"
  have ok: "tasks_ok (db_tasks db')" using inv by (simp add: agent_inv_def)
  have "t_id t \<notin> t_id ` set (db_tasks db)" using ok unfolding tasks_ok_def new by auto
  then have "t_id t \<notin> ?over db" by auto
  moreover have "?over db' = ?over db" using t unfolding new by auto
  moreover have "unfinished_task sess db = None" using not_busy [OF idle] True by simp
  moreover have "map_option t_id (unfinished_task sess db') = Some (t_id t)"
    using unfinished_owner [OF ok, of t] new t True by simp
  ultimately show ?thesis
    unfolding session_abs_def by (simp only: option.map) (rule session_spec.admit)
next
  case False
  then have "session_abs sess db' = session_abs sess db"
    by (auto simp: session_abs_def unfinished_task_def new find_append split: option.split)
  then show ?thesis by (simp add: session_spec.stutter)
qed



section \<open>Sessions become free\<close>

lemma cleanup_frees:
  assumes inv: "agent_inv db" and run: "cleanup_finish now rec db = (Inr (), db1)"
    and t: "task_of (fc_task_id rec) db = Some t" "unfinished t"
  shows "active_request (t_session_id t) db1 = None" "busy_with (t_session_id t) db1 = None"
proof -
  obtain row message where row: "fenced rec db = Inr row" "fc_message row = Some message"
    and db1: "db1 = close_cleanup now (fc_task_id row) (fail_task now row message db)"
    using run
  proof (cases rule: cleanup_finish_cases)
    case (preserved row t')
    then show ?thesis using t fencedD(2) [OF preserved(2)] by simp
  qed auto
  have u: "fc_task_id row = fc_task_id rec" by (rule fencedD(2) [OF row(1)])
  have inv1: "agent_inv db1" using cleanup_finish_inv [OF inv, of now rec] run by simp
  have final: "is_terminal (fc_final_status row)"
    using cleanup_row_ok [OF inv fencedD(1) [OF row(1)]] by (simp add: cleanup_ok_def)
  have tasks: "db_tasks db1 = db_tasks (fail_task now row message db)"
    by (simp add: db1 close_cleanup_def release_lock_def compensate_def table_simps)
  have reqs: "db_requests db1 = sql_update (\<lambda>r. ap_task_id r = fc_task_id rec \<and> active_state (ap_state r))
      (set_request_state now Rs_COMPENSATED) (db_requests db)"
    by (simp add: db1 u close_cleanup_def release_lock_def compensate_def fail_task_def add_answer_def Let_def table_simps)
  have tin: "t \<in> set (db_tasks db)" "t_id t = fc_task_id rec" using row_of_key(1) [OF t(1)] by simp_all
  have over: "is_terminal (t_status x)" if "x \<in> set (db_tasks db1)" "t_session_id x = t_session_id t" for x
  proof (cases "t_id x = fc_task_id rec")
    case True
    then show ?thesis using fail_task_over [OF final] that(1) u unfolding tasks by simp
  next
    case False
    then have x: "x \<in> set (db_tasks db)"
      using that(1) u unfolding tasks
      by (auto simp: fail_task_def add_answer_def Let_def table_simps in_sql_update set_terminal_def split: if_splits)
    have "tasks_ok (db_tasks db)" using inv by (simp add: agent_inv_def)
    then show ?thesis using tasks_okD [of "db_tasks db" x t] x tin t(2) that(2) False by auto
  qed
  have quiet: "\<not> active_state (ap_state r)" if h: "r \<in> set (db_requests db1)" "ap_session_id r = t_session_id t" for r
  proof
    assume act: "active_state (ap_state r)"
    obtain r0 where r0: "r0 \<in> set (db_requests db)"
        "r = (if ap_task_id r0 = fc_task_id rec \<and> active_state (ap_state r0) then set_request_state now Rs_COMPENSATED r0 else r0)"
      using h(1) unfolding reqs by (auto simp: in_sql_update)
    have "requests_ok (db_tasks db) (db_requests db)" using inv by (simp add: agent_inv_def)
    moreover have other: "\<not> (ap_task_id r0 = fc_task_id rec \<and> active_state (ap_state r0))"
      using r0(2) act by (cases "ap_task_id r0 = fc_task_id rec \<and> active_state (ap_state r0)") (simp_all add: set_request_state_def)
    moreover have "r = r0" using r0(2) other by simp
    ultimately have "ap_task_id r0 = t_id t" using requests_okD(2) [OF _ r0(1) _ tin(1) t(2)] act h(2) by simp
    then show False using other act tin(2) \<open>r = r0\<close> by simp
  qed
  show "active_request (t_session_id t) db1 = None" using quiet by (auto simp: active_request_def find_None_iff)
  have idle: "unfinished_task (t_session_id t) db1 = None" using over by (simp add: unfinished_none)
  moreover have "lock_of (t_session_id t) db1 = None"
  proof (rule ccontr)
    assume "lock_of (t_session_id t) db1 \<noteq> None"
    then obtain l where "l \<in> set (db_locks db1)" "sl_session_id l = t_session_id t" by (auto simp: lock_of_def dest: find_SomeD)
    then show False using inv1 over unfolding agent_inv_def locks_ok_def by metis
  qed
  ultimately show "busy_with (t_session_id t) db1 = None" by (simp add: busy_with_def)
qed


text \<open>The first task fails: its cleanup is created, the executor was never reached, and the cleanup ends.\<close>

definition demo_cleanup :: cleanup_row where
  "demo_cleanup = new_cleanup 2 (new_task 0 5 6 (rq_turn demo_start)) (rq_turn demo_start) JNull ''why'' None"

definition demo_proven :: cleanup_row where
  "demo_proven = touch 3 ''AGENT'' (demo_cleanup\<lparr>fc_executor_status := Some ''NOT_REQUIRED'', fc_message := Some ''failed''\<rparr>)"

definition demo_cleaning :: agent_db where
  "demo_cleaning = snd (cleanup_confirm 3 demo_cleanup None ''NOT_REQUIRED'' ''failed''
     (snd (cleanup_ensure 2 5 ''s'' JNull ''why'' None demo_accepted)))"

definition demo_again :: api_request where
  "demo_again = demo_start\<lparr>rq_request_id := 4, rq_turn := (rq_turn demo_start)\<lparr>tt_active_task_id := uuid_str 8,
     tt_current_input_message_id := uuid_str 9\<rparr>\<rparr>"

lemma demo_cleaning_eq:
  "demo_cleaning = demo_accepted\<lparr>db_cleanups := [demo_proven],
     db_events := db_events demo_accepted @ [\<lparr>te_task_id = 5, te_event_type = ''task.failure_cleanup_pending'',
       te_payload = JObj [(''source'', JNull), (''reason'', JStr ''why'')]\<rparr>],
     db_locks := [\<lparr>sl_session_id = ''s'', sl_active_task_id = 5, sl_execution_id = None, sl_locked = True\<rparr>]\<rparr>"
  by (simp add: demo_cleaning_def demo_accepted_eq cleanup_ensure_def cleanup_confirm_def fenced_update_def fenced_def cleanup_required_def
      transaction_def task_of_def cleanup_of_def start_turn_def turn_valid_def create_cleanup_def take_lock_def lock_of_def sbind_def swrite_def
      spure_def add_event_def update_cleanup_def sql_update_def demo_cleanup_def demo_proven_def new_cleanup_def new_task_def touch_def
      new_request_def demo_start_def Let_def)

lemma demo_cleaning_reachable: "reachable_agent 3 demo_cleaning"
  unfolding demo_cleaning_def
  by (rule reach_step, rule reach_step, rule demo_agent_reachable(1), rule st_ensure, rule st_cleanup_confirm)


section \<open>Effects\<close>

lemma effect_later:
  assumes "reachable_agent m db" "(agent_step m)\<^sup>*\<^sup>* db db'" "effect_of key db = Some e"
  obtains e' where "effect_of key db' = Some e'" "effect_kept e e'"
proof -
  have e: "e \<in> set (db_effects db)" "ef_key e = key" using assms(3) by (auto simp: effect_of_def dest: find_SomeD)
  then obtain e' where e': "e' \<in> set (db_effects db')" "effect_kept e e'"
    using agent.reachable_grows [OF assms(1,2)] rows_keptD [of effect_kept "db_effects db" "db_effects db'" e] by (auto simp: db_grows_def)
  have "distinct (map ef_key (db_effects db'))"
    using agent.reachable_inv [OF reachable_rtranclp [OF assms(2,1)]] by (simp add: system_inv_def)
  then have "effect_of key db' = Some e'"
    unfolding effect_of_def using find_key [of ef_key "db_effects db'" e'] e' effect_kept_key [OF e'(2)] e(2) by simp
  then show ?thesis using e'(2) by (rule that)
qed

text \<open>What a prepared or completed effect is known to satisfy.\<close>

definition effect_valid :: "(json \<Rightarrow> string) \<Rightarrow> uuid \<Rightarrow> string \<Rightarrow> string \<Rightarrow> effect_row \<Rightarrow> bool" where
  "effect_valid digest task kind sha r = (effect_record digest r = Inr r \<and> validate_identity r task kind sha = Inr ())"

lemma prepared_row:
  assumes "effect_prepare digest key task kind sha request db = (Inr r, db')"
  shows "effect_of key db' = Some r" "effect_valid digest task kind sha r"
  using assms
  by (auto simp: effect_prepare_def exn_simps Let_def effect_valid_def effect_record_def validate_identity_def effect_of_def find_append
      new_effect_def split: option.splits if_splits)

lemma completed_row:
  assumes "effect_complete digest key response db = (Inr r, db')" "effect_of key db = Some r0" "effect_valid digest task kind sha r0"
  shows "effect_of key db' = Some r" "effect_valid digest task kind sha r" "ef_response r \<noteq> None"
proof -
  have upd: "find (\<lambda>x. ef_key x = key) (sql_update (\<lambda>x. ef_key x = key) (\<lambda>x. x\<lparr>ef_response := Some response\<rparr>) (db_effects db))
      = map_option (\<lambda>x. x\<lparr>ef_response := Some response\<rparr>) (find (\<lambda>x. ef_key x = key) (db_effects db))"
    using find_update_key [of ef_key "\<lambda>x. x\<lparr>ef_response := Some response\<rparr>" key key "db_effects db"] by simp
  show "effect_of key db' = Some r" "effect_valid digest task kind sha r" "ef_response r \<noteq> None"
    using assms upd
    by (auto simp: effect_complete_def exn_simps effect_valid_def effect_record_def validate_identity_def effect_of_def
        split: option.splits if_splits)
qed

lemma on_db_eq: "on_db f s = (res, s') \<longleftrightarrow> (\<exists>d. f (fst s) = (res, d) \<and> s' = (d, snd s))"
  by (auto simp: on_db_def split: prod.splits)

lemma on_graph_eq: "on_graph f s = (res, s') \<longleftrightarrow> (\<exists>g. f (snd s) = (res, g) \<and> s' = (fst s, g))"
  by (auto simp: on_graph_def split: prod.splits)

text \<open>The journal after the record is found or prepared.\<close>

definition journal_send ::
    "(json \<Rightarrow> string) \<Rightarrow> fault \<Rightarrow> uuid \<Rightarrow> string \<Rightarrow> string \<Rightarrow> json \<Rightarrow> (json \<Rightarrow> 'w \<Rightarrow> json result \<times> 'w) \<Rightarrow> effect_row
      \<Rightarrow> agent_db \<times> 'w \<Rightarrow> effect_row result \<times> agent_db \<times> 'w" where
  "journal_send digest cf task key kind inputs send r =
     sbind (spure (validate_identity r task kind (digest inputs))) (\<lambda>_.
       (case ef_response r of
          Some _ \<Rightarrow> spure (Inr r)
        | None \<Rightarrow> sbind (on_graph (send (ef_request r))) (\<lambda>response.
            on_db (with_fault cf (effect_complete digest key response)))))"

lemma journal_run_split: "journal_run digest pf cf task key kind inputs prepare send =
     sbind (on_db (\<lambda>db. (effect_get digest key db, db))) (\<lambda>found.
     sbind (case found of
         Some r \<Rightarrow> spure (Inr r)
       | None \<Rightarrow> sbind prepare (\<lambda>request. on_db (with_fault pf (effect_prepare digest key task kind (digest inputs) request))))
       (journal_send digest cf task key kind inputs send))"
  by (simp add: journal_run_def journal_send_def [abs_def])

lemma journal_send_done:
  assumes run: "journal_send digest cf task key kind inputs send r0 (db0, w0) = (Inr r, db1, w1)"
    and r0: "effect_of key db0 = Some r0" "effect_record digest r0 = Inr r0"
  shows "(agent_step m)\<^sup>*\<^sup>* db0 db1 \<and> effect_of key db1 = Some r \<and> effect_valid digest task kind (digest inputs) r \<and> ef_response r \<noteq> None"
proof -
  have valid: "effect_valid digest task kind (digest inputs) r0"
    using run r0(2) by (auto simp: journal_send_def sbind_eq spure_def effect_valid_def)
  show ?thesis
  proof (cases "ef_response r0")
    case (Some x)
    then show ?thesis using run r0 valid by (auto simp: journal_send_def sbind_eq spure_def)
  next
    case None
    then obtain response where "with_fault cf (effect_complete digest key response) db0 = (Inr r, db1)"
      using run by (auto simp: journal_send_def sbind_eq spure_def on_graph_eq on_db_eq)
    then have c: "effect_complete digest key response db0 = (Inr r, db1)" by (cases cf) auto
    have "agent_step m db0 db1" using st_complete [of m db0 digest key response] c by simp
    then show ?thesis using completed_row [OF c r0(1) valid] by auto
  qed
qed

text \<open>A run that returns has stored the completed effect, and its writes are steps.\<close>

lemma journal_run_done:
  assumes run: "journal_run digest pf cf task key kind inputs prepare send (db, w) = (Inr r, db1, w1)"
    and prep: "(agent_step m)\<^sup>*\<^sup>* db (fst (snd (prepare (db, w))))"
  shows "(agent_step m)\<^sup>*\<^sup>* db db1" "effect_of key db1 = Some r" "effect_valid digest task kind (digest inputs) r" "ef_response r \<noteq> None"
proof -
  from run obtain found where found: "effect_get digest key db = Inr found"
    and tail: "sbind (case found of Some r \<Rightarrow> spure (Inr r)
       | None \<Rightarrow> sbind prepare (\<lambda>request. on_db (with_fault pf (effect_prepare digest key task kind (digest inputs) request))))
       (journal_send digest cf task key kind inputs send) (db, w) = (Inr r, db1, w1)"
    unfolding journal_run_split by (auto simp: sbind_eq [of "on_db _"] on_db_eq)
  obtain r0 db0 w0 where first: "(agent_step m)\<^sup>*\<^sup>* db db0" "effect_of key db0 = Some r0" "effect_record digest r0 = Inr r0"
    and rest: "journal_send digest cf task key kind inputs send r0 (db0, w0) = (Inr r, db1, w1)"
  proof (cases found)
    case (Some r0)
    then have r0: "effect_of key db = Some r0" "effect_record digest r0 = Inr r0"
      using found by (auto simp: effect_get_def effect_record_def split: option.splits if_splits)
    show ?thesis by (rule that [of db r0 w]) (use r0 tail Some in \<open>simp_all add: sbind_def spure_def\<close>)
  next
    case None
    from tail None obtain request d w0 r0 db0 where p: "prepare (db, w) = (Inr request, d, w0)"
      and pr: "with_fault pf (effect_prepare digest key task kind (digest inputs) request) d = (Inr r0, db0)"
      and rest: "journal_send digest cf task key kind inputs send r0 (db0, w0) = (Inr r, db1, w1)"
      by (auto simp: sbind_eq on_db_eq)
    from pr have pr': "effect_prepare digest key task kind (digest inputs) request d = (Inr r0, db0)" by (cases pf) auto
    have "agent_step m d db0" using st_prepare [of m d digest key task kind "digest inputs" request] pr' by simp
    moreover have "(agent_step m)\<^sup>*\<^sup>* db d" using prep p by simp
    ultimately have "(agent_step m)\<^sup>*\<^sup>* db db0" by (rule rtranclp.rtrancl_into_rtrancl [rotated])
    then show ?thesis using that [of db0 r0 w0] prepared_row [OF pr'] rest by (simp add: effect_valid_def)
  qed
  from journal_send_done [OF rest first(2,3)] first(1)
  show "(agent_step m)\<^sup>*\<^sup>* db db1" "effect_of key db1 = Some r" "effect_valid digest task kind (digest inputs) r" "ef_response r \<noteq> None"
    by (blast intro: rtranclp_trans)+
qed

text \<open>
  C16: a completed effect is never sent again. Once a run of the journal has returned, every later run with
  the same key and inputs, in any process and after any other operations, returns the same record
  without preparing, sending or writing anything.
\<close>

theorem effect_sent_once:
  assumes "reachable_agent m db" "(agent_step m)\<^sup>*\<^sup>* db (fst (snd (prepare (db, w))))"
    and "journal_run digest pf cf task key kind inputs prepare send (db, w) = (Inr r, db1, w1)"
    and "(agent_step m)\<^sup>*\<^sup>* db1 db2"
  shows "journal_run digest pf' cf' task key kind inputs prepare' send' (db2, w2) = (Inr r, db2, w2)"
proof -
  note stored = journal_run_done [OF assms(3,2)]
  have "reachable_agent m db1" by (rule reachable_rtranclp [OF stored(1) assms(1)])
  then obtain r' where "effect_of key db2 = Some r'" "effect_kept r r'" using effect_later [OF _ assms(4) stored(2)] by blast
  then have "effect_of key db2 = Some r" using stored(4) by (simp add: effect_kept_def)
  then show ?thesis
    using stored(3,4)
    by (auto simp: journal_run_def sbind_def on_db_def spure_def effect_get_def effect_valid_def Let_def split: option.split)
qed

theorem effect_sent_once_witness:
  "\<exists>r db1. journal_run (\<lambda>_. ''d'') NoFault NoFault 5 ''k'' ''submit'' JNull (spure (Inr JNull)) (\<lambda>_ w. (Inr (JInt 1), Suc w)) (demo_accepted, 0)
      = (Inr r, db1, 1)
    \<and> journal_run (\<lambda>_. ''d'') NoFault NoFault 5 ''k'' ''submit'' JNull (spure (Inl AssertionError)) (\<lambda>_ w. (Inr (JInt 2), Suc w)) (db1, 7)
      = (Inr r, db1, 7)"
proof -
  have "task_of 5 demo_accepted \<noteq> None" by (simp add: demo_accepted_eq task_of_def new_task_def)
  moreover have none: "effect_of ''k'' demo_accepted = None" "db_effects demo_accepted = []" by (simp_all add: demo_accepted_eq effect_of_def)
  ultimately obtain r db1 where run: "journal_run (\<lambda>_. ''d'') NoFault NoFault 5 ''k'' ''submit'' JNull (spure (Inr JNull))
      (\<lambda>_ w. (Inr (JInt 1), Suc w)) (demo_accepted, 0) = (Inr r, db1, 1)"
    by (simp add: journal_run_def sbind_def on_db_def on_graph_def spure_def effect_get_def effect_prepare_def transaction_def
        effect_record_def validate_identity_def new_effect_def effect_complete_def effect_of_def Let_def)
  have "(agent_step 3)\<^sup>*\<^sup>* demo_accepted (fst (snd (spure (Inr JNull) (demo_accepted, 0::nat))))" by (simp add: spure_def)
  from effect_sent_once [OF demo_agent_reachable(1) this run rtranclp.rtrancl_refl, of NoFault NoFault
      "spure (Inl AssertionError)" "\<lambda>_ w. (Inr (JInt 2), Suc w)" 7] run
  show ?thesis by (intro exI conjI)
qed

section \<open>Acceptance is idempotent\<close>

lemma accepted_row:
  assumes "store_accept fpq now cmd target base db = (Inr r, db1)"
  shows "request_of (rq_request_id cmd) db1 = Some r" "ap_command r = cmd" "ap_fingerprint r = fpq cmd"
proof -
  have "request_of (rq_request_id cmd) db1 = Some r \<and> ap_command r = cmd \<and> ap_fingerprint r = fpq cmd"
  proof (cases "transaction (accept_body fpq now cmd target base) db")
    case (Pair res d)
    show ?thesis
    proof (cases res)
      case (Inl e)
      then have "request_get fpq (rq_request_id cmd) d = Inr (Some r)" "validate_command fpq r cmd = Inr ()" "d = db1"
        using assms Pair by (cases e; auto simp: store_accept_def validate_command_def exn_simps split: option.splits if_splits)+
      then show ?thesis by (auto simp: request_get_def api_record_def validate_command_def split: option.splits if_splits)
    next
      case (Inr x)
      then have body: "accept_body fpq now cmd target base db = (Inr r, db1)"
        using assms Pair by (auto simp: store_accept_def exn_simps)
      show ?thesis
      proof (cases "request_of (rq_request_id cmd) db")
        case None
        then obtain d1 where adm: "admit_task now cmd db = (Inr (), d1)" and ins: "insert_request fpq now cmd target base d1 = (Inr r, db1)"
          using body by (auto simp: accept_body_def sbind_eq split: option.splits)
        from adm have "db_requests d1 = db_requests db"
        proof (cases rule: admit_task_cases)
          case (started task msg)
          then show ?thesis by (intro start_task_row(2))
        qed simp_all
        then have "request_of (rq_request_id cmd) d1 = None" using None same_rows(1) [of d1 db] by simp
        then show ?thesis
          using ins by (auto simp: insert_request_def Let_def api_record_def request_of_def find_append new_request_def split: option.splits if_splits)
      next
        case (Some row)
        then show ?thesis
          using body by (auto simp: accept_body_def api_record_def validate_command_def exn_simps split: if_splits)
      qed
    qed
  qed
  then show "request_of (rq_request_id cmd) db1 = Some r" "ap_command r = cmd" "ap_fingerprint r = fpq cmd" by blast+
qed

text \<open>
  Acceptance is idempotent. Once a request is accepted, accepting it again, at any later time and by
  any process, writes nothing and returns the stored request; another request under the same identifier
  is refused.
\<close>

theorem accept_idempotent:
  assumes "reachable_agent m db" "store_accept fpq now cmd target base db = (Inr r, db1)" "(agent_step m)\<^sup>*\<^sup>* db1 db2"
  shows "(\<exists>r'. store_accept fpq now' cmd target' base' db2 = (Inr r', db2) \<and> ap_request_id r' = rq_request_id cmd
      \<and> ap_command r' = cmd \<and> ap_target_node r' = ap_target_node r \<and> ap_base_checkpoint_id r' = ap_base_checkpoint_id r)
    \<and> (rq_request_id other = rq_request_id cmd \<and> other \<noteq> cmd \<longrightarrow>
      store_accept fpq now' other target' base' db2 = (Inl (SessionConflictError ''Request ID was reused with different input''), db2))"
proof -
  note acc = accepted_row [OF assms(2)]
  have "reachable_agent m db1" using reach_step [OF assms(1) st_accept] assms(2) by (metis snd_conv)
  then obtain r' where r': "request_of (rq_request_id cmd) db2 = Some r'" "request_kept m r r'"
    by (rule request_later [OF _ assms(3) acc(1)])
  have cmd: "ap_command r' = cmd" "ap_fingerprint r' = fpq cmd" using r'(2) acc by (simp_all add: request_kept_def)
  have "store_accept fpq now' cmd target' base' db2 = (Inr r', db2)"
    using r'(1) cmd by (simp add: store_accept_def transaction_def accept_body_def api_record_def validate_command_def)
  moreover have "store_accept fpq now' other target' base' db2 = (Inl (SessionConflictError ''Request ID was reused with different input''), db2)"
    if "rq_request_id other = rq_request_id cmd" "other \<noteq> cmd"
    using r'(1) cmd that by (simp add: store_accept_def transaction_def accept_body_def api_record_def validate_command_def)
  ultimately show ?thesis using r' row_of_key(2) [OF r'(1)] cmd by (auto simp: request_kept_def)
qed

theorem accept_idempotent_witness:
  "\<exists>r'. store_accept demo_fpq 7 demo_start ''begin_task'' None demo_claimed = (Inr r', demo_claimed) \<and> ap_command r' = demo_start"
proof -
  have acc: "store_accept demo_fpq 0 demo_start ''begin_task'' None empty_agent_db
      = (Inr (new_request demo_fpq 0 5 demo_start ''begin_task'' None), demo_accepted)"
    using demo_accepted_eq
    by (simp add: demo_accepted_def store_accept_def accept_body_def transaction_def admit_task_def start_task_def insert_request_def
        api_record_def new_request_def sbind_def request_of_def active_request_def cleanup_of_def task_of_def busy_with_def lock_of_def
        unfinished_task_def add_event_def Let_def demo_agent_defs)
  have "(agent_step 3)\<^sup>*\<^sup>* demo_accepted demo_claimed"
    unfolding demo_claimed_def by (rule r_into_rtranclp) (rule st_claim)
  from accept_idempotent [OF reach_init acc this, of 7 "''begin_task''" None] show ?thesis by blast
qed

end
