(* ===== verification/Agent_Service_Props.thy ===== *)
theory Agent_Service_Props
  imports Agent_Props Agent_Failure_Service Agent_Session_Props
begin

text \<open>
  The services on top of the stores. Whatever the graph, the executor and the lease do, a call of a
  service is a sequence of store steps, so that everything shown of the steps holds of the services; an
  accepted input is never injected again; and recovery ends.
\<close>

section \<open>Services take steps\<close>

text \<open>The database before and after a call, beside any other state.\<close>

definition steps :: "int \<Rightarrow> agent_db \<times> 'g \<Rightarrow> agent_db \<times> 'g \<Rightarrow> bool" where
  "steps m s s' = (agent_step m)\<^sup>*\<^sup>* (fst s) (fst s')"

lemma steps_refl: "steps m s s"
  by (simp add: steps_def)

lemma steps_trans: "steps m s t \<Longrightarrow> steps m t u \<Longrightarrow> steps m s u"
  unfolding steps_def by (rule rtranclp_trans)

lemma steps_same: "fst t = fst s \<Longrightarrow> steps m s t"
  by (simp add: steps_def)

lemma steps_sbind:
  assumes "steps m s (snd (f s))" "\<And>x s'. steps m s' (snd (g x s'))"
  shows "steps m s (snd (sbind f g s))"
  by (rule sbind_rel [of "steps m"]) (use assms steps_trans in blast)+

lemma steps_refl_pure: "steps m s (snd (spure x s))"
  by (simp add: spure_def steps_refl)

lemma steps_graph: "steps m s (snd (on_graph f s))"
  by (simp add: on_graph_def steps_def split: prod.split)

lemma steps_read: "steps m s (snd (on_db (\<lambda>db. (f db, db)) s))"
  by (simp add: on_db_def steps_def)

lemma steps_db:
  assumes "\<And>db. agent_step m db (snd (f db))"
  shows "steps m s (snd (on_db f s))" "steps m s (snd (on_db (with_fault ft f) s))"
proof -
  have "(agent_step m)\<^sup>*\<^sup>* db (snd (f db))" for db using assms by (rule r_into_rtranclp)
  then show "steps m s (snd (on_db f s))" "steps m s (snd (on_db (with_fault ft f) s))"
    by (cases ft; simp add: on_db_def steps_def split: prod.split; metis rtranclp.rtrancl_refl snd_conv)+
qed

lemmas steps_intros = steps_sbind steps_refl_pure steps_graph steps_read steps_db agent_step.intros

lemma steps_held:
  assumes "steps m s (snd (body s))"
  shows "steps m s (snd (snd (held sv ev sess body rd s)))"
proof -
  obtain res rd' s' where run: "held sv ev sess body rd s = (res, rd', s')" by (rule prod_cases3)
  then have "s' = s \<or> s' = snd (body s)"
    unfolding held_def by (cases rule: hold_cases) (auto split: prod.splits)
  then show ?thesis using run assms by (auto simp: steps_refl)
qed

subsection \<open>Admission\<close>

lemma accept_guarded_steps: "steps m s (snd (accept_guarded sv ev cmd s))"
proof -
  have "steps m s (snd ((case found of Some r \<Rightarrow> spure (rbind (validate_command (sv_fpq sv) r cmd) (\<lambda>_. Inr r))
      | None \<Rightarrow> sbind (get_snapshot sv (tt_session_id (rq_turn cmd))) (\<lambda>before.
          sbind (spure (accept_target sv cmd before)) (\<lambda>target.
            on_db (store_accept (sv_fpq sv) (ev_now ev) cmd target (sn_checkpoint_id before))))) s))" for found s
    by (cases found) (auto simp: get_snapshot_def intro!: steps_intros)
  then show ?thesis unfolding accept_guarded_def by (intro steps_sbind steps_read)
qed

lemma service_accept_steps: "steps m s (snd (snd (service_accept sv ev cmd rd s)))"
  unfolding service_accept_def by (rule steps_held) (rule accept_guarded_steps)

lemma execute_claimed_steps:
  assumes "sv_project sv = project_snapshot"
  shows "steps m s (snd (execute_claimed sv ev r s))"
proof -
  have invoke: "steps m s (snd (invoke_and_prove sv r nxt s))" for nxt s
    unfolding invoke_and_prove_def Let_def get_snapshot_def
    by (cases nxt) (auto intro!: steps_intros)
  have finish: "steps m s (snd (on_db (with_fault ft (request_finish (sv_fpq sv) (ev_now ev) r st err d)) s))" for ft st err d s
    by (intro steps_db st_finish)
  have body: "steps m s (snd (execute_body sv ev r s))"
    unfolding execute_body_def Let_def get_snapshot_def
  proof (rule steps_sbind)
    fix before s
    show "steps m s (snd ((case next_invocation (sv_fp sv) (sv_parse sv) before r of
          Inl e \<Rightarrow> if is_SessionConflict e then on_db (with_fault (ev_finish_fault ev)
              (request_finish (sv_fpq sv) (ev_now ev) r Rs_REJECTED (Some (exn_str e)) 0)) else spure (Inl e)
        | Inr nxt \<Rightarrow> sbind (invoke_and_prove sv r nxt) (\<lambda>after. sbind (on_db (sv_project sv (ev_now ev) after)) (\<lambda>_.
            on_db (with_fault (ev_finish_fault ev) (request_finish (sv_fpq sv) (ev_now ev) r Rs_APPLIED None 0))))) s))"
      using assms by (auto split: sum.split intro!: finish invoke steps_sbind steps_refl_pure steps_db(1) st_project)
  qed (rule steps_graph)
  obtain res s1 where run: "execute_body sv ev r s = (res, s1)" by (rule prod.exhaust)
  then have "steps m s (snd (on_db (with_fault ft (request_finish (sv_fpq sv) (ev_now ev) r st err d)) s1))" for ft st err d
    using body finish [of s1] by (metis snd_conv steps_trans)
  then show ?thesis using run body by (auto simp: execute_claimed_def Let_def split: sum.split)
qed

lemma execute_guarded_steps:
  assumes "sv_project sv = project_snapshot"
  shows "steps (sv_max_attempts sv) s (snd (execute_guarded sv ev u s))"
proof -
  have last: "steps m s (snd (last_attempt_done sv r s))" for m r s
    unfolding last_attempt_done_def get_snapshot_def by (auto intro!: steps_intros)
  show ?thesis
    unfolding execute_guarded_def
    by (intro steps_sbind steps_read)
      (auto split: option.split simp: assms intro!: steps_sbind steps_refl_pure last steps_db(1) st_project st_finish st_claim execute_claimed_steps)
qed

lemma service_execute_steps:
  assumes "sv_project sv = project_snapshot"
  shows "steps (sv_max_attempts sv) s (snd (snd (service_execute sv ev u rd s)))"
proof (cases "request_get (sv_fpq sv) u (fst s)")
  case (Inr found)
  show ?thesis
  proof (cases found)
    case (Some r)
    obtain res rd1 s1 where run: "held sv ev (tt_session_id (rq_turn (ap_command r))) (execute_guarded sv ev u) rd s = (res, rd1, s1)"
      by (rule prod_cases3)
    then have first: "steps (sv_max_attempts sv) s s1"
      using steps_held [of "sv_max_attempts sv" s "execute_guarded sv ev u" sv ev "tt_session_id (rq_turn (ap_command r))" rd]
        execute_guarded_steps [OF assms, of s ev u] by simp
    let ?defer = "sbind (on_db (request_defer_busy (ev_now ev) u (sv_retry sv))) (\<lambda>_.
        on_db (\<lambda>db. (rbind (request_get (sv_fpq sv) u db) (\<lambda>found. case found of Some x \<Rightarrow> Inr x | None \<Rightarrow> Inl AssertionError), db)))"
    have "steps (sv_max_attempts sv) s1 (snd (?defer s1))" by (intro steps_sbind steps_db(1) st_defer steps_read)
    then have "steps (sv_max_attempts sv) s (snd (?defer s1))" by (rule steps_trans [OF first])
    then show ?thesis using Inr Some run first by (auto simp: service_execute_def Let_def split: sum.split prod.split)
  qed (use Inr in \<open>simp add: service_execute_def steps_refl\<close>)
qed (simp add: service_execute_def steps_refl)

subsection \<open>Compensation\<close>

lemma journal_run_steps:
  assumes "\<And>s. steps m s (snd (prepare s))"
  shows "steps m s (snd (journal_run digest pf cf task key kind inputs prepare send s))"
  unfolding journal_run_def
  by (intro steps_sbind steps_read)
    (auto split: option.split intro!: assms steps_sbind steps_refl_pure steps_graph steps_db st_prepare st_complete)

lemma executor_resolve_steps: "steps m s (snd (executor_resolve ex rec sn s))"
proof -
  have "steps m s (snd ((\<lambda>s. case on_graph (find_task_execution ex rec) s of
      (Inl e, s1) \<Rightarrow> (Inl (if is_ValueError e then UnsafeCleanupError (exn_str e) else e), s1)
    | (Inr None, s1) \<Rightarrow> (Inl (CleanupPending ''Submitted Execution ID is not yet confirmed''), s1)
    | (Inr (Some u), s1) \<Rightarrow> (Inr (Some u), s1)) s))" for s
    using steps_graph [of m s "find_task_execution ex rec"] by (auto split: prod.split sum.split option.split)
  then show ?thesis
    unfolding executor_resolve_def by (intro steps_sbind steps_read) (auto split: list.split prod.split intro!: steps_refl_pure)
qed

lemma executor_confirm_steps: "steps m s (snd (executor_confirm ex rec exec s))"
proof -
  have "steps m s (snd (cancel_execution ex rec exec s))" for s
  proof -
    have "steps m s (snd (journal_run (ex_digest ex) NoFault NoFault (fc_task_id rec) (cancel_key rec) ''failure_cancel''
        (JObj [(''execution_id'', JStr (uuid_str exec)), (''reason'', JStr (fc_reason rec))])
        (spure (Inr (cancel_request ex rec exec))) (effect_send (ex_sender ex)) s))"
      by (rule journal_run_steps) (rule steps_refl_pure)
    then show ?thesis by (auto simp: cancel_execution_def split: prod.split sum.split)
  qed
  then show ?thesis unfolding executor_confirm_def by (auto intro!: steps_sbind steps_graph steps_refl_pure)
qed

lemma attempt_steps: "steps m s (snd (attempt fs ev rec s))"
proof -
  have "steps m s (snd (attempt_proof fs now rec sn s))" for now sn s
    unfolding attempt_proof_def
    by (auto intro!: steps_sbind executor_resolve_steps executor_confirm_steps steps_refl_pure steps_db(1) st_cleanup_confirm st_bind split: option.split)
  then show ?thesis
    unfolding attempt_def cleanup_snapshot_def
    by (intro steps_sbind steps_graph steps_refl_pure steps_db(2) st_cleanup_finish)
qed

lemma run_attempt_steps: "steps m s (snd (run_attempt fs ev rec s))"
proof -
  obtain res s1 where run: "attempt fs ev rec s = (res, s1)" by (rule prod.exhaust)
  have "steps m s1 (snd (sbind (on_db (with_fault ft (cleanup_defer now rec err d blocked))) (\<lambda>_. spure (Inr ())) s1))" for ft now err d blocked
    by (intro steps_sbind steps_db st_cleanup_defer steps_refl_pure)
  moreover have "steps m s s1" using attempt_steps [of m s fs ev rec] run by simp
  ultimately show ?thesis using run by (auto simp: run_attempt_def split: sum.split intro: steps_trans)
qed

lemma cleanup_guarded_steps: "steps m s (snd (cleanup_guarded fs ev u s))"
proof -
  have claim: "steps m s (snd (claim_and_attempt fs ev u s))" for s
    unfolding claim_and_attempt_def by (auto intro!: steps_sbind steps_db(1) st_cleanup_claim steps_refl_pure run_attempt_steps)
  show ?thesis
    unfolding cleanup_guarded_def cleanup_snapshot_def
    by (intro steps_sbind steps_read)
      (auto split: option.split sum.split bool.split
        intro!: claim steps_sbind steps_graph steps_refl_pure steps_db(1) st_cleanup_finish st_cleanup_defer)
qed

lemma failure_execute_steps: "steps m s (snd (snd (failure_execute fs ev u rd s)))"
proof (cases "cleanup_of u (fst s)")
  case (Some rec)
  obtain res rd1 s1 where run: "held (fs_admission fs) ev (fc_session_id rec) (cleanup_guarded fs ev u) rd s = (res, rd1, s1)"
    by (rule prod_cases3)
  then have first: "steps m s s1"
    using steps_held [of m s "cleanup_guarded fs ev u" "fs_admission fs" ev "fc_session_id rec" rd] cleanup_guarded_steps [of m s fs ev u] by simp
  have "steps m s1 (snd (on_db (cleanup_defer_busy (ev_now ev) u (fs_retry fs)) s1))" by (intro steps_db(1) st_cleanup_defer_busy)
  then have "steps m s (snd (on_db (cleanup_defer_busy (ev_now ev) u (fs_retry fs)) s1))" by (rule steps_trans [OF first])
  then show ?thesis using Some run first by (auto simp: failure_execute_def steps_refl Let_def split: sum.split prod.split)
qed (simp add: failure_execute_def steps_refl)

lemma capture_api_steps: "steps m s (snd (snd (capture_api fs ev u rd s)))"
proof -
  have "steps m s (snd (capture_api_guarded fs now u s))" for now s
    unfolding capture_api_guarded_def cleanup_snapshot_def Let_def
    by (intro steps_sbind steps_read)
      (auto split: option.split intro!: steps_sbind steps_refl_pure steps_read steps_graph steps_db(1) st_resolve st_ensure)
  then show ?thesis
    using steps_held [of m s "capture_api_guarded fs (ev_now ev) u" "fs_admission fs" ev _ rd]
    by (auto simp: capture_api_def steps_refl split: sum.split option.split)
qed

text \<open>A service whose graph accepts a START and then waits for nothing.\<close>

definition demo_graph :: "session_state graph_api" where
  "demo_graph = \<lparr>aget_state = (\<lambda>sess st. Inr \<lparr>sn_values = st, sn_next = [], sn_tasks = [], sn_checkpoint_id = None\<rparr>),
     ainvoke = (\<lambda>sess action i st. (case i of
        Start_turn turn \<Rightarrow> (case with_api_receipt ''begin_task'' (begin_task demo_fp sess) action (st\<lparr>ss_turn := Some turn\<rparr>) of
            Inl e \<Rightarrow> (Inl e, st) | Inr st' \<Rightarrow> (Inr (), st'))
      | _ \<Rightarrow> (Inl (RuntimeError ''no input''), st)))\<rparr>"

definition demo_service :: "session_state service" where
  "demo_service = \<lparr>sv_fp = demo_fp, sv_fpq = demo_fpq, sv_parse = (\<lambda>_. Inl (ValueError ''signal'')), sv_graph = demo_graph,
     sv_project = project_snapshot, sv_key = (\<lambda>sess. ''lock:'' @ sess), sv_ttl = 30, sv_max_attempts = 3, sv_retry = 5\<rparr>"

definition demo_service_env :: service_env where
  "demo_service_env = \<lparr>ev_now = 1, ev_hold = \<lparr>h_acquired_at = 0, h_acquire_fault = None, h_token = ''t'', h_lost = False,
     h_released_at = 1, h_release_fault = False\<rparr>, ev_finish_fault = NoFault, ev_error_fault = NoFault\<rparr>"



section \<open>Recovery ends\<close>

text \<open>\<open>n\<close> executions of a request under its session guard, each in an environment of its own.\<close>

fun executions :: "'g service \<Rightarrow> (nat \<Rightarrow> service_env) \<Rightarrow> uuid \<Rightarrow> nat \<Rightarrow> agent_db \<times> 'g \<Rightarrow> api_row result list \<times> agent_db \<times> 'g" where
  "executions sv ev u 0 s = ([], s)"
| "executions sv ev u (Suc n) s = (let (rs, s1) = executions sv ev u n s; (r, s2) = execute_guarded sv (ev n) u s1 in (rs @ [r], s2))"

lemma finish_row_written:
  assumes "request_finish fpq now rec st err d db = (Inr x, db')"
  shows "request_of (rq_request_id (ap_command rec)) db' = Some x" "ap_state x = st" "ap_attempts x = ap_attempts rec"
proof -
  have key: "ap_request_id (finish_row now st err d x) = ap_request_id x" for x by (simp add: finish_row_def set_request_state_def)
  obtain row where row: "request_of (rq_request_id (ap_command rec)) db = Some row" "ap_attempts row = ap_attempts rec"
      "x = finish_row now st err d row" "db' = update_request (ap_request_id row) (finish_row now st err d) db"
    using assms by (auto simp: request_finish_def exn_simps request_required_def api_record_def split: if_splits option.splits)
  show "request_of (rq_request_id (ap_command rec)) db' = Some x"
    using row row_of_key(2) [OF row(1)] request_of_update [of "finish_row now st err d", OF key] by simp
  show "ap_state x = st" "ap_attempts x = ap_attempts rec" using row(2,3) by (simp_all add: finish_row_def set_request_state_def)
qed

lemma on_db_fault_Inr: "on_db (with_fault ft f) s = (Inr x, s') \<Longrightarrow> \<exists>d. f (fst s) = (Inr x, d) \<and> s' = (d, snd s)"
  by (cases ft) (auto simp: on_db_eq)

lemma execute_body_done:
  assumes "execute_body sv ev rec s = (Inr x, s')"
  obtains s1 st err where "on_db (with_fault (ev_finish_fault ev) (request_finish (sv_fpq sv) (ev_now ev) rec st err 0)) s1 = (Inr x, s')"
    "\<not> open_state st"
proof -
  let ?finish = "\<lambda>st err. on_db (with_fault (ev_finish_fault ev) (request_finish (sv_fpq sv) (ev_now ev) rec st err 0))"
  obtain before s1 where rest: "(case next_invocation (sv_fp sv) (sv_parse sv) before rec of
        Inl e \<Rightarrow> if is_SessionConflict e then ?finish Rs_REJECTED (Some (exn_str e)) else spure (Inl e)
      | Inr nxt \<Rightarrow> sbind (invoke_and_prove sv rec nxt) (\<lambda>after.
          sbind (on_db (sv_project sv (ev_now ev) after)) (\<lambda>_. ?finish Rs_APPLIED None))) s1 = (Inr x, s')"
    using assms unfolding execute_body_def Let_def sbind_eq [of "get_snapshot _ _"] by blast
  show ?thesis
  proof (cases "next_invocation (sv_fp sv) (sv_parse sv) before rec")
    case (Inl e)
    then show ?thesis using rest that [of Rs_REJECTED "Some (exn_str e)" s1] by (cases "is_SessionConflict e") (simp_all add: spure_def)
  next
    case (Inr nxt)
    then obtain s2 where "?finish Rs_APPLIED None s2 = (Inr x, s')" using rest by (auto simp: sbind_eq)
    then show ?thesis using that [of Rs_APPLIED None s2] by simp
  qed
qed

lemma execute_claimed_settles:
  assumes "execute_claimed sv ev rec s = (Inr x, s')"
  shows "request_of (rq_request_id (ap_command rec)) (fst s') = Some x
    \<and> (open_state (ap_state x) \<longrightarrow> ap_attempts x = ap_attempts rec \<and> ap_attempts rec < sv_max_attempts sv)"
proof -
  obtain st err d ft s1 where settled: "on_db (with_fault ft (request_finish (sv_fpq sv) (ev_now ev) rec st err d)) s1 = (Inr x, s')"
    and st: "open_state st \<longrightarrow> ap_attempts rec < sv_max_attempts sv"
  proof -
    obtain res s1 where Pair: "execute_body sv ev rec s = (res, s1)" by (rule prod.exhaust)
    show ?thesis
    proof (cases res)
      case (Inl e)
      then show ?thesis using assms Pair that by (auto simp: execute_claimed_def Let_def split: if_splits)
    next
      case (Inr y)
      then have "execute_body sv ev rec s = (Inr x, s')" using assms Pair by (simp add: execute_claimed_def)
      then obtain s2 st err where "on_db (with_fault (ev_finish_fault ev) (request_finish (sv_fpq sv) (ev_now ev) rec st err 0)) s2 = (Inr x, s')"
          "\<not> open_state st"
        by (rule execute_body_done)
      then show ?thesis using that by blast
    qed
  qed
  from on_db_fault_Inr [OF settled] obtain db' where
    "request_finish (sv_fpq sv) (ev_now ev) rec st err d (fst s1) = (Inr x, db')" "s' = (db', snd s1)" by blast
  then show ?thesis using finish_row_written st by fastforce
qed

text \<open>An execution that returns has settled the request, or spent one of its attempts.\<close>

lemma execute_guarded_progress:
  assumes inv: "agent_inv (fst s)" and row: "request_of u (fst s) = Some r0" "open_state (ap_state r0)"
    and run: "execute_guarded sv ev u s = (Inr x, s')"
  shows "\<exists>r1. request_of u (fst s') = Some r1
    \<and> (open_state (ap_state r1) \<longrightarrow> ap_attempts r1 = ap_attempts r0 + 1 \<and> ap_attempts r1 < sv_max_attempts sv)"
proof -
  have id: "rq_request_id (ap_command r0) = u"
    using request_row_ok [OF inv row(1)] row_of_key(2) [OF row(1)] by (simp add: request_ok_def)
  have "api_record (sv_fpq sv) r0 = Inr r0"
    using run row(1) by (auto simp: execute_guarded_def sbind_eq on_db_eq request_get_def api_record_def split: if_splits)
  then obtain found s1 where last: "last_attempt_done sv r0 s = (Inr found, s1)"
    and rest: "(case found of
        Some before \<Rightarrow> sbind (on_db (sv_project sv (ev_now ev) before)) (\<lambda>_.
          on_db (request_finish (sv_fpq sv) (ev_now ev) r0 Rs_APPLIED None 0))
      | None \<Rightarrow> sbind (on_db (request_claim (sv_fpq sv) (ev_now ev) (sv_max_attempts sv) (sv_retry sv) u)) (\<lambda>claimed.
          if ap_state claimed \<noteq> Rs_RUNNING then spure (Inr claimed) else execute_claimed sv ev claimed)) s1 = (Inr x, s')"
    using run row by (auto simp: execute_guarded_def sbind_eq on_db_eq request_get_def)
  have same: "fst s1 = fst s"
    using last by (auto simp: last_attempt_done_def get_snapshot_def sbind_eq spure_def on_graph_eq split: if_splits)
  show ?thesis
  proof (cases found)
    case (Some before)
    then obtain db1 db' where "request_finish (sv_fpq sv) (ev_now ev) r0 Rs_APPLIED None 0 db1 = (Inr x, db')" "fst s' = db'"
      using rest by (auto simp: sbind_eq on_db_eq)
    then show ?thesis using finish_row_written id by fastforce
  next
    case None
    then obtain claimed db1 where claim: "request_claim (sv_fpq sv) (ev_now ev) (sv_max_attempts sv) (sv_retry sv) u (fst s) = (Inr claimed, db1)"
      and next': "(if ap_state claimed \<noteq> Rs_RUNNING then spure (Inr claimed) else execute_claimed sv ev claimed) (db1, snd s1) = (Inr x, s')"
      using rest same by (auto simp: sbind_eq on_db_eq)
    show ?thesis
    proof (cases "ap_state claimed = Rs_RUNNING")
      case True
      note c = claim_running [OF inv claim True]
      have "execute_claimed sv ev claimed (db1, snd s1) = (Inr x, s')" using next' True by simp
      from execute_claimed_settles [OF this] c(2) c(3) [OF row(1)] show ?thesis by auto
    next
      case False
      have "db1 = update_request u (claim_row (ev_now ev) (cleanup_of (ap_task_id r0) (fst s) \<noteq> None) (sv_max_attempts sv) (sv_retry sv)) (fst s)"
        and st: "ap_state claimed = ap_state (claim_row (ev_now ev) (cleanup_of (ap_task_id r0) (fst s) \<noteq> None) (sv_max_attempts sv) (sv_retry sv) r0)"
        using claim row by (auto simp: request_claim_def exn_simps request_required_def api_record_def Let_def split: if_splits)
      moreover have "fst s' = db1" using next' False by (auto simp: spure_def)
      moreover have "\<not> open_state (ap_state (claim_row now b m d r0))" if "ap_state (claim_row now b m d r0) \<noteq> Rs_RUNNING" for now b m d
        using that by (auto simp: claim_row_def set_request_state_def split: if_splits)
      ultimately show ?thesis
        using row(1) False request_of_update [of "claim_row (ev_now ev) (cleanup_of (ap_task_id r0) (fst s) \<noteq> None) (sv_max_attempts sv) (sv_retry sv)"]
        by (simp add: claim_row_def set_request_state_def)
    qed
  qed
qed

lemma executions_progress:
  assumes "reachable_agent (sv_max_attempts sv) (fst s)" "sv_project sv = project_snapshot" "request_of u (fst s) = Some r0"
    and "executions sv ev u n s = (rs, s')" "\<forall>x \<in> set rs. \<not> isl x"
  shows "reachable_agent (sv_max_attempts sv) (fst s') \<and> (\<exists>r. request_of u (fst s') = Some r
    \<and> (open_state (ap_state r) \<longrightarrow> int n \<le> ap_attempts r \<and> (0 < n \<longrightarrow> ap_attempts r < sv_max_attempts sv)))"
  using assms(4,5)
proof (induction n arbitrary: rs s')
  case 0
  have "0 \<le> ap_attempts r0" using request_row_ok [OF reachable_agent_inv [OF assms(1)] assms(3)] by (simp add: request_ok_def)
  then show ?case using 0 assms(1,3) by simp
next
  case (Suc n)
  obtain rs1 s1 where first: "executions sv ev u n s = (rs1, s1)" by (rule prod.exhaust)
  obtain x where run: "execute_guarded sv (ev n) u s1 = (Inr x, s')" and rs: "rs = rs1 @ [Inr x]"
    using Suc.prems first by (auto simp: Let_def isl_def split: prod.splits sum.split_asm) (metis obj_sumE)
  obtain r where r: "request_of u (fst s1) = Some r" "open_state (ap_state r) \<longrightarrow> int n \<le> ap_attempts r"
    and reach: "reachable_agent (sv_max_attempts sv) (fst s1)" using Suc.IH [OF first] Suc.prems(2) rs by auto
  have reach': "reachable_agent (sv_max_attempts sv) (fst s')"
    using execute_guarded_steps [OF assms(2), of s1 "ev n" u] run reach unfolding steps_def by (metis snd_conv reachable_rtranclp)
  show ?case
  proof (cases "open_state (ap_state r)")
    case True
    then show ?thesis
      using execute_guarded_progress [OF reachable_agent_inv [OF reach] r(1) True run] r(2) reach' by force
  next
    case False
    then have "s' = s1" using run r(1)
      by (auto simp: execute_guarded_def sbind_eq on_db_eq request_get_def api_record_def spure_def split: if_splits)
    then show ?thesis using r(1) False reach' by auto
  qed
qed

text \<open>
  C23: recovery ends. Whatever the graph does, once a request has been executed as often as its limit and
  each execution returned, the request is settled: applied, rejected, blocked or compensated.
\<close>

theorem recovery_settles:
  assumes "reachable_agent (sv_max_attempts sv) (fst s)" "sv_project sv = project_snapshot" "request_of u (fst s) = Some r0"
    and "executions sv ev u n s = (rs, s')" "\<forall>x \<in> set rs. \<not> isl x" "0 < n" "sv_max_attempts sv \<le> int n"
  shows "\<exists>r. request_of u (fst s') = Some r \<and> \<not> open_state (ap_state r)"
  using executions_progress [OF assms(1-5)] assms(6,7) by fastforce

text \<open>The first execution of the demonstration applies its request, and the following ones find it applied.\<close>

lemma demo_invoked:
  obtains st where "ainvoke demo_graph ''s'' (Some \<lparr>aa_request_id = uuid_str 3, aa_task_id = uuid_str 5, aa_fingerprint = ''hi'',
      aa_target_node = ''begin_task''\<rparr>) (Start_turn (rq_turn demo_start)) empty_state = (Inr (), st)"
    "map_of (ss_api_receipts st) (uuid_str 3) = Some \<lparr>ar_task_id = uuid_str 5, ar_fingerprint = ''hi''\<rparr>"
    "ss_active_task_id st = Some (uuid_str 5)" "ss_workflow st = Some (new_workflow (rq_turn demo_start))"
proof -
  have "uuid_str 5 \<noteq> []" "uuid_str 6 \<noteq> []" using demo_task_uuid by (auto simp: uuid_parse_def)
  then show ?thesis
    using that by (simp add: demo_graph_def demo_session_defs demo_start_def)
qed

lemma demo_execution:
  "\<exists>x s. execute_guarded demo_service demo_service_env 3 (demo_accepted, empty_state) = (Inr x, s)
    \<and> request_of 3 (fst s) = Some x \<and> ap_state x = Rs_APPLIED \<and> api_record demo_fpq x = Inr x"
proof -
  let ?r = "new_request demo_fpq 0 5 demo_start ''begin_task'' None"
  let ?c = "claim_row 1 False 3 5 ?r"
  let ?db = "demo_accepted\<lparr>db_requests := [?c]\<rparr>"
  have claim: "request_claim demo_fpq 1 3 5 3 demo_accepted = (Inr ?c, ?db)"
    by (simp add: demo_accepted_eq request_claim_def transaction_def request_required_def request_of_def cleanup_of_def new_request_def
        claim_row_def set_request_state_def api_record_def update_request_def sql_update_def Let_def demo_agent_defs)
  have get: "request_get demo_fpq 3 demo_accepted = Inr (Some ?r)"
    by (simp add: request_get_def request_of_def demo_accepted_eq new_request_def api_record_def demo_start_def)
  have r: "ap_state ?r = Rs_PENDING" "ap_attempts ?r = 0" by (simp_all add: new_request_def)
  have c: "ap_command ?c = demo_start" "ap_attempts ?c = 1" "ap_state ?c = Rs_RUNNING" "ap_base_checkpoint_id ?c = None"
      "ap_fingerprint ?c = ''hi''" "ap_target_node ?c = ''begin_task''"
    by (simp_all add: claim_row_def set_request_state_def new_request_def demo_fpq_def demo_start_def)
  have q: "rq_request_id demo_start = 3" "rq_kind demo_start = Rq_START" "tt_session_id (rq_turn demo_start) = ''s''"
      "tt_active_task_id (rq_turn demo_start) = uuid_str 5"
    by (simp_all add: demo_start_def)
  obtain st where st: "ainvoke demo_graph ''s'' (Some \<lparr>aa_request_id = uuid_str 3, aa_task_id = uuid_str 5, aa_fingerprint = ''hi'',
        aa_target_node = ''begin_task''\<rparr>) (Start_turn (rq_turn demo_start)) empty_state = (Inr (), st)"
      "map_of (ss_api_receipts st) (uuid_str 3) = Some \<lparr>ar_task_id = uuid_str 5, ar_fingerprint = ''hi''\<rparr>"
      "ss_active_task_id st = Some (uuid_str 5)" "ss_workflow st = Some (new_workflow (rq_turn demo_start))"
    by (rule demo_invoked)
  have snap: "aget_state demo_graph ''s'' g = Inr \<lparr>sn_values = g, sn_next = [], sn_tasks = [], sn_checkpoint_id = None\<rparr>" for g
    by (simp add: demo_graph_def)
  have before: "next_invocation demo_fp parse \<lparr>sn_values = empty_state, sn_next = [], sn_tasks = [], sn_checkpoint_id = None\<rparr> ?c
      = Inr (Some (Start_turn (rq_turn demo_start)))" for parse
    by (simp add: next_invocation_def accepted_def start_invocation_def validate_start_snapshot_def empty_state_def owned_by_def c q Let_def)
  have after: "accepted \<lparr>sn_values = st, sn_next = [], sn_tasks = [], sn_checkpoint_id = None\<rparr> ?c = Inr True"
      "next_invocation demo_fp parse \<lparr>sn_values = st, sn_next = [], sn_tasks = [], sn_checkpoint_id = None\<rparr> ?c = Inr None" for parse
    using st(2) by (simp_all add: next_invocation_def accepted_def owns_pending_def c q)
  have "nonempty (Some (uuid_str 5)) = Some (uuid_str 5)" using demo_task_uuid by (auto simp: nonempty_def uuid_parse_def)
  then have project: "project_snapshot now \<lparr>sn_values = st, sn_next = [], sn_tasks = [], sn_checkpoint_id = None\<rparr> ?db = (Inr (), ?db)" for now
    using st(3,4) by (simp add: project_snapshot_def snapshot_interrupt_def interrupts_def sbind_def spure_def projected_status_def
        projector_write_def transaction_def task_of_def demo_accepted_eq new_task_def new_workflow_def demo_task_uuid)
  have finish: "request_finish demo_fpq now ?c Rs_APPLIED None 0 ?db = (Inr (finish_row now Rs_APPLIED None 0 ?c),
      demo_accepted\<lparr>db_requests := [finish_row now Rs_APPLIED None 0 ?c]\<rparr>)" for now
    by (simp add: request_finish_def transaction_def request_required_def request_of_def api_record_def finish_row_def set_request_state_def
        update_request_def sql_update_def c q) (simp add: claim_row_def set_request_state_def new_request_def demo_start_def demo_fpq_def)
  show ?thesis
    by (simp add: execute_guarded_def execute_claimed_def execute_body_def invoke_and_prove_def last_attempt_done_def get_snapshot_def
        sbind_def spure_def on_db_def on_graph_def demo_service_def demo_service_env_def get r claim c q snap before after project finish
        st(1) record_action_def Let_def request_of_def finish_row_def set_request_state_def api_record_def)
      (simp add: claim_row_def set_request_state_def new_request_def demo_start_def demo_fpq_def)
qed

theorem recovery_settles_witness:
  "\<exists>rs s'. executions demo_service (\<lambda>_. demo_service_env) 3 3 (demo_accepted, empty_state) = (rs, s')
    \<and> (\<exists>r. request_of 3 (fst s') = Some r \<and> \<not> open_state (ap_state r))"
proof -
  obtain x s where x: "execute_guarded demo_service demo_service_env 3 (demo_accepted, empty_state) = (Inr x, s)"
      "request_of 3 (fst s) = Some x" "ap_state x = Rs_APPLIED" "api_record demo_fpq x = Inr x"
    using demo_execution by blast
  have again: "execute_guarded demo_service demo_service_env 3 s = (Inr x, s)"
    using x(2-4) by (cases s) (simp add: execute_guarded_def sbind_def on_db_def spure_def request_get_def demo_service_def)
  have "executions demo_service (\<lambda>_. demo_service_env) 3 (Suc (Suc (Suc 0))) (demo_accepted, empty_state) = ([Inr x, Inr x, Inr x], s)"
    using x(1) again by simp
  then have run: "executions demo_service (\<lambda>_. demo_service_env) 3 3 (demo_accepted, empty_state) = ([Inr x, Inr x, Inr x], s)"
    by (simp add: numeral_3_eq_3)
  have "request_of 3 demo_accepted = Some (new_request demo_fpq 0 5 demo_start ''begin_task'' None)"
    by (simp add: demo_accepted_eq request_of_def new_request_def demo_start_def)
  then show ?thesis
    using recovery_settles [of demo_service "(demo_accepted, empty_state)" 3 _ "\<lambda>_. demo_service_env" 3, OF _ _ _ run]
      demo_agent_reachable(1) run by (auto simp: demo_service_def)
qed

section \<open>Inputs are injected once\<close>



section \<open>Requests that passed validation\<close>

lemma find_candidate_no_assert: "find_candidate wid items \<noteq> Inl AssertionError"
  by (induction items) (auto split: option.splits if_splits)

lemma py_iter_no_assert: "py_iter j \<noteq> Inl AssertionError"
  by (cases j) auto

lemma boundary_no_assert: "validate_boundary turn boundary sig \<noteq> Inl AssertionError"
proof -
  have "candidate_risk_level c \<noteq> Inl AssertionError" "risk_level c \<noteq> Inl AssertionError" for c
    by (auto simp: candidate_risk_level_def risk_level_def attribute_error_def Let_def split: option.split json.split)
  note no_assert = this find_candidate_no_assert py_iter_no_assert
  have "validate_selection boundary d \<noteq> Inl AssertionError" for d
    unfolding validate_selection_def by (auto simp: exn_simps no_assert split: option.splits if_splits)
  then show ?thesis
    unfolding validate_boundary_def validate_user_decision_def
    by (auto simp: exn_simps no_assert split: resume_signal.splits if_splits)
qed

lemma start_no_assert: "start_invocation fp sn r \<noteq> Inl AssertionError"
  unfolding start_invocation_def validate_start_snapshot_def Let_def
  by (auto simp: exn_simps split: option.splits if_splits)

text \<open>
  Validation types the requests. A request that passed it has task and message identifiers, carries an
  interrupt and a payload exactly when it is no START, and its payload parses to a signal that is no
  executor event and cancels exactly when the request does; no later stage of its processing fails on an
  assertion or on a malformed identifier.
\<close>

theorem validated_request_typed:
  assumes "validate_request parse q = Inr ()"
  shows "(\<exists>task msg. uuid_parse (tt_active_task_id (rq_turn q)) = Some task \<and> uuid_parse (tt_current_input_message_id (rq_turn q)) = Some msg)
    \<and> (rq_kind q = Rq_START \<longleftrightarrow> rq_interrupt_id q = None) \<and> (rq_kind q = Rq_START \<longleftrightarrow> rq_payload q = None)
    \<and> (rq_kind q \<noteq> Rq_START \<longrightarrow> (\<exists>sig. parse (the (rq_payload q)) = Inr sig \<and> \<not> is_executor_signal sig
        \<and> (is_cancel_signal sig \<longleftrightarrow> rq_kind q = Rq_CANCEL)))
    \<and> fst (admit_task now q db) \<noteq> Inl (ValueError ''badly formed UUID'')
    \<and> next_invocation fp parse sn (new_request fpq now task q target base) \<noteq> Inl AssertionError"
proof -
  have ids: "\<exists>task msg. uuid_parse (tt_active_task_id (rq_turn q)) = Some task \<and> uuid_parse (tt_current_input_message_id (rq_turn q)) = Some msg"
    using assms by (auto simp: validate_request_def split: if_splits)
  have start: "(rq_kind q = Rq_START \<longleftrightarrow> rq_interrupt_id q = None) \<and> (rq_kind q = Rq_START \<longleftrightarrow> rq_payload q = None)"
    using assms by (auto simp: validate_request_def split: if_splits option.splits)
  have sig: "\<exists>sig. parse (the (rq_payload q)) = Inr sig \<and> \<not> is_executor_signal sig \<and> (is_cancel_signal sig \<longleftrightarrow> rq_kind q = Rq_CANCEL)"
    if "rq_kind q \<noteq> Rq_START"
    using assms that by (auto simp: validate_request_def exn_simps split: if_splits option.splits)
  have "fst (admit_task now q db) \<noteq> Inl (ValueError ''badly formed UUID'')"
    using ids by (auto simp: admit_task_def start_task_def Let_def split: option.splits if_splits)
  moreover have "validate_resume_snapshot fp parse sn (rq_turn q) iid (the (rq_payload q)) \<noteq> Inl AssertionError" if "rq_kind q \<noteq> Rq_START" for iid
    using sig [OF that] boundary_no_assert
    by (auto simp: validate_resume_snapshot_def exn_simps Let_def split: if_splits list.splits prod.splits)
  then have "next_invocation fp parse sn (new_request fpq now task q target base) \<noteq> Inl AssertionError"
    using start unfolding next_invocation_def accepted_def resume_invocation_def Let_def
    by (auto simp: new_request_def exn_simps start_no_assert split: option.splits if_splits prod.splits)
  ultimately show ?thesis using ids start sig by blast
qed

theorem validated_request_typed_witness:
  "validate_request (\<lambda>_. Inl AssertionError) demo_start = Inr ()
    \<and> fst (admit_task 0 demo_start empty_agent_db) \<noteq> Inl (ValueError ''badly formed UUID'')"
proof -
  have ok: "validate_request (\<lambda>_. Inl AssertionError) demo_start = Inr ()"
    by (simp add: validate_request_def demo_start_def demo_task_uuid)
  from validated_request_typed [OF ok] ok show ?thesis by blast
qed

end
