(* ===== verification/Agent_Pages.thy ===== *)
theory Agent_Pages
  imports Agent_Props Agent_Failure_Service
begin

text \<open>
  The operators' view of blocked cleanups: following the cursor of each page, from the first page to the
  last, shows exactly what one query without a limit would show.
\<close>

section \<open>Sorting by two keys\<close>

text \<open>A stable sort by \<open>f\<close> of a list sorted by \<open>g\<close> is sorted by both, \<open>f\<close> first.\<close>

definition lex_le :: "('a \<Rightarrow> 'b::linorder) \<Rightarrow> ('a \<Rightarrow> 'c::linorder) \<Rightarrow> 'a \<Rightarrow> 'a \<Rightarrow> bool" where
  "lex_le f g x y = (f x < f y \<or> f x = f y \<and> g x \<le> g y)"

lemma lex_insort:
  assumes "sorted_wrt (lex_le f g) ys" "\<And>y. y \<in> set ys \<Longrightarrow> g x \<le> g y"
  shows "sorted_wrt (lex_le f g) (insort_key f x ys)"
  using assms
proof (induction ys)
  case (Cons y ys)
  show ?case
  proof (cases "f x \<le> f y")
    case True
    have "lex_le f g x z" if "z \<in> set (y # ys)" for z
      using that True Cons.prems(1) Cons.prems(2) [OF that] unfolding lex_le_def by fastforce
    then show ?thesis using True Cons.prems(1) by simp
  next
    case False
    have "sorted_wrt (lex_le f g) (insort_key f x ys)" by (rule Cons.IH) (use Cons.prems in auto)
    moreover have "lex_le f g y z" if "z \<in> set (insort_key f x ys)" for z
      using that False Cons.prems(1) by (auto simp: set_insort_key lex_le_def)
    ultimately show ?thesis using False by simp
  qed
qed simp

lemma lex_sort: "sorted (map g xs) \<Longrightarrow> sorted_wrt (lex_le f g) (sort_key f xs)"
  by (induction xs) (auto intro!: lex_insort)

section \<open>The list of blocked cleanups\<close>

text \<open>The order of the keyset: strictly before the cursor.\<close>

definition older :: "usec \<times> uuid \<Rightarrow> cleanup_row \<Rightarrow> bool" where
  "older c r = (updated_at (fc_audit r) < fst c \<or> updated_at (fc_audit r) = fst c \<and> fc_task_id r < snd c)"

definition cursor_of :: "cleanup_row \<Rightarrow> usec \<times> uuid" where
  "cursor_of r = (updated_at (fc_audit r), fc_task_id r)"

text \<open>The query without limit and cursor.\<close>

definition blocked_list :: "agent_db \<Rightarrow> cleanup_row list" where
  "blocked_list db = newest_first (filter (\<lambda>r. fc_state r = Fc_BLOCKED) (db_cleanups db))"

lemma newest_first_filter: "newest_first (filter p rows) = filter p (newest_first rows)"
  unfolding newest_first_def by (simp only: filter_sort rev_filter [symmetric])

lemma newest_first_older:
  assumes "distinct (map fc_task_id rows)"
  shows "sorted_wrt (\<lambda>x y. older (cursor_of x) y) (newest_first rows)"
proof -
  let ?zs = "sort_key (\<lambda>r. updated_at (fc_audit r)) (sort_key fc_task_id rows)"
  have "sorted_wrt (lex_le (\<lambda>r. updated_at (fc_audit r)) fc_task_id) ?zs" by (rule lex_sort) simp
  moreover have "distinct (map fc_task_id ?zs)" using assms by (simp add: distinct_map)
  then have "sorted_wrt (\<lambda>x y. fc_task_id x \<noteq> fc_task_id y) ?zs"
    by (auto simp: sorted_wrt_iff_nth_less distinct_conv_nth)
  ultimately have "sorted_wrt (\<lambda>x y. lex_le (\<lambda>r. updated_at (fc_audit r)) fc_task_id x y \<and> fc_task_id x \<noteq> fc_task_id y) ?zs"
    by (simp add: sorted_wrt_iff_nth_less)
  then have "sorted_wrt (\<lambda>y x. older (cursor_of x) y) ?zs"
    by (rule sorted_wrt_mono_rel [rotated]) (auto simp: lex_le_def older_def cursor_of_def)
  then show ?thesis by (simp add: newest_first_def sorted_wrt_rev)
qed

text \<open>What comes after a row of the list is exactly what its cursor selects.\<close>

lemma filter_after:
  assumes "sorted_wrt (\<lambda>x y. older (cursor_of x) y) (xs @ v # ys)"
  shows "filter (older (cursor_of v)) (xs @ v # ys) = ys"
proof -
  have irrefl: "\<not> older (cursor_of v) v" by (simp add: older_def cursor_of_def)
  have "\<not> older (cursor_of v) x" if "x \<in> set xs" for x
  proof -
    have "older (cursor_of x) v" using assms that by (simp add: sorted_wrt_append)
    then show ?thesis by (auto simp: older_def cursor_of_def)
  qed
  moreover have "older (cursor_of v) y" if "y \<in> set ys" for y using assms that by (auto simp: sorted_wrt_append)
  ultimately show ?thesis using irrefl by (simp add: filter_empty_conv filter_id_conv)
qed

section \<open>Pages\<close>

definition remaining :: "(usec \<times> uuid) option \<Rightarrow> agent_db \<Rightarrow> cleanup_row list" where
  "remaining before db = (case before of None \<Rightarrow> blocked_list db | Some c \<Rightarrow> filter (older c) (blocked_list db))"

lemma page_of_remaining:
  assumes "1 \<le> limit" "limit \<le> 100"
  shows "cleanup_blocked_page before limit db = Inr (take (nat limit + 1) (remaining before db))"
proof (cases before)
  case None
  then show ?thesis using assms by (simp add: cleanup_blocked_page_def remaining_def blocked_list_def)
next
  case (Some c)
  have "filter (\<lambda>r. fc_state r = Fc_BLOCKED \<and> older c r) (db_cleanups db) = filter (older c) (filter (\<lambda>r. fc_state r = Fc_BLOCKED) (db_cleanups db))"
    by (simp add: conj_commute)
  moreover have "cleanup_blocked_page before limit db
      = Inr (take (nat limit + 1) (newest_first (filter (\<lambda>r. fc_state r = Fc_BLOCKED \<and> older c r) (db_cleanups db))))"
    using assms Some by (simp add: cleanup_blocked_page_def older_def split_beta)
  ultimately show ?thesis using Some by (simp only: remaining_def blocked_list_def newest_first_filter option.case)
qed

text \<open>Following the cursors; the number bounds the pages.\<close>

fun all_pages :: "nat \<Rightarrow> string \<Rightarrow> string \<Rightarrow> int \<Rightarrow> (usec \<times> uuid) option \<Rightarrow> agent_db \<Rightarrow> cleanup_row list result" where
  "all_pages 0 user_ids actor limit before db = Inl AssertionError"
| "all_pages (Suc n) user_ids actor limit before db = rbind (operations_blocked user_ids actor before limit db) (\<lambda>page.
     (case pg_next page of
        None \<Rightarrow> Inr (pg_items page)
      | Some c \<Rightarrow> rbind (all_pages n user_ids actor limit (Some c) db) (\<lambda>rest. Inr (pg_items page @ rest))))"

text \<open>One page: its items, and a cursor that selects what is left, if anything is.\<close>

lemma operations_page:
  assumes limit: "1 \<le> limit" "limit \<le> 100" and auth: "authorize user_ids actor = Inr ()"
    and sorted: "sorted_wrt (\<lambda>x y. older (cursor_of x) y) (blocked_list db)" and part: "blocked_list db = done' @ remaining before db"
  obtains page where "operations_blocked user_ids actor before limit db = Inr page" "pg_items page = take (nat limit) (remaining before db)"
    "if length (remaining before db) \<le> nat limit then pg_next page = None
     else \<exists>c. pg_next page = Some c \<and> remaining (Some c) db = drop (nat limit) (remaining before db)"
proof -
  let ?l = "nat limit" and ?R = "remaining before db"
  let ?more = "\<not> length ?R \<le> ?l" and ?next = "cursor_of (last (take ?l ?R))"
  have l: "0 < ?l" using limit by simp
  have page: "operations_blocked user_ids actor before limit db = Inr \<lparr>pg_items = take ?l ?R,
      pg_next = (if ?more then Some ?next else None), pg_has_more = ?more\<rparr>"
    using limit auth l by (auto simp: operations_blocked_def page_of_remaining cursor_of_def Let_def min_def)
  moreover have "remaining (Some ?next) db = drop ?l ?R" if ?more
  proof -
    let ?v = "last (take ?l ?R)" and ?V = "butlast (take ?l ?R)"
    have "take ?l ?R \<noteq> []" using that l by auto
    then have "?R = ?V @ ?v # drop ?l ?R" by (metis append_Cons append_butlast_last_id append_self_conv2 append.assoc append_take_drop_id)
    then have all: "blocked_list db = (done' @ ?V) @ ?v # drop ?l ?R" using part by simp
    then have "filter (older ?next) (blocked_list db) = drop ?l ?R" using filter_after [of "done' @ ?V" ?v "drop ?l ?R"] sorted by simp
    then show ?thesis by (simp add: remaining_def)
  qed
  ultimately show ?thesis using that [OF page] by auto
qed

lemma all_pages_rest:
  assumes limit: "1 \<le> limit" "limit \<le> 100" and auth: "authorize user_ids actor = Inr ()"
    and sorted: "sorted_wrt (\<lambda>x y. older (cursor_of x) y) (blocked_list db)"
  shows "blocked_list db = done' @ remaining before db \<Longrightarrow> length (remaining before db) < n
    \<Longrightarrow> all_pages n user_ids actor limit before db = Inr (remaining before db)"
proof (induction n arbitrary: done' before)
  case (Suc n)
  let ?l = "nat limit" and ?R = "remaining before db"
  obtain page where page: "operations_blocked user_ids actor before limit db = Inr page" "pg_items page = take ?l ?R"
    and nxt: "if length ?R \<le> ?l then pg_next page = None else \<exists>c. pg_next page = Some c \<and> remaining (Some c) db = drop ?l ?R"
    by (rule operations_page [OF limit auth sorted Suc.prems(1)])
  show ?case
  proof (cases "length ?R \<le> ?l")
    case True
    then show ?thesis using page nxt by simp
  next
    case False
    then obtain c where c: "pg_next page = Some c" "remaining (Some c) db = drop ?l ?R" using nxt by auto
    have "all_pages n user_ids actor limit (Some c) db = Inr (remaining (Some c) db)"
    proof (rule Suc.IH)
      show "blocked_list db = (done' @ take ?l ?R) @ remaining (Some c) db" using Suc.prems(1) c(2) by simp
      show "length (remaining (Some c) db) < n" using Suc.prems(2) c(2) limit False by simp
    qed
    then show ?thesis using page c by simp
  qed
qed simp

text \<open>
  C25: paging through the blocked cleanups is equivalent to one query. For an authorized operator and any
  legal page size, following the cursor of each page ends and shows, in order and without repetition or
  omission, exactly the list of blocked cleanups, newest first.
\<close>

theorem blocked_pages_complete:
  assumes "reachable_agent m db" "authorize user_ids actor = Inr ()" "1 \<le> limit" "limit \<le> 100"
    and "length (db_cleanups db) < n"
  shows "all_pages n user_ids actor limit None db = Inr (newest_first (filter (\<lambda>r. fc_state r = Fc_BLOCKED) (db_cleanups db)))"
proof -
  have "distinct (map fc_task_id (db_cleanups db))"
    using reachable_agent_inv [OF assms(1)] by (simp add: agent_inv_def cleanups_ok_def)
  then have sorted: "sorted_wrt (\<lambda>x y. older (cursor_of x) y) (blocked_list db)"
    unfolding blocked_list_def by (intro newest_first_older) (rule distinct_map_filter)
  have "length (blocked_list db) < n"
    using le_less_trans [OF length_filter_le assms(5)] by (simp add: blocked_list_def newest_first_def)
  then have "all_pages n user_ids actor limit None db = Inr (remaining None db)"
    by (intro all_pages_rest [OF assms(3,4,2) sorted, of "[]"]) (simp_all add: remaining_def)
  then show ?thesis by (simp add: remaining_def blocked_list_def)
qed

definition demo_blocked :: agent_db where
  "demo_blocked = snd (cleanup_defer 5 demo_proven ''stuck'' 0 True demo_cleaning)"

theorem blocked_pages_complete_witness:
  "all_pages 2 ''ops, admin'' ''admin'' 1 None demo_blocked = Inr (newest_first (filter (\<lambda>r. fc_state r = Fc_BLOCKED) (db_cleanups demo_blocked)))
    \<and> length (filter (\<lambda>r. fc_state r = Fc_BLOCKED) (db_cleanups demo_blocked)) = 1"
proof -
  have blocked: "db_cleanups demo_blocked = [touch 5 ''AGENT'' (demo_proven\<lparr>fc_state := Fc_BLOCKED, fc_last_error := Some ''stuck'', fc_next_attempt_at := 5\<rparr>)]"
    by (simp add: demo_blocked_def demo_cleaning_eq cleanup_defer_def fenced_update_def fenced_def cleanup_required_def cleanup_of_def transaction_def
        update_cleanup_def sql_update_def demo_proven_def demo_cleanup_def new_cleanup_def new_task_def touch_def Let_def)
  have reach: "reachable_agent 3 demo_blocked"
    unfolding demo_blocked_def by (rule reach_step, rule demo_cleaning_reachable, rule st_cleanup_defer)
  have auth: "authorize ''ops, admin'' ''admin'' = Inr ()" by code_simp
  show ?thesis using blocked_pages_complete [OF reach auth, of 1 2] by (simp add: blocked touch_def)
qed

end
