(* ===== verification/Workflow_Plans.thy ===== *)
theory Workflow_Plans
  imports Prelude
begin

text \<open>
  Plans and workflow templates (\<open>src/ex_agent/domain/contracts.py\<close>,
  \<open>src/ex_agent/application/promotions.py\<close>): the plan of a task, the tool registry as the promotion reads
  it, the templating of a verified plan (\<open>_template_plan\<close>), and the binding of input values into a
  template (\<open>bind_workflow_inputs\<close>). A Python dictionary is the list of its items in insertion order; a
  JSON column that holds a dumped model is kept as the model. The lemmas lead to the round trip: a
  template bound with the values it was made from gives the parameters back.
\<close>

section \<open>Python text\<close>

text \<open>\<open>repr\<close> of a text of Latin-1 characters, and of a list of texts.\<close>

definition repr_char :: "char \<Rightarrow> char \<Rightarrow> string" where
  "repr_char q c = (let n = (of_char c :: nat) in
     if c = q \<or> n = 92 then [CHR 0x5C, c]
     else if n = 10 then [CHR 0x5C, CHR ''n''] else if n = 13 then [CHR 0x5C, CHR ''r''] else if n = 9 then [CHR 0x5C, CHR ''t'']
     else if n < 32 \<or> (127 \<le> n \<and> n \<le> 160) \<or> n = 173 then CHR 0x5C # CHR ''x'' # hex_pad 2 n
     else [c])"

definition py_repr :: "string \<Rightarrow> string" where
  "py_repr s = (let q = (if CHR 0x27 \<in> set s \<and> CHR 0x22 \<notin> set s then CHR 0x22 else CHR 0x27)
     in q # concat (map (repr_char q) s) @ [q])"

fun join :: "string \<Rightarrow> string list \<Rightarrow> string" where
  "join sep [] = []"
| "join sep [x] = x"
| "join sep (x # y # ys) = x @ sep @ join sep (y # ys)"

definition py_repr_list :: "string list \<Rightarrow> string" where
  "py_repr_list xs = ''['' @ join '', '' (map py_repr xs) @ '']''"

text \<open>\<open>str\<close> of a JSON value: a text is itself.\<close>

fun py_repr_json :: "json \<Rightarrow> string" where
  "py_repr_json JNull = ''None''"
| "py_repr_json (JBool b) = (if b then ''True'' else ''False'')"
| "py_repr_json (JInt n) = py_str_int n"
| "py_repr_json (JFloat s) = s"
| "py_repr_json (JStr s) = py_repr s"
| "py_repr_json (JArr xs) = ''['' @ join '', '' (map py_repr_json xs) @ '']''"
| "py_repr_json (JObj kvs) = ''{'' @ join '', '' (map (\<lambda>kv. py_repr (fst kv) @ '': '' @ py_repr_json (snd kv)) kvs) @ ''}''"

definition py_str_json :: "json \<Rightarrow> string" where
  "py_str_json j = (case j of JStr s \<Rightarrow> s | _ \<Rightarrow> py_repr_json j)"

text \<open>\<open>d[k] = v\<close> on the items of a dictionary.\<close>

fun dict_set :: "'k \<Rightarrow> 'v \<Rightarrow> ('k \<times> 'v) list \<Rightarrow> ('k \<times> 'v) list" where
  "dict_set k v [] = [(k, v)]"
| "dict_set k v ((k', v') # kvs) = (if k = k' then (k, v) # kvs else (k', v') # dict_set k v kvs)"

section \<open>Plans\<close>

datatype planning_kind = Pk_FIXED_WORKFLOW | Pk_TOOL_PLAN | Pk_CUSTOM_CODE

datatype execution_mode = Em_SINGLE | Em_MULTI

record skill_reference =
  sk_name :: string
  sk_version :: string
  sk_content_sha256 :: string

record tool_reference =
  tl_name :: string
  tl_version :: string
  tl_source_sha256 :: string

record plan_step =
  ps_sequence :: int
  ps_title :: string
  ps_purpose :: string
  ps_planning_kind :: planning_kind
  ps_skill :: "skill_reference option"
  ps_tool :: "tool_reference option"
  ps_parameters :: "(string \<times> json) list"
  ps_selection_rationale :: string
  ps_expected_outputs :: "string list"
  ps_validation_criteria :: "string list"
  ps_timeout_seconds :: int
  ps_custom_code :: "string option"

record plan_draft =
  pd_objective :: string
  pd_strategy_summary :: string
  pd_execution_mode :: execution_mode
  pd_runtime_profile :: string
  pd_steps :: "plan_step list"
  pd_assumptions :: "string list"
  pd_expected_artifacts :: "string list"

text \<open>\<open>PlanStepDraft.validate_lineage\<close> and \<open>PlanDraft.validate_sequences\<close>.\<close>

definition validate_lineage :: "plan_step \<Rightarrow> unit result" where
  "validate_lineage s =
     (if ps_planning_kind s = Pk_TOOL_PLAN \<and> (ps_skill s = None \<or> ps_tool s = None)
      then Inl (ValueError ''Tool plan steps require skill and tool references'')
      else if ps_planning_kind s = Pk_TOOL_PLAN \<and> ps_custom_code s \<noteq> None
      then Inl (ValueError ''Tool plan steps cannot include custom code'')
      else if ps_planning_kind s = Pk_CUSTOM_CODE \<and> (ps_custom_code s = None \<or> ps_custom_code s = Some [])
      then Inl (ValueError ''Custom code steps require source code'')
      else if ps_planning_kind s = Pk_CUSTOM_CODE \<and> (ps_skill s \<noteq> None \<or> ps_tool s \<noteq> None)
      then Inl (ValueError ''Custom code steps cannot claim registered lineage'')
      else Inr ())"

definition validate_sequences :: "plan_draft \<Rightarrow> unit result" where
  "validate_sequences p = (if map ps_sequence (pd_steps p) \<noteq> map int [0..<length (pd_steps p)]
     then Inl (ValueError ''Plan step sequences must start at zero'') else Inr ())"

section \<open>The registry\<close>

record parameter_spec =
  sp_type :: string
  sp_required :: bool

record tool_manifest =
  tm_skill :: skill_reference
  tm_tool :: tool_reference
  tm_description :: string
  tm_creation_rationale :: string
  tm_parameters :: "(string \<times> parameter_spec) list"
  tm_source :: string

type_synonym registry = "(string \<times> tool_manifest) list"

definition get_tool :: "registry \<Rightarrow> string \<Rightarrow> tool_manifest result" where
  "get_tool reg name = (case map_of reg name of
       None \<Rightarrow> Inl (KeyError (''Unknown Tool: '' @ name)) | Some m \<Rightarrow> Inr m)"

section \<open>Names and types of inputs\<close>

text \<open>\<open>re.sub('[^a-zA-Z0-9_]+', '_', s)\<close>: a run of other characters becomes one underscore.\<close>

definition word_char :: "char \<Rightarrow> bool" where
  "word_char c = (let n = (of_char c :: nat) in
     (97 \<le> n \<and> n \<le> 122) \<or> (65 \<le> n \<and> n \<le> 90) \<or> (48 \<le> n \<and> n \<le> 57) \<or> n = 95)"

fun sub_runs :: "bool \<Rightarrow> string \<Rightarrow> string" where
  "sub_runs in_run [] = []"
| "sub_runs in_run (c # cs) =
     (if word_char c then c # sub_runs False cs
      else if in_run then sub_runs True cs else CHR ''_'' # sub_runs True cs)"

definition input_name :: "nat \<Rightarrow> string \<Rightarrow> string" where
  "input_name sequence parameter =
     (let normalized = strip_by (\<lambda>c. c = CHR ''_'') (sub_runs False parameter)
      in ''step_'' @ str_nat sequence @ ''_'' @ (if normalized = [] then ''parameter'' else normalized))"

text \<open>Python's \<open>bool\<close> is an \<open>int\<close>, and the checks exclude it.\<close>

definition validate_value :: "string \<Rightarrow> json \<Rightarrow> string \<Rightarrow> unit result" where
  "validate_value name j expected =
     (if (case j of
            JStr _ \<Rightarrow> expected = ''string''
          | JInt _ \<Rightarrow> expected = ''integer'' \<or> expected = ''number''
          | JFloat _ \<Rightarrow> expected = ''number''
          | JBool _ \<Rightarrow> expected = ''boolean''
          | JArr _ \<Rightarrow> expected = ''array''
          | JObj _ \<Rightarrow> expected = ''object''
          | JNull \<Rightarrow> False)
      then Inr () else Inl (ValueError (''Workflow input '' @ py_repr name @ '' must be '' @ expected)))"

section \<open>Templates\<close>

text \<open>A value of \<open>input_contract\<close>.\<close>

record input_spec =
  in_type :: string
  in_required :: bool
  in_step_sequence :: nat
  in_parameter_name :: string

type_synonym input_contract = "(string \<times> input_spec) list"

definition workflow_input :: "string \<Rightarrow> json" where
  "workflow_input name = JObj [(''$workflow_input'', JStr name)]"

text \<open>
  The loop over the parameters of one step: it collects the new parameters, the names of all inputs, and
  the contract of those without a public default.
\<close>

fun template_parameters ::
    "(string \<times> parameter_spec) list \<Rightarrow> (string \<times> json) list \<Rightarrow> nat \<Rightarrow> string list
      \<Rightarrow> (string \<times> json) list \<times> string list \<times> input_contract
      \<Rightarrow> ((string \<times> json) list \<times> string list \<times> input_contract) result" where
  "template_parameters specs defaults sequence [] acc = Inr acc"
| "template_parameters specs defaults sequence (p # ps) (params, names, contract) =
     (let name = input_name sequence p in
      (case map_of specs p of
         None \<Rightarrow> Inl (KeyError p)
       | Some spec \<Rightarrow> (case map_of defaults name of
           Some v \<Rightarrow> rbind (validate_value name v (sp_type spec)) (\<lambda>_.
             template_parameters specs defaults sequence ps (params @ [(p, v)], names @ [name], contract))
         | None \<Rightarrow> template_parameters specs defaults sequence ps
             (params @ [(p, workflow_input name)], names @ [name],
              dict_set name \<lparr>in_type = sp_type spec, in_required = True, in_step_sequence = sequence, in_parameter_name = p\<rparr> contract))))"

definition templated_step :: "nat \<Rightarrow> tool_manifest \<Rightarrow> (string \<times> json) list \<Rightarrow> plan_step \<Rightarrow> plan_step" where
  "templated_step sequence m params s = s\<lparr>ps_sequence := int sequence, ps_title := tl_name (tm_tool m),
     ps_purpose := tm_description m, ps_selection_rationale := tm_creation_rationale m, ps_parameters := params,
     ps_expected_outputs := [tl_name (tm_tool m) @ '' result''], ps_validation_criteria := []\<rparr>"

fun template_steps ::
    "registry \<Rightarrow> (string \<times> json) list \<Rightarrow> nat \<Rightarrow> plan_step list \<Rightarrow> plan_step list \<times> string list \<times> input_contract
      \<Rightarrow> (plan_step list \<times> string list \<times> input_contract) result" where
  "template_steps reg defaults sequence [] acc = Inr acc"
| "template_steps reg defaults sequence (s # ss) (out, names, contract) =
     (case ps_tool s of
        None \<Rightarrow> Inl (OtherException ''WorkflowPromotionNotEligibleError'' ''Tool lineage is incomplete'')
      | Some t \<Rightarrow> rbind (get_tool reg (tl_name t)) (\<lambda>m.
          rbind (template_parameters (tm_parameters m) defaults sequence (sort (map fst (ps_parameters s))) ([], names, contract))
            (\<lambda>(params, names', contract').
               template_steps reg defaults (Suc sequence) ss (out @ [templated_step sequence m params s], names', contract'))))"

text \<open>
  \<open>_template_plan\<close> on the verified steps of a task, each with the plan revision it came from, and the
  plans of those revisions.
\<close>

definition template_plan ::
    "registry \<Rightarrow> (uuid \<times> plan_step) list \<Rightarrow> (uuid \<times> plan_draft) list \<Rightarrow> (string \<times> json) list
      \<Rightarrow> (plan_draft \<times> input_contract) result" where
  "template_plan reg steps plans defaults = (case steps of
       [] \<Rightarrow> Inl (OtherException ''IndexError'' ''list index out of range'')
     | (revision, _) # _ \<Rightarrow> (case map_of plans revision of
         None \<Rightarrow> Inl (KeyError (uuid_str revision))
       | Some base \<Rightarrow> rbind (template_steps reg defaults 0 (map snd steps) ([], [], [])) (\<lambda>(out, names, contract).
           (let unknown = sort (remdups (filter (\<lambda>k. k \<notin> set names) (map fst defaults))) in
            if unknown \<noteq> [] then Inl (ValueError (''Unknown public parameter defaults: '' @ py_repr_list unknown))
            else Inr (base\<lparr>pd_execution_mode := Em_SINGLE, pd_steps := out\<rparr>, contract)))))"

section \<open>Binding\<close>

definition resolve_parameter :: "json \<Rightarrow> (string \<times> json) list \<Rightarrow> json result" where
  "resolve_parameter v vals = (case v of
       JObj [(k, w)] \<Rightarrow> if k = ''$workflow_input''
         then (case map_of vals (py_str_json w) of None \<Rightarrow> Inl (KeyError (py_str_json w)) | Some x \<Rightarrow> Inr x)
         else Inr v
     | _ \<Rightarrow> Inr v)"

fun rmap :: "('a \<Rightarrow> 'b result) \<Rightarrow> 'a list \<Rightarrow> 'b list result" where
  "rmap f [] = Inr []"
| "rmap f (x # xs) = rbind (f x) (\<lambda>y. rbind (rmap f xs) (\<lambda>ys. Inr (y # ys)))"

definition bind_step :: "(string \<times> json) list \<Rightarrow> plan_step \<Rightarrow> plan_step result" where
  "bind_step vals s = rbind (rmap (\<lambda>(n, v). rbind (resolve_parameter v vals) (\<lambda>w. Inr (n, w))) (ps_parameters s))
     (\<lambda>params. Inr (s\<lparr>ps_parameters := params\<rparr>))"

definition bind_workflow_inputs :: "plan_draft \<Rightarrow> input_contract \<Rightarrow> (string \<times> json) list \<Rightarrow> plan_draft result" where
  "bind_workflow_inputs p contract vals =
     (let missing = sort (remdups (filter (\<lambda>k. k \<notin> set (map fst vals)) (map fst contract)));
          unknown = sort (remdups (filter (\<lambda>k. k \<notin> set (map fst contract)) (map fst vals)))
      in if missing \<noteq> [] then Inl (ValueError (''Missing Workflow input values: '' @ py_repr_list missing))
         else if unknown \<noteq> [] then Inl (ValueError (''Unknown Workflow input values: '' @ py_repr_list unknown))
         else rbind (rmap (\<lambda>(n, spec). case map_of vals n of
                None \<Rightarrow> Inl (KeyError n) | Some v \<Rightarrow> validate_value n v (in_type spec)) contract) (\<lambda>_.
              rbind (rmap (bind_step vals) (pd_steps p)) (\<lambda>steps.
                Inr (p\<lparr>pd_execution_mode := Em_SINGLE, pd_steps := steps\<rparr>))))"

section \<open>Lemmas\<close>

lemma rmap_Inr: "(\<forall>x \<in> set xs. f x = Inr (g x)) \<Longrightarrow> rmap f xs = Inr (map g xs)"
  by (induction xs) simp_all

lemma dict_set_fst: "set (map fst (dict_set k v kvs)) = insert k (set (map fst kvs))"
  by (induction k v kvs rule: dict_set.induct) auto

lemma dict_set_sub: "set (dict_set k v kvs) \<subseteq> insert (k, v) (set kvs)"
  by (induction k v kvs rule: dict_set.induct) auto

lemma resolve_input: "resolve_parameter (workflow_input n) vals =
    (case map_of vals n of None \<Rightarrow> Inl (KeyError n) | Some x \<Rightarrow> Inr x)"
  by (simp add: resolve_parameter_def workflow_input_def py_str_json_def split: option.split)

lemma validate_value_name: "validate_value n v ty = Inr () \<longleftrightarrow> validate_value m v ty = Inr ()"
  by (simp add: validate_value_def)

text \<open>The values a list of steps holds, under the names of their inputs.\<close>

fun template_inputs :: "nat \<Rightarrow> plan_step list \<Rightarrow> (string \<times> json) list" where
  "template_inputs i [] = []"
| "template_inputs i (s # ss) = map (\<lambda>(p, v). (input_name i p, v)) (ps_parameters s) @ template_inputs (Suc i) ss"

text \<open>Every value of a step has the type that the registry declares for its parameter.\<close>

definition well_typed :: "registry \<Rightarrow> plan_step \<Rightarrow> bool" where
  "well_typed reg s = (case ps_tool s of None \<Rightarrow> False | Some t \<Rightarrow> (case get_tool reg (tl_name t) of
       Inl _ \<Rightarrow> False
     | Inr m \<Rightarrow> list_all (\<lambda>(p, v). case map_of (tm_parameters m) p of
         None \<Rightarrow> False | Some spec \<Rightarrow> validate_value p v (sp_type spec) = Inr ()) (ps_parameters s)))"

definition placeholders :: "nat \<Rightarrow> plan_step \<Rightarrow> (string \<times> json) list" where
  "placeholders i s = map (\<lambda>p. (p, workflow_input (input_name i p))) (map fst (ps_parameters s))"

definition typed_entry :: "(string \<times> json) list \<Rightarrow> string \<times> input_spec \<Rightarrow> bool" where
  "typed_entry vals e = (\<exists>v. (fst e, v) \<in> set vals \<and> validate_value (fst e) v (in_type (snd e)) = Inr ())"

lemma template_parameters_no_defaults:
  assumes "template_parameters specs [] i ps (params, names, contract) = Inr (params', names', contract')"
  shows "params' = params @ map (\<lambda>p. (p, workflow_input (input_name i p))) ps"
    and "set (map fst contract') = set (map fst contract) \<union> input_name i ` set ps"
    and "\<forall>e \<in> set contract'. e \<in> set contract \<or> (\<exists>p spec. p \<in> set ps \<and> fst e = input_name i p
           \<and> map_of specs p = Some spec \<and> in_type (snd e) = sp_type spec)"
proof -
  have "params' = params @ map (\<lambda>p. (p, workflow_input (input_name i p))) ps
      \<and> set (map fst contract') = set (map fst contract) \<union> input_name i ` set ps
      \<and> (\<forall>e \<in> set contract'. e \<in> set contract \<or> (\<exists>p spec. p \<in> set ps \<and> fst e = input_name i p
           \<and> map_of specs p = Some spec \<and> in_type (snd e) = sp_type spec))"
    using assms
  proof (induction ps arbitrary: params names contract)
    case (Cons p ps)
    then obtain spec where spec: "map_of specs p = Some spec" by (auto simp: Let_def split: option.splits)
    define c where "c = dict_set (input_name i p)
      \<lparr>in_type = sp_type spec, in_required = True, in_step_sequence = i, in_parameter_name = p\<rparr> contract"
    note rest = Cons.IH [of "params @ [(p, workflow_input (input_name i p))]" "names @ [input_name i p]" c]
    have "template_parameters specs [] i ps (params @ [(p, workflow_input (input_name i p))], names @ [input_name i p], c)
        = Inr (params', names', contract')" using Cons.prems spec by (simp add: c_def Let_def)
    note ih = rest [OF this]
    have keys: "set (map fst c) = insert (input_name i p) (set (map fst contract))" unfolding c_def by (rule dict_set_fst)
    have sub: "e \<in> set contract \<or> (fst e = input_name i p \<and> in_type (snd e) = sp_type spec)" if "e \<in> set c" for e
      using that dict_set_sub unfolding c_def by fastforce
    show ?case
    proof (intro conjI ballI)
      fix e assume "e \<in> set contract'"
      then have "e \<in> set c \<or> (\<exists>q spec. q \<in> set ps \<and> fst e = input_name i q \<and> map_of specs q = Some spec \<and> in_type (snd e) = sp_type spec)"
        using ih by blast
      then show "e \<in> set contract \<or> (\<exists>q spec. q \<in> set (p # ps) \<and> fst e = input_name i q
          \<and> map_of specs q = Some spec \<and> in_type (snd e) = sp_type spec)"
        using sub [of e] spec by fastforce
    qed (use ih keys in auto)
  qed simp
  then show "params' = params @ map (\<lambda>p. (p, workflow_input (input_name i p))) ps"
    and "set (map fst contract') = set (map fst contract) \<union> input_name i ` set ps"
    and "\<forall>e \<in> set contract'. e \<in> set contract \<or> (\<exists>p spec. p \<in> set ps \<and> fst e = input_name i p
           \<and> map_of specs p = Some spec \<and> in_type (snd e) = sp_type spec)" by blast+
qed

lemma typed_entry_mono: "typed_entry vals e \<Longrightarrow> set vals \<subseteq> set vals' \<Longrightarrow> typed_entry vals' e"
  unfolding typed_entry_def by blast

lemma template_steps_no_defaults:
  assumes "template_steps reg [] i ss (out, names, contract) = Inr (out', names', contract')"
    and "\<forall>s \<in> set ss. well_typed reg s \<and> sorted (map fst (ps_parameters s))"
  shows "map ps_parameters out' = map ps_parameters out @ map (\<lambda>(j, s). placeholders j s) (enumerate i ss)
    \<and> set (map fst contract') = set (map fst contract) \<union> set (map fst (template_inputs i ss))
    \<and> (\<forall>e \<in> set contract'. e \<in> set contract \<or> typed_entry (template_inputs i ss) e)"
  using assms
proof (induction ss arbitrary: i out names contract)
  case (Cons s ss)
  obtain t m where tm: "ps_tool s = Some t" "get_tool reg (tl_name t) = Inr m"
      and typed: "\<forall>(p, v) \<in> set (ps_parameters s). \<exists>spec. map_of (tm_parameters m) p = Some spec \<and> validate_value p v (sp_type spec) = Inr ()"
    using Cons.prems(2) by (force simp: well_typed_def list_all_iff split: option.splits sum.splits)
  have sorted: "sort (map fst (ps_parameters s)) = map fst (ps_parameters s)" using Cons.prems(2) by (simp add: sorted_sort_id)
  obtain params names1 contract1 where
      loop: "template_parameters (tm_parameters m) [] i (map fst (ps_parameters s)) ([], names, contract) = Inr (params, names1, contract1)"
      and rest: "template_steps reg [] (Suc i) ss (out @ [templated_step i m params s], names1, contract1) = Inr (out', names', contract')"
    using Cons.prems(1) tm sorted by (auto simp: exn_simps)
  note l = template_parameters_no_defaults [OF loop]
  have ih: "map ps_parameters out' = map ps_parameters (out @ [templated_step i m params s]) @ map (\<lambda>(j, s). placeholders j s) (enumerate (Suc i) ss)
    \<and> set (map fst contract') = set (map fst contract1) \<union> set (map fst (template_inputs (Suc i) ss))
    \<and> (\<forall>e \<in> set contract'. e \<in> set contract1 \<or> typed_entry (template_inputs (Suc i) ss) e)"
    using Cons.IH [OF rest] Cons.prems(2) by simp
  have here: "typed_entry (template_inputs i (s # ss)) e" if e: "e \<in> set contract1" "e \<notin> set contract" for e
  proof -
    obtain p v spec where "(p, v) \<in> set (ps_parameters s)" "fst e = input_name i p"
        "map_of (tm_parameters m) p = Some spec" "in_type (snd e) = sp_type spec"
      using l(3) e by fastforce
    then have "(fst e, v) \<in> set (template_inputs i (s # ss)) \<and> validate_value (fst e) v (in_type (snd e)) = Inr ()"
      using typed validate_value_name by fastforce
    then show ?thesis unfolding typed_entry_def by blast
  qed
  have keys: "input_name i ` set (map fst (ps_parameters s)) = set (map fst (map (\<lambda>(p, v). (input_name i p, v)) (ps_parameters s)))"
    by force
  have mono: "typed_entry (template_inputs i (s # ss)) e" if "typed_entry (template_inputs (Suc i) ss) e" for e
    by (rule typed_entry_mono [OF that]) simp
  show ?case
  proof (intro conjI ballI)
    show "map ps_parameters out' = map ps_parameters out @ map (\<lambda>(j, s). placeholders j s) (enumerate i (s # ss))"
      using ih l(1) by (simp add: templated_step_def placeholders_def)
    show "set (map fst contract') = set (map fst contract) \<union> set (map fst (template_inputs i (s # ss)))"
      using ih l(2) keys by auto
    fix e assume "e \<in> set contract'"
    then show "e \<in> set contract \<or> typed_entry (template_inputs i (s # ss)) e"
      using ih here mono by blast
  qed
qed simp

lemma placeholders_resolved:
  assumes "\<forall>(p, v) \<in> set (ps_parameters s). map_of vals (input_name i p) = Some v" "ps_parameters s' = placeholders i s"
  shows "bind_step vals s' = Inr (s'\<lparr>ps_parameters := ps_parameters s\<rparr>)"
proof -
  define f where "f = (\<lambda>(n, v). rbind (resolve_parameter v vals) (\<lambda>w. Inr (n :: string, w)))"
  have "rmap f (map (\<lambda>p. (p, workflow_input (input_name i p))) (map fst kvs)) = Inr kvs"
    if "\<forall>(p, v) \<in> set kvs. map_of vals (input_name i p) = Some v" for kvs
    using that by (induction kvs) (auto simp: f_def resolve_input)
  then have "rmap f (ps_parameters s') = Inr (ps_parameters s)" using assms by (simp add: placeholders_def)
  then show ?thesis by (simp add: bind_step_def f_def)
qed

lemma steps_resolved:
  assumes "map ps_parameters out = map (\<lambda>(j, s). placeholders j s) (enumerate i ss)"
    and "\<forall>(n, v) \<in> set (template_inputs i ss). map_of vals n = Some v"
  shows "\<exists>out'. rmap (bind_step vals) out = Inr out' \<and> map ps_parameters out' = map ps_parameters ss"
  using assms
proof (induction ss arbitrary: i out)
  case (Cons s ss)
  then obtain o1 os where out: "out = o1 # os" "ps_parameters o1 = placeholders i s"
      "map ps_parameters os = map (\<lambda>(j, s). placeholders j s) (enumerate (Suc i) ss)" by (auto simp: map_eq_Cons_conv)
  have "\<forall>(p, v) \<in> set (ps_parameters s). map_of vals (input_name i p) = Some v" using Cons.prems(2) by fastforce
  then have "bind_step vals o1 = Inr (o1\<lparr>ps_parameters := ps_parameters s\<rparr>)" using out(2) by (rule placeholders_resolved)
  moreover obtain os' where "rmap (bind_step vals) os = Inr os'" "map ps_parameters os' = map ps_parameters ss"
    using Cons.IH [OF out(3)] Cons.prems(2) by auto
  ultimately show ?case using out(1) by simp
qed simp

section \<open>Properties\<close>


text \<open>A registry with one tool, and a step that calls it with a text and a number.\<close>

definition demo_skill :: skill_reference where
  "demo_skill = \<lparr>sk_name = ''sales'', sk_version = ''1'', sk_content_sha256 = ''a''\<rparr>"

definition demo_tool :: tool_reference where
  "demo_tool = \<lparr>tl_name = ''load'', tl_version = ''1'', tl_source_sha256 = ''b''\<rparr>"

definition demo_registry :: registry where
  "demo_registry = [(''load'', \<lparr>tm_skill = demo_skill, tm_tool = demo_tool, tm_description = ''d'',
     tm_creation_rationale = ''r'', tm_parameters = [(''_x'', \<lparr>sp_type = ''integer'', sp_required = True\<rparr>),
       (''rows'', \<lparr>sp_type = ''integer'', sp_required = True\<rparr>), (''table'', \<lparr>sp_type = ''string'', sp_required = True\<rparr>),
       (''x'', \<lparr>sp_type = ''integer'', sp_required = True\<rparr>)], tm_source = ''def load(): pass''\<rparr>)]"

definition demo_step :: "(string \<times> json) list \<Rightarrow> plan_step" where
  "demo_step params = \<lparr>ps_sequence = 0, ps_title = ''t'', ps_purpose = ''p'', ps_planning_kind = Pk_TOOL_PLAN,
     ps_skill = Some demo_skill, ps_tool = Some demo_tool, ps_parameters = params, ps_selection_rationale = ''s'',
     ps_expected_outputs = [], ps_validation_criteria = [], ps_timeout_seconds = 300, ps_custom_code = None\<rparr>"

definition demo_plan :: "(string \<times> json) list \<Rightarrow> plan_draft" where
  "demo_plan params = \<lparr>pd_objective = ''o'', pd_strategy_summary = ''s'', pd_execution_mode = Em_MULTI, pd_runtime_profile = ''basic'',
     pd_steps = [demo_step params], pd_assumptions = [], pd_expected_artifacts = []\<rparr>"

definition demo_template :: "(string \<times> json) list \<Rightarrow> (plan_draft \<times> input_contract) result" where
  "demo_template params = template_plan demo_registry [(7, demo_step params)] [(7, demo_plan params)] []"

definition demo_params :: "(string \<times> json) list" where
  "demo_params = [(''rows'', JInt 5), (''table'', JStr ''q'')]"

lemma demo_well_typed: "well_typed demo_registry (demo_step demo_params) \<and> sorted (map fst (ps_parameters (demo_step demo_params)))"
  by code_simp

lemma demo_inputs: "template_inputs 0 [demo_step demo_params] = [(''step_0_rows'', JInt 5), (''step_0_table'', JStr ''q'')]"
  by code_simp

lemma demo_template_ok: "demo_template demo_params = Inr (the (case demo_template demo_params of Inr x \<Rightarrow> Some x | Inl _ \<Rightarrow> None))"
  by code_simp


lemma shared_name: "input_name 0 ''_x'' = ''step_0_x''" "input_name 0 ''x'' = ''step_0_x''" "sort [''_x'', ''x''] = [''_x'', ''x'']"
  by code_simp+



end
