(* ===== verification/Workflow_Catalog.thy ===== *)
theory Workflow_Catalog
  imports Workflow_Plans Agent_Tables Transitions "HOL-Library.Product_Lexorder"
begin

text \<open>
  The catalog of reusable workflows: its tables (\<open>src/ex_agent/persistence/models.py\<close>), the promotion of a
  verified task to a workflow (\<open>repositories/promotions.py\<close>), the life cycle of its versions
  (\<open>repositories/workflow_lifecycle.py\<close>) and the queries that serve versions to planning
  (\<open>repositories/workflows.py\<close>). Every operation is one transaction: a raise leaves the tables as they
  were. An identifier that \<open>uuid4\<close> generates is an argument; the digests are parameters. Text lengths of
  the columns are not modelled. The lemmas show that each operation keeps \<open>catalog_inv\<close>.
\<close>

section \<open>Tables\<close>

datatype workflow_status = Wk_ACTIVE | Wk_INACTIVE

datatype review_status = Rv_PENDING_REVIEW | Rv_APPROVED | Rv_REJECTED

datatype lifecycle_action =
    La_VERSION_CREATED | La_VERSION_APPROVED | La_VERSION_REJECTED | La_VERSION_ACTIVATED
  | La_WORKFLOW_ACTIVATED | La_WORKFLOW_DEACTIVATED

record workflow_row =
  wk_id :: uuid
  wk_name :: string
  wk_description :: string
  wk_owner_user_id :: "string option"
  wk_owner_project_id :: "string option"
  wk_visibility :: string
  wk_status :: workflow_status
  wk_latest_version :: int
  wk_access_policy :: json
  wk_required_permission :: "string option"
  wk_audit :: audit_cols

record version_row =
  wv_id :: uuid
  wv_workflow_id :: uuid
  wv_version :: int
  wv_source_task_id :: "uuid option"
  wv_source_plan_id :: "uuid option"
  wv_source_plan_revision_id :: "uuid option"
  wv_source_execution_id :: "uuid option"
  wv_objective :: "string option"
  wv_strategy_summary :: "string option"
  wv_runtime_profile :: "string option"
  wv_input_contract :: input_contract
  wv_output_artifacts :: "string list"
  wv_tool_registry_snapshot_hash :: "string option"
  wv_searchable_text :: "string option"
  wv_searchable_text_hash :: "string option"
  wv_embedding_model :: "string option"
  wv_embedding_dimension :: "nat option"
  wv_request_examples :: "string list"
  wv_tags :: "string list"
  wv_promotion_policy_version :: "string option"
  wv_plan_payload :: plan_draft
  wv_public_payload_hash :: string
  wv_embedding :: "string list option"
  wv_promoted_by :: string
  wv_active :: bool
  wv_review_status :: review_status
  wv_reviewed_by :: "string option"
  wv_reviewed_at :: "usec option"
  wv_review_reason :: "string option"
  wv_audit :: audit_cols

record workflow_step_row =
  wt_version_id :: uuid
  wt_source_plan_revision_id :: uuid
  wt_sequence :: nat
  wt_skill_ref :: skill_reference
  wt_tool_ref :: tool_reference
  wt_purpose :: string
  wt_selection_rationale :: string
  wt_parameter_template :: "(string \<times> json) list"
  wt_expected_outputs :: "string list"
  wt_validation_criteria :: "string list"
  wt_timeout_seconds :: int

record success_row =
  xs_task_id :: uuid
  xs_execution_sequence :: int
  xs_operation_id :: uuid
  xs_source_plan_id :: uuid
  xs_source_plan_revision_id :: uuid
  xs_registry_snapshot_hash :: string
  xs_step_payload :: plan_step
  xs_step_payload_hash :: string

record promotion_row =
  wp_task_id :: uuid
  wp_actor_user_id :: string
  wp_idempotency_key :: string
  wp_request_hash :: string
  wp_workflow_id :: uuid
  wp_workflow_version_id :: uuid
  wp_policy_version :: string

text \<open>\<open>WorkflowLifecycleResult\<close>; it is stored in the row of its action.\<close>

record lifecycle_result =
  lr_workflow_id :: uuid
  lr_workflow_version_id :: "uuid option"
  lr_version :: "int option"
  lr_public_payload_hash :: "string option"
  lr_action :: lifecycle_action
  lr_workflow_status :: workflow_status
  lr_review_status :: "review_status option"
  lr_version_active :: "bool option"
  lr_applied :: bool

record action_row =
  la_id :: uuid
  la_workflow_id :: uuid
  la_workflow_version_id :: "uuid option"
  la_actor_user_id :: string
  la_action :: lifecycle_action
  la_idempotency_key :: string
  la_request_hash :: string
  la_reason :: "string option"
  la_policy_version :: string
  la_result :: lifecycle_result
  la_created_at :: usec

record catalog_db =
  cg_workflows :: "workflow_row list"
  cg_versions :: "version_row list"
  cg_steps :: "workflow_step_row list"
  cg_successes :: "success_row list"
  cg_promotions :: "promotion_row list"
  cg_actions :: "action_row list"
  cg_events :: "task_event list"

definition empty_catalog :: catalog_db where
  "empty_catalog = \<lparr>cg_workflows = [], cg_versions = [], cg_steps = [], cg_successes = [], cg_promotions = [],
     cg_actions = [], cg_events = []\<rparr>"

definition workflow_of :: "uuid \<Rightarrow> catalog_db \<Rightarrow> workflow_row option" where
  "workflow_of u db = find (\<lambda>w. wk_id w = u) (cg_workflows db)"

definition version_of :: "uuid \<Rightarrow> catalog_db \<Rightarrow> version_row option" where
  "version_of u db = find (\<lambda>v. wv_id v = u) (cg_versions db)"

text \<open>A transaction whose statements give a value and the tables to commit, or raise.\<close>

definition atomically :: "('s \<Rightarrow> ('a \<times> 's) result) \<Rightarrow> 's \<Rightarrow> 'a result \<times> 's" where
  "atomically f s = (case f s of Inl e \<Rightarrow> (Inl e, s) | Inr (x, s') \<Rightarrow> (Inr x, s'))"

section \<open>Verified steps\<close>

text \<open>\<open>record_successful_steps\<close>: the loop over the steps of an operation; \<open>ph\<close> is \<open>_payload_hash\<close>.\<close>

fun record_steps ::
    "(plan_step \<Rightarrow> string) \<Rightarrow> uuid \<Rightarrow> uuid \<Rightarrow> uuid \<Rightarrow> uuid \<Rightarrow> string \<Rightarrow> int \<Rightarrow> plan_step list \<Rightarrow> success_row list
      \<Rightarrow> success_row list result" where
  "record_steps ph task op pl revision reg_hash sequence [] rows = Inr rows"
| "record_steps ph task op pl revision reg_hash sequence (s # ss) rows =
     (case find (\<lambda>r. xs_task_id r = task \<and> xs_execution_sequence r = sequence) rows of
        Some r \<Rightarrow> if xs_step_payload_hash r \<noteq> ph s \<or> xs_operation_id r \<noteq> op
          then Inl (ValueError ''Successful execution Step lineage changed'')
          else record_steps ph task op pl revision reg_hash (sequence + 1) ss rows
      | None \<Rightarrow> record_steps ph task op pl revision reg_hash (sequence + 1) ss
          (rows @ [\<lparr>xs_task_id = task, xs_execution_sequence = sequence, xs_operation_id = op, xs_source_plan_id = pl,
             xs_source_plan_revision_id = revision, xs_registry_snapshot_hash = reg_hash, xs_step_payload = s,
             xs_step_payload_hash = ph s\<rparr>]))"

definition record_successful_steps ::
    "(plan_step \<Rightarrow> string) \<Rightarrow> uuid \<Rightarrow> uuid \<Rightarrow> uuid \<Rightarrow> uuid \<Rightarrow> string \<Rightarrow> int \<Rightarrow> plan_step list \<Rightarrow> catalog_db
      \<Rightarrow> unit result \<times> catalog_db" where
  "record_successful_steps ph task op pl revision reg_hash start steps = atomically (\<lambda>db.
     rbind (record_steps ph task op pl revision reg_hash start steps (cg_successes db)) (\<lambda>rows.
       Inr ((), db\<lparr>cg_successes := rows\<rparr>)))"

record promotion_source =
  src_task :: task_row
  src_steps :: "success_row list"
  src_plans :: "(uuid \<times> plan_draft) list"

text \<open>\<open>source\<close>; \<open>revisions\<close> are the rows of \<open>agent_plan_revisions\<close> with their public plans.\<close>

definition promotion_source_of ::
    "uuid \<Rightarrow> agent_db \<Rightarrow> (uuid \<times> plan_draft) list \<Rightarrow> catalog_db \<Rightarrow> promotion_source result" where
  "promotion_source_of task adb revisions db = (case task_of task adb of
       None \<Rightarrow> Inl (LookupError (''Unknown task: '' @ uuid_str task))
     | Some t \<Rightarrow> (let steps = sort_key xs_execution_sequence (filter (\<lambda>r. xs_task_id r = task) (cg_successes db)) in
         Inr \<lparr>src_task = t, src_steps = steps,
              src_plans = filter (\<lambda>(u, _). u \<in> set (map xs_source_plan_revision_id steps)) revisions\<rparr>))"

section \<open>New versions\<close>

text \<open>The arguments that describe the content of a version.\<close>

record version_draft =
  vd_request_examples :: "string list"
  vd_tags :: "string list"
  vd_plan :: plan_draft
  vd_input_contract :: input_contract
  vd_embedding :: "string list"
  vd_embedding_model :: string
  vd_registry_snapshot_hash :: string
  vd_searchable_text :: string

text \<open>The digests: of a public payload, and of a text.\<close>

record digests =
  dg_payload :: "plan_draft \<Rightarrow> input_contract \<Rightarrow> string"
  dg_text :: "string \<Rightarrow> string"

definition only_value :: "uuid list \<Rightarrow> uuid option" where
  "only_value us = (case remdups us of [u] \<Rightarrow> Some u | _ \<Rightarrow> None)"

definition new_version ::
    "digests \<Rightarrow> usec \<Rightarrow> uuid \<Rightarrow> uuid \<Rightarrow> int \<Rightarrow> promotion_source \<Rightarrow> string \<Rightarrow> string \<Rightarrow> version_draft
      \<Rightarrow> bool \<Rightarrow> review_status \<Rightarrow> version_row" where
  "new_version dg now vid wid number src actor policy d active review =
     \<lparr>wv_id = vid, wv_workflow_id = wid, wv_version = number, wv_source_task_id = Some (t_id (src_task src)),
      wv_source_plan_id = only_value (map xs_source_plan_id (src_steps src)),
      wv_source_plan_revision_id = only_value (map xs_source_plan_revision_id (src_steps src)),
      wv_source_execution_id = t_execution_id (src_task src),
      wv_objective = Some (pd_objective (vd_plan d)), wv_strategy_summary = Some (pd_strategy_summary (vd_plan d)),
      wv_runtime_profile = Some (pd_runtime_profile (vd_plan d)), wv_input_contract = vd_input_contract d,
      wv_output_artifacts = pd_expected_artifacts (vd_plan d),
      wv_tool_registry_snapshot_hash = Some (vd_registry_snapshot_hash d),
      wv_searchable_text = Some (vd_searchable_text d), wv_searchable_text_hash = Some (dg_text dg (vd_searchable_text d)),
      wv_embedding_model = Some (vd_embedding_model d), wv_embedding_dimension = Some (length (vd_embedding d)),
      wv_request_examples = vd_request_examples d, wv_tags = vd_tags d, wv_promotion_policy_version = Some policy,
      wv_plan_payload = vd_plan d, wv_public_payload_hash = dg_payload dg (vd_plan d) (vd_input_contract d),
      wv_embedding = Some (vd_embedding d), wv_promoted_by = actor, wv_active = active, wv_review_status = review,
      wv_reviewed_by = (if review = Rv_APPROVED then Some actor else None),
      wv_reviewed_at = (if review = Rv_APPROVED then Some now else None), wv_review_reason = None,
      wv_audit = new_audit now actor\<rparr>"

text \<open>
  The flush of a new version: the primary key, the unique number within the workflow, and the fixed
  dimension of the vector column.
\<close>

definition insert_version :: "version_row \<Rightarrow> version_row list \<Rightarrow> version_row list result" where
  "insert_version v rows =
     (if map_option length (wv_embedding v) \<noteq> Some 1024 then Inl (DatabaseError ''expected 1024 dimensions'')
      else insert_or_raise (\<lambda>r. wv_id r = wv_id v \<or> wv_workflow_id r = wv_workflow_id v \<and> wv_version r = wv_version v)
             (IntegrityError ''uq_agent_workflow_version'') v rows)"

text \<open>\<open>add_workflow_steps\<close>: the two lists are walked in step, and \<open>strict=True\<close> refuses different lengths.\<close>

fun add_workflow_steps :: "uuid \<Rightarrow> nat \<Rightarrow> plan_step list \<Rightarrow> success_row list \<Rightarrow> workflow_step_row list result" where
  "add_workflow_steps vid sequence [] [] = Inr []"
| "add_workflow_steps vid sequence (s # ss) (r # rs) = (case (ps_skill s, ps_tool s) of
       (Some skill, Some tool) \<Rightarrow> rbind (add_workflow_steps vid (Suc sequence) ss rs) (\<lambda>rows.
         Inr (\<lparr>wt_version_id = vid, wt_source_plan_revision_id = xs_source_plan_revision_id r, wt_sequence = sequence,
               wt_skill_ref = skill, wt_tool_ref = tool, wt_purpose = ps_purpose s,
               wt_selection_rationale = ps_selection_rationale s, wt_parameter_template = ps_parameters s,
               wt_expected_outputs = ps_expected_outputs s, wt_validation_criteria = ps_validation_criteria s,
               wt_timeout_seconds = ps_timeout_seconds s\<rparr> # rows))
     | _ \<Rightarrow> Inl (ValueError ''Promoted Workflow Step requires Skill/Tool lineage''))"
| "add_workflow_steps vid sequence _ _ = Inl (ValueError ''zip() arguments have different lengths'')"

section \<open>Promotion\<close>

record promotion_result =
  rp_workflow_id :: uuid
  rp_workflow_version_id :: uuid
  rp_version :: int
  rp_created :: bool
  rp_public_payload_hash :: string

text \<open>The field constraints of the result models: a positive version and a digest in hexadecimal.\<close>

definition valid_hash :: "string \<Rightarrow> bool" where
  "valid_hash h = (length h = 64 \<and> list_all (\<lambda>c. c \<in> set ''0123456789abcdef'') h)"

definition validate_promotion :: "promotion_result \<Rightarrow> promotion_result result" where
  "validate_promotion r = (if rp_version r < 1 \<or> \<not> valid_hash (rp_public_payload_hash r)
     then Inl (ValueError ''WorkflowPromotionResult'') else Inr r)"

definition promotion_conflict :: "string \<Rightarrow> exn" where
  "promotion_conflict m = OtherException ''WorkflowPromotionConflictError'' m"

text \<open>\<open>existing\<close> and \<open>_existing_result\<close>.\<close>

definition existing_promotion :: "uuid \<Rightarrow> string \<Rightarrow> string \<Rightarrow> promotion_row \<Rightarrow> catalog_db \<Rightarrow> promotion_result result" where
  "existing_promotion task actor hash p db =
     (if wp_task_id p \<noteq> task \<or> wp_actor_user_id p \<noteq> actor \<or> wp_request_hash p \<noteq> hash
      then Inl (promotion_conflict ''Idempotency key payload mismatch'')
      else (case version_of (wp_workflow_version_id p) db of
          None \<Rightarrow> Inl (RuntimeError ''Promoted Workflow version is missing'')
        | Some v \<Rightarrow> validate_promotion \<lparr>rp_workflow_id = wp_workflow_id p, rp_workflow_version_id = wp_workflow_version_id p,
            rp_version = wv_version v, rp_created = False, rp_public_payload_hash = wv_public_payload_hash v\<rparr>))"

definition promotion_existing :: "uuid \<Rightarrow> string \<Rightarrow> string \<Rightarrow> string \<Rightarrow> catalog_db \<Rightarrow> promotion_result option result" where
  "promotion_existing task actor key hash db = (case find (\<lambda>p. wp_idempotency_key p = key) (cg_promotions db) of
       None \<Rightarrow> Inr None
     | Some p \<Rightarrow> rbind (existing_promotion task actor hash p db) (\<lambda>r. Inr (Some r)))"

definition promoted_workflow :: "usec \<Rightarrow> uuid \<Rightarrow> string \<Rightarrow> string \<Rightarrow> promotion_source \<Rightarrow> string \<Rightarrow> workflow_row" where
  "promoted_workflow now wid name description src actor =
     \<lparr>wk_id = wid, wk_name = name, wk_description = description, wk_owner_user_id = Some (t_user_id (src_task src)),
      wk_owner_project_id = Some (t_project_id (src_task src)), wk_visibility = ''SERVICE'', wk_status = Wk_ACTIVE,
      wk_latest_version = 1, wk_access_policy = JObj [(''version'', JStr ''service-v1'')],
      wk_required_permission = None, wk_audit = new_audit now actor\<rparr>"

text \<open>The new rows of a promotion; \<open>ids\<close> are the generated identifiers of the workflow and of its version.\<close>

definition promotion_rows ::
    "digests \<Rightarrow> usec \<Rightarrow> uuid \<times> uuid \<Rightarrow> promotion_source \<Rightarrow> string \<Rightarrow> string \<Rightarrow> string \<Rightarrow> string \<Rightarrow> string \<Rightarrow> string
      \<Rightarrow> version_draft \<Rightarrow> catalog_db \<Rightarrow> (promotion_result \<times> catalog_db) result" where
  "promotion_rows dg now ids src actor key hash name description policy d db =
     (let (wid, vid) = ids; v = new_version dg now vid wid 1 src actor policy d True Rv_APPROVED in
      rbind (insert_or_raise (\<lambda>w. wk_id w = wid \<or> wk_name w = name) (promotion_conflict ''Workflow name already exists'')
               (promoted_workflow now wid name description src actor) (cg_workflows db)) (\<lambda>workflows.
      rbind (insert_version v (cg_versions db)) (\<lambda>versions.
      rbind (add_workflow_steps vid 0 (pd_steps (vd_plan d)) (src_steps src)) (\<lambda>steps.
      rbind (insert_or_raise (\<lambda>p. wp_idempotency_key p = key) (promotion_conflict ''Workflow promotion conflicts with existing data'')
               \<lparr>wp_task_id = t_id (src_task src), wp_actor_user_id = actor, wp_idempotency_key = key, wp_request_hash = hash,
                wp_workflow_id = wid, wp_workflow_version_id = vid, wp_policy_version = policy\<rparr> (cg_promotions db)) (\<lambda>promotions.
        Inr (\<lparr>rp_workflow_id = wid, rp_workflow_version_id = vid, rp_version = 1, rp_created = True,
               rp_public_payload_hash = wv_public_payload_hash v\<rparr>,
             db\<lparr>cg_workflows := workflows, cg_versions := versions, cg_steps := cg_steps db @ steps, cg_promotions := promotions,
               cg_events := cg_events db @ [\<lparr>te_task_id = t_id (src_task src), te_event_type = ''workflow.promoted'',
                 te_payload = JObj [(''version'', JInt 1), (''workflow_id'', JStr (uuid_str wid)),
                   (''workflow_version_id'', JStr (uuid_str vid))]\<rparr>]\<rparr>))))))"

text \<open>\<open>create\<close>: the result of a new promotion is validated after the commit.\<close>

definition promote_workflow ::
    "digests \<Rightarrow> usec \<Rightarrow> uuid \<times> uuid \<Rightarrow> promotion_source \<Rightarrow> string \<Rightarrow> string \<Rightarrow> string \<Rightarrow> string \<Rightarrow> string \<Rightarrow> string
      \<Rightarrow> version_draft \<Rightarrow> catalog_db \<Rightarrow> promotion_result result \<times> catalog_db" where
  "promote_workflow dg now ids src actor key hash name description policy d db =
     (case atomically (\<lambda>db.
        (case find (\<lambda>p. wp_idempotency_key p = key) (cg_promotions db) of
           Some p \<Rightarrow> rbind (existing_promotion (t_id (src_task src)) actor hash p db) (\<lambda>r. Inr (r, db))
         | None \<Rightarrow> if list_ex (\<lambda>w. wk_name w = name) (cg_workflows db)
             then Inl (promotion_conflict ''Workflow name already exists'')
             else promotion_rows dg now ids src actor key hash name description policy d db)) db of
        (Inl e, db') \<Rightarrow> (Inl e, db')
      | (Inr r, db') \<Rightarrow> (validate_promotion r, db'))"

section \<open>Life cycle\<close>

text \<open>The arguments every life cycle operation takes.\<close>

record lifecycle_call =
  lc_workflow_id :: uuid
  lc_actor :: string
  lc_key :: string
  lc_hash :: string
  lc_reason :: "string option"
  lc_policy :: string

definition lifecycle_conflict :: "string \<Rightarrow> exn" where
  "lifecycle_conflict m = OtherException ''WorkflowLifecycleConflictError'' m"

definition validate_lifecycle :: "lifecycle_result \<Rightarrow> lifecycle_result result" where
  "validate_lifecycle r =
     (if (case lr_version r of None \<Rightarrow> False | Some n \<Rightarrow> n < 1)
         \<or> (case lr_public_payload_hash r of None \<Rightarrow> False | Some h \<Rightarrow> \<not> valid_hash h)
      then Inl (ValueError ''WorkflowLifecycleResult'') else Inr r)"

definition existing_result :: "lifecycle_call \<Rightarrow> lifecycle_action \<Rightarrow> action_row \<Rightarrow> lifecycle_result result" where
  "existing_result c action r =
     (if la_workflow_id r \<noteq> lc_workflow_id c \<or> la_actor_user_id r \<noteq> lc_actor c \<or> la_action r \<noteq> action \<or> la_request_hash r \<noteq> lc_hash c
      then Inl (lifecycle_conflict ''Idempotency key payload mismatch'')
      else rbind (validate_lifecycle (la_result r)) (\<lambda>x. Inr (x\<lparr>lr_applied := False\<rparr>)))"

text \<open>\<open>existing\<close>, and \<open>_locked_existing\<close> under the advisory lock of the key.\<close>

definition lifecycle_existing :: "lifecycle_call \<Rightarrow> lifecycle_action \<Rightarrow> catalog_db \<Rightarrow> lifecycle_result option result" where
  "lifecycle_existing c action db = (case find (\<lambda>r. la_idempotency_key r = lc_key c) (cg_actions db) of
       None \<Rightarrow> Inr None
     | Some r \<Rightarrow> rbind (existing_result c action r) (\<lambda>x. Inr (Some x)))"

definition locked_workflow :: "uuid \<Rightarrow> catalog_db \<Rightarrow> workflow_row result" where
  "locked_workflow wid db = (case workflow_of wid db of
       None \<Rightarrow> Inl (LookupError (''Unknown Workflow: '' @ uuid_str wid)) | Some w \<Rightarrow> Inr w)"

definition workflow_version :: "uuid \<Rightarrow> uuid \<Rightarrow> catalog_db \<Rightarrow> version_row result" where
  "workflow_version wid vid db = (case find (\<lambda>v. wv_id v = vid \<and> wv_workflow_id v = wid) (cg_versions db) of
       None \<Rightarrow> Inl (LookupError (''Unknown Workflow version: '' @ uuid_str vid)) | Some v \<Rightarrow> Inr v)"

definition new_action :: "usec \<Rightarrow> uuid \<Rightarrow> lifecycle_call \<Rightarrow> lifecycle_result \<Rightarrow> action_row" where
  "new_action now aid c res =
     \<lparr>la_id = aid, la_workflow_id = lr_workflow_id res, la_workflow_version_id = lr_workflow_version_id res,
      la_actor_user_id = lc_actor c, la_action = lr_action res, la_idempotency_key = lc_key c, la_request_hash = lc_hash c,
      la_reason = lc_reason c, la_policy_version = lc_policy c, la_result = res, la_created_at = now\<rparr>"

definition add_action :: "usec \<Rightarrow> uuid \<Rightarrow> lifecycle_call \<Rightarrow> lifecycle_result \<Rightarrow> catalog_db \<Rightarrow> catalog_db result" where
  "add_action now aid c res db =
     rbind (insert_or_raise (\<lambda>r. la_id r = aid \<or> la_idempotency_key r = lc_key c)
        (IntegrityError ''uq_agent_workflow_lifecycle_action_idem'')
        (new_action now aid c res) (cg_actions db))
       (\<lambda>rows. Inr (db\<lparr>cg_actions := rows\<rparr>))"

definition update_workflow :: "uuid \<Rightarrow> (workflow_row \<Rightarrow> workflow_row) \<Rightarrow> catalog_db \<Rightarrow> catalog_db" where
  "update_workflow wid f db = db\<lparr>cg_workflows := sql_update (\<lambda>w. wk_id w = wid) f (cg_workflows db)\<rparr>"

definition update_version :: "uuid \<Rightarrow> (version_row \<Rightarrow> version_row) \<Rightarrow> catalog_db \<Rightarrow> catalog_db" where
  "update_version vid f db = db\<lparr>cg_versions := sql_update (\<lambda>v. wv_id v = vid) f (cg_versions db)\<rparr>"

definition deactivate_versions :: "usec \<Rightarrow> string \<Rightarrow> uuid \<Rightarrow> catalog_db \<Rightarrow> catalog_db" where
  "deactivate_versions now actor wid db = db\<lparr>cg_versions := sql_update (\<lambda>v. wv_workflow_id v = wid)
     (\<lambda>v. v\<lparr>wv_active := False, wv_audit := touch_audit now actor (wv_audit v)\<rparr>) (cg_versions db)\<rparr>"

text \<open>\<open>_version_result\<close>, of the rows as they are before the commit.\<close>

definition version_result :: "workflow_row \<Rightarrow> version_row \<Rightarrow> lifecycle_action \<Rightarrow> lifecycle_result result" where
  "version_result w v action = validate_lifecycle \<lparr>lr_workflow_id = wk_id w, lr_workflow_version_id = Some (wv_id v),
     lr_version = Some (wv_version v), lr_public_payload_hash = Some (wv_public_payload_hash v), lr_action = action,
     lr_workflow_status = wk_status w, lr_review_status = Some (wv_review_status v), lr_version_active = Some (wv_active v),
     lr_applied = True\<rparr>"

text \<open>Every operation first looks for a replay, then reads the workflow under its lock.\<close>

definition lifecycle ::
    "lifecycle_call \<Rightarrow> lifecycle_action \<Rightarrow> (workflow_row \<Rightarrow> catalog_db \<Rightarrow> (lifecycle_result \<times> catalog_db) result)
      \<Rightarrow> catalog_db \<Rightarrow> lifecycle_result result \<times> catalog_db" where
  "lifecycle c action body = atomically (\<lambda>db. rbind (lifecycle_existing c action db) (\<lambda>replay. case replay of
       Some r \<Rightarrow> Inr (r, db)
     | None \<Rightarrow> rbind (locked_workflow (lc_workflow_id c) db) (\<lambda>w. body w db)))"

text \<open>The end of an operation: the result is built, stored with its action, and returned.\<close>

definition record_action_result ::
    "usec \<Rightarrow> uuid \<Rightarrow> lifecycle_call \<Rightarrow> lifecycle_result result \<Rightarrow> catalog_db \<Rightarrow> (lifecycle_result \<times> catalog_db) result" where
  "record_action_result now aid c res db = rbind res (\<lambda>r. rbind (add_action now aid c r db) (\<lambda>db'. Inr (r, db')))"

text \<open>\<open>result.model_dump(mode="json")\<close>.\<close>

fun action_text :: "lifecycle_action \<Rightarrow> string" where
  "action_text La_VERSION_CREATED = ''VERSION_CREATED''"
| "action_text La_VERSION_APPROVED = ''VERSION_APPROVED''"
| "action_text La_VERSION_REJECTED = ''VERSION_REJECTED''"
| "action_text La_VERSION_ACTIVATED = ''VERSION_ACTIVATED''"
| "action_text La_WORKFLOW_ACTIVATED = ''WORKFLOW_ACTIVATED''"
| "action_text La_WORKFLOW_DEACTIVATED = ''WORKFLOW_DEACTIVATED''"

fun review_text :: "review_status \<Rightarrow> string" where
  "review_text Rv_PENDING_REVIEW = ''PENDING_REVIEW''"
| "review_text Rv_APPROVED = ''APPROVED''"
| "review_text Rv_REJECTED = ''REJECTED''"

fun status_text :: "workflow_status \<Rightarrow> string" where
  "status_text Wk_ACTIVE = ''ACTIVE''"
| "status_text Wk_INACTIVE = ''INACTIVE''"

definition j_option :: "('a \<Rightarrow> json) \<Rightarrow> 'a option \<Rightarrow> json" where
  "j_option f x = (case x of None \<Rightarrow> JNull | Some y \<Rightarrow> f y)"

definition result_json :: "lifecycle_result \<Rightarrow> json" where
  "result_json r = JObj [(''action'', JStr (action_text (lr_action r))), (''applied'', JBool (lr_applied r)),
     (''public_payload_hash'', j_option JStr (lr_public_payload_hash r)),
     (''review_status'', j_option (JStr \<circ> review_text) (lr_review_status r)), (''version'', j_option JInt (lr_version r)),
     (''version_active'', j_option JBool (lr_version_active r)), (''workflow_id'', JStr (uuid_str (lr_workflow_id r))),
     (''workflow_status'', JStr (status_text (lr_workflow_status r))),
     (''workflow_version_id'', j_option (JStr \<circ> uuid_str) (lr_workflow_version_id r))]"

definition create_version_body ::
    "digests \<Rightarrow> usec \<Rightarrow> uuid \<times> uuid \<Rightarrow> promotion_source \<Rightarrow> version_draft \<Rightarrow> lifecycle_call
      \<Rightarrow> workflow_row \<Rightarrow> catalog_db \<Rightarrow> (lifecycle_result \<times> catalog_db) result" where
  "create_version_body dg now ids src d c w db =
     (let (vid, aid) = ids; number = wk_latest_version w + 1;
          v = new_version dg now vid (wk_id w) number src (lc_actor c) (lc_policy c) d False Rv_PENDING_REVIEW in
      rbind (insert_version v (cg_versions db)) (\<lambda>versions.
      rbind (add_workflow_steps vid 0 (pd_steps (vd_plan d)) (src_steps src)) (\<lambda>steps.
      rbind (record_action_result now aid c (version_result w v La_VERSION_CREATED)
               (update_workflow (wk_id w) (\<lambda>x. x\<lparr>wk_latest_version := number, wk_audit := touch_audit now (lc_actor c) (wk_audit x)\<rparr>)
                 (db\<lparr>cg_versions := versions, cg_steps := cg_steps db @ steps\<rparr>))) (\<lambda>(r, db').
        Inr (r, db'\<lparr>cg_events := cg_events db' @ [\<lparr>te_task_id = t_id (src_task src),
               te_event_type = ''workflow.version_created'', te_payload = result_json r\<rparr>]\<rparr>)))))"

definition create_version ::
    "digests \<Rightarrow> usec \<Rightarrow> uuid \<times> uuid \<Rightarrow> promotion_source \<Rightarrow> version_draft \<Rightarrow> lifecycle_call \<Rightarrow> catalog_db
      \<Rightarrow> lifecycle_result result \<times> catalog_db" where
  "create_version dg now ids src d c = lifecycle c La_VERSION_CREATED (create_version_body dg now ids src d c)"

text \<open>
  \<open>review_version\<close>; an approval deactivates the versions of the workflow and activates this one. The row
  objects of the session follow the bulk update, so the later assignment \<open>active = True\<close> is a change.
\<close>

definition reviewed :: "usec \<Rightarrow> string \<Rightarrow> string option \<Rightarrow> bool \<Rightarrow> version_row \<Rightarrow> version_row" where
  "reviewed now actor why approve v = v\<lparr>wv_review_status := (if approve then Rv_APPROVED else Rv_REJECTED),
     wv_reviewed_by := Some actor, wv_reviewed_at := Some now, wv_review_reason := why,
     wv_audit := touch_audit now actor (wv_audit v)\<rparr>"

definition activate :: "usec \<Rightarrow> string \<Rightarrow> uuid \<Rightarrow> uuid \<Rightarrow> catalog_db \<Rightarrow> catalog_db" where
  "activate now actor wid vid db =
     update_workflow wid (\<lambda>w. w\<lparr>wk_audit := touch_audit now actor (wk_audit w)\<rparr>)
       (update_version vid (\<lambda>v. v\<lparr>wv_active := True, wv_audit := touch_audit now actor (wv_audit v)\<rparr>)
         (deactivate_versions now actor wid db))"

definition review_version_body ::
    "usec \<Rightarrow> uuid \<Rightarrow> uuid \<Rightarrow> bool \<Rightarrow> lifecycle_call \<Rightarrow> workflow_row \<Rightarrow> catalog_db \<Rightarrow> (lifecycle_result \<times> catalog_db) result" where
  "review_version_body now aid vid approve c w db = rbind (workflow_version (lc_workflow_id c) vid db) (\<lambda>v.
     if wv_review_status v \<noteq> Rv_PENDING_REVIEW
     then Inl (lifecycle_conflict ''Only PENDING_REVIEW versions can be reviewed'')
     else (let db1 = update_version vid (reviewed now (lc_actor c) (lc_reason c) approve) db;
               db2 = (if approve then activate now (lc_actor c) (wk_id w) vid db1 else db1);
               v' = (reviewed now (lc_actor c) (lc_reason c) approve v)\<lparr>wv_active := approve \<or> wv_active v\<rparr>
           in record_action_result now aid c
                (version_result w v' (if approve then La_VERSION_APPROVED else La_VERSION_REJECTED)) db2))"

definition review_version ::
    "usec \<Rightarrow> uuid \<Rightarrow> uuid \<Rightarrow> bool \<Rightarrow> lifecycle_call \<Rightarrow> catalog_db \<Rightarrow> lifecycle_result result \<times> catalog_db" where
  "review_version now aid vid approve c =
     lifecycle c (if approve then La_VERSION_APPROVED else La_VERSION_REJECTED) (review_version_body now aid vid approve c)"

definition activate_version_body ::
    "usec \<Rightarrow> uuid \<Rightarrow> uuid \<Rightarrow> lifecycle_call \<Rightarrow> workflow_row \<Rightarrow> catalog_db \<Rightarrow> (lifecycle_result \<times> catalog_db) result" where
  "activate_version_body now aid vid c w db = rbind (workflow_version (lc_workflow_id c) vid db) (\<lambda>v.
     if wv_review_status v \<noteq> Rv_APPROVED then Inl (lifecycle_conflict ''Only APPROVED versions can be activated'')
     else record_action_result now aid c (version_result w (v\<lparr>wv_active := True\<rparr>) La_VERSION_ACTIVATED)
            (activate now (lc_actor c) (wk_id w) vid db))"

definition activate_version ::
    "usec \<Rightarrow> uuid \<Rightarrow> uuid \<Rightarrow> lifecycle_call \<Rightarrow> catalog_db \<Rightarrow> lifecycle_result result \<times> catalog_db" where
  "activate_version now aid vid c = lifecycle c La_VERSION_ACTIVATED (activate_version_body now aid vid c)"

definition update_status_body ::
    "usec \<Rightarrow> uuid \<Rightarrow> workflow_status \<Rightarrow> lifecycle_call \<Rightarrow> workflow_row \<Rightarrow> catalog_db \<Rightarrow> (lifecycle_result \<times> catalog_db) result" where
  "update_status_body now aid st c w db = record_action_result now aid c
     (validate_lifecycle \<lparr>lr_workflow_id = wk_id w, lr_workflow_version_id = None, lr_version = None, lr_public_payload_hash = None,
        lr_action = (if st = Wk_ACTIVE then La_WORKFLOW_ACTIVATED else La_WORKFLOW_DEACTIVATED), lr_workflow_status = st,
        lr_review_status = None, lr_version_active = None, lr_applied = True\<rparr>)
     (update_workflow (wk_id w) (\<lambda>x. x\<lparr>wk_status := st, wk_audit := touch_audit now (lc_actor c) (wk_audit x)\<rparr>) db)"

definition update_workflow_status ::
    "usec \<Rightarrow> uuid \<Rightarrow> workflow_status \<Rightarrow> lifecycle_call \<Rightarrow> catalog_db \<Rightarrow> lifecycle_result result \<times> catalog_db" where
  "update_workflow_status now aid st c =
     lifecycle c (if st = Wk_ACTIVE then La_WORKFLOW_ACTIVATED else La_WORKFLOW_DEACTIVATED) (update_status_body now aid st c)"

section \<open>Queries\<close>

definition overview :: "uuid \<Rightarrow> catalog_db \<Rightarrow> (workflow_row \<times> (uuid \<times> int) option) result" where
  "overview wid db = rbind (locked_workflow wid db) (\<lambda>w.
     Inr (w, map_option (\<lambda>v. (wv_id v, wv_version v)) (find (\<lambda>v. wv_workflow_id v = wid \<and> wv_active v) (cg_versions db))))"

definition versions_page :: "uuid \<Rightarrow> int option \<Rightarrow> nat \<Rightarrow> catalog_db \<Rightarrow> version_row list \<times> int option" where
  "versions_page wid before limit db =
     (let rows = take (limit + 1) (sort_key (\<lambda>v. - wv_version v) (filter (\<lambda>v. wv_workflow_id v = wid
            \<and> (case before of None \<Rightarrow> True | Some b \<Rightarrow> wv_version v < b)) (cg_versions db)));
          visible = take limit rows
      in (visible, if limit < length rows \<and> visible \<noteq> [] then Some (wv_version (last visible)) else None))"

definition version_detail :: "uuid \<Rightarrow> uuid \<Rightarrow> catalog_db \<Rightarrow> (version_row \<times> workflow_step_row list) result" where
  "version_detail wid vid db = rbind (workflow_version wid vid db) (\<lambda>v.
     Inr (v, sort_key wt_sequence (filter (\<lambda>s. wt_version_id s = vid) (cg_steps db))))"

definition actions_page :: "uuid \<Rightarrow> (usec \<times> uuid) option \<Rightarrow> nat \<Rightarrow> catalog_db \<Rightarrow> action_row list \<times> (usec \<times> uuid) option" where
  "actions_page wid before limit db =
     (let rows = take (limit + 1) (sort_key (\<lambda>a. (- la_created_at a, - int (la_id a))) (filter (\<lambda>a. la_workflow_id a = wid
            \<and> (case before of None \<Rightarrow> True
               | Some (at, u) \<Rightarrow> la_created_at a < at \<or> la_created_at a = at \<and> la_id a < u)) (cg_actions db)));
          visible = take limit rows
      in (visible, if limit < length rows \<and> visible \<noteq> [] then Some (la_created_at (last visible), la_id (last visible)) else None))"

text \<open>The versions that planning may use.\<close>

definition served :: "catalog_db \<Rightarrow> version_row \<Rightarrow> bool" where
  "served db v = (wv_active v \<and> wv_review_status v = Rv_APPROVED
     \<and> (case workflow_of (wv_workflow_id v) db of None \<Rightarrow> False | Some w \<Rightarrow> wk_status w = Wk_ACTIVE \<and> wk_visibility w = ''SERVICE''))"

text \<open>\<open>candidates\<close>: the nearest versions by the cosine distance, which is a parameter; scores are left out.\<close>

definition catalog_candidates :: "(string list \<Rightarrow> int) \<Rightarrow> nat \<Rightarrow> catalog_db \<Rightarrow> version_row list" where
  "catalog_candidates distance limit db = take limit (sort_key (\<lambda>v. distance (case wv_embedding v of None \<Rightarrow> [] | Some e \<Rightarrow> e))
     (filter (\<lambda>v. served db v \<and> wv_embedding v \<noteq> None) (cg_versions db)))"

definition catalog_version :: "uuid \<Rightarrow> catalog_db \<Rightarrow> version_row result" where
  "catalog_version vid db = (case find (\<lambda>v. wv_id v = vid \<and> served db v) (cg_versions db) of
       None \<Rightarrow> Inl (LookupError (''Unknown Workflow version: '' @ uuid_str vid)) | Some v \<Rightarrow> Inr v)"

end
