(* ===== verification/Workflow_Catalog_Props.thy ===== *)
theory Workflow_Catalog_Props
  imports Workflow_Catalog
begin

text \<open>
  The invariant of the workflow catalog, its step relation, and what follows from them: version numbers
  without gaps, at most one active version which is approved, content that never changes, an audit record
  for every approval, and life cycle calls that can be repeated.
\<close>

section \<open>Invariant\<close>

abbreviation version_key :: "version_row \<Rightarrow> uuid \<times> uuid \<times> int" where
  "version_key v \<equiv> (wv_id v, wv_workflow_id v, wv_version v)"

abbreviation latest_key :: "workflow_row \<Rightarrow> uuid \<times> int" where
  "latest_key w \<equiv> (wk_id w, wk_latest_version w)"

text \<open>Identifiers are unique, and the versions of a workflow are numbered from 1 to its latest version.\<close>

definition numbering_ok :: "(uuid \<times> uuid \<times> int) list \<Rightarrow> (uuid \<times> int) list \<Rightarrow> bool" where
  "numbering_ok ks ls = (distinct (map fst ks) \<and> distinct (map snd ks) \<and> distinct (map fst ls)
     \<and> (\<forall>(i, w, n) \<in> set ks. \<exists>l. (w, l) \<in> set ls \<and> 1 \<le> n \<and> n \<le> l)
     \<and> (\<forall>(w, l) \<in> set ls. 1 \<le> l \<and> (\<forall>n. 1 \<le> n \<and> n \<le> l \<longrightarrow> (w, n) \<in> snd ` set ks)))"

definition active_ok :: "version_row list \<Rightarrow> bool" where
  "active_ok vs = ((\<forall>v \<in> set vs. wv_active v \<longrightarrow> wv_review_status v = Rv_APPROVED)
     \<and> (\<forall>v \<in> set vs. \<forall>v' \<in> set vs. wv_active v \<and> wv_active v' \<and> wv_workflow_id v = wv_workflow_id v' \<longrightarrow> wv_id v = wv_id v'))"

text \<open>The approval of a version in the log of actions.\<close>

definition approved_in :: "action_row list \<Rightarrow> version_row \<Rightarrow> bool" where
  "approved_in as v = (\<exists>a \<in> set as. la_action a = La_VERSION_APPROVED \<and> la_workflow_version_id a = Some (wv_id v)
     \<and> la_workflow_id a = wv_workflow_id v)"

definition approvals_ok :: "version_row list \<Rightarrow> action_row list \<Rightarrow> bool" where
  "approvals_ok vs as = (\<forall>v \<in> set vs. wv_review_status v = Rv_APPROVED \<longrightarrow> wv_version v = 1 \<or> approved_in as v)"

definition catalog_inv :: "catalog_db \<Rightarrow> bool" where
  "catalog_inv db = (numbering_ok (map version_key (cg_versions db)) (map latest_key (cg_workflows db))
     \<and> distinct (map wk_name (cg_workflows db)) \<and> distinct (map la_idempotency_key (cg_actions db))
     \<and> distinct (map wp_idempotency_key (cg_promotions db))
     \<and> active_ok (cg_versions db) \<and> approvals_ok (cg_versions db) (cg_actions db))"

lemma empty_catalog_inv: "catalog_inv empty_catalog"
  by (simp add: catalog_inv_def empty_catalog_def numbering_ok_def active_ok_def approvals_ok_def)

section \<open>Shape of the operations\<close>

lemma atomically_cases:
  assumes "atomically f s = (r, s')"
  obtains (raised) e where "f s = Inl e" "r = Inl e" "s' = s" | (returned) x where "f s = Inr (x, s')" "r = Inr x"
  using assms by (auto simp: atomically_def split: sum.splits)

lemma insert_or_raise_Inr: "insert_or_raise c e r rows = Inr rows' \<longleftrightarrow> \<not> list_ex c rows \<and> rows' = rows @ [r]"
  by (auto simp: insert_or_raise_def)

lemma lifecycle_cases:
  assumes "lifecycle c action body db = (r, db')"
  obtains (raised) e where "r = Inl e" "db' = db"
  | (replayed) row x where "find (\<lambda>a. la_idempotency_key a = lc_key c) (cg_actions db) = Some row"
      "existing_result c action row = Inr x" "r = Inr x" "db' = db"
  | (applied) w x where "find (\<lambda>a. la_idempotency_key a = lc_key c) (cg_actions db) = None"
      "workflow_of (lc_workflow_id c) db = Some w" "body w db = Inr (x, db')" "r = Inr x"
  using assms unfolding lifecycle_def
  by (elim atomically_cases)
     (auto simp: lifecycle_existing_def locked_workflow_def exn_simps split: option.splits)

lemma record_action_result_Inr:
  "record_action_result now aid c res db = Inr (r, db') \<longleftrightarrow> res = Inr r
     \<and> \<not> list_ex (\<lambda>a. la_id a = aid \<or> la_idempotency_key a = lc_key c) (cg_actions db)
     \<and> db' = db\<lparr>cg_actions := cg_actions db @ [new_action now aid c r]\<rparr>"
  by (auto simp: record_action_result_def add_action_def exn_simps insert_or_raise_Inr)

lemma list_ex_key: "\<not> list_ex p rows \<Longrightarrow> (\<And>r. k r = v \<Longrightarrow> p r) \<Longrightarrow> v \<notin> set (map k rows)"
  by (auto simp: list_ex_iff)

lemma validate_lifecycle_Inr: "validate_lifecycle r = Inr x \<Longrightarrow> x = r"
  by (simp add: validate_lifecycle_def split: if_splits)

lemma workflow_of_Some: "workflow_of u db = Some w \<Longrightarrow> w \<in> set (cg_workflows db) \<and> wk_id w = u"
  unfolding workflow_of_def by (auto dest: find_SomeD)

lemma workflow_version_Inr:
  "workflow_version wid vid db = Inr v \<Longrightarrow> v \<in> set (cg_versions db) \<and> wv_id v = vid \<and> wv_workflow_id v = wid"
  by (auto simp: workflow_version_def split: option.splits dest: find_SomeD)

lemma sql_update_map: "(\<And>r. k (f r) = k r) \<Longrightarrow> map k (sql_update p f rows) = map k rows"
  by (rule map_sql_update_key)

text \<open>What an activation makes of the versions.\<close>

definition activated :: "usec \<Rightarrow> string \<Rightarrow> uuid \<Rightarrow> uuid \<Rightarrow> version_row \<Rightarrow> version_row" where
  "activated now actor wid vid v =
     (let v1 = (if wv_workflow_id v = wid then v\<lparr>wv_active := False, wv_audit := touch_audit now actor (wv_audit v)\<rparr> else v)
      in if wv_id v1 = vid then v1\<lparr>wv_active := True, wv_audit := touch_audit now actor (wv_audit v1)\<rparr> else v1)"

lemma activate_tables:
  "cg_versions (activate now actor wid vid db) = map (activated now actor wid vid) (cg_versions db)"
  "map latest_key (cg_workflows (activate now actor wid vid db)) = map latest_key (cg_workflows db)"
  "map wk_name (cg_workflows (activate now actor wid vid db)) = map wk_name (cg_workflows db)"
  "cg_actions (activate now actor wid vid db) = cg_actions db" "cg_promotions (activate now actor wid vid db) = cg_promotions db"
  by (simp_all add: activate_def update_workflow_def update_version_def deactivate_versions_def sql_update_def activated_def Let_def)

lemma activated_fields:
  "wv_id (activated now actor wid vid v) = wv_id v" "wv_workflow_id (activated now actor wid vid v) = wv_workflow_id v"
  "wv_version (activated now actor wid vid v) = wv_version v" "wv_review_status (activated now actor wid vid v) = wv_review_status v"
  "wv_active (activated now actor wid vid v) \<longleftrightarrow> wv_id v = vid \<or> wv_active v \<and> wv_workflow_id v \<noteq> wid"
  by (auto simp: activated_def Let_def)

lemma activated_ok:
  assumes "active_ok vs" "v \<in> set vs" "wv_id v = vid" "wv_workflow_id v = wid" "wv_review_status v = Rv_APPROVED"
    and "distinct (map wv_id vs)"
  shows "active_ok (map (activated now actor wid vid) vs)"
proof -
  have same: "u = v" if "u \<in> set vs" "wv_id u = vid" for u using that assms(2,3,6) by (metis key_unique)
  let ?g = "activated now actor wid vid"
  have "wv_review_status (?g u) = Rv_APPROVED" if "u \<in> set vs" "wv_active (?g u)" for u
    using that assms(1,5) same [of u] unfolding active_ok_def activated_fields by blast
  moreover have "wv_id (?g u) = wv_id (?g u')"
    if "u \<in> set vs" "u' \<in> set vs" "wv_active (?g u)" "wv_active (?g u')" "wv_workflow_id (?g u) = wv_workflow_id (?g u')" for u u'
    using that assms(1,4) same [of u] same [of u'] unfolding active_ok_def activated_fields by metis
  ultimately show ?thesis unfolding active_ok_def set_map by blast
qed

section \<open>The operations keep the invariant\<close>

lemma numbering_okI:
  assumes "distinct (map fst ks) \<and> distinct (map snd ks) \<and> distinct (map fst ls)"
    and "\<And>i w n. (i, w, n) \<in> set ks \<Longrightarrow> \<exists>l. (w, l) \<in> set ls \<and> 1 \<le> n \<and> n \<le> l"
    and "\<And>w l. (w, l) \<in> set ls \<Longrightarrow> 1 \<le> l \<and> (\<forall>n. 1 \<le> n \<and> n \<le> l \<longrightarrow> (w, n) \<in> snd ` set ks)"
  shows "numbering_ok ks ls"
  using assms unfolding numbering_ok_def by blast

lemma numbering_okD:
  assumes "numbering_ok ks ls"
  shows "distinct (map fst ks)" "distinct (map snd ks)" "distinct (map fst ls)"
    and "(i, w, n) \<in> set ks \<Longrightarrow> \<exists>l. (w, l) \<in> set ls \<and> 1 \<le> n \<and> n \<le> l"
    and "(w, l) \<in> set ls \<Longrightarrow> 1 \<le> l \<and> (\<forall>n. 1 \<le> n \<and> n \<le> l \<longrightarrow> (w, n) \<in> snd ` set ks)"
  using assms unfolding numbering_ok_def by fast+

lemma numbering_new_version:
  assumes "numbering_ok ks ls" "(wid, l) \<in> set ls" "vid \<notin> set (map fst ks)" "ls' = map (\<lambda>(w, n). (w, if w = wid then l + 1 else n)) ls"
  shows "numbering_ok (ks @ [(vid, wid, l + 1)]) ls'"
proof -
  have uniq: "l' = l" if "(wid, l') \<in> set ls" for l'
    using assms(1,2) that unfolding numbering_ok_def by (metis eq_key_imp_eq_value)
  have bounds: "n \<le> l" if "(i, wid, n) \<in> set ks" for i n
    using assms(1) that uniq unfolding numbering_ok_def by fastforce
  have fst': "map fst ls' = map fst ls" unfolding assms(4) by (induction ls) auto
  have mem: "(w, n) \<in> set ls' \<longleftrightarrow> (if w = wid then n = l + 1 else (w, n) \<in> set ls)" for w n
    using assms(2) unfolding assms(4) by (auto simp: image_iff split: if_splits intro: bexI [of _ "(w, l)"] bexI [of _ "(w, n)"])
  have fresh: "(wid, l + 1) \<notin> set (map snd ks)" using bounds by fastforce
  have A: "\<exists>k. (w, k) \<in> set ls' \<and> 1 \<le> n \<and> n \<le> k" if "(i, w, n) \<in> set (ks @ [(vid, wid, l + 1)])" for i w n
  proof (cases "w = wid")
    case True
    have "1 \<le> l" using assms(1,2) unfolding numbering_ok_def by fastforce
    then have "1 \<le> n \<and> n \<le> l + 1" using that True bounds assms(1) unfolding numbering_ok_def by fastforce
    then show ?thesis using mem True by auto
  next
    case False
    then show ?thesis using that mem assms(1) unfolding numbering_ok_def by fastforce
  qed
  have B: "1 \<le> k \<and> (\<forall>n. 1 \<le> n \<and> n \<le> k \<longrightarrow> (w, n) \<in> snd ` set (ks @ [(vid, wid, l + 1)]))" if "(w, k) \<in> set ls'" for w k
  proof (cases "w = wid")
    case True
    have "1 \<le> l \<and> (\<forall>n. 1 \<le> n \<and> n \<le> l \<longrightarrow> (wid, n) \<in> snd ` set ks)" using assms(1,2) unfolding numbering_ok_def by fastforce
    moreover have "n \<le> l \<or> n = l + 1" if "n \<le> l + 1" for n using that by linarith
    ultimately show ?thesis using that mem True by auto
  next
    case False
    then have "(w, k) \<in> set ls" using that mem by simp
    then have "1 \<le> k \<and> (\<forall>n. 1 \<le> n \<and> n \<le> k \<longrightarrow> (w, n) \<in> snd ` set ks)" using assms(1) unfolding numbering_ok_def by fast
    then show ?thesis by auto
  qed
  have "distinct (map fst (ks @ [(vid, wid, l + 1)])) \<and> distinct (map snd (ks @ [(vid, wid, l + 1)])) \<and> distinct (map fst ls')"
    using assms(1,3) fst' fresh unfolding numbering_ok_def by simp
  then show ?thesis by (rule numbering_okI) (fact A, fact B)
qed

lemma numbering_new_workflow:
  assumes "numbering_ok ks ls" "wid \<notin> set (map fst ls)" "vid \<notin> set (map fst ks)"
  shows "numbering_ok (ks @ [(vid, wid, 1)]) (ls @ [(wid, 1)])"
proof -
  have "(wid, 1) \<notin> set (map snd ks)" using numbering_okD(4) [OF assms(1)] assms(2) by force
  then have "distinct (map fst (ks @ [(vid, wid, 1)])) \<and> distinct (map snd (ks @ [(vid, wid, 1)])) \<and> distinct (map fst (ls @ [(wid, 1 :: int)]))"
    using assms unfolding numbering_ok_def by simp
  moreover have "\<exists>k. (w, k) \<in> set (ls @ [(wid, 1)]) \<and> 1 \<le> n \<and> n \<le> k" if "(i, w, n) \<in> set (ks @ [(vid, wid, 1)])" for i w n
    using that assms(1) unfolding numbering_ok_def by fastforce
  moreover have "1 \<le> k \<and> (\<forall>n. 1 \<le> n \<and> n \<le> k \<longrightarrow> (w, n) \<in> snd ` set (ks @ [(vid, wid, 1)]))" if "(w, k) \<in> set (ls @ [(wid, 1)])" for w k
    using that assms(1) unfolding numbering_ok_def by force
  ultimately show ?thesis by (rule numbering_okI)
qed

lemma numbering_distinct: "numbering_ok (map version_key vs) ls \<Longrightarrow> distinct (map wv_id vs)"
  by (simp add: numbering_ok_def comp_def)

lemma approvals_mono:
  "approvals_ok vs as \<Longrightarrow> approvals_ok vs (as @ bs)"
  unfolding approvals_ok_def approved_in_def by fastforce

lemma approvals_map:
  assumes "approvals_ok vs as" "\<And>v. version_key (f v) = version_key v" "\<And>v. wv_review_status (f v) = wv_review_status v"
  shows "approvals_ok (map f vs) as"
  using assms unfolding approvals_ok_def approved_in_def by fastforce

lemma insert_version_Inr:
  "insert_version v rows = Inr rows' \<longleftrightarrow> map_option length (wv_embedding v) = Some 1024 \<and> rows' = rows @ [v]
     \<and> wv_id v \<notin> set (map wv_id rows) \<and> (wv_workflow_id v, wv_version v) \<notin> set (map (\<lambda>r. (wv_workflow_id r, wv_version r)) rows)"
  by (auto simp: insert_version_def insert_or_raise_Inr list_ex_iff image_iff)

lemma new_version_fields [simp]:
  "wv_id (new_version dg now vid wid n src actor policy d active review) = vid"
  "wv_workflow_id (new_version dg now vid wid n src actor policy d active review) = wid"
  "wv_version (new_version dg now vid wid n src actor policy d active review) = n"
  "wv_active (new_version dg now vid wid n src actor policy d active review) = active"
  "wv_review_status (new_version dg now vid wid n src actor policy d active review) = review"
  by (simp_all add: new_version_def)

lemma active_new:
  assumes "active_ok vs" "wv_active v \<Longrightarrow> wv_review_status v = Rv_APPROVED"
    and "\<And>u. u \<in> set vs \<Longrightarrow> wv_active v \<Longrightarrow> wv_workflow_id u \<noteq> wv_workflow_id v"
  shows "active_ok (vs @ [v])"
proof -
  have "wv_id u = wv_id u'" if "u \<in> set (vs @ [v])" "u' \<in> set (vs @ [v])"
      and active: "wv_active u" "wv_active u'" "wv_workflow_id u = wv_workflow_id u'" for u u'
  proof -
    have "(u \<in> set vs \<or> u = v) \<and> (u' \<in> set vs \<or> u' = v)" using that(1,2) by auto
    then show ?thesis using assms(1) assms(3) [of u] assms(3) [of u'] active unfolding active_ok_def by metis
  qed
  moreover have "wv_review_status u = Rv_APPROVED" if "u \<in> set (vs @ [v])" "wv_active u" for u
    using that assms(1,2) unfolding active_ok_def by auto
  ultimately show ?thesis unfolding active_ok_def by blast
qed

lemma promotion_rows_inv:
  assumes "catalog_inv db" "promotion_rows dg now ids src actor key hash name description policy d db = Inr (r, db')"
  shows "catalog_inv db'"
proof -
  obtain wid vid where ids: "ids = (wid, vid)" by (cases ids)
  define v where "v = new_version dg now vid wid 1 src actor policy d True Rv_APPROVED"
  define w where "w = promoted_workflow now wid name description src actor"
  obtain p where db': "cg_workflows db' = cg_workflows db @ [w]" "cg_versions db' = cg_versions db @ [v]"
      "cg_promotions db' = cg_promotions db @ [p]" "wp_idempotency_key p = key"
      "cg_actions db' = cg_actions db" "vid \<notin> set (map wv_id (cg_versions db))"
      and free: "\<not> list_ex (\<lambda>w. wk_id w = wid \<or> wk_name w = name) (cg_workflows db)"
      "\<not> list_ex (\<lambda>p. wp_idempotency_key p = key) (cg_promotions db)"
    using assms(2) unfolding ids promotion_rows_def
    by (auto simp: exn_simps Let_def insert_or_raise_Inr v_def w_def insert_version_Inr)
  have new: "wid \<notin> set (map wk_id (cg_workflows db))" "name \<notin> set (map wk_name (cg_workflows db))"
      "key \<notin> set (map wp_idempotency_key (cg_promotions db))"
    by (rule list_ex_key [OF free(1)], simp)+ (rule list_ex_key [OF free(2)], simp)
  have w: "wk_id w = wid" "wk_latest_version w = 1" "wk_name w = name" by (simp_all add: w_def promoted_workflow_def)
  have num: "numbering_ok (map version_key (cg_versions db)) (map latest_key (cg_workflows db))" and act: "active_ok (cg_versions db)"
    using assms(1) by (simp_all add: catalog_inv_def)
  have "numbering_ok (map version_key (cg_versions db')) (map latest_key (cg_workflows db'))"
    using numbering_new_workflow [OF num, of wid vid] db'(6) new(1) w by (simp add: db'(1,2) v_def comp_def)
  moreover have other: "wv_workflow_id u \<noteq> wid" if "u \<in> set (cg_versions db)" for u
    using numbering_okD(4) [OF num, of "wv_id u" "wv_workflow_id u" "wv_version u"] that new(1) by force
  then have "active_ok (cg_versions db')" unfolding db'(2) v_def by (intro active_new [OF act]) simp_all
  moreover have "approvals_ok (cg_versions db') (cg_actions db')"
    using assms(1) by (simp add: catalog_inv_def approvals_ok_def db'(2,5) v_def)
  ultimately show ?thesis using assms(1) db'(3-5) new(2,3) w by (simp add: catalog_inv_def db'(1))
qed

lemma promote_workflow_inv:
  assumes "catalog_inv db"
  shows "catalog_inv (snd (promote_workflow dg now ids src actor key hash name description policy d db))"
  using assms promotion_rows_inv
  by (auto simp: promote_workflow_def atomically_def exn_simps split: option.splits sum.splits prod.splits if_splits)

text \<open>An operation of the life cycle keeps the invariant when its body does.\<close>

lemma lifecycle_inv:
  assumes "catalog_inv db"
    and "\<And>w x db'. workflow_of (lc_workflow_id c) db = Some w \<Longrightarrow> body w db = Inr (x, db') \<Longrightarrow> catalog_inv db'"
  shows "catalog_inv (snd (lifecycle c action body db))"
proof -
  obtain r db' where l: "lifecycle c action body db = (r, db')" by (cases "lifecycle c action body db")
  then show ?thesis by (rule lifecycle_cases) (use assms l in auto)
qed

lemma catalog_inv_tables:
  assumes "catalog_inv db" "map version_key (cg_versions db') = map version_key (cg_versions db)"
    and "map latest_key (cg_workflows db') = map latest_key (cg_workflows db)"
    and "map wk_name (cg_workflows db') = map wk_name (cg_workflows db)" "cg_promotions db' = cg_promotions db"
    and "distinct (map la_idempotency_key (cg_actions db'))" "active_ok (cg_versions db')"
    and "approvals_ok (cg_versions db') (cg_actions db')"
  shows "catalog_inv db'"
  using assms by (simp add: catalog_inv_def)

lemma create_version_inv:
  assumes "catalog_inv db"
  shows "catalog_inv (snd (create_version dg now ids src d c db))"
  unfolding create_version_def
proof (rule lifecycle_inv [OF assms])
  fix w x db' assume w: "workflow_of (lc_workflow_id c) db = Some w" and "create_version_body dg now ids src d c w db = Inr (x, db')"
  then obtain vid aid v x' where ids: "ids = (vid, aid)"
      and v: "v = new_version dg now vid (wk_id w) (wk_latest_version w + 1) src (lc_actor c) (lc_policy c) d False Rv_PENDING_REVIEW"
      and fresh: "vid \<notin> set (map wv_id (cg_versions db))" "\<not> list_ex (\<lambda>a. la_id a = aid \<or> la_idempotency_key a = lc_key c) (cg_actions db)"
      and db': "cg_versions db' = cg_versions db @ [v]" "cg_promotions db' = cg_promotions db"
        "cg_workflows db' = sql_update (\<lambda>y. wk_id y = wk_id w)
           (\<lambda>y. y\<lparr>wk_latest_version := wk_latest_version w + 1, wk_audit := touch_audit now (lc_actor c) (wk_audit y)\<rparr>) (cg_workflows db)"
        "cg_actions db' = cg_actions db @ [new_action now aid c x']"
    unfolding create_version_body_def
    by (cases ids) (auto simp: exn_simps Let_def insert_version_Inr update_workflow_def record_action_result_Inr)
  have key: "lc_key c \<notin> set (map la_idempotency_key (cg_actions db))" by (rule list_ex_key [OF fresh(2)]) simp
  have num: "numbering_ok (map version_key (cg_versions db)) (map latest_key (cg_workflows db))" using assms by (simp add: catalog_inv_def)
  have latest: "map latest_key (cg_workflows db') =
      map (\<lambda>(u, n). (u, if u = wk_id w then wk_latest_version w + 1 else n)) (map latest_key (cg_workflows db))"
    unfolding db'(3) sql_update_def by simp
  have "latest_key w \<in> set (map latest_key (cg_workflows db))"
    unfolding set_map using workflow_of_Some [OF w] by (intro imageI) simp
  then have "numbering_ok (map version_key (cg_versions db')) (map latest_key (cg_workflows db'))"
    using numbering_new_version [OF num _ _ latest, of vid] fresh(1) by (simp add: db'(1) v comp_def)
  moreover have "map wk_name (cg_workflows db') = map wk_name (cg_workflows db)" unfolding db'(3) by (rule sql_update_map) simp
  moreover have "active_ok (cg_versions db')" unfolding db'(1) v using assms by (intro active_new) (simp_all add: catalog_inv_def)
  moreover have "approvals_ok (cg_versions db') (cg_actions db')"
    using assms approvals_mono [of "cg_versions db" "cg_actions db" "[new_action now aid c x']"] by (simp add: catalog_inv_def approvals_ok_def db'(1,4) v)
  ultimately show "catalog_inv db'" using assms key by (simp add: catalog_inv_def db'(2,4) new_action_def)
qed

lemma update_workflow_tables:
  "cg_versions (update_workflow wid f db) = cg_versions db" "cg_actions (update_workflow wid f db) = cg_actions db"
  "cg_promotions (update_workflow wid f db) = cg_promotions db"
  "cg_workflows (update_workflow wid f db) = sql_update (\<lambda>w. wk_id w = wid) f (cg_workflows db)"
  by (simp_all add: update_workflow_def)

lemma update_version_tables:
  "cg_versions (update_version vid f db) = sql_update (\<lambda>v. wv_id v = vid) f (cg_versions db)"
  "cg_actions (update_version vid f db) = cg_actions db" "cg_promotions (update_version vid f db) = cg_promotions db"
  "cg_workflows (update_version vid f db) = cg_workflows db"
  by (simp_all add: update_version_def)

lemma update_status_inv:
  assumes "catalog_inv db"
  shows "catalog_inv (snd (update_workflow_status now aid st c db))"
  unfolding update_workflow_status_def
proof (rule lifecycle_inv [OF assms])
  fix w x db' assume "update_status_body now aid st c w db = Inr (x, db')"
  note r = this [unfolded update_status_body_def record_action_result_Inr update_workflow_tables]
  have "lc_key c \<notin> set (map la_idempotency_key (cg_actions db))" by (rule list_ex_key [OF conjunct1 [OF conjunct2 [OF r]]]) simp
  then show "catalog_inv db'"
    by (intro catalog_inv_tables [OF assms])
       (use assms r in \<open>simp_all add: update_workflow_tables sql_update_map catalog_inv_def approvals_mono new_action_def\<close>)
qed

lemma catalog_inv_distinct: "catalog_inv db \<Longrightarrow> distinct (map wv_id (cg_versions db))"
  unfolding catalog_inv_def using numbering_distinct by blast

lemma active_approved:
  assumes "catalog_inv db" "v \<in> set (cg_versions db)" "wv_active v"
  shows "wv_review_status v = Rv_APPROVED"
  using assms unfolding catalog_inv_def active_ok_def by blast

lemma active_map:
  assumes "active_ok vs" "\<And>u. wv_id (f u) = wv_id u \<and> wv_workflow_id (f u) = wv_workflow_id u \<and> wv_active (f u) = wv_active u"
    and "\<And>u. u \<in> set vs \<Longrightarrow> wv_active u \<Longrightarrow> wv_review_status (f u) = wv_review_status u"
  shows "active_ok (map f vs)"
  using assms unfolding active_ok_def set_map ball_simps by metis

lemma reviewed_fields:
  "wv_id (reviewed now actor why b v) = wv_id v" "wv_workflow_id (reviewed now actor why b v) = wv_workflow_id v"
  "wv_version (reviewed now actor why b v) = wv_version v" "wv_active (reviewed now actor why b v) = wv_active v"
  "wv_review_status (reviewed now actor why b v) = (if b then Rv_APPROVED else Rv_REJECTED)"
  by (simp_all add: reviewed_def)

text \<open>The state after the decision itself: only the reviewed version changes its status.\<close>

lemma review_decision:
  fixes now actor why b
  defines "f \<equiv> reviewed now actor why b"
  assumes "catalog_inv db" "v \<in> set (cg_versions db)" "wv_id v = vid" "wv_review_status v = Rv_PENDING_REVIEW"
    and "b \<Longrightarrow> approved_in bs v"
  shows "active_ok (cg_versions (update_version vid f db))"
    and "approvals_ok (cg_versions (update_version vid f db)) (cg_actions db @ bs)"
    and "f v \<in> set (cg_versions (update_version vid f db))"
    and "map version_key (cg_versions (update_version vid f db)) = map version_key (cg_versions db)"
proof -
  have same: "u = v" if "u \<in> set (cg_versions db)" "wv_id u = vid" for u
    using that assms(3,4) catalog_inv_distinct [OF assms(2)] by (metis key_unique)
  have inactive: "\<not> wv_active v" using active_approved [OF assms(2,3)] assms(5) by auto
  let ?g = "\<lambda>u. if wv_id u = vid then f u else u"
  have tab: "cg_versions (update_version vid f db) = map ?g (cg_versions db)" by (simp add: update_version_tables sql_update_def)
  show "active_ok (cg_versions (update_version vid f db))" unfolding tab
    by (rule active_map) (use assms(2) same inactive in \<open>auto simp: catalog_inv_def f_def reviewed_fields\<close>)
  have old: "approvals_ok (cg_versions db) (cg_actions db @ bs)" using assms(2) by (simp add: catalog_inv_def approvals_mono)
  have "wv_version (?g u) = 1 \<or> approved_in (cg_actions db @ bs) (?g u)"
    if "u \<in> set (cg_versions db)" "wv_review_status (?g u) = Rv_APPROVED" for u
  proof (cases "wv_id u = vid")
    case True
    then have "b" "u = v" using that same by (auto simp: f_def reviewed_fields split: if_splits)
    then show ?thesis using True assms(6) by (auto simp: approved_in_def f_def reviewed_fields)
  qed (use that old in \<open>simp add: approvals_ok_def\<close>)
  then show "approvals_ok (cg_versions (update_version vid f db)) (cg_actions db @ bs)" unfolding tab approvals_ok_def set_map by blast
  show "f v \<in> set (cg_versions (update_version vid f db))" unfolding tab using assms(3,4) by force
  show "map version_key (cg_versions (update_version vid f db)) = map version_key (cg_versions db)"
    unfolding tab by (simp add: f_def reviewed_fields)
qed

lemma review_version_inv:
  assumes "catalog_inv db"
  shows "catalog_inv (snd (review_version now aid vid approve c db))"
  unfolding review_version_def
proof (rule lifecycle_inv [OF assms])
  fix w x db' assume w: "workflow_of (lc_workflow_id c) db = Some w" and "review_version_body now aid vid approve c w db = Inr (x, db')"
  then obtain v where v: "workflow_version (lc_workflow_id c) vid db = Inr v" "wv_review_status v = Rv_PENDING_REVIEW"
      and res: "version_result w ((reviewed now (lc_actor c) (lc_reason c) approve v)\<lparr>wv_active := approve \<or> wv_active v\<rparr>)
         (if approve then La_VERSION_APPROVED else La_VERSION_REJECTED) = Inr x"
      and free: "\<not> list_ex (\<lambda>a. la_id a = aid \<or> la_idempotency_key a = lc_key c) (cg_actions db)"
      and db': "db' = (if approve then activate now (lc_actor c) (wk_id w) vid (update_version vid (reviewed now (lc_actor c) (lc_reason c) approve) db)
            else update_version vid (reviewed now (lc_actor c) (lc_reason c) approve) db)\<lparr>cg_actions := cg_actions db @ [new_action now aid c x]\<rparr>"
    unfolding review_version_body_def
    by (auto simp: exn_simps Let_def record_action_result_Inr activate_tables update_version_tables split: if_splits)
  let ?f = "reviewed now (lc_actor c) (lc_reason c) approve"
  note vv = workflow_version_Inr [OF v(1)] and ww = workflow_of_Some [OF w]
  have key: "lc_key c \<notin> set (map la_idempotency_key (cg_actions db))" by (rule list_ex_key [OF free]) simp
  have "approved_in [new_action now aid c x] v" if approve
    using validate_lifecycle_Inr [OF res [unfolded version_result_def]] that vv ww
    by (auto simp: approved_in_def new_action_def reviewed_fields)
  note dec = review_decision [of db v vid approve "[new_action now aid c x]" now "lc_actor c" "lc_reason c", OF assms conjunct1 [OF vv] conjunct1 [OF conjunct2 [OF vv]] v(2) this]
  have dist: "distinct (map wv_id (cg_versions (update_version vid ?f db)))"
    using catalog_inv_distinct [OF assms] sql_update_map [of wv_id ?f] by (simp add: update_version_tables reviewed_fields)
  have act: "active_ok (map (activated now (lc_actor c) (wk_id w) vid) (cg_versions (update_version vid ?f db)))" if approve
    by (rule activated_ok [OF dec(1,3) _ _ _ dist]) (use that vv ww in \<open>simp_all add: reviewed_fields\<close>)
  have app: "approvals_ok (map (activated now (lc_actor c) (wk_id w) vid) (cg_versions (update_version vid ?f db))) (cg_actions db @ [new_action now aid c x])"
    by (rule approvals_map [OF dec(2)]) (simp_all add: activated_fields)
  show "catalog_inv db'"
  proof (rule catalog_inv_tables [OF assms])
    show "map version_key (cg_versions db') = map version_key (cg_versions db)"
      using dec(4) by (auto simp: db' activate_tables activated_fields comp_def)
    show "active_ok (cg_versions db')" using dec(1) act by (cases approve) (simp_all add: db' activate_tables)
    show "approvals_ok (cg_versions db') (cg_actions db')" using dec(2) app by (cases approve) (simp_all add: db' activate_tables)
    show "distinct (map la_idempotency_key (cg_actions db'))" using assms key by (simp add: db' catalog_inv_def new_action_def)
  qed (simp_all add: db' activate_tables update_version_tables)
qed

lemma activate_version_inv:
  assumes "catalog_inv db"
  shows "catalog_inv (snd (activate_version now aid vid c db))"
  unfolding activate_version_def
proof (rule lifecycle_inv [OF assms])
  fix w x db' assume w: "workflow_of (lc_workflow_id c) db = Some w" and "activate_version_body now aid vid c w db = Inr (x, db')"
  then obtain v where v: "workflow_version (lc_workflow_id c) vid db = Inr v" "wv_review_status v = Rv_APPROVED"
      and free: "\<not> list_ex (\<lambda>a. la_id a = aid \<or> la_idempotency_key a = lc_key c) (cg_actions db)"
      and db': "db' = (activate now (lc_actor c) (wk_id w) vid db)\<lparr>cg_actions := cg_actions db @ [new_action now aid c x]\<rparr>"
    unfolding activate_version_body_def
    by (auto simp: exn_simps record_action_result_Inr activate_tables split: if_splits)
  note vv = workflow_version_Inr [OF v(1)] and ww = workflow_of_Some [OF w]
  have key: "lc_key c \<notin> set (map la_idempotency_key (cg_actions db))" by (rule list_ex_key [OF free]) simp
  have ok: "active_ok (cg_versions db)" "approvals_ok (cg_versions db) (cg_actions db @ [new_action now aid c x])"
      "distinct (map wv_id (cg_versions db))"
    using assms catalog_inv_distinct [OF assms] by (auto simp: catalog_inv_def approvals_mono)
  have act: "active_ok (map (activated now (lc_actor c) (wk_id w) vid) (cg_versions db))"
    by (rule activated_ok [OF ok(1) _ _ _ v(2) ok(3)]) (use vv ww in simp_all)
  have app: "approvals_ok (map (activated now (lc_actor c) (wk_id w) vid) (cg_versions db)) (cg_actions db @ [new_action now aid c x])"
    by (rule approvals_map [OF ok(2)]) (simp_all add: activated_fields)
  show "catalog_inv db'"
    by (rule catalog_inv_tables [OF assms])
       (use assms key act app in \<open>simp_all add: db' activate_tables activated_fields comp_def catalog_inv_def new_action_def\<close>)
qed

lemma record_successful_steps_tables:
  "cg_versions (snd (record_successful_steps ph task op pl revision h start steps db)) = cg_versions db"
  "cg_workflows (snd (record_successful_steps ph task op pl revision h start steps db)) = cg_workflows db"
  "cg_actions (snd (record_successful_steps ph task op pl revision h start steps db)) = cg_actions db"
  "cg_promotions (snd (record_successful_steps ph task op pl revision h start steps db)) = cg_promotions db"
  by (cases "record_steps ph task op pl revision h start steps (cg_successes db)";
      simp add: record_successful_steps_def atomically_def)+

section \<open>Steps and growth\<close>

inductive catalog_step :: "catalog_db \<Rightarrow> catalog_db \<Rightarrow> bool" where
  cat_success: "catalog_step db (snd (record_successful_steps ph task op pl revision h start steps db))"
| cat_promote: "catalog_step db (snd (promote_workflow dg now ids src actor key hash name description policy d db))"
| cat_create: "catalog_step db (snd (create_version dg now ids src d c db))"
| cat_review: "catalog_step db (snd (review_version now aid vid approve c db))"
| cat_activate: "catalog_step db (snd (activate_version now aid vid c db))"
| cat_status: "catalog_step db (snd (update_workflow_status now aid st c db))"

inductive_cases catalog_step_cases: "catalog_step db db'"

abbreviation reachable_catalog :: "catalog_db \<Rightarrow> bool" where
  "reachable_catalog \<equiv> reachable (\<lambda>db. db = empty_catalog) catalog_step"

lemma catalog_step_inv: "catalog_inv db \<Longrightarrow> catalog_step db db' \<Longrightarrow> catalog_inv db'"
  by (erule catalog_step_cases)
     (simp_all add: promote_workflow_inv create_version_inv review_version_inv activate_version_inv update_status_inv,
      simp add: catalog_inv_def record_successful_steps_tables)

text \<open>What a version keeps: its key and content for ever, and the outcome of its review once there is one.\<close>

definition content :: "version_row \<Rightarrow> version_row" where
  "content v = v\<lparr>wv_active := False, wv_review_status := Rv_PENDING_REVIEW, wv_reviewed_by := None, wv_reviewed_at := None,
     wv_review_reason := None, wv_audit := new_audit 0 []\<rparr>"

definition version_kept :: "version_row \<Rightarrow> version_row \<Rightarrow> bool" where
  "version_kept v v' = (content v' = content v
     \<and> (wv_review_status v \<noteq> Rv_PENDING_REVIEW \<longrightarrow> wv_review_status v' = wv_review_status v \<and> wv_reviewed_by v' = wv_reviewed_by v
         \<and> wv_reviewed_at v' = wv_reviewed_at v \<and> wv_review_reason v' = wv_review_reason v))"

definition catalog_grows :: "catalog_db \<Rightarrow> catalog_db \<Rightarrow> bool" where
  "catalog_grows db db' = ((\<exists>vs ws. cg_versions db' = vs @ ws \<and> list_all2 version_kept (cg_versions db) vs)
     \<and> (\<exists>as. cg_actions db' = cg_actions db @ as))"

lemma content_fields:
  "wv_id (content v) = wv_id v" "wv_workflow_id (content v) = wv_workflow_id v" "wv_version (content v) = wv_version v"
  "wv_plan_payload (content v) = wv_plan_payload v" "wv_input_contract (content v) = wv_input_contract v"
  "wv_public_payload_hash (content v) = wv_public_payload_hash v"
  by (simp_all add: content_def)

lemma version_kept_fields:
  assumes "version_kept v v'"
  shows "wv_id v' = wv_id v" "wv_workflow_id v' = wv_workflow_id v" "wv_version v' = wv_version v"
    "wv_plan_payload v' = wv_plan_payload v" "wv_input_contract v' = wv_input_contract v"
    "wv_public_payload_hash v' = wv_public_payload_hash v"
    "wv_review_status v \<noteq> Rv_PENDING_REVIEW \<longrightarrow> wv_review_status v' = wv_review_status v"
  using assms unfolding version_kept_def by (metis content_fields)+

lemma version_kept_refl: "version_kept v v"
  by (simp add: version_kept_def)

lemma version_kept_trans: "version_kept u v \<Longrightarrow> version_kept v w \<Longrightarrow> version_kept u w"
  by (simp add: version_kept_def)

lemma catalog_grows_trans:
  assumes "catalog_grows a b" "catalog_grows b c"
  shows "catalog_grows a c"
proof -
  obtain vs ws where b: "cg_versions b = vs @ ws" "list_all2 version_kept (cg_versions a) vs" using assms(1) unfolding catalog_grows_def by blast
  obtain vs' ws' where c: "cg_versions c = vs' @ ws'" "list_all2 version_kept (cg_versions b) vs'" using assms(2) unfolding catalog_grows_def by blast
  obtain us us' where split: "vs' = us @ us'" "list_all2 version_kept vs us" using c(2) unfolding b(1) list_all2_append1 by blast
  have "list_all2 version_kept (cg_versions a) us" using version_kept_trans b(2) split(2) by (rule list_all2_trans)
  then have "\<exists>vs ws. cg_versions c = vs @ ws \<and> list_all2 version_kept (cg_versions a) vs" using c(1) split(1) by auto
  then show ?thesis using assms unfolding catalog_grows_def by auto
qed

lemma catalog_grows_map:
  assumes "cg_versions db' = map f (cg_versions db) @ ws" "\<And>v. v \<in> set (cg_versions db) \<Longrightarrow> version_kept v (f v)"
    and "cg_actions db' = cg_actions db @ as"
  shows "catalog_grows db db'"
proof -
  have "list_all2 version_kept (cg_versions db) (map f (cg_versions db))"
    using assms(2) by (auto simp: list_all2_conv_all_nth)
  then show ?thesis unfolding catalog_grows_def using assms(1,3) by blast
qed

lemma catalog_grows_refl: "catalog_grows db db"
  by (rule catalog_grows_map [where f = id and ws = "[]" and as = "[]"]) (simp_all add: version_kept_refl)

lemma lifecycle_grows:
  assumes "\<And>w x db'. workflow_of (lc_workflow_id c) db = Some w \<Longrightarrow> body w db = Inr (x, db') \<Longrightarrow> catalog_grows db db'"
  shows "catalog_grows db (snd (lifecycle c action body db))"
proof -
  obtain r db' where l: "lifecycle c action body db = (r, db')" by (cases "lifecycle c action body db")
  then show ?thesis by (rule lifecycle_cases) (use assms l in \<open>auto simp: catalog_grows_refl\<close>)
qed

lemma activated_kept: "version_kept v (activated now actor wid vid v)"
  by (simp add: version_kept_def activated_def Let_def content_def)

lemma reviewed_kept: "wv_review_status v = Rv_PENDING_REVIEW \<Longrightarrow> version_kept v (reviewed now actor why b v)"
  by (simp add: version_kept_def reviewed_def content_def)

lemma promote_workflow_grows: "catalog_grows db (snd (promote_workflow dg now ids src actor key hash name description policy d db))"
proof -
  have "catalog_grows db db'" if "promotion_rows dg now ids src actor key hash name description policy d db = Inr (r, db')" for r db'
    using that unfolding promotion_rows_def
    by (auto simp: exn_simps Let_def insert_version_Inr version_kept_refl split: prod.splits
        intro!: catalog_grows_map [where f = id and as = "[]"])
  then show ?thesis
    by (auto simp: promote_workflow_def atomically_def exn_simps catalog_grows_refl
        split: option.splits sum.splits prod.splits if_splits)
qed

lemma create_version_grows: "catalog_grows db (snd (create_version dg now ids src d c db))"
  unfolding create_version_def
proof (rule lifecycle_grows)
  fix w x db' assume "create_version_body dg now ids src d c w db = Inr (x, db')"
  then show "catalog_grows db db'" unfolding create_version_body_def
    by (auto simp: exn_simps Let_def insert_version_Inr record_action_result_Inr update_workflow_tables version_kept_refl
        split: prod.splits intro!: catalog_grows_map [where f = id])
qed

lemma review_version_grows:
  assumes "catalog_inv db"
  shows "catalog_grows db (snd (review_version now aid vid approve c db))"
  unfolding review_version_def
proof (rule lifecycle_grows)
  fix w x db' assume "review_version_body now aid vid approve c w db = Inr (x, db')"
  then obtain v where v: "workflow_version (lc_workflow_id c) vid db = Inr v" "wv_review_status v = Rv_PENDING_REVIEW"
      and db': "db' = (if approve then activate now (lc_actor c) (wk_id w) vid (update_version vid (reviewed now (lc_actor c) (lc_reason c) approve) db)
            else update_version vid (reviewed now (lc_actor c) (lc_reason c) approve) db)\<lparr>cg_actions := cg_actions db @ [new_action now aid c x]\<rparr>"
    unfolding review_version_body_def
    by (auto simp: exn_simps Let_def record_action_result_Inr activate_tables update_version_tables split: if_splits)
  let ?f = "reviewed now (lc_actor c) (lc_reason c) approve"
  let ?g = "\<lambda>u. if wv_id u = vid then ?f u else u"
  let ?h = "if approve then activated now (lc_actor c) (wk_id w) vid else id"
  have pending: "wv_review_status u = Rv_PENDING_REVIEW" if "u \<in> set (cg_versions db)" "wv_id u = vid" for u
    using that v(2) workflow_version_Inr [OF v(1)] catalog_inv_distinct [OF assms] by (metis key_unique)
  show "catalog_grows db db'"
  proof (rule catalog_grows_map [where f = "?h \<circ> ?g" and ws = "[]"])
    show "cg_versions db' = map (?h \<circ> ?g) (cg_versions db) @ []"
      by (simp add: db' activate_tables update_version_tables sql_update_def)
    show "cg_actions db' = cg_actions db @ [new_action now aid c x]" by (simp add: db')
    fix u assume "u \<in> set (cg_versions db)"
    then have kept: "version_kept u (?g u)" using reviewed_kept pending by (simp add: version_kept_refl)
    show "version_kept u ((?h \<circ> ?g) u)"
    proof (cases approve)
      case True
      then show ?thesis using version_kept_trans [OF kept activated_kept, of now "lc_actor c" "wk_id w" vid]
        by (simp only: if_True comp_apply)
    next
      case False
      then show ?thesis using kept by (simp only: if_False comp_apply id_apply)
    qed
  qed
qed

lemma activate_version_grows: "catalog_grows db (snd (activate_version now aid vid c db))"
  unfolding activate_version_def
proof (rule lifecycle_grows)
  fix w x db' assume "activate_version_body now aid vid c w db = Inr (x, db')"
  then have "db' = (activate now (lc_actor c) (wk_id w) vid db)\<lparr>cg_actions := cg_actions db @ [new_action now aid c x]\<rparr>"
    unfolding activate_version_body_def by (auto simp: exn_simps record_action_result_Inr activate_tables split: if_splits)
  then show "catalog_grows db db'"
    by (intro catalog_grows_map [where f = "activated now (lc_actor c) (wk_id w) vid" and ws = "[]"])
       (simp_all add: activate_tables activated_kept)
qed

lemma update_status_grows: "catalog_grows db (snd (update_workflow_status now aid st c db))"
  unfolding update_workflow_status_def
proof (rule lifecycle_grows)
  fix w x db' assume "update_status_body now aid st c w db = Inr (x, db')"
  then show "catalog_grows db db'" unfolding update_status_body_def record_action_result_Inr
    by (intro catalog_grows_map [where f = id and ws = "[]"]) (auto simp: update_workflow_tables version_kept_refl)
qed

lemma catalog_step_grows: "catalog_inv db \<Longrightarrow> catalog_step db db' \<Longrightarrow> catalog_grows db db'"
  by (erule catalog_step_cases)
     (simp_all add: promote_workflow_grows create_version_grows review_version_grows activate_version_grows update_status_grows,
      simp add: catalog_grows_map [where f = id and ws = "[]" and as = "[]"] version_kept_refl record_successful_steps_tables)

interpretation catalog: growth_system "\<lambda>db. db = empty_catalog" catalog_step catalog_inv catalog_grows
proof unfold_locales
  show "catalog_grows a b \<Longrightarrow> catalog_grows b c \<Longrightarrow> catalog_grows a c" for a b c by (rule catalog_grows_trans)
qed (auto simp: empty_catalog_inv catalog_grows_refl intro: catalog_step_inv catalog_step_grows)

section \<open>Properties\<close>

text \<open>
  C9: the catalog stays consistent. After any operations the versions of a workflow are numbered without
  gaps up to its latest version, an active version is approved, and a workflow has at most one.
\<close>

theorem catalog_consistent:
  assumes "reachable_catalog db"
  shows "(\<forall>w \<in> set (cg_workflows db). \<forall>n. (\<exists>v \<in> set (cg_versions db). wv_workflow_id v = wk_id w \<and> wv_version v = n)
        \<longleftrightarrow> 1 \<le> n \<and> n \<le> wk_latest_version w)
    \<and> (\<forall>v \<in> set (cg_versions db). \<forall>v' \<in> set (cg_versions db).
        wv_workflow_id v = wv_workflow_id v' \<and> (wv_version v = wv_version v' \<or> wv_active v \<and> wv_active v') \<longrightarrow> v = v')
    \<and> (\<forall>v \<in> set (cg_versions db). wv_active v \<longrightarrow> wv_review_status v = Rv_APPROVED)"
proof -
  have inv: "catalog_inv db" by (rule catalog.reachable_inv [OF assms])
  then have num: "numbering_ok (map version_key (cg_versions db)) (map latest_key (cg_workflows db))" by (simp add: catalog_inv_def)
  have mem: "version_key v \<in> set (map version_key (cg_versions db))" if "v \<in> set (cg_versions db)" for v using that by simp
  have gaps: "(\<exists>v \<in> set (cg_versions db). wv_workflow_id v = wk_id w \<and> wv_version v = n) \<longleftrightarrow> 1 \<le> n \<and> n \<le> wk_latest_version w"
    if w: "w \<in> set (cg_workflows db)" for w n
  proof
    assume "\<exists>v \<in> set (cg_versions db). wv_workflow_id v = wk_id w \<and> wv_version v = n"
    then obtain v where v: "v \<in> set (cg_versions db)" "wv_workflow_id v = wk_id w" "wv_version v = n" by blast
    obtain l where "(wk_id w, l) \<in> set (map latest_key (cg_workflows db))" "1 \<le> n" "n \<le> l"
      using numbering_okD(4) [OF num mem [OF v(1)]] v(2,3) by auto
    moreover have "latest_key w \<in> set (map latest_key (cg_workflows db))" using w by simp
    ultimately show "1 \<le> n \<and> n \<le> wk_latest_version w" using eq_key_imp_eq_value [OF numbering_okD(3) [OF num]] by blast
  next
    have "latest_key w \<in> set (map latest_key (cg_workflows db))" using w by simp
    moreover assume "1 \<le> n \<and> n \<le> wk_latest_version w"
    ultimately have "(wk_id w, n) \<in> snd ` set (map version_key (cg_versions db))" using numbering_okD(5) [OF num] by blast
    then show "\<exists>v \<in> set (cg_versions db). wv_workflow_id v = wk_id w \<and> wv_version v = n" by auto
  qed
  have ids: "v = v'" if "v \<in> set (cg_versions db)" "v' \<in> set (cg_versions db)" "wv_id v = wv_id v'" for v v'
    using that catalog_inv_distinct [OF inv] by (metis key_unique)
  have numbers: "v = v'" if "v \<in> set (cg_versions db)" "v' \<in> set (cg_versions db)" "(wv_workflow_id v, wv_version v) = (wv_workflow_id v', wv_version v')" for v v'
    using that key_unique [of "\<lambda>v. (wv_workflow_id v, wv_version v)" "cg_versions db" v v'] numbering_okD(2) [OF num] by (simp add: comp_def)
  show ?thesis
  proof (intro conjI ballI allI impI)
    fix v v' assume v: "v \<in> set (cg_versions db)" "v' \<in> set (cg_versions db)"
    assume "wv_workflow_id v = wv_workflow_id v' \<and> (wv_version v = wv_version v' \<or> wv_active v \<and> wv_active v')"
    then consider "(wv_workflow_id v, wv_version v) = (wv_workflow_id v', wv_version v')" | "wv_id v = wv_id v'"
      using inv v unfolding catalog_inv_def active_ok_def by blast
    then show "v = v'" by cases (rule numbers [OF v], assumption, rule ids [OF v])
  qed (use gaps active_approved [OF inv] in auto)
qed

text \<open>
  C19: what was reviewed is what is used. The content of a version never changes after it was stored, and
  neither does the outcome of its review once it is decided.
\<close>

theorem version_immutable:
  assumes "reachable_catalog db" "catalog_step\<^sup>*\<^sup>* db db'" "version_of u db = Some v"
  shows "\<exists>v'. version_of u db' = Some v' \<and> wv_workflow_id v' = wv_workflow_id v \<and> wv_version v' = wv_version v
    \<and> wv_plan_payload v' = wv_plan_payload v \<and> wv_input_contract v' = wv_input_contract v
    \<and> wv_public_payload_hash v' = wv_public_payload_hash v
    \<and> (wv_review_status v \<noteq> Rv_PENDING_REVIEW \<longrightarrow> wv_review_status v' = wv_review_status v)"
proof -
  obtain vs ws where g: "cg_versions db' = vs @ ws" "list_all2 version_kept (cg_versions db) vs"
    using catalog.reachable_grows [OF assms(1,2)] unfolding catalog_grows_def by blast
  have "v \<in> set (cg_versions db)" "wv_id v = u" using assms(3) unfolding version_of_def by (auto dest: find_SomeD)
  then obtain v' where v': "v' \<in> set vs" "version_kept v v'" using g(2) by (metis in_set_conv_nth list_all2_conv_all_nth)
  note same = version_kept_fields [OF v'(2)]
  have "wv_id v' = u" using same(1) \<open>wv_id v = u\<close> by simp
  moreover have "catalog_inv db'" by (rule catalog.reachable_inv [OF reachable_rtranclp [OF assms(2,1)]])
  ultimately have "version_of u db' = Some v'"
    unfolding version_of_def using find_key [OF catalog_inv_distinct, of db' v'] v'(1) g(1) by simp
  then show ?thesis using same by simp
qed

text \<open>
  C20: planning uses only reviewed workflows. A version that the catalog serves is the active one of an active
  workflow, and unless it is the version the workflow was promoted with, the log holds its approval.
\<close>

theorem served_version_approved:
  assumes "reachable_catalog db" "catalog_version u db = Inr v"
  shows "wv_review_status v = Rv_APPROVED
    \<and> (wv_version v = 1 \<or> (\<exists>a \<in> set (cg_actions db). la_action a = La_VERSION_APPROVED
          \<and> la_workflow_version_id a = Some u \<and> la_workflow_id a = wv_workflow_id v))
    \<and> (\<exists>w. workflow_of (wv_workflow_id v) db = Some w \<and> wk_status w = Wk_ACTIVE)
    \<and> (\<forall>u' v'. catalog_version u' db = Inr v' \<and> wv_workflow_id v' = wv_workflow_id v \<longrightarrow> u' = u)"
proof -
  have inv: "active_ok (cg_versions db)" "approvals_ok (cg_versions db) (cg_actions db)"
    using catalog.reachable_inv [OF assms(1)] by (simp_all add: catalog_inv_def)
  have serve: "x \<in> set (cg_versions db) \<and> wv_id x = y \<and> served db x" if "catalog_version y db = Inr x" for x y
    using that by (auto simp: catalog_version_def split: option.splits dest: find_SomeD)
  have v: "v \<in> set (cg_versions db)" "wv_id v = u" "served db v" using serve [OF assms(2)] by blast+
  have "wv_version v = 1 \<or> approved_in (cg_actions db) v" using inv(2) v(1,3) by (simp add: approvals_ok_def served_def)
  moreover have "u' = u" if "catalog_version u' db = Inr v'" "wv_workflow_id v' = wv_workflow_id v" for u' v'
    using inv(1) serve [OF that(1)] v that(2) unfolding active_ok_def served_def by blast
  ultimately show ?thesis using v by (auto simp: served_def approved_in_def split: option.splits)
qed

text \<open>
  A life cycle call can be repeated. Once a review has been applied, the same call in any later state
  returns the same result, marked as not applied, and changes nothing; another call under its key is
  refused.
\<close>

theorem review_replayed:
  assumes "reachable_catalog db" "review_version now aid vid approve c db = (Inr r, db1)" "lr_applied r"
    and "catalog_step\<^sup>*\<^sup>* db1 db2"
  shows "review_version now' aid' vid approve c db2 = (Inr (r\<lparr>lr_applied := False\<rparr>), db2)
    \<and> (lc_key c' = lc_key c \<and> lc_hash c' \<noteq> lc_hash c \<longrightarrow>
        review_version now' aid' vid' approve' c' db2 = (Inl (lifecycle_conflict ''Idempotency key payload mismatch''), db2))"
proof -
  let ?act = "if approve then La_VERSION_APPROVED else La_VERSION_REJECTED"
  have act: "cg_actions db1 = cg_actions db @ [new_action now aid c r] \<and> validate_lifecycle r = Inr r
      \<and> lr_action r = ?act \<and> lr_workflow_id r = lc_workflow_id c"
    using assms(2) unfolding review_version_def
  proof (rule lifecycle_cases)
    fix row x assume "existing_result c ?act row = Inr x" "Inr r = (Inr x :: lifecycle_result result)"
    then have False using assms(3) by (auto simp: existing_result_def exn_simps split: if_splits)
    then show ?thesis ..
  next
    fix w x assume "workflow_of (lc_workflow_id c) db = Some w" "review_version_body now aid vid approve c w db = Inr (x, db1)"
      and "Inr r = (Inr x :: lifecycle_result result)"
    then show ?thesis unfolding review_version_body_def
      by (auto simp: exn_simps Let_def record_action_result_Inr activate_tables update_version_tables version_result_def
          validate_lifecycle_def dest!: workflow_of_Some split: if_splits)
  qed simp
  have "reachable_catalog db1" using reach_step [OF assms(1) cat_review] assms(2) by (metis snd_conv)
  then have inv: "catalog_inv db2" and grows: "catalog_grows db1 db2"
    using assms(4) by (auto intro: catalog.reachable_inv reachable_rtranclp catalog.reachable_grows)
  have "new_action now aid c r \<in> set (cg_actions db2)" using act grows unfolding catalog_grows_def by auto
  then have row: "find (\<lambda>a. la_idempotency_key a = lc_key c) (cg_actions db2) = Some (new_action now aid c r)"
    using inv find_key [of la_idempotency_key "cg_actions db2" "new_action now aid c r"] by (simp add: catalog_inv_def new_action_def)
  show ?thesis
    using row act
    by (simp add: review_version_def lifecycle_def atomically_def lifecycle_existing_def existing_result_def new_action_def)
qed

section \<open>A demonstration\<close>

text \<open>A task is promoted, a second version is created and approved.\<close>

definition demo_source :: promotion_source where
  "demo_source = \<lparr>src_task = \<lparr>t_id = 5, t_user_id = ''u'', t_project_id = ''p'', t_session_id = ''s'', t_input_message_id = 6,
       t_user_message = ''m'', t_status = SUCCEEDED, t_execution_id = Some 8, t_current_interrupt = None,
       t_terminal_message = None, t_version = 1, t_audit = new_audit 0 ''u''\<rparr>,
     src_steps = [\<lparr>xs_task_id = 5, xs_execution_sequence = 0, xs_operation_id = 9, xs_source_plan_id = 10,
       xs_source_plan_revision_id = 7, xs_registry_snapshot_hash = ''h'', xs_step_payload = demo_step demo_params,
       xs_step_payload_hash = ''x''\<rparr>], src_plans = [(7, demo_plan demo_params)]\<rparr>"

definition demo_draft :: version_draft where
  "demo_draft = \<lparr>vd_request_examples = [], vd_tags = [], vd_plan = demo_plan demo_params, vd_input_contract = [],
     vd_embedding = replicate 1024 ''0'', vd_embedding_model = ''e'', vd_registry_snapshot_hash = ''h'', vd_searchable_text = ''t''\<rparr>"

definition demo_digests :: digests where
  "demo_digests = \<lparr>dg_payload = (\<lambda>_ _. replicate 64 (CHR ''a'')), dg_text = id\<rparr>"

definition demo_call :: "string \<Rightarrow> lifecycle_call" where
  "demo_call key = \<lparr>lc_workflow_id = 4, lc_actor = ''u'', lc_key = key, lc_hash = ''q'', lc_reason = None, lc_policy = ''v1''\<rparr>"

definition demo_promoted :: catalog_db where
  "demo_promoted = snd (promote_workflow demo_digests 0 (4, 2) demo_source ''u'' ''k'' ''q'' ''n'' ''d'' ''v1'' demo_draft empty_catalog)"

definition demo_created :: catalog_db where
  "demo_created = snd (create_version demo_digests 1 (3, 11) demo_source demo_draft (demo_call ''k1'') demo_promoted)"

definition demo_approved :: catalog_db where
  "demo_approved = snd (review_version 2 12 3 True (demo_call ''k2'') demo_created)"

lemma demo_catalog_reachable: "reachable_catalog demo_promoted" "reachable_catalog demo_created" "reachable_catalog demo_approved"
proof -
  have 0: "reachable_catalog empty_catalog" by (rule reach_init) simp
  show 1: "reachable_catalog demo_promoted" unfolding demo_promoted_def by (rule reach_step [OF 0 cat_promote])
  show 2: "reachable_catalog demo_created" unfolding demo_created_def by (rule reach_step [OF 1 cat_create])
  show "reachable_catalog demo_approved" unfolding demo_approved_def by (rule reach_step [OF 2 cat_review])
qed

abbreviation demo_workflow :: workflow_row where
  "demo_workflow \<equiv> promoted_workflow 0 4 ''n'' ''d'' demo_source ''u''"

abbreviation demo_version :: "usec \<Rightarrow> uuid \<Rightarrow> int \<Rightarrow> bool \<Rightarrow> review_status \<Rightarrow> version_row" where
  "demo_version now vid n active review \<equiv> new_version demo_digests now vid 4 n demo_source ''u'' ''v1'' demo_draft active review"

lemma demo_version_valid:
  "wv_embedding (demo_version now vid n b rv) = Some (replicate 1024 ''0'')"
  "valid_hash (wv_public_payload_hash (demo_version now vid n b rv))"
  "wk_id demo_workflow = 4" "wk_latest_version demo_workflow = 1" "wk_name demo_workflow = ''n''"
  by (simp_all add: new_version_def demo_draft_def demo_digests_def valid_hash_def list_all_iff promoted_workflow_def)

lemma demo_steps: "\<exists>rows. add_workflow_steps vid 0 (pd_steps (vd_plan demo_draft)) (src_steps demo_source) = Inr rows"
  by (simp add: demo_draft_def demo_plan_def demo_source_def demo_step_def)

lemma demo_promoted_tables:
  "cg_workflows demo_promoted = [demo_workflow]" "cg_versions demo_promoted = [demo_version 0 2 1 True Rv_APPROVED]"
  "cg_actions demo_promoted = []"
  using demo_steps [of 2]
  by (auto simp: demo_promoted_def promote_workflow_def atomically_def promotion_rows_def Let_def empty_catalog_def insert_or_raise_def
      insert_version_def demo_version_valid)

lemma demo_created_tables:
  "cg_versions demo_created = [demo_version 0 2 1 True Rv_APPROVED, demo_version 1 3 2 False Rv_PENDING_REVIEW]"
  "cg_workflows demo_created = [demo_workflow\<lparr>wk_latest_version := 2, wk_audit := touch_audit 1 ''u'' (wk_audit demo_workflow)\<rparr>]"
  "map la_id (cg_actions demo_created) = [11]" "map la_idempotency_key (cg_actions demo_created) = [''k1'']"
  using demo_steps [of 3]
  by (auto simp: demo_created_def create_version_def lifecycle_def atomically_def lifecycle_existing_def locked_workflow_def
      workflow_of_def demo_promoted_tables create_version_body_def Let_def insert_version_def insert_or_raise_def record_action_result_def
      add_action_def version_result_def validate_lifecycle_def demo_version_valid demo_call_def update_workflow_def sql_update_def new_action_def)

lemma demo_review: "\<exists>r. review_version 2 12 3 True (demo_call ''k2'') demo_created = (Inr r, demo_approved) \<and> lr_applied r"
proof -
  have "find (\<lambda>a. la_idempotency_key a = ''k2'') (cg_actions demo_created) = None" "\<not> list_ex (\<lambda>a. la_id a = 12 \<or> la_idempotency_key a = ''k2'') (cg_actions demo_created)"
    using demo_created_tables(3,4) by (auto simp: find_None_iff list_ex_iff map_eq_Cons_conv)
  then show ?thesis
    by (auto simp: demo_approved_def review_version_def lifecycle_def atomically_def lifecycle_existing_def locked_workflow_def
      workflow_of_def demo_created_tables review_version_body_def Let_def workflow_version_def record_action_result_def
      add_action_def insert_or_raise_def version_result_def validate_lifecycle_def demo_version_valid demo_call_def
      reviewed_def activate_tables update_version_tables)
qed

theorem catalog_consistent_witness:
  "\<exists>w v. cg_workflows demo_created = [w] \<and> v \<in> set (cg_versions demo_created) \<and> wv_workflow_id v = wk_id w \<and> wv_version v = 2"
proof -
  obtain w where w: "cg_workflows demo_created = [w]" "wk_latest_version w = 2" by (simp add: demo_created_tables demo_version_valid)
  then have "\<exists>v \<in> set (cg_versions demo_created). wv_workflow_id v = wk_id w \<and> wv_version v = 2"
    using catalog_consistent [OF demo_catalog_reachable(2)] by (metis list.set_intros(1) one_le_numeral order_refl)
  then show ?thesis using w(1) by blast
qed

theorem version_immutable_witness:
  "\<exists>v'. version_of 3 demo_approved = Some v' \<and> wv_version v' = 2"
proof -
  have "catalog_step\<^sup>*\<^sup>* demo_created demo_approved" unfolding demo_approved_def by (rule r_into_rtranclp) (rule cat_review)
  moreover have "version_of 3 demo_created = Some (demo_version 1 3 2 False Rv_PENDING_REVIEW)"
    by (simp add: version_of_def demo_created_tables)
  ultimately show ?thesis using version_immutable [OF demo_catalog_reachable(2), of demo_approved 3 "demo_version 1 3 2 False Rv_PENDING_REVIEW"] by auto
qed

theorem review_replayed_witness:
  "\<exists>r. review_version 9 10 3 True (demo_call ''k2'') demo_approved = (Inr (r\<lparr>lr_applied := False\<rparr>), demo_approved)"
proof -
  obtain r where r: "review_version 2 12 3 True (demo_call ''k2'') demo_created = (Inr r, demo_approved)" "lr_applied r"
    using demo_review by blast
  show ?thesis using review_replayed [OF demo_catalog_reachable(2) r rtranclp.rtrancl_refl, of 9 10] by blast
qed

lemma demo_served: "\<exists>v. catalog_version 2 demo_promoted = Inr v"
  by (simp add: catalog_version_def served_def workflow_of_def demo_promoted_tables demo_version_valid) (simp add: promoted_workflow_def)

theorem served_version_approved_witness:
  "\<exists>v. catalog_version 2 demo_promoted = Inr v \<and> wv_review_status v = Rv_APPROVED"
  using demo_served served_version_approved [OF demo_catalog_reachable(1), of 2] by blast

end
