(* ===== verification/Cursors.thy ===== *)
theory Cursors
  imports Agent_Failure_Service
begin

text \<open>
  Pagination cursors as clients see them: \<open>urlsafe_b64encode\<close> and \<open>urlsafe_b64decode\<close> of the standard library
  (the decoder as \<open>binascii.a2b_base64\<close> works outside its strict mode: characters that are not in the
  alphabet are skipped, and complete padding ends the input), the cursors of
  \<open>src/agent/failure/operations.py\<close> and those of \<open>src/ex_agent/application/workflow_lifecycle.py\<close>. JSON text
  and ISO time stamps are the conversions of \<open>cursor_codec\<close>.
\<close>

section \<open>Base64\<close>

definition b64_alphabet :: string where
  "b64_alphabet = ''ABCDEFGHIJKLMNOPQRSTUVWXYZabcdefghijklmnopqrstuvwxyz0123456789-_''"

definition b64_char :: "nat \<Rightarrow> char" where
  "b64_char n = b64_alphabet ! n"

text \<open>The URL-safe characters are translated before decoding, so both spellings of 62 and 63 are read.\<close>

definition b64_val :: "char \<Rightarrow> nat option" where
  "b64_val c = (let n = (of_char c :: nat) in
     if 65 \<le> n \<and> n \<le> 90 then Some (n - 65) else if 97 \<le> n \<and> n \<le> 122 then Some (n - 71)
     else if 48 \<le> n \<and> n \<le> 57 then Some (n + 4) else if n = 43 \<or> n = 45 then Some 62
     else if n = 47 \<or> n = 95 then Some 63 else None)"

fun urlsafe_b64encode :: "string \<Rightarrow> string" where
  "urlsafe_b64encode [] = []"
| "urlsafe_b64encode [x] = (let a = of_char x in [b64_char (a div 4), b64_char (a mod 4 * 16)] @ ''=='')"
| "urlsafe_b64encode [x, y] = (let a = of_char x; b = of_char y in
     [b64_char (a div 4), b64_char (a mod 4 * 16 + b div 16), b64_char (b mod 16 * 4)] @ ''='')"
| "urlsafe_b64encode (x # y # z # xs) = (let a = of_char x; b = of_char y; c = of_char z in
     [b64_char (a div 4), b64_char (a mod 4 * 16 + b div 16), b64_char (b mod 16 * 4 + c div 64), b64_char (c mod 64)]
     @ urlsafe_b64encode xs)"

text \<open>The loop of the decoder: the position in a group of four, the bits left over, and the pads seen.\<close>

fun a2b_base64 :: "nat \<Rightarrow> nat \<Rightarrow> nat \<Rightarrow> string \<Rightarrow> string result" where
  "a2b_base64 quad left pads [] =
     (if quad = 0 then Inr []
      else if quad = 1 then Inl (ValueError ''Invalid base64-encoded string'') else Inl (ValueError ''Incorrect padding''))"
| "a2b_base64 quad left pads (c # cs) =
     (if c = CHR ''='' then
        (if quad \<ge> 2 then (if quad + (pads + 1) \<ge> 4 then Inr [] else a2b_base64 quad left (pads + 1) cs)
         else a2b_base64 quad left pads cs)
      else (case b64_val c of
          None \<Rightarrow> a2b_base64 quad left pads cs
        | Some v \<Rightarrow>
            if quad = 0 then a2b_base64 1 v 0 cs
            else if quad = 1 then rbind (a2b_base64 2 (v mod 16) 0 cs) (\<lambda>out. Inr (char_of (left * 4 + v div 16) # out))
            else if quad = 2 then rbind (a2b_base64 3 (v mod 4) 0 cs) (\<lambda>out. Inr (char_of (left * 16 + v div 4) # out))
            else rbind (a2b_base64 0 0 0 cs) (\<lambda>out. Inr (char_of (left * 64 + v) # out))))"

definition urlsafe_b64decode :: "string \<Rightarrow> string result" where
  "urlsafe_b64decode s = (if list_ex (\<lambda>c. 128 \<le> (of_char c :: nat)) s
     then Inl (ValueError ''string argument should contain only ASCII characters'') else a2b_base64 0 0 0 s)"

text \<open>\<open>rstrip('=')\<close>, and the padding \<open>'=' * (-len(cursor) % 4)\<close>.\<close>

definition strip_pads :: "string \<Rightarrow> string" where
  "strip_pads s = rdrop_while (\<lambda>c. c = CHR ''='') s"

definition with_pads :: "string \<Rightarrow> string" where
  "with_pads s = s @ replicate (nat ((- int (length s)) mod 4)) (CHR ''='')"

section \<open>Cursors of blocked cleanups\<close>

text \<open>
  \<open>json.dumps\<close> with compact separators, \<open>json.loads\<close>, \<open>isoformat\<close>, and \<open>fromisoformat\<close> with the flag whether
  the text has a time zone.
\<close>

record cursor_codec =
  cd_dumps :: "json \<Rightarrow> string"
  cd_loads :: "string \<Rightarrow> json option"
  cd_isoformat :: "usec \<Rightarrow> string"
  cd_fromisoformat :: "string \<Rightarrow> (usec \<times> bool) option"

definition blocked_cursor :: "cursor_codec \<Rightarrow> usec \<Rightarrow> uuid \<Rightarrow> json" where
  "blocked_cursor cd at u = JObj [(''kind'', JStr ''blocked_failure''), (''task_id'', JStr (uuid_str u)),
     (''updated_at'', JStr (cd_isoformat cd at))]"

definition encode_cursor :: "cursor_codec \<Rightarrow> usec \<Rightarrow> uuid \<Rightarrow> string" where
  "encode_cursor cd at u = strip_pads (urlsafe_b64encode (cd_dumps cd (blocked_cursor cd at u)))"

text \<open>\<open>UUID(value)\<close> reads the attribute \<open>replace\<close> of its argument, and \<open>None\<close> counts as missing.\<close>

fun uuid_of_json :: "json \<Rightarrow> uuid result" where
  "uuid_of_json (JStr s) = (case uuid_parse s of None \<Rightarrow> Inl (ValueError ''badly formed hexadecimal UUID string'') | Some u \<Rightarrow> Inr u)"
| "uuid_of_json JNull = Inl (TypeError ''one of the hex arguments must be given'')"
| "uuid_of_json _ = Inl (OtherException ''AttributeError'' ''object has no attribute replace'')"

definition cursor_time :: "cursor_codec \<Rightarrow> json \<Rightarrow> usec result" where
  "cursor_time cd j = (case j of
       JStr s \<Rightarrow> (case cd_fromisoformat cd s of
           None \<Rightarrow> Inl (ValueError ''Invalid isoformat string'')
         | Some (t, aware) \<Rightarrow> if aware then Inr t else Inl (ValueError ''Cursor timestamp has no timezone''))
     | _ \<Rightarrow> Inl (TypeError ''fromisoformat: argument must be str''))"

definition item :: "json \<Rightarrow> string \<Rightarrow> json result" where
  "item j k = (case jget j k of None \<Rightarrow> Inl (KeyError k) | Some v \<Rightarrow> Inr v)"

definition load_cursor :: "cursor_codec \<Rightarrow> string \<Rightarrow> json result" where
  "load_cursor cd s = rbind (urlsafe_b64decode (with_pads s)) (\<lambda>raw.
     (case cd_loads cd raw of None \<Rightarrow> Inl (ValueError ''JSONDecodeError'') | Some j \<Rightarrow> Inr j))"

definition decode_cursor_try :: "cursor_codec \<Rightarrow> string \<Rightarrow> (usec \<times> uuid) result" where
  "decode_cursor_try cd s = rbind (load_cursor cd s) (\<lambda>j.
     if \<not> is_jobj j then Inl (ValueError ''Cursor payload must be an object'')
     else if jget j ''kind'' \<noteq> Some (JStr ''blocked_failure'') then Inl (ValueError ''Cursor kind does not match'')
     else rbind (item j ''updated_at'') (\<lambda>at. rbind (cursor_time cd at) (\<lambda>t.
          rbind (item j ''task_id'') (\<lambda>u. rbind (uuid_of_json u) (\<lambda>task. Inr (t, task))))))"

fun cursor_error :: "exn \<Rightarrow> bool" where
  "cursor_error (KeyError _) = True"
| "cursor_error (TypeError _) = True"
| "cursor_error e = is_ValueError e"

definition decode_cursor :: "cursor_codec \<Rightarrow> string \<Rightarrow> (usec \<times> uuid) result" where
  "decode_cursor cd s = (case decode_cursor_try cd s of
       Inr x \<Rightarrow> Inr x
     | Inl e \<Rightarrow> Inl (if cursor_error e then ValueError ''Invalid blocked failure cursor'' else e))"

text \<open>\<open>FailureOperations.blocked\<close> on the text of a cursor; an empty text is no cursor.\<close>

definition blocked_by_text ::
    "cursor_codec \<Rightarrow> string \<Rightarrow> string \<Rightarrow> string option \<Rightarrow> int \<Rightarrow> agent_db \<Rightarrow> (cleanup_row list \<times> string option \<times> bool) result" where
  "blocked_by_text cd user_ids actor cursor limit db = rbind (authorize user_ids actor) (\<lambda>_.
     rbind (case cursor of None \<Rightarrow> Inr None | Some s \<Rightarrow> if s = [] then Inr None else rbind (decode_cursor cd s) (\<lambda>c. Inr (Some c)))
       (\<lambda>before. rbind (operations_blocked user_ids actor before limit db) (\<lambda>page.
          Inr (pg_items page, map_option (\<lambda>(at, u). encode_cursor cd at u) (pg_next page), pg_has_more page))))"

section \<open>Cursors of the workflow catalog\<close>

definition encode_kind :: "cursor_codec \<Rightarrow> string \<Rightarrow> (string \<times> json) list \<Rightarrow> string" where
  "encode_kind cd kind members = strip_pads (urlsafe_b64encode (cd_dumps cd (JObj (sort_key fst ((''kind'', JStr kind) # members)))))"

definition decode_kind :: "cursor_codec \<Rightarrow> string \<Rightarrow> string \<Rightarrow> json result" where
  "decode_kind cd kind s = (case load_cursor cd s of
       Inl _ \<Rightarrow> Inl (ValueError ''Invalid Workflow pagination cursor'')
     | Inr j \<Rightarrow> if \<not> is_jobj j \<or> jget j ''kind'' \<noteq> Some (JStr kind)
         then Inl (ValueError ''Invalid Workflow pagination cursor'') else Inr j)"

fun positive_int :: "json \<Rightarrow> int result" where
  "positive_int (JInt n) = (if n < 1 then Inl (ValueError ''Invalid Workflow version cursor'') else Inr n)"
| "positive_int _ = Inl (ValueError ''Invalid Workflow version cursor'')"

section \<open>Lemmas\<close>

lemma b64_table:
  "map b64_val b64_alphabet = map Some [0..<64]" "length b64_alphabet = 64" "CHR ''='' \<notin> set b64_alphabet"
  "list_all (\<lambda>c. (of_char c :: nat) < 128) b64_alphabet"
  by (simp_all add: b64_alphabet_def b64_val_def upt_rec)

lemma b64_char_ok:
  assumes "n < 64"
  shows "b64_val (b64_char n) = Some n" "b64_char n \<noteq> CHR ''=''" "(of_char (b64_char n) :: nat) < 128"
proof -
  have "b64_val (b64_alphabet ! n) = map b64_val b64_alphabet ! n" using assms b64_table(2) by simp
  then show "b64_val (b64_char n) = Some n" unfolding b64_table(1) b64_char_def using assms by simp
  have "b64_char n \<in> set b64_alphabet" unfolding b64_char_def using assms b64_table(2) by simp
  then show "b64_char n \<noteq> CHR ''=''" "(of_char (b64_char n) :: nat) < 128" using b64_table(3,4) by (auto simp: list_all_iff)
qed

text \<open>The encoding without its padding.\<close>

fun b64_core :: "string \<Rightarrow> string" where
  "b64_core [] = []"
| "b64_core [x] = (let a = of_char x in [b64_char (a div 4), b64_char (a mod 4 * 16)])"
| "b64_core [x, y] = (let a = of_char x; b = of_char y in
     [b64_char (a div 4), b64_char (a mod 4 * 16 + b div 16), b64_char (b mod 16 * 4)])"
| "b64_core (x # y # z # xs) = (let a = of_char x; b = of_char y; c = of_char z in
     [b64_char (a div 4), b64_char (a mod 4 * 16 + b div 16), b64_char (b mod 16 * 4 + c div 64), b64_char (c mod 64)] @ b64_core xs)"

lemma byte_parts:
  fixes a b :: nat
  assumes "a < 256" "b < 256"
  shows "a div 4 < 64" "a mod 4 * 16 < 64" "a mod 4 * 16 + b div 16 < 64" "b mod 16 * 4 < 64" "a mod 16 * 4 + b div 64 < 64" "a mod 64 < 64"
  using assms by linarith+

lemma byte_join:
  fixes b :: nat
  assumes "b < 256"
  shows "b div 16 div 16 = 0" "b div 16 mod 16 = b div 16" "b div 64 div 4 = 0" "b div 64 mod 4 = b div 64"
  using assms by (simp_all add: div_mult2_eq [symmetric] less_mult_imp_div_less)

lemmas char_parts = byte_parts [OF nat_of_char_less_256 nat_of_char_less_256]
lemmas char_join = byte_join [OF nat_of_char_less_256]

lemma char_groups:
  "b64_val (b64_char (of_char x div 4)) = Some (of_char x div 4)" "b64_char (of_char x div 4) \<noteq> CHR ''=''"
  "b64_val (b64_char (of_char x mod 4 * 16)) = Some (of_char x mod 4 * 16)" "b64_char (of_char x mod 4 * 16) \<noteq> CHR ''=''"
  "b64_val (b64_char (of_char x mod 4 * 16 + of_char y div 16)) = Some (of_char x mod 4 * 16 + of_char y div 16)"
  "b64_char (of_char x mod 4 * 16 + of_char y div 16) \<noteq> CHR ''=''"
  "b64_val (b64_char (of_char x mod 16 * 4)) = Some (of_char x mod 16 * 4)" "b64_char (of_char x mod 16 * 4) \<noteq> CHR ''=''"
  "b64_val (b64_char (of_char x mod 16 * 4 + of_char y div 64)) = Some (of_char x mod 16 * 4 + of_char y div 64)"
  "b64_char (of_char x mod 16 * 4 + of_char y div 64) \<noteq> CHR ''=''"
  "b64_val (b64_char (of_char x mod 64)) = Some (of_char x mod 64)" "b64_char (of_char x mod 64) \<noteq> CHR ''=''"
  "of_char (b64_char (of_char x div 4)) < (128 :: nat)" "of_char (b64_char (of_char x mod 4 * 16)) < (128 :: nat)"
  "of_char (b64_char (of_char x mod 4 * 16 + of_char y div 16)) < (128 :: nat)" "of_char (b64_char (of_char x mod 16 * 4)) < (128 :: nat)"
  "of_char (b64_char (of_char x mod 16 * 4 + of_char y div 64)) < (128 :: nat)" "of_char (b64_char (of_char x mod 64)) < (128 :: nat)"
  by (rule b64_char_ok char_parts)+

lemma encode_core: "\<exists>k. urlsafe_b64encode s = b64_core s @ replicate k (CHR ''='')"
  by (induction s rule: urlsafe_b64encode.induct)
     (auto simp: Let_def intro: exI [of _ 0] exI [of _ 1] exI [of _ 2] simp: numeral_2_eq_2)

lemma core_no_pad: "\<forall>c \<in> set (b64_core s). c \<noteq> CHR ''='' \<and> (of_char c :: nat) < 128"
  by (induction s rule: b64_core.induct) (auto simp: Let_def char_groups)

lemma strip_encode: "strip_pads (urlsafe_b64encode s) = b64_core s"
proof -
  obtain k where k: "urlsafe_b64encode s = b64_core s @ replicate k (CHR ''='')" using encode_core by blast
  have "dropWhile (\<lambda>c. c = CHR ''='') (rev (b64_core s)) = rev (b64_core s)"
    unfolding dropWhile_eq_self_iff using core_no_pad [of s] by (metis hd_in_set set_rev)
  moreover have "dropWhile (\<lambda>c. c = x) (replicate k x @ ys) = dropWhile (\<lambda>c. c = x) ys" for x :: char and ys
    by (induction k) simp_all
  ultimately show ?thesis unfolding strip_pads_def rdrop_while_def k by simp
qed

lemma with_pads_4: "length ys = 4 \<Longrightarrow> with_pads (ys @ xs) = ys @ with_pads xs"
proof -
  assume "length ys = 4"
  moreover have "(- (4 + int n)) mod 4 = (- int n) mod 4" for n by presburger
  ultimately show ?thesis by (simp add: with_pads_def)
qed

lemma decode_group:
  "a2b_base64 0 0 0 (b64_char (of_char x div 4) # b64_char (of_char x mod 4 * 16 + of_char y div 16)
       # b64_char (of_char y mod 16 * 4 + of_char z div 64) # b64_char (of_char z mod 64) # cs)
     = rbind (a2b_base64 0 0 0 cs) (\<lambda>out. Inr (x # y # z # out))"
  by (cases "a2b_base64 0 0 0 cs") (simp_all add: char_groups char_join)

lemma decode_core: "a2b_base64 0 0 0 (with_pads (b64_core s)) = Inr s"
proof (induction s rule: b64_core.induct)
  case (4 x y z xs)
  have "with_pads (b64_core (x # y # z # xs)) = [b64_char (of_char x div 4), b64_char (of_char x mod 4 * 16 + of_char y div 16),
      b64_char (of_char y mod 16 * 4 + of_char z div 64), b64_char (of_char z mod 64)] @ with_pads (b64_core xs)"
    unfolding b64_core.simps Let_def by (rule with_pads_4) simp
  then show ?case using 4 by (simp only: append.simps decode_group rbind.simps)
qed (simp_all add: with_pads_def Let_def char_groups char_join numeral_2_eq_2)

lemma decode_encode: "urlsafe_b64decode (with_pads (strip_pads (urlsafe_b64encode s))) = Inr s"
proof -
  have "(of_char c :: nat) < 128" if "c \<in> set (with_pads (b64_core s))" for c
  proof -
    consider "c \<in> set (b64_core s)" | "c = CHR ''=''" using \<open>c \<in> set (with_pads (b64_core s))\<close> by (auto simp: with_pads_def)
    then show ?thesis by cases (use core_no_pad [of s] in blast, simp)
  qed
  then have "\<not> list_ex (\<lambda>c. 128 \<le> (of_char c :: nat)) (with_pads (b64_core s))"
    unfolding list_ex_iff by (metis linorder_not_less)
  then show ?thesis unfolding urlsafe_b64decode_def strip_encode by (simp only: if_False decode_core)
qed

section \<open>Properties\<close>

text \<open>
  a cursor reads back. When the JSON text of its payload and its time stamp read back, the cursor that a
  page returns decodes to the position it was made from.
\<close>

theorem cursor_round_trip:
  assumes "cd_loads cd (cd_dumps cd (blocked_cursor cd at u)) = Some (blocked_cursor cd at u)"
    and "cd_fromisoformat cd (cd_isoformat cd at) = Some (at, True)" "valid_uuid u"
  shows "decode_cursor cd (encode_cursor cd at u) = Inr (at, u)"
proof -
  have "load_cursor cd (encode_cursor cd at u) = Inr (blocked_cursor cd at u)"
    unfolding load_cursor_def encode_cursor_def decode_encode using assms(1) by simp
  then show ?thesis using assms(2,3)
    by (simp add: decode_cursor_def decode_cursor_try_def blocked_cursor_def item_def cursor_time_def uuid_round_trip)
qed

definition demo_codec :: "usec \<Rightarrow> uuid \<Rightarrow> cursor_codec" where
  "demo_codec at u = \<lparr>cd_dumps = (\<lambda>_. ''{cursor}''), cd_loads = (\<lambda>_. Some (JObj [(''kind'', JStr ''blocked_failure''),
       (''task_id'', JStr (uuid_str u)), (''updated_at'', JStr ''t'')])),
     cd_isoformat = (\<lambda>_. ''t''), cd_fromisoformat = (\<lambda>_. Some (at, True))\<rparr>"

theorem cursor_round_trip_witness:
  "encode_cursor (demo_codec 9 5) 9 5 = ''e2N1cnNvcn0'' \<and> decode_cursor (demo_codec 9 5) ''e2N1cnNvcn0'' = Inr (9, 5)"
proof -
  have e: "encode_cursor (demo_codec 9 5) 9 5 = ''e2N1cnNvcn0''" by code_simp
  have "decode_cursor (demo_codec 9 5) (encode_cursor (demo_codec 9 5) 9 5) = Inr (9, 5)"
    by (rule cursor_round_trip) (simp_all add: demo_codec_def blocked_cursor_def valid_uuid_def)
  then show ?thesis using e by simp
qed

text \<open>
  C37: a cursor whose task is no text escapes the error handling. When the payload is an object of the right
  kind with a time stamp and a number as task, decoding raises an \<open>AttributeError\<close> instead of the
  \<open>ValueError\<close> for an invalid cursor.
\<close>

theorem cursor_attribute_error:
  assumes "cd_loads cd raw = Some (JObj [(''kind'', JStr ''blocked_failure''), (''task_id'', JInt n), (''updated_at'', JStr s)])"
    and "cd_fromisoformat cd s = Some (t, True)"
  shows "decode_cursor cd (strip_pads (urlsafe_b64encode raw)) = Inl (OtherException ''AttributeError'' ''object has no attribute replace'')"
  using assms unfolding decode_cursor_def decode_cursor_try_def load_cursor_def decode_encode
  by (simp add: item_def cursor_time_def)

theorem cursor_attribute_error_witness:
  "decode_cursor \<lparr>cd_dumps = (\<lambda>_. []), cd_loads = (\<lambda>_. Some (JObj [(''kind'', JStr ''blocked_failure''), (''task_id'', JInt 5),
       (''updated_at'', JStr ''t'')])), cd_isoformat = (\<lambda>_. ''t''), cd_fromisoformat = (\<lambda>_. Some (0, True))\<rparr> (strip_pads (urlsafe_b64encode ''{x}''))
     = Inl (OtherException ''AttributeError'' ''object has no attribute replace'')"
  by (rule cursor_attribute_error) simp_all

end
