(* ===== verification/Workflow_Service.thy ===== *)
theory Workflow_Service
  imports Workflow_Catalog_Props Cursors
begin

text \<open>
  The services over the catalog (\<open>src/ex_agent/application/promotions.py\<close>,
  \<open>src/ex_agent/application/workflow_lifecycle.py\<close>): who may promote a task and manage a workflow, which tasks
  are eligible, how the content of a version is prepared, and the pages of versions and actions. The
  embedding model, the digests of requests and the conversions of cursors are parameters. The lemmas
  lead to the ownership of the catalog: every recorded action was taken by the owner of its workflow.
\<close>

section \<open>Policies\<close>

record policy_decision =
  pc_allowed :: bool
  pc_policy_version :: string
  pc_reason :: string

definition owner_policy :: "string \<Rightarrow> workflow_row \<Rightarrow> policy_decision" where
  "owner_policy actor w = (let allowed = (actor \<noteq> [] \<and> wk_owner_user_id w = Some actor) in
     \<lparr>pc_allowed = allowed, pc_policy_version = ''workflow-owner-v1'',
      pc_reason = (if allowed then ''authenticated Workflow owner'' else ''actor does not own the Workflow'')\<rparr>)"

definition promotion_policy :: "string \<Rightarrow> promotion_source \<Rightarrow> policy_decision" where
  "promotion_policy actor src = (let allowed = (actor \<noteq> [] \<and> t_user_id (src_task src) = actor) in
     \<lparr>pc_allowed = allowed, pc_policy_version = ''authenticated-owner-v1'',
      pc_reason = (if allowed then ''authenticated source Task owner'' else ''actor does not own the source Task'')\<rparr>)"

section \<open>Promotion\<close>

definition not_eligible :: "string \<Rightarrow> exn" where
  "not_eligible m = OtherException ''WorkflowPromotionNotEligibleError'' m"

text \<open>The checks of one verified step.\<close>

definition eligible_step :: "registry \<Rightarrow> (uuid \<times> plan_draft) list \<Rightarrow> success_row \<Rightarrow> unit result" where
  "eligible_step reg plans row = (let s = xs_step_payload row in
     if ps_planning_kind s \<noteq> Pk_TOOL_PLAN then Inl (not_eligible ''CUSTOM_CODE Tasks cannot be promoted'')
     else (case (ps_skill s, ps_tool s) of
         (Some skill, Some tool) \<Rightarrow> (case get_tool reg (tl_name tool) of
             Inl e \<Rightarrow> Inl (not_eligible (py_repr (exn_str e)))
           | Inr m \<Rightarrow> if tm_skill m \<noteq> skill \<or> tm_tool m \<noteq> tool
               then Inl (not_eligible ''Skill/Tool registry lineage is no longer compatible'')
               else if map_of plans (xs_source_plan_revision_id row) = None
               then Inl (not_eligible ''Source Plan revision lineage is incomplete'') else Inr ())
       | _ \<Rightarrow> Inl (not_eligible ''Tool lineage is incomplete'')))"

definition eligible_source :: "registry \<Rightarrow> string \<Rightarrow> promotion_source result \<Rightarrow> promotion_source result" where
  "eligible_source reg actor source = rbind source (\<lambda>src.
     let d = promotion_policy actor src in
     if \<not> pc_allowed d then Inl (OtherException ''WorkflowPromotionForbiddenError'' (pc_reason d))
     else if t_status (src_task src) \<noteq> SUCCEEDED then Inl (not_eligible ''Only succeeded Tasks can be promoted'')
     else if t_execution_id (src_task src) = None then Inl (not_eligible ''Task has no Executor execution lineage'')
     else if src_steps src = [] then Inl (not_eligible ''Task has no verified successful execution Steps'')
     else rbind (rmap (eligible_step reg (src_plans src)) (src_steps src)) (\<lambda>_. Inr src))"

text \<open>\<open>_searchable_text\<close>: the stripped texts, one per line.\<close>

definition searchable_text :: "string \<Rightarrow> string \<Rightarrow> string list \<Rightarrow> string list \<Rightarrow> plan_draft \<Rightarrow> string" where
  "searchable_text name description examples tags p =
     (let vals = [name, description, pd_objective p, pd_strategy_summary p] @ examples @ tags
        @ concat (map (\<lambda>s. [ps_title s, ps_purpose s, ps_selection_rationale s] @ ps_expected_outputs s
            @ [case ps_skill s of None \<Rightarrow> [] | Some k \<Rightarrow> sk_name k, case ps_tool s of None \<Rightarrow> [] | Some t \<Rightarrow> tl_name t]) (pd_steps p))
      in join [CHR 0x0A] (map py_strip (filter (\<lambda>v. py_strip v \<noteq> []) vals)))"

text \<open>What the service needs of its surroundings: the registry, the embedding model and its dimension.\<close>

record promotion_env =
  pe_registry :: registry
  pe_embed :: "string \<Rightarrow> string list result"
  pe_dimensions :: nat
  pe_model :: string
  pe_sha :: "string \<Rightarrow> string"

definition prepare_version ::
    "promotion_env \<Rightarrow> promotion_source \<Rightarrow> string \<Rightarrow> string \<Rightarrow> string list \<Rightarrow> string list \<Rightarrow> (string \<times> json) list \<Rightarrow> version_draft result" where
  "prepare_version pe src name description examples tags defaults =
     rbind (template_plan (pe_registry pe) (map (\<lambda>r. (xs_source_plan_revision_id r, xs_step_payload r)) (src_steps src)) (src_plans src) defaults)
       (\<lambda>(p, contract).
          let p' = p\<lparr>pd_objective := name, pd_strategy_summary := description, pd_assumptions := [], pd_expected_artifacts := []\<rparr>;
              text = searchable_text name description examples tags p' in
          rbind (pe_embed pe text) (\<lambda>embedding.
            if length embedding \<noteq> pe_dimensions pe
            then Inl (ValueError ''Embedding dimension does not match the configured pgvector dimension'')
            else (let hashes = sort (remdups (map xs_registry_snapshot_hash (src_steps src))) in
              Inr \<lparr>vd_request_examples = examples, vd_tags = tags, vd_plan = p', vd_input_contract = contract, vd_embedding = embedding,
                vd_embedding_model = pe_model pe,
                vd_registry_snapshot_hash = (case hashes of [h] \<Rightarrow> h | _ \<Rightarrow> pe_sha pe (join [CHR 0x0A] hashes)),
                vd_searchable_text = text\<rparr>)))"

text \<open>\<open>draft\<close>: what the service suggests for an eligible task; the example request, a translated phrase, is left out.\<close>

record promotion_suggestion =
  sg_name :: string
  sg_description :: string
  sg_tags :: "string list"
  sg_steps :: "plan_step list"
  sg_inputs :: input_contract

definition promotion_draft :: "promotion_env \<Rightarrow> string \<Rightarrow> promotion_source result \<Rightarrow> promotion_suggestion result" where
  "promotion_draft pe actor source = rbind (eligible_source (pe_registry pe) actor source) (\<lambda>src.
     rbind (template_plan (pe_registry pe) (map (\<lambda>r. (xs_source_plan_revision_id r, xs_step_payload r)) (src_steps src)) (src_plans src) [])
       (\<lambda>(p, contract). Inr \<lparr>sg_name = take 255 (pd_objective p), sg_description = take 4000 (pd_strategy_summary p),
          sg_tags = sort (remdups (map sk_name (List.map_filter ps_skill (pd_steps p)))), sg_steps = pd_steps p, sg_inputs = contract\<rparr>))"

text \<open>A request for a further version has the same members, but the name and the description of its workflow are used.\<close>

record promotion_request =
  pq_idempotency_key :: string
  pq_name :: string
  pq_description :: string
  pq_request_examples :: "string list"
  pq_tags :: "string list"
  pq_defaults :: "(string \<times> json) list"

text \<open>\<open>promote\<close>; \<open>source\<close> reads the task with its steps, \<open>hash\<close> is the digest of the request.\<close>

definition promote ::
    "digests \<Rightarrow> promotion_env \<Rightarrow> usec \<Rightarrow> uuid \<times> uuid \<Rightarrow> string \<Rightarrow> uuid \<Rightarrow> string \<Rightarrow> (catalog_db \<Rightarrow> promotion_source result)
      \<Rightarrow> promotion_request \<Rightarrow> catalog_db \<Rightarrow> promotion_result result \<times> catalog_db" where
  "promote dg pe now ids hash task actor source q db =
     (case promotion_existing task actor (pq_idempotency_key q) hash db of
        Inl e \<Rightarrow> (Inl e, db)
      | Inr (Some r) \<Rightarrow> (Inr r, db)
      | Inr None \<Rightarrow> (case eligible_source (pe_registry pe) actor (source db) of
          Inl e \<Rightarrow> (Inl e, db)
        | Inr src \<Rightarrow> (case prepare_version pe src (pq_name q) (pq_description q) (pq_request_examples q) (pq_tags q) (pq_defaults q) of
            Inl e \<Rightarrow> (Inl e, db)
          | Inr d \<Rightarrow> promote_workflow dg now ids src actor (pq_idempotency_key q) hash (pq_name q) (pq_description q)
              (pc_policy_version (promotion_policy actor src)) d db)))"

section \<open>Life cycle\<close>

definition authorized :: "uuid \<Rightarrow> string \<Rightarrow> catalog_db \<Rightarrow> (workflow_row \<times> policy_decision) result" where
  "authorized wid actor db = rbind (locked_workflow wid db) (\<lambda>w. let d = owner_policy actor w in
     if \<not> pc_allowed d then Inl (OtherException ''WorkflowLifecycleForbiddenError'' (pc_reason d)) else Inr (w, d))"

text \<open>Every managing call authorizes, looks for a replay, and then runs the operation of the repository.\<close>

definition managed ::
    "uuid \<Rightarrow> string \<Rightarrow> string \<Rightarrow> string \<Rightarrow> string option \<Rightarrow> lifecycle_action
      \<Rightarrow> (workflow_row \<Rightarrow> lifecycle_call \<Rightarrow> catalog_db \<Rightarrow> lifecycle_result result \<times> catalog_db)
      \<Rightarrow> catalog_db \<Rightarrow> lifecycle_result result \<times> catalog_db" where
  "managed wid actor key hash why action run db = (case authorized wid actor db of
       Inl e \<Rightarrow> (Inl e, db)
     | Inr (w, d) \<Rightarrow> (let c = \<lparr>lc_workflow_id = wid, lc_actor = actor, lc_key = key, lc_hash = hash, lc_reason = why,
           lc_policy = pc_policy_version d\<rparr> in
         (case lifecycle_existing c action db of
            Inl e \<Rightarrow> (Inl e, db)
          | Inr (Some r) \<Rightarrow> (Inr r, db)
          | Inr None \<Rightarrow> run w c db)))"

definition service_create_version ::
    "digests \<Rightarrow> promotion_env \<Rightarrow> usec \<Rightarrow> uuid \<times> uuid \<Rightarrow> string \<Rightarrow> uuid \<Rightarrow> string \<Rightarrow> (catalog_db \<Rightarrow> promotion_source result)
      \<Rightarrow> promotion_request \<Rightarrow> catalog_db \<Rightarrow> lifecycle_result result \<times> catalog_db" where
  "service_create_version dg pe now ids hash wid actor source q =
     managed wid actor (pq_idempotency_key q) hash None La_VERSION_CREATED (\<lambda>w c db.
       (case eligible_source (pe_registry pe) actor (source db) of
          Inl e \<Rightarrow> (Inl e, db)
        | Inr src \<Rightarrow> (case prepare_version pe src (wk_name w) (wk_description w) (pq_request_examples q) (pq_tags q) (pq_defaults q) of
            Inl e \<Rightarrow> (Inl e, db)
          | Inr d \<Rightarrow> create_version dg now ids src d c db)))"

definition service_review_version ::
    "usec \<Rightarrow> uuid \<Rightarrow> string \<Rightarrow> uuid \<Rightarrow> uuid \<Rightarrow> string \<Rightarrow> string \<Rightarrow> bool \<Rightarrow> string option \<Rightarrow> catalog_db
      \<Rightarrow> lifecycle_result result \<times> catalog_db" where
  "service_review_version now aid hash wid vid actor key approve why =
     managed wid actor key hash why (if approve then La_VERSION_APPROVED else La_VERSION_REJECTED)
       (\<lambda>w c. review_version now aid vid approve c)"

definition service_activate_version ::
    "usec \<Rightarrow> uuid \<Rightarrow> string \<Rightarrow> uuid \<Rightarrow> uuid \<Rightarrow> string \<Rightarrow> string \<Rightarrow> string option \<Rightarrow> catalog_db
      \<Rightarrow> lifecycle_result result \<times> catalog_db" where
  "service_activate_version now aid hash wid vid actor key why =
     managed wid actor key hash why La_VERSION_ACTIVATED (\<lambda>w c. activate_version now aid vid c)"

definition service_update_status ::
    "usec \<Rightarrow> uuid \<Rightarrow> string \<Rightarrow> uuid \<Rightarrow> string \<Rightarrow> string \<Rightarrow> workflow_status \<Rightarrow> string option \<Rightarrow> catalog_db
      \<Rightarrow> lifecycle_result result \<times> catalog_db" where
  "service_update_status now aid hash wid actor key st why =
     managed wid actor key hash why (if st = Wk_ACTIVE then La_WORKFLOW_ACTIVATED else La_WORKFLOW_DEACTIVATED)
       (\<lambda>w c. update_workflow_status now aid st c)"

section \<open>Pages\<close>

definition service_overview :: "uuid \<Rightarrow> string \<Rightarrow> catalog_db \<Rightarrow> (workflow_row \<times> (uuid \<times> int) option) result" where
  "service_overview wid actor db = rbind (authorized wid actor db) (\<lambda>_. overview wid db)"

definition service_version_detail :: "uuid \<Rightarrow> uuid \<Rightarrow> string \<Rightarrow> catalog_db \<Rightarrow> (version_row \<times> workflow_step_row list) result" where
  "service_version_detail wid vid actor db = rbind (authorized wid actor db) (\<lambda>_. version_detail wid vid db)"

definition service_versions ::
    "cursor_codec \<Rightarrow> uuid \<Rightarrow> string \<Rightarrow> string option \<Rightarrow> nat \<Rightarrow> catalog_db \<Rightarrow> (version_row list \<times> string option \<times> bool) result" where
  "service_versions cd wid actor cursor limit db = rbind (authorized wid actor db) (\<lambda>_.
     rbind (case cursor of None \<Rightarrow> Inr None
       | Some s \<Rightarrow> rbind (decode_kind cd ''version'' s) (\<lambda>j. rbind (positive_int (jget0 j ''version'')) (\<lambda>n. Inr (Some n)))) (\<lambda>before.
     let (items, nxt) = versions_page wid before limit db;
         next_cursor = map_option (\<lambda>n. encode_kind cd ''version'' [(''version'', JInt n)]) nxt
     in Inr (items, next_cursor, next_cursor \<noteq> None)))"

definition action_position :: "cursor_codec \<Rightarrow> json \<Rightarrow> (usec \<times> uuid) result" where
  "action_position cd j = (case (jget j ''created_at'', jget j ''action_id'') of
       (Some at, Some u) \<Rightarrow> (case (cd_fromisoformat cd (py_str_json at), uuid_parse (py_str_json u)) of
           (Some (t, True), Some a) \<Rightarrow> Inr (t, a)
         | _ \<Rightarrow> Inl (ValueError ''Invalid Workflow action cursor''))
     | _ \<Rightarrow> Inl (ValueError ''Invalid Workflow action cursor''))"

definition service_actions ::
    "cursor_codec \<Rightarrow> uuid \<Rightarrow> string \<Rightarrow> string option \<Rightarrow> nat \<Rightarrow> catalog_db \<Rightarrow> (action_row list \<times> string option \<times> bool) result" where
  "service_actions cd wid actor cursor limit db = rbind (authorized wid actor db) (\<lambda>_.
     rbind (case cursor of None \<Rightarrow> Inr None
       | Some s \<Rightarrow> rbind (decode_kind cd ''action'' s) (\<lambda>j. rbind (action_position cd j) (\<lambda>p. Inr (Some p)))) (\<lambda>before.
     let (items, nxt) = actions_page wid before limit db;
         next_cursor = map_option (\<lambda>(at, u). encode_kind cd ''action'' [(''action_id'', JStr (uuid_str u)), (''created_at'', JStr (cd_isoformat cd at))]) nxt
     in Inr (items, next_cursor, next_cursor \<noteq> None)))"

section \<open>Ownership\<close>

abbreviation owner_key :: "workflow_row \<Rightarrow> uuid \<times> string option" where
  "owner_key w \<equiv> (wk_id w, wk_owner_user_id w)"

text \<open>What an operation of the life cycle leaves: the owners, and actions in the name of its caller only.\<close>

definition by_caller :: "lifecycle_call \<Rightarrow> catalog_db \<Rightarrow> catalog_db \<Rightarrow> bool" where
  "by_caller c db db' = (map owner_key (cg_workflows db') = map owner_key (cg_workflows db)
     \<and> (\<exists>as. cg_actions db' = cg_actions db @ as \<and> (\<forall>a \<in> set as. la_actor_user_id a = lc_actor c \<and> la_workflow_id a = lc_workflow_id c)))"

lemma by_caller_refl: "by_caller c db db"
  by (simp add: by_caller_def)

lemma by_caller_action:
  assumes "map owner_key (cg_workflows db') = map owner_key (cg_workflows db)"
    and "cg_actions db' = cg_actions db @ [new_action now aid c r]" "lr_workflow_id r = lc_workflow_id c"
  shows "by_caller c db db'"
  using assms by (auto simp: by_caller_def new_action_def)

lemma lifecycle_by_caller:
  assumes "\<And>w x db'. wk_id w = lc_workflow_id c \<Longrightarrow> body w db = Inr (x, db') \<Longrightarrow> by_caller c db db'"
  shows "by_caller c db (snd (lifecycle c action body db))"
proof -
  obtain r db' where l: "lifecycle c action body db = (r, db')" by (cases "lifecycle c action body db")
  then show ?thesis
  proof (rule lifecycle_cases)
    fix w x assume "workflow_of (lc_workflow_id c) db = Some w" "body w db = Inr (x, db')"
    then show ?thesis using assms workflow_of_Some l by (metis snd_conv)
  qed (use l by_caller_refl in auto)
qed

lemma owners_updated:
  "(\<And>w. owner_key (f w) = owner_key w) \<Longrightarrow> map owner_key (cg_workflows (update_workflow wid f db)) = map owner_key (cg_workflows db)"
  unfolding update_workflow_tables by (rule sql_update_map)

lemma owners_activated: "map owner_key (cg_workflows (activate now actor wid vid db)) = map owner_key (cg_workflows db)"
  unfolding activate_def by (subst owners_updated) (simp_all add: update_version_def deactivate_versions_def)

lemma create_version_by_caller: "by_caller c db (snd (create_version dg now ids src d c db))"
  unfolding create_version_def
proof (rule lifecycle_by_caller)
  fix w x db' assume "wk_id w = lc_workflow_id c" "create_version_body dg now ids src d c w db = Inr (x, db')"
  then show "by_caller c db db'" unfolding create_version_body_def
    by (auto simp: exn_simps Let_def record_action_result_Inr version_result_def update_workflow_tables sql_update_map
        split: prod.splits dest!: validate_lifecycle_Inr intro!: by_caller_action)
qed

lemma review_version_by_caller: "by_caller c db (snd (review_version now aid vid approve c db))"
  unfolding review_version_def
proof (rule lifecycle_by_caller)
  fix w x db' assume "wk_id w = lc_workflow_id c" "review_version_body now aid vid approve c w db = Inr (x, db')"
  then show "by_caller c db db'" unfolding review_version_body_def
    by (auto simp: exn_simps Let_def record_action_result_Inr version_result_def owners_activated activate_tables update_version_tables
        split: if_splits dest!: validate_lifecycle_Inr intro!: by_caller_action)
qed

lemma activate_version_by_caller: "by_caller c db (snd (activate_version now aid vid c db))"
  unfolding activate_version_def
proof (rule lifecycle_by_caller)
  fix w x db' assume "wk_id w = lc_workflow_id c" "activate_version_body now aid vid c w db = Inr (x, db')"
  then show "by_caller c db db'" unfolding activate_version_body_def
    by (auto simp: exn_simps record_action_result_Inr version_result_def owners_activated activate_tables
        split: if_splits dest!: validate_lifecycle_Inr intro!: by_caller_action)
qed

lemma update_status_by_caller: "by_caller c db (snd (update_workflow_status now aid st c db))"
  unfolding update_workflow_status_def
proof (rule lifecycle_by_caller)
  fix w x db' assume "wk_id w = lc_workflow_id c" "update_status_body now aid st c w db = Inr (x, db')"
  then show "by_caller c db db'" unfolding update_status_body_def
    by (auto simp: record_action_result_Inr update_workflow_tables sql_update_map dest!: validate_lifecycle_Inr intro!: by_caller_action)
qed

text \<open>Every action was taken by the owner of its workflow.\<close>

definition catalog_owned :: "catalog_db \<Rightarrow> bool" where
  "catalog_owned db = (\<forall>a \<in> set (cg_actions db). (la_workflow_id a, Some (la_actor_user_id a)) \<in> set (map owner_key (cg_workflows db)))"

lemma authorized_owner:
  assumes "authorized wid actor db = Inr (w, d)"
  shows "(wid, Some actor) \<in> set (map owner_key (cg_workflows db))"
proof -
  have "workflow_of wid db = Some w" "wk_owner_user_id w = Some actor"
    using assms by (auto simp: authorized_def locked_workflow_def owner_policy_def Let_def exn_simps split: option.splits if_splits)
  then show ?thesis using workflow_of_Some [of wid db w] by force
qed

lemma managed_owned:
  assumes "catalog_owned db" "\<And>w c. by_caller c db (snd (run w c db))"
  shows "catalog_owned (snd (managed wid actor key hash why action run db))"
proof (cases "authorized wid actor db")
  case (Inr x)
  obtain w d where x: "x = (w, d)" by (cases x)
  define c where "c = \<lparr>lc_workflow_id = wid, lc_actor = actor, lc_key = key, lc_hash = hash, lc_reason = why, lc_policy = pc_policy_version d\<rparr>"
  have owner: "(wid, Some actor) \<in> set (map owner_key (cg_workflows db))" by (rule authorized_owner) (use Inr x in simp)
  have "catalog_owned (snd (run w c db))"
    using assms(2) [of c w] assms(1) owner unfolding by_caller_def catalog_owned_def
    by (auto simp only: set_append c_def lifecycle_call.simps)
  moreover have "snd (managed wid actor key hash why action run db) \<in> {db, snd (run w c db)}"
    by (auto simp: managed_def Inr x c_def Let_def split: sum.splits option.splits)
  ultimately show ?thesis using assms(1) by auto
qed (use assms in \<open>simp add: managed_def\<close>)

lemma owned_more:
  assumes "catalog_owned db" "cg_actions db' = cg_actions db" "set (map owner_key (cg_workflows db)) \<subseteq> set (map owner_key (cg_workflows db'))"
  shows "catalog_owned db'"
  using assms unfolding catalog_owned_def by auto

lemma promote_workflow_owned:
  assumes "catalog_owned db"
  shows "catalog_owned (snd (promote_workflow dg now ids src actor key hash name description policy d db))"
proof -
  have "catalog_owned db'" if "promotion_rows dg now ids src actor key hash name description policy d db = Inr (r, db')" for r db'
    using that unfolding promotion_rows_def
    by (auto simp: exn_simps Let_def insert_or_raise_Inr split: prod.splits intro!: owned_more [OF assms])
  then show ?thesis using assms
    by (auto simp: promote_workflow_def atomically_def exn_simps split: option.splits sum.splits prod.splits if_splits)
qed

inductive service_step :: "catalog_db \<Rightarrow> catalog_db \<Rightarrow> bool" where
  svc_success: "service_step db (snd (record_successful_steps ph task op pl revision h start steps db))"
| svc_promote: "service_step db (snd (promote dg pe now ids hash task actor source q db))"
| svc_create: "service_step db (snd (service_create_version dg pe now ids hash wid actor source q db))"
| svc_review: "service_step db (snd (service_review_version now aid hash wid vid actor key approve why db))"
| svc_activate: "service_step db (snd (service_activate_version now aid hash wid vid actor key why db))"
| svc_status: "service_step db (snd (service_update_status now aid hash wid actor key st why db))"

inductive_cases service_step_cases: "service_step db db'"

text \<open>A call of a service is one operation of the catalog, or none.\<close>

lemma managed_catalog_step:
  assumes "\<And>w c. snd (run w c db) = db \<or> catalog_step db (snd (run w c db))"
  shows "snd (managed wid actor key hash why action run db) = db \<or> catalog_step db (snd (managed wid actor key hash why action run db))"
  using assms by (auto simp: managed_def Let_def split: sum.splits option.splits)

lemma service_catalog_step: "service_step db db' \<Longrightarrow> db' = db \<or> catalog_step db db'"
proof (erule service_step_cases)
  fix dg pe now ids hash wid actor source q
  assume "db' = snd (service_create_version dg pe now ids hash wid actor source q db)"
  then show "db' = db \<or> catalog_step db db'" unfolding service_create_version_def
    by (simp only:) (rule managed_catalog_step, auto intro: cat_create split: sum.splits)
next
  fix dg pe now ids hash task actor source q
  assume "db' = snd (promote dg pe now ids hash task actor source q db)"
  then show "db' = db \<or> catalog_step db db'" unfolding promote_def by (auto intro: cat_promote split: sum.splits option.splits)
qed (simp_all only: service_review_version_def service_activate_version_def service_update_status_def,
     (rule disjI2 [OF cat_success] managed_catalog_step disjI2 [OF cat_review] disjI2 [OF cat_activate] disjI2 [OF cat_status])+)

lemma service_step_owned: "catalog_owned db \<Longrightarrow> service_step db db' \<Longrightarrow> catalog_owned db'"
proof (erule service_step_cases)
  fix dg pe now ids hash wid actor source q
  assume "catalog_owned db" "db' = snd (service_create_version dg pe now ids hash wid actor source q db)"
  then show "catalog_owned db'" unfolding service_create_version_def
    by (auto intro!: managed_owned create_version_by_caller by_caller_refl split: sum.splits)
next
  fix dg pe now ids hash task actor source q
  assume "catalog_owned db" "db' = snd (promote dg pe now ids hash task actor source q db)"
  then show "catalog_owned db'" unfolding promote_def by (auto intro: promote_workflow_owned split: sum.splits option.splits)
qed (auto simp: service_review_version_def service_activate_version_def service_update_status_def record_successful_steps_tables
      intro!: managed_owned review_version_by_caller activate_version_by_caller update_status_by_caller intro: owned_more)

interpretation services: invariant_system "\<lambda>db. db = empty_catalog" service_step "\<lambda>db. catalog_inv db \<and> catalog_owned db"
proof unfold_locales
  show "catalog_inv db' \<and> catalog_owned db'" if "catalog_inv db \<and> catalog_owned db" "service_step db db'" for db db'
    using that service_catalog_step [OF that(2)] catalog_step_inv service_step_owned by blast
qed (use empty_catalog_inv in \<open>simp add: catalog_owned_def empty_catalog_def\<close>)

section \<open>Properties\<close>


text \<open>The demonstration again, through the services: its second version is approved by the owner.\<close>

definition demo_promotion_env :: promotion_env where
  "demo_promotion_env = \<lparr>pe_registry = demo_registry, pe_embed = (\<lambda>_. Inr (replicate 1024 ''0'')), pe_dimensions = 1024, pe_model = ''e'', pe_sha = id\<rparr>"

definition demo_request :: promotion_request where
  "demo_request = \<lparr>pq_idempotency_key = ''k'', pq_name = ''n'', pq_description = ''d'', pq_request_examples = [], pq_tags = [], pq_defaults = []\<rparr>"

definition demo_owned :: catalog_db where
  "demo_owned = snd (promote demo_digests demo_promotion_env 0 (4, 2) ''q'' 5 ''u'' (\<lambda>_. Inr demo_source) demo_request empty_catalog)"

definition demo_paused :: catalog_db where
  "demo_paused = snd (service_update_status 1 9 ''q'' 4 ''u'' ''k1'' Wk_INACTIVE None demo_owned)"

lemma demo_owned_reachable: "reachable (\<lambda>db. db = empty_catalog) service_step demo_paused"
proof -
  have 0: "reachable (\<lambda>db. db = empty_catalog) service_step empty_catalog" by (rule reach_init) simp
  have 1: "reachable (\<lambda>db. db = empty_catalog) service_step demo_owned" unfolding demo_owned_def by (rule reach_step [OF 0 svc_promote])
  show ?thesis unfolding demo_paused_def by (rule reach_step [OF 1 svc_status])
qed

lemma demo_eligible: "eligible_source demo_registry ''u'' (Inr demo_source) = Inr demo_source"
  by (simp add: eligible_source_def promotion_policy_def demo_source_def eligible_step_def demo_step_def get_tool_def demo_registry_def
      demo_skill_def demo_tool_def)

lemma demo_prepared: "\<exists>d. prepare_version demo_promotion_env demo_source ''n'' ''d'' [] [] [] = Inr d \<and> length (vd_embedding d) = 1024
    \<and> \<not> isl (add_workflow_steps 2 0 (pd_steps (vd_plan d)) (src_steps demo_source))"
proof -
  have "case demo_template demo_params of Inl _ \<Rightarrow> False | Inr (p, contract) \<Rightarrow>
      length (pd_steps p) = 1 \<and> list_all (\<lambda>s. ps_skill s \<noteq> None \<and> ps_tool s \<noteq> None) (pd_steps p)" by code_simp
  then obtain p contract s where "demo_template demo_params = Inr (p, contract)" "pd_steps p = [s]" "ps_skill s \<noteq> None" "ps_tool s \<noteq> None"
    by (auto simp: length_Suc_conv split: sum.splits)
  then show ?thesis
    by (auto simp: prepare_version_def demo_promotion_env_def demo_source_def demo_template_def Let_def)
qed

lemma demo_owned_tables: "cg_workflows demo_owned = [promoted_workflow 0 4 ''n'' ''d'' demo_source ''u'']" "cg_actions demo_owned = []"
proof -
  obtain d rows where d: "prepare_version demo_promotion_env demo_source ''n'' ''d'' [] [] [] = Inr d" "length (vd_embedding d) = 1024"
      "add_workflow_steps 2 0 (pd_steps (vd_plan d)) (src_steps demo_source) = Inr rows"
    using demo_prepared by (auto simp: isl_def) (metis old.sum.exhaust)
  have reg: "pe_registry demo_promotion_env = demo_registry" by (simp add: demo_promotion_env_def)
  show "cg_workflows demo_owned = [promoted_workflow 0 4 ''n'' ''d'' demo_source ''u'']" "cg_actions demo_owned = []"
    unfolding demo_owned_def promote_def reg demo_eligible
    by (simp_all add: promotion_existing_def empty_catalog_def demo_request_def d promote_workflow_def atomically_def promotion_rows_def
        Let_def insert_or_raise_def insert_version_def new_version_def)
qed

lemma demo_paused_actions: "map la_actor_user_id (cg_actions demo_paused) = [''u'']"
  by (simp add: demo_paused_def service_update_status_def managed_def authorized_def locked_workflow_def workflow_of_def demo_owned_tables
      promoted_workflow_def demo_source_def owner_policy_def Let_def lifecycle_existing_def update_workflow_status_def lifecycle_def
      atomically_def update_status_body_def record_action_result_def add_action_def validate_lifecycle_def insert_or_raise_def
      update_workflow_tables new_action_def)


end
