(* ===== verification/Business_Graph.thy ===== *)
theory Business_Graph
  imports Agent_Session_Props Workflow_Catalog
begin

text \<open>
  The business graph of a task (\<open>src/ex_agent/graph\<close>, \<open>src/ex_agent/application/state.py\<close>): its state, the nodes
  of the four node groups, the routes and the topology. The services that the nodes call
  (\<open>src/ex_agent/application/ports.py\<close>) are a parameter, except for the checks that guard an approval, a
  selected workflow and a correction, which are those of \<open>src/ex_agent/application/capabilities\<close>. A node that
  interrupts takes the answer it is resumed with; a member that the dictionary may lack is an \<open>option\<close>, and a
  model that is dumped into the state and validated when it is read again is kept as it is.
\<close>

section \<open>Contracts\<close>

datatype intent = In_GENERAL_QA | In_DATA_ANALYSIS_QA | In_DATA_ANALYSIS_EXECUTION | In_CODE_EXECUTION

datatype risk_level_kind = Rk_LOW | Rk_MEDIUM | Rk_HIGH | Rk_CRITICAL

datatype executor_outcome =
  Eo_WAITING | Eo_OPERATION_SUCCEEDED | Eo_OPERATION_FAILED | Eo_SUCCEEDED | Eo_FAILED | Eo_CANCELLED

datatype multi_action = Ma_APPEND_STEP | Ma_REQUIRE_REAPPROVAL | Ma_FINALIZE | Ma_FAIL

record intent_decision =
  id_intent :: intent
  id_decision_summary :: string
  id_requires_clarification :: bool
  id_clarification_question :: "string option"
  id_requires_execution_mode :: bool
  id_requested_execution_mode :: "execution_mode option"

record risk_review =
  rk_level :: risk_level_kind
  rk_categories :: "string list"
  rk_summary :: string
  rk_evidence :: "string list"
  rk_recommended_action :: string

record workflow_candidate =
  wc_workflow_version_id :: uuid
  wc_name :: string
  wc_description :: string
  wc_plan :: plan_draft
  wc_input_contract :: "(string \<times> input_spec) list"
  wc_public_payload_hash :: string
  wc_risk :: "risk_review option"

record reconciliation =
  rc_outcome :: executor_outcome
  rc_execution_id :: uuid
  rc_execution_version :: int
  rc_operation_id :: "uuid option"
  rc_error_message :: "string option"
  rc_result_refs :: "string list"
  rc_result_summaries :: "json list"

record multi_decision =
  md_action :: multi_action
  md_rationale :: string
  md_next_step :: "plan_step option"
  md_requires_reapproval_reasons :: "string list"

record persisted_plan =
  pp_plan_id :: uuid
  pp_plan_revision_id :: uuid
  pp_plan_revision_number :: int
  pp_public_payload_hash :: string
  pp_compiled_bundle_id :: uuid

record submission_receipt =
  sr_execution_id :: uuid
  sr_operation_id :: uuid
  sr_execution_version :: int
  sr_persisted_plan :: "persisted_plan option"
  sr_plan :: "plan_draft option"

record report_result =
  rr_markdown :: string
  rr_artifact_id :: uuid

text \<open>The validators of \<open>IntentDecision\<close> and \<open>MultiDecision\<close>.\<close>

definition validate_clarification :: "intent_decision \<Rightarrow> intent_decision result" where
  "validate_clarification d =
     (if id_requires_clarification d \<and> nonempty (id_clarification_question d) = None
      then Inl (ValueError ''clarification_question is required when clarification is requested'') else Inr d)"

definition validate_action :: "multi_decision \<Rightarrow> multi_decision result" where
  "validate_action d = (if md_action d = Ma_APPEND_STEP \<and> md_next_step d = None
     then Inl (ValueError ''APPEND_STEP requires next_step'') else Inr d)"

text \<open>The constraints on the fields of an answer (\<open>validate_resume_signal\<close>); an identifier is a UUID of 128 bits.\<close>

fun execution_mode_of :: "string \<Rightarrow> execution_mode result" where
  "execution_mode_of s = (if s = ''SINGLE'' then Inr Em_SINGLE else if s = ''MULTI'' then Inr Em_MULTI
     else Inl (ValueError ''ExecutionMode''))"

fun signal_ok :: "resume_signal \<Rightarrow> bool" where
  "signal_ok (ClarificationAnswer a) = (1 \<le> length a \<and> length a \<le> 10000)"
| "signal_ok (WorkflowSelectionDecision s) = ((case ws_workflow_version_id s of None \<Rightarrow> True | Some u \<Rightarrow> valid_uuid u)
     \<and> 1 \<le> ws_proposal_version s \<and> valid_hash (ws_public_payload_hash s) \<and> is_jobj (ws_input_values s))"
| "signal_ok (ExecutionModeDecision m) = (m = ''SINGLE'' \<or> m = ''MULTI'')"
| "signal_ok (RiskConfirmationDecision _) = True"
| "signal_ok (PlanReviewDecision p) = (pr_decision p \<in> {''APPROVE'', ''REVISE'', ''REJECT''} \<and> valid_uuid (pr_plan_revision_id p) \<and> 1 \<le> pr_plan_revision_number p
     \<and> valid_hash (pr_public_payload_hash p) \<and> (case pr_feedback p of None \<Rightarrow> True | Some f \<Rightarrow> length f \<le> 5000))"
| "signal_ok (ExecutorBoundarySignal b) = (valid_uuid (bs_execution_id b) \<and> valid_uuid (bs_event_id b) \<and> 1 \<le> bs_event_sequence b
     \<and> bs_event_type b \<in> {''execution.operation_completed'', ''execution.completed''})"
| "signal_ok (CancelRequestedSignal u why) = (valid_uuid u \<and> (case why of None \<Rightarrow> True | Some r \<Rightarrow> length r \<le> 1000))"

definition validate_resume_signal :: "resume_signal \<Rightarrow> resume_signal result" where
  "validate_resume_signal s = (if signal_ok s then Inr s else Inl (ValueError ''ResumeSignal''))"

section \<open>The state of a task\<close>

text \<open>
  \<open>WorkflowState\<close> extends the part that the session graph looks into; the texts of the turn, among them the
  message that a clarification extends, are in \<open>wf_turn\<close>.
\<close>

record wstate = workflow +
  wg_intent_decision :: "intent_decision option"
  wg_clarification_count :: "int option"
  wg_planning_kind :: "planning_kind option"
  wg_execution_mode :: "execution_mode option"
  wg_workflow_candidates :: "workflow_candidate list option"
  wg_workflow_proposal_version :: "int option"
  wg_selected_workflow_version_id :: "string option"
  wg_workflow_input_values :: "json option"
  wg_plan :: "plan_draft option"
  wg_plan_id :: "string option"
  wg_plan_revision_id :: "string option"
  wg_plan_revision_number :: "int option"
  wg_plan_public_payload_hash :: "string option"
  wg_request_risk :: "risk_review option"
  wg_code_risk :: "risk_review option"
  wg_risk_acknowledged :: "bool option"
  wg_compiled_bundle_id :: "string option"
  wg_current_operation_id :: "string option"
  wg_last_executor_event_sequence :: "int option"
  wg_correction_count :: "int option"
  wg_execution_finalized :: "bool option"
  wg_executor_reconciliation :: "reconciliation option"
  wg_report_artifact_id :: "string option"
  wg_report_evidence :: "json option"
  wg_revision_feedback :: "string option"
  wg_review_action :: "string option"
  wg_multi_action :: "multi_action option"
  wg_multi_decision :: "multi_decision option"

definition get_or :: "'a option \<Rightarrow> 'a \<Rightarrow> 'a" where
  "get_or x d = (case x of None \<Rightarrow> d | Some v \<Rightarrow> v)"

lemma get_or_simps [simp]: "get_or None d = d" "get_or (Some v) d = v"
  by (simp_all add: get_or_def)

text \<open>The state of a task that the session graph has just begun.\<close>

definition fresh_wstate :: "task_turn \<Rightarrow> wstate" where
  "fresh_wstate turn = workflow.extend (new_workflow turn) (wstate.fields None None None None None None None None None None
     None None None None None None None None None None None None None None None None None None)"

section \<open>The services\<close>

record 'x workflow_services =
  sv_update_status :: "wstate \<Rightarrow> task_status \<Rightarrow> 'x \<Rightarrow> unit result \<times> 'x"
  sv_commit_terminal :: "wstate \<Rightarrow> task_status \<Rightarrow> string \<Rightarrow> 'x \<Rightarrow> unit result \<times> 'x"
  sv_commit_answer :: "wstate \<Rightarrow> string \<Rightarrow> 'x \<Rightarrow> unit result \<times> 'x"
  sv_classify_intent :: "wstate \<Rightarrow> 'x \<Rightarrow> intent_decision result \<times> 'x"
  sv_answer_question :: "wstate \<Rightarrow> bool \<Rightarrow> 'x \<Rightarrow> string result \<times> 'x"
  sv_review_request_risk :: "wstate \<Rightarrow> 'x \<Rightarrow> risk_review result \<times> 'x"
  sv_search_workflows :: "wstate \<Rightarrow> 'x \<Rightarrow> workflow_candidate list result \<times> 'x"
  sv_workflow_version :: "uuid \<Rightarrow> 'x \<Rightarrow> version_row result \<times> 'x"
  sv_build_plan :: "wstate \<Rightarrow> 'x \<Rightarrow> plan_draft result \<times> 'x"
  sv_compile_and_persist_plan :: "wstate \<Rightarrow> plan_draft \<Rightarrow> 'x \<Rightarrow> persisted_plan result \<times> 'x"
  sv_review_compiled_code_risk :: "wstate \<Rightarrow> 'x \<Rightarrow> risk_review result \<times> 'x"
  sv_lock_session :: "uuid \<Rightarrow> 'x \<Rightarrow> unit result \<times> 'x"
  sv_submit_execution :: "wstate \<Rightarrow> 'x \<Rightarrow> submission_receipt result \<times> 'x"
  sv_reconcile_executor :: "wstate \<Rightarrow> boundary_signal \<Rightarrow> 'x \<Rightarrow> reconciliation result \<times> 'x"
  sv_adapt :: "wstate \<Rightarrow> reconciliation \<Rightarrow> 'x \<Rightarrow> multi_decision result \<times> 'x"
  sv_append_operation :: "wstate \<Rightarrow> multi_decision \<Rightarrow> 'x \<Rightarrow> submission_receipt result \<times> 'x"
  sv_finalize_execution :: "wstate \<Rightarrow> 'x \<Rightarrow> unit result \<times> 'x"
  sv_cancel_execution :: "wstate \<Rightarrow> string option \<Rightarrow> 'x \<Rightarrow> unit result \<times> 'x"
  sv_build_report_evidence :: "wstate \<Rightarrow> 'x \<Rightarrow> json result \<times> 'x"
  sv_generate_report :: "wstate \<Rightarrow> json \<Rightarrow> 'x \<Rightarrow> report_result result \<times> 'x"
  sv_correction_limit :: int
  sv_registry :: registry
  sv_text_rejected :: string
  sv_text_blocked :: string
  sv_text_failed :: string
  sv_text_cancelled :: string

text \<open>
  The last four members are the Korean texts of the terminal messages. \<open>canonicalize_step_lineage\<close> is the one of
  the registry: a step keeps the names the planner chose and gets the versions and digests of the registry.
\<close>

definition canonicalize_step_lineage :: "registry \<Rightarrow> plan_step \<Rightarrow> plan_step result" where
  "canonicalize_step_lineage reg s =
     (if ps_planning_kind s \<noteq> Pk_TOOL_PLAN then Inr s
      else (case (ps_skill s, ps_tool s) of
          (Some sk, Some tool) \<Rightarrow> rbind (get_tool reg (tl_name tool)) (\<lambda>m.
             if sk_name (tm_skill m) \<noteq> sk_name sk then Inl (ValueError ''Planner returned mismatched Skill/Tool lineage'')
             else Inr (s\<lparr>ps_skill := Some (tm_skill m), ps_tool := Some (tm_tool m)\<rparr>))
        | _ \<Rightarrow> Inl (ValueError ''Tool Step is missing Skill/Tool lineage'')))"

text \<open>\<open>state[key]\<close>.\<close>

abbreviation need_key :: "'a option \<Rightarrow> string \<Rightarrow> 'x \<Rightarrow> 'a result \<times> 'x" where
  "need_key v key \<equiv> spure (need_field v key)"

definition task_id_of :: "wstate \<Rightarrow> uuid result" where
  "task_id_of w = (case uuid_parse (tt_active_task_id (wf_turn w)) of
       None \<Rightarrow> Inl (ValueError ''badly formed hexadecimal UUID string'') | Some u \<Rightarrow> Inr u)"

definition mode_text :: "execution_mode \<Rightarrow> string" where
  "mode_text m = (case m of Em_SINGLE \<Rightarrow> ''SINGLE'' | Em_MULTI \<Rightarrow> ''MULTI'')"

definition validate_plan_execution_mode :: "wstate \<Rightarrow> plan_draft \<Rightarrow> unit result" where
  "validate_plan_execution_mode w p = rbind (need_field (wg_execution_mode w) ''execution_mode'') (\<lambda>expected.
     if pd_execution_mode p \<noteq> expected
     then Inl (ValueError (''Plan execution mode '' @ mode_text (pd_execution_mode p)
       @ '' does not match selected execution mode '' @ mode_text expected))
     else Inr ())"

text \<open>\<open>verify_approval_and_lock\<close>, \<open>load_selected_workflow\<close> and \<open>adapt_multi_plan\<close> of the capabilities.\<close>

definition verify_approval_and_lock :: "'x workflow_services \<Rightarrow> wstate \<Rightarrow> 'x \<Rightarrow> unit result \<times> 'x" where
  "verify_approval_and_lock sv w =
     (if wg_review_action w \<noteq> Some ''APPROVE'' then spure (Inl (ValueError ''Plan approval is required''))
      else sbind (need_key (wg_plan w) ''plan'') (\<lambda>p.
           sbind (spure (validate_plan_execution_mode w p)) (\<lambda>_.
           sbind (spure (task_id_of w)) (\<lambda>u.
           sbind (sv_lock_session sv u) (\<lambda>_. sv_update_status sv w QUEUED_FOR_EXECUTION)))))"

definition parse_id :: "string \<Rightarrow> uuid result" where
  "parse_id s = (case uuid_parse s of None \<Rightarrow> Inl (ValueError ''badly formed hexadecimal UUID string'') | Some u \<Rightarrow> Inr u)"

definition json_items :: "json \<Rightarrow> (string \<times> json) list" where
  "json_items j = (case j of JObj m \<Rightarrow> m | _ \<Rightarrow> [])"

definition load_selected_workflow :: "'x workflow_services \<Rightarrow> wstate \<Rightarrow> 'x \<Rightarrow> (plan_draft \<times> persisted_plan) result \<times> 'x" where
  "load_selected_workflow sv w =
     sbind (need_key (wg_selected_workflow_version_id w) ''selected_workflow_version_id'') (\<lambda>s.
     sbind (spure (parse_id s)) (\<lambda>u.
       (case find (\<lambda>c. wc_workflow_version_id c = u) (get_or (wg_workflow_candidates w) []) of
          None \<Rightarrow> spure (Inl (ValueError ''Selected Workflow was not in the proposed set''))
        | Some c \<Rightarrow> sbind (sv_workflow_version sv u) (\<lambda>v.
            if wv_public_payload_hash v \<noteq> wc_public_payload_hash c
            then spure (Inl (ValueError ''Selected Workflow version changed after proposal''))
            else sbind (spure (bind_workflow_inputs (wv_plan_payload v) (wv_input_contract v)
                          (json_items (get_or (wg_workflow_input_values w) (JObj []))))) (\<lambda>p.
                 sbind (sv_compile_and_persist_plan sv w p) (\<lambda>q. spure (Inr (p, q))))))))"

definition adapt_multi_plan_service :: "'x workflow_services \<Rightarrow> wstate \<Rightarrow> reconciliation \<Rightarrow> 'x \<Rightarrow> multi_decision result \<times> 'x" where
  "adapt_multi_plan_service sv w r =
     (if rc_outcome r = Eo_OPERATION_FAILED \<and> sv_correction_limit sv \<le> get_or (wg_correction_count w) 0
      then spure (Inr \<lparr>md_action = Ma_FAIL, md_rationale = ''The automatic correction limit was reached.'',
             md_next_step = None, md_requires_reapproval_reasons = []\<rparr>)
      else sbind (sv_adapt sv w r) (\<lambda>raw. spure (rbind (validate_action raw) (\<lambda>d.
        (case md_next_step d of
           None \<Rightarrow> Inr d
         | Some s \<Rightarrow> rbind (canonicalize_step_lineage (sv_registry sv) s) (\<lambda>s'. Inr (d\<lparr>md_next_step := Some s'\<rparr>)))))))"

section \<open>The nodes\<close>

text \<open>\<open>ConversationNodes\<close>. A node returns the state after its updates were merged.\<close>

definition hydrate_turn :: "'x workflow_services \<Rightarrow> wstate \<Rightarrow> 'x \<Rightarrow> wstate result \<times> 'x" where
  "hydrate_turn sv w = sbind (sv_update_status sv w CLASSIFYING) (\<lambda>_.
     spure (Inr (w\<lparr>wf_phase := CLASSIFYING, wg_clarification_count := Some (get_or (wg_clarification_count w) 0),
       wg_correction_count := Some 0, wg_risk_acknowledged := Some False\<rparr>)))"

definition classify_intent :: "'x workflow_services \<Rightarrow> wstate \<Rightarrow> 'x \<Rightarrow> wstate result \<times> 'x" where
  "classify_intent sv w = sbind (sv_classify_intent sv w) (\<lambda>raw. sbind (spure (validate_clarification raw)) (\<lambda>d.
     spure (Inr (let w1 = w\<lparr>wg_intent_decision := Some d\<rparr> in
       if id_intent d = In_CODE_EXECUTION \<or> id_intent d = In_DATA_ANALYSIS_EXECUTION
       then (let w2 = w1\<lparr>wg_planning_kind := Some (if id_intent d = In_CODE_EXECUTION then Pk_CUSTOM_CODE else Pk_TOOL_PLAN)\<rparr>
             in case id_requested_execution_mode d of None \<Rightarrow> w2 | Some m \<Rightarrow> w2\<lparr>wg_execution_mode := Some m\<rparr>)
       else w1))))"

definition clarify_request :: "resume_signal \<Rightarrow> wstate \<Rightarrow> wstate result" where
  "clarify_request raw w = rbind (need_field (wg_intent_decision w) ''intent_decision'') (\<lambda>_.
     rbind (validate_resume_signal raw) (\<lambda>signal.
       (case signal of
          ClarificationAnswer answer \<Rightarrow>
            Inr (w\<lparr>wf_turn := (wf_turn w)\<lparr>tt_user_message :=
                     tt_user_message (wf_turn w) @ [CHR 0x0A, CHR 0x0A] @ ''Clarification: '' @ answer\<rparr>,
                   wg_clarification_count := Some (get_or (wg_clarification_count w) 0 + 1)\<rparr>)
        | _ \<Rightarrow> Inl (TypeError ''ClarificationAnswer is required''))))"

definition answer_node :: "bool \<Rightarrow> 'x workflow_services \<Rightarrow> wstate \<Rightarrow> 'x \<Rightarrow> wstate result \<times> 'x" where
  "answer_node data_analysis sv w = sbind (sv_update_status sv w ANSWERING) (\<lambda>_.
     sbind (sv_answer_question sv w data_analysis) (\<lambda>a. spure (Inr (w\<lparr>wf_phase := ANSWERING, wf_answer := Some a\<rparr>))))"

definition commit_answer :: "'x workflow_services \<Rightarrow> wstate \<Rightarrow> 'x \<Rightarrow> wstate result \<times> 'x" where
  "commit_answer sv w = sbind (need_key (wf_answer w) ''answer'') (\<lambda>a.
     sbind (sv_commit_answer sv w a) (\<lambda>_. spure (Inr (w\<lparr>wf_phase := SUCCEEDED\<rparr>))))"

text \<open>\<open>PlanningNodes\<close>.\<close>

definition choose_execution_mode :: "resume_signal \<Rightarrow> wstate \<Rightarrow> wstate result" where
  "choose_execution_mode raw w = rbind (validate_resume_signal raw) (\<lambda>signal.
     (case signal of
        ExecutionModeDecision m \<Rightarrow> rbind (execution_mode_of m) (\<lambda>mode.
          Inr (w\<lparr>wg_execution_mode := Some mode, wg_planning_kind := Some Pk_CUSTOM_CODE\<rparr>))
      | _ \<Rightarrow> Inl (TypeError ''ExecutionModeDecision is required'')))"

definition review_request_risk :: "'x workflow_services \<Rightarrow> wstate \<Rightarrow> 'x \<Rightarrow> wstate result \<times> 'x" where
  "review_request_risk sv w = sbind (sv_review_request_risk sv w) (\<lambda>r. spure (Inr (w\<lparr>wg_request_risk := Some r\<rparr>)))"

definition confirm_request_risk :: "resume_signal \<Rightarrow> wstate \<Rightarrow> wstate result" where
  "confirm_request_risk raw w = rbind (need_field (wg_request_risk w) ''request_risk'') (\<lambda>r.
     rbind (validate_resume_signal raw) (\<lambda>signal.
       (case signal of
          RiskConfirmationDecision confirmed \<Rightarrow>
            if \<not> confirmed then Inr (w\<lparr>wg_request_risk := Some (r\<lparr>rk_level := Rk_CRITICAL\<rparr>)\<rparr>)
            else Inr (w\<lparr>wg_risk_acknowledged := Some True\<rparr>)
        | _ \<Rightarrow> Inl (TypeError ''RiskConfirmationDecision is required''))))"

definition search_workflows :: "'x workflow_services \<Rightarrow> wstate \<Rightarrow> 'x \<Rightarrow> wstate result \<times> 'x" where
  "search_workflows sv w = sbind (sv_search_workflows sv w) (\<lambda>cs.
     spure (Inr (w\<lparr>wg_workflow_candidates := Some cs, wg_workflow_proposal_version := Some 1,
       wg_execution_mode := Some (get_or (wg_execution_mode w) Em_MULTI), wg_planning_kind := Some Pk_TOOL_PLAN\<rparr>)))"

text \<open>The checks of \<open>choose_workflow\<close> on a selected version.\<close>

definition selection_ok :: "workflow_candidate list \<Rightarrow> workflow_selection \<Rightarrow> unit result" where
  "selection_ok cs s = (case ws_workflow_version_id s of
       None \<Rightarrow> Inr ()
     | Some u \<Rightarrow> (case find (\<lambda>c. wc_workflow_version_id c = u) cs of
         None \<Rightarrow> Inl (ValueError ''Workflow was not in the proposed set'')
       | Some c \<Rightarrow>
          if ws_public_payload_hash s \<noteq> wc_public_payload_hash c then Inl (ValueError ''Stale Workflow payload decision'')
          else if (case wc_risk c of None \<Rightarrow> False | Some r \<Rightarrow> rk_level r = Rk_HIGH) \<and> \<not> ws_risk_acknowledged s
          then Inl (ValueError ''HIGH risk Workflow requires acknowledgement'')
          else Inr ()))"

definition choose_workflow :: "resume_signal \<Rightarrow> wstate \<Rightarrow> wstate result" where
  "choose_workflow raw w = rbind (need_field (wg_workflow_proposal_version w) ''workflow_proposal_version'') (\<lambda>version.
     rbind (need_field (wg_workflow_candidates w) ''workflow_candidates'') (\<lambda>cs.
     rbind (validate_resume_signal raw) (\<lambda>signal.
       (case signal of
          WorkflowSelectionDecision s \<Rightarrow>
            if ws_proposal_version s \<noteq> version then Inl (ValueError ''Stale Workflow proposal decision'')
            else rbind (selection_ok cs s) (\<lambda>_. let picked = ws_workflow_version_id s in
              Inr (w\<lparr>wg_selected_workflow_version_id := Some (case picked of None \<Rightarrow> [] | Some u \<Rightarrow> uuid_str u),
                wg_workflow_input_values := Some (ws_input_values s),
                wg_execution_mode := Some (if picked \<noteq> None then Em_SINGLE else get_or (wg_execution_mode w) Em_MULTI),
                wg_planning_kind := Some (if picked \<noteq> None then Pk_FIXED_WORKFLOW else Pk_TOOL_PLAN),
                wg_review_action := Some (if picked \<noteq> None then ''APPROVE'' else []),
                wg_risk_acknowledged := Some (ws_risk_acknowledged s)\<rparr>))
        | _ \<Rightarrow> Inl (TypeError ''WorkflowSelectionDecision is required'')))))"

definition persisted_plan_updates :: "plan_draft \<Rightarrow> persisted_plan \<Rightarrow> wstate \<Rightarrow> wstate" where
  "persisted_plan_updates p q w = w\<lparr>wg_plan := Some p, wg_plan_id := Some (uuid_str (pp_plan_id q)),
     wg_plan_revision_id := Some (uuid_str (pp_plan_revision_id q)), wg_plan_revision_number := Some (pp_plan_revision_number q),
     wg_plan_public_payload_hash := Some (pp_public_payload_hash q),
     wg_compiled_bundle_id := Some (uuid_str (pp_compiled_bundle_id q))\<rparr>"

definition load_workflow_node :: "'x workflow_services \<Rightarrow> wstate \<Rightarrow> 'x \<Rightarrow> wstate result \<times> 'x" where
  "load_workflow_node sv w = sbind (load_selected_workflow sv w) (\<lambda>(p, q). spure (Inr (persisted_plan_updates p q w)))"

definition build_plan :: "'x workflow_services \<Rightarrow> wstate \<Rightarrow> 'x \<Rightarrow> wstate result \<times> 'x" where
  "build_plan sv w = sbind (sv_update_status sv w PLANNING) (\<lambda>_.
     sbind (sv_build_plan sv w) (\<lambda>p. spure (Inr (w\<lparr>wf_phase := PLANNING, wg_plan := Some p\<rparr>))))"

definition compile_and_persist_plan :: "'x workflow_services \<Rightarrow> wstate \<Rightarrow> 'x \<Rightarrow> wstate result \<times> 'x" where
  "compile_and_persist_plan sv w = sbind (need_key (wg_plan w) ''plan'') (\<lambda>p.
     sbind (sv_compile_and_persist_plan sv w p) (\<lambda>q. spure (Inr (persisted_plan_updates p q w))))"

definition review_compiled_code_risk :: "'x workflow_services \<Rightarrow> wstate \<Rightarrow> 'x \<Rightarrow> wstate result \<times> 'x" where
  "review_compiled_code_risk sv w =
     sbind (sv_review_compiled_code_risk sv w) (\<lambda>r. spure (Inr (w\<lparr>wg_code_risk := Some r\<rparr>)))"

definition review_plan :: "resume_signal \<Rightarrow> wstate \<Rightarrow> wstate result" where
  "review_plan raw w =
     rbind (need_field (wg_plan_revision_id w) ''plan_revision_id'') (\<lambda>rid.
     rbind (need_field (wg_plan_revision_number w) ''plan_revision_number'') (\<lambda>number.
     rbind (need_field (wg_plan_public_payload_hash w) ''plan_public_payload_hash'') (\<lambda>hash.
     rbind (need_field (wg_plan w) ''plan'') (\<lambda>_.
     rbind (need_field (wg_code_risk w) ''code_risk'') (\<lambda>risk.
     rbind (validate_resume_signal raw) (\<lambda>signal.
       (case signal of
          PlanReviewDecision p \<Rightarrow>
            if uuid_str (pr_plan_revision_id p) \<noteq> rid then Inl (ValueError ''Stale Plan revision decision'')
            else if pr_plan_revision_number p \<noteq> number then Inl (ValueError ''Stale Plan revision number'')
            else if pr_public_payload_hash p \<noteq> hash then Inl (ValueError ''Stale Plan payload decision'')
            else if pr_decision p = ''APPROVE'' \<and> rk_level risk = Rk_HIGH \<and> \<not> pr_risk_acknowledged p
            then Inl (ValueError ''HIGH risk Plan requires acknowledgement'')
            else Inr (w\<lparr>wg_review_action := Some (pr_decision p), wg_revision_feedback := Some (get_or (pr_feedback p) []),
                   wg_risk_acknowledged := Some (pr_risk_acknowledged p)\<rparr>)
        | _ \<Rightarrow> Inl (TypeError ''PlanReviewDecision is required''))))))))"

definition verify_approval :: "'x workflow_services \<Rightarrow> wstate \<Rightarrow> 'x \<Rightarrow> wstate result \<times> 'x" where
  "verify_approval sv w = sbind (verify_approval_and_lock sv w) (\<lambda>_. spure (Inr (w\<lparr>wf_phase := QUEUED_FOR_EXECUTION\<rparr>)))"

text \<open>\<open>ExecutionNodes\<close>.\<close>

definition submit_execution :: "'x workflow_services \<Rightarrow> wstate \<Rightarrow> 'x \<Rightarrow> wstate result \<times> 'x" where
  "submit_execution sv w = sbind (sv_submit_execution sv w) (\<lambda>receipt.
     spure (Inr (w\<lparr>wf_phase := WAITING_FOR_EXECUTOR_EVENT, wf_execution_id := Some (uuid_str (sr_execution_id receipt)),
       wg_current_operation_id := Some (uuid_str (sr_operation_id receipt))\<rparr>)))"

definition wait_signal :: "resume_signal \<Rightarrow> wstate \<Rightarrow> wstate result" where
  "wait_signal raw w = rbind (need_field (wf_execution_id w) ''execution_id'') (\<lambda>_.
     rbind (validate_resume_signal raw) (\<lambda>signal.
       if is_executor_signal signal \<or> is_cancel_signal signal then Inr (w\<lparr>wf_external_signal := Some signal\<rparr>)
       else Inl (TypeError ''Executor boundary or cancel signal is required'')))"

definition boundary_signal_of :: "wstate \<Rightarrow> boundary_signal result" where
  "boundary_signal_of w = rbind (need_field (wf_external_signal w) ''external_signal'') (\<lambda>s.
     (case s of ExecutorBoundarySignal b \<Rightarrow> Inr b | _ \<Rightarrow> Inl (ValueError ''ExecutorBoundarySignal'')))"

definition reconcile_executor :: "'x workflow_services \<Rightarrow> wstate \<Rightarrow> 'x \<Rightarrow> wstate result \<times> 'x" where
  "reconcile_executor sv w = sbind (spure (boundary_signal_of w)) (\<lambda>signal.
     sbind (sv_reconcile_executor sv w signal) (\<lambda>r.
       spure (Inr (w\<lparr>wg_executor_reconciliation := Some r,
         wg_last_executor_event_sequence := Some (bs_event_sequence signal)\<rparr>))))"

definition adapt_multi_plan :: "'x workflow_services \<Rightarrow> wstate \<Rightarrow> 'x \<Rightarrow> wstate result \<times> 'x" where
  "adapt_multi_plan sv w = sbind (need_key (wg_executor_reconciliation w) ''executor_reconciliation'') (\<lambda>r.
     sbind (adapt_multi_plan_service sv w r) (\<lambda>d.
       (let w1 = w\<lparr>wg_multi_action := Some (md_action d), wg_multi_decision := Some d,
                   wg_correction_count := (if rc_outcome r = Eo_OPERATION_FAILED
                      then Some (get_or (wg_correction_count w) 0 + 1) else wg_correction_count w)\<rparr>
        in (case md_next_step d of
              None \<Rightarrow> spure (Inr w1)
            | Some s \<Rightarrow> sbind (need_key (wg_plan w) ''plan'') (\<lambda>p.
                spure (Inr (w1\<lparr>wg_plan := Some (p\<lparr>pd_steps := [s\<lparr>ps_sequence := 0\<rparr>]\<rparr>)\<rparr>)))))))"

definition append_operation :: "'x workflow_services \<Rightarrow> wstate \<Rightarrow> 'x \<Rightarrow> wstate result \<times> 'x" where
  "append_operation sv w = sbind (need_key (wg_multi_decision w) ''multi_decision'') (\<lambda>d.
     sbind (sv_append_operation sv w d) (\<lambda>receipt.
       (let w1 = w\<lparr>wg_current_operation_id := Some (uuid_str (sr_operation_id receipt))\<rparr>
        in (case sr_persisted_plan receipt of
              None \<Rightarrow> spure (Inr w1)
            | Some q \<Rightarrow> (case sr_plan receipt of
                None \<Rightarrow> spure (Inl (ValueError ''Append receipt requires persisted plan''))
              | Some p \<Rightarrow> spure (Inr (persisted_plan_updates p q w1)))))))"

definition finalize_execution :: "'x workflow_services \<Rightarrow> wstate \<Rightarrow> 'x \<Rightarrow> wstate result \<times> 'x" where
  "finalize_execution sv w = sbind (sv_finalize_execution sv w) (\<lambda>_. spure (Inr (w\<lparr>wg_execution_finalized := Some True\<rparr>)))"

definition cancel_execution_node :: "'x workflow_services \<Rightarrow> wstate \<Rightarrow> 'x \<Rightarrow> wstate result \<times> 'x" where
  "cancel_execution_node sv w = sbind (need_key (wf_external_signal w) ''external_signal'') (\<lambda>s.
     (case s of
        CancelRequestedSignal _ why \<Rightarrow> sbind (sv_cancel_execution sv w why) (\<lambda>_. spure (Inr (w\<lparr>wf_phase := CANCEL_REQUESTED\<rparr>)))
      | _ \<Rightarrow> spure (Inl (ValueError ''CancelRequestedSignal''))))"

text \<open>\<open>TerminalNodes\<close>.\<close>

definition build_report_evidence :: "'x workflow_services \<Rightarrow> wstate \<Rightarrow> 'x \<Rightarrow> wstate result \<times> 'x" where
  "build_report_evidence sv w = sbind (sv_build_report_evidence sv w) (\<lambda>e.
     spure (Inr (w\<lparr>wf_phase := GENERATING_REPORT, wg_report_evidence := Some e\<rparr>)))"

definition generate_report :: "'x workflow_services \<Rightarrow> wstate \<Rightarrow> 'x \<Rightarrow> wstate result \<times> 'x" where
  "generate_report sv w = sbind (need_key (wg_report_evidence w) ''report_evidence'') (\<lambda>e.
     sbind (sv_generate_report sv w e) (\<lambda>r. spure (Inr (w\<lparr>wf_report_markdown := Some (rr_markdown r),
       wg_report_artifact_id := Some (uuid_str (rr_artifact_id r))\<rparr>))))"

definition commit_success :: "'x workflow_services \<Rightarrow> wstate \<Rightarrow> 'x \<Rightarrow> wstate result \<times> 'x" where
  "commit_success sv w = sbind (need_key (wf_report_markdown w) ''report_markdown'') (\<lambda>m.
     sbind (sv_commit_terminal sv w SUCCEEDED m) (\<lambda>_. spure (Inr (w\<lparr>wf_phase := SUCCEEDED\<rparr>))))"

definition commit_with :: "task_status \<Rightarrow> string \<Rightarrow> 'x workflow_services \<Rightarrow> wstate \<Rightarrow> 'x \<Rightarrow> wstate result \<times> 'x" where
  "commit_with status message sv w = sbind (sv_commit_terminal sv w status message) (\<lambda>_.
     spure (Inr (w\<lparr>wf_phase := status, wf_terminal_message := Some message\<rparr>)))"

definition commit_rejected :: "'x workflow_services \<Rightarrow> wstate \<Rightarrow> 'x \<Rightarrow> wstate result \<times> 'x" where
  "commit_rejected sv w = commit_with REJECTED (sv_text_rejected sv) sv w"

definition commit_blocked :: "'x workflow_services \<Rightarrow> wstate \<Rightarrow> 'x \<Rightarrow> wstate result \<times> 'x" where
  "commit_blocked sv w = sbind (case wg_code_risk w of Some r \<Rightarrow> spure (Inr r) | None \<Rightarrow> need_key (wg_request_risk w) ''request_risk'')
     (\<lambda>review. commit_with FAILED (sv_text_blocked sv @ '': '' @ rk_summary review) sv w)"

definition commit_failed :: "'x workflow_services \<Rightarrow> wstate \<Rightarrow> 'x \<Rightarrow> wstate result \<times> 'x" where
  "commit_failed sv w = sbind (need_key (wg_executor_reconciliation w) ''executor_reconciliation'') (\<lambda>r.
     commit_with FAILED (case nonempty (rc_error_message r) of Some m \<Rightarrow> m | None \<Rightarrow> sv_text_failed sv) sv w)"

definition commit_cancelled :: "'x workflow_services \<Rightarrow> wstate \<Rightarrow> 'x \<Rightarrow> wstate result \<times> 'x" where
  "commit_cancelled sv w = commit_with CANCELLED (sv_text_cancelled sv) sv w"

section \<open>Routes and topology\<close>

datatype node =
    Hydrate_turn | Classify_intent | Clarify_request | Answer_general | Answer_data_question | Commit_answer
  | Choose_execution_mode | Review_request_risk | Confirm_request_risk | Search_workflows | Choose_workflow
  | Load_selected_workflow | Build_plan | Compile_and_persist_plan | Review_compiled_code_risk | Review_plan
  | Verify_approval | Submit_execution | Wait_external_signal | Reconcile_executor | Adapt_multi_plan
  | Append_operation | Finalize_execution | Cancel_execution | Build_report_evidence | Generate_report
  | Commit_success | Commit_rejected | Commit_blocked | Commit_failed | Commit_cancelled | END

definition route_intent :: "wstate \<Rightarrow> node result" where
  "route_intent w = rbind (need_field (wg_intent_decision w) ''intent_decision'') (\<lambda>d. Inr
     (if id_requires_clarification d then Clarify_request
      else if id_intent d = In_GENERAL_QA then Answer_general
      else if id_intent d = In_DATA_ANALYSIS_QA then Answer_data_question
      else if id_intent d = In_DATA_ANALYSIS_EXECUTION then Review_request_risk
      else if id_requested_execution_mode d \<noteq> None then Review_request_risk
      else Choose_execution_mode))"

definition route_request_risk :: "wstate \<Rightarrow> node result" where
  "route_request_risk w = rbind (need_field (wg_request_risk w) ''request_risk'') (\<lambda>review.
     if rk_level review = Rk_CRITICAL then Inr Commit_blocked
     else if rk_level review = Rk_HIGH \<and> \<not> get_or (wg_risk_acknowledged w) False then Inr Confirm_request_risk
     else rbind (need_field (wg_intent_decision w) ''intent_decision'') (\<lambda>d.
       Inr (if id_intent d = In_DATA_ANALYSIS_EXECUTION then Search_workflows else Build_plan)))"

definition route_workflow_search :: "wstate \<Rightarrow> node" where
  "route_workflow_search w = (if get_or (wg_workflow_candidates w) [] \<noteq> [] then Choose_workflow else Build_plan)"

definition route_workflow_decision :: "wstate \<Rightarrow> node" where
  "route_workflow_decision w = (if nonempty (wg_selected_workflow_version_id w) \<noteq> None then Load_selected_workflow else Build_plan)"

definition route_code_risk :: "wstate \<Rightarrow> node result" where
  "route_code_risk w = rbind (need_field (wg_code_risk w) ''code_risk'') (\<lambda>review.
     if rk_level review = Rk_CRITICAL then Inr Commit_blocked
     else rbind (need_field (wg_planning_kind w) ''planning_kind'') (\<lambda>kind.
       Inr (if kind = Pk_FIXED_WORKFLOW
            then (if rk_level review = Rk_HIGH \<and> \<not> get_or (wg_risk_acknowledged w) False then Review_plan else Verify_approval)
            else Review_plan)))"

definition route_plan_review :: "wstate \<Rightarrow> node result" where
  "route_plan_review w = rbind (need_field (wg_review_action w) ''review_action'') (\<lambda>action. Inr
     (if action = ''REVISE'' then Build_plan else if action = ''REJECT'' then Commit_rejected else Verify_approval))"

definition route_approved_execution :: "wstate \<Rightarrow> node" where
  "route_approved_execution w = (if nonempty (wf_execution_id w) \<noteq> None then Append_operation else Submit_execution)"

definition route_external_signal :: "wstate \<Rightarrow> node result" where
  "route_external_signal w = rbind (need_field (wf_external_signal w) ''external_signal'') (\<lambda>s.
     Inr (if signal_type s = ''CANCEL_REQUESTED'' then Cancel_execution else Reconcile_executor))"

definition route_reconciliation :: "wstate \<Rightarrow> node result" where
  "route_reconciliation w = rbind (need_field (wg_executor_reconciliation w) ''executor_reconciliation'') (\<lambda>r.
     (case rc_outcome r of
        Eo_WAITING \<Rightarrow> Inr Wait_external_signal
      | Eo_SUCCEEDED \<Rightarrow> Inr Build_report_evidence
      | Eo_CANCELLED \<Rightarrow> Inr Commit_cancelled
      | oc \<Rightarrow> rbind (need_field (wg_execution_mode w) ''execution_mode'') (\<lambda>mode.
          Inr (if mode = Em_MULTI \<and> (oc = Eo_OPERATION_SUCCEEDED \<or> oc = Eo_OPERATION_FAILED)
               then Adapt_multi_plan else Commit_failed))))"

definition route_multi_action :: "wstate \<Rightarrow> node result" where
  "route_multi_action w = rbind (need_field (wg_multi_action w) ''multi_action'') (\<lambda>action. Inr
     (case action of Ma_APPEND_STEP \<Rightarrow> Append_operation | Ma_REQUIRE_REAPPROVAL \<Rightarrow> Compile_and_persist_plan
        | Ma_FINALIZE \<Rightarrow> Finalize_execution | Ma_FAIL \<Rightarrow> Commit_failed))"

text \<open>\<open>EDGES\<close> and \<open>ROUTES\<close>: the node after the one that has run.\<close>

fun next_node :: "node \<Rightarrow> wstate \<Rightarrow> node result" where
  "next_node Hydrate_turn w = Inr Classify_intent"
| "next_node Classify_intent w = route_intent w"
| "next_node Clarify_request w = Inr Classify_intent"
| "next_node Answer_general w = Inr Commit_answer"
| "next_node Answer_data_question w = Inr Commit_answer"
| "next_node Commit_answer w = Inr END"
| "next_node Choose_execution_mode w = Inr Review_request_risk"
| "next_node Review_request_risk w = route_request_risk w"
| "next_node Confirm_request_risk w = route_request_risk w"
| "next_node Search_workflows w = Inr (route_workflow_search w)"
| "next_node Choose_workflow w = Inr (route_workflow_decision w)"
| "next_node Load_selected_workflow w = Inr Review_compiled_code_risk"
| "next_node Build_plan w = Inr Compile_and_persist_plan"
| "next_node Compile_and_persist_plan w = Inr Review_compiled_code_risk"
| "next_node Review_compiled_code_risk w = route_code_risk w"
| "next_node Review_plan w = route_plan_review w"
| "next_node Verify_approval w = Inr (route_approved_execution w)"
| "next_node Submit_execution w = Inr Wait_external_signal"
| "next_node Wait_external_signal w = route_external_signal w"
| "next_node Reconcile_executor w = route_reconciliation w"
| "next_node Adapt_multi_plan w = route_multi_action w"
| "next_node Append_operation w = Inr Wait_external_signal"
| "next_node Finalize_execution w = Inr Wait_external_signal"
| "next_node Cancel_execution w = Inr Wait_external_signal"
| "next_node Build_report_evidence w = Inr Generate_report"
| "next_node Generate_report w = Inr Commit_success"
| "next_node Commit_success w = Inr END"
| "next_node Commit_rejected w = Inr END"
| "next_node Commit_blocked w = Inr END"
| "next_node Commit_failed w = Inr END"
| "next_node Commit_cancelled w = Inr END"
| "next_node END w = Inr END"

text \<open>The destinations that the return types of the routes declare, which the graph builder installs as edges.\<close>

fun destinations :: "node \<Rightarrow> node list" where
  "destinations Hydrate_turn = [Classify_intent]"
| "destinations Classify_intent = [Clarify_request, Answer_general, Answer_data_question, Review_request_risk, Choose_execution_mode]"
| "destinations Clarify_request = [Classify_intent]"
| "destinations Answer_general = [Commit_answer]"
| "destinations Answer_data_question = [Commit_answer]"
| "destinations Choose_execution_mode = [Review_request_risk]"
| "destinations Review_request_risk = [Commit_blocked, Confirm_request_risk, Search_workflows, Build_plan]"
| "destinations Confirm_request_risk = [Commit_blocked, Confirm_request_risk, Search_workflows, Build_plan]"
| "destinations Search_workflows = [Choose_workflow, Build_plan]"
| "destinations Choose_workflow = [Load_selected_workflow, Build_plan]"
| "destinations Load_selected_workflow = [Review_compiled_code_risk]"
| "destinations Build_plan = [Compile_and_persist_plan]"
| "destinations Compile_and_persist_plan = [Review_compiled_code_risk]"
| "destinations Review_compiled_code_risk = [Commit_blocked, Review_plan, Verify_approval]"
| "destinations Review_plan = [Build_plan, Commit_rejected, Verify_approval]"
| "destinations Verify_approval = [Submit_execution, Append_operation]"
| "destinations Submit_execution = [Wait_external_signal]"
| "destinations Wait_external_signal = [Cancel_execution, Reconcile_executor]"
| "destinations Reconcile_executor = [Wait_external_signal, Adapt_multi_plan, Build_report_evidence, Commit_failed, Commit_cancelled]"
| "destinations Adapt_multi_plan = [Append_operation, Compile_and_persist_plan, Finalize_execution, Commit_failed]"
| "destinations Append_operation = [Wait_external_signal]"
| "destinations Finalize_execution = [Wait_external_signal]"
| "destinations Cancel_execution = [Wait_external_signal]"
| "destinations Build_report_evidence = [Generate_report]"
| "destinations Generate_report = [Commit_success]"
| "destinations _ = [END]"

text \<open>\<open>NODES\<close>: what a node does. A node that interrupts runs only with an answer.\<close>

fun asks :: "node \<Rightarrow> (resume_signal \<Rightarrow> wstate \<Rightarrow> wstate result) option" where
  "asks Clarify_request = Some clarify_request"
| "asks Choose_execution_mode = Some choose_execution_mode"
| "asks Confirm_request_risk = Some confirm_request_risk"
| "asks Choose_workflow = Some choose_workflow"
| "asks Review_plan = Some review_plan"
| "asks Wait_external_signal = Some wait_signal"
| "asks _ = None"

fun node_body :: "'x workflow_services \<Rightarrow> node \<Rightarrow> wstate \<Rightarrow> 'x \<Rightarrow> wstate result \<times> 'x" where
  "node_body sv Hydrate_turn = hydrate_turn sv"
| "node_body sv Classify_intent = classify_intent sv"
| "node_body sv Answer_general = answer_node False sv"
| "node_body sv Answer_data_question = answer_node True sv"
| "node_body sv Commit_answer = commit_answer sv"
| "node_body sv Review_request_risk = review_request_risk sv"
| "node_body sv Search_workflows = search_workflows sv"
| "node_body sv Load_selected_workflow = load_workflow_node sv"
| "node_body sv Build_plan = build_plan sv"
| "node_body sv Compile_and_persist_plan = compile_and_persist_plan sv"
| "node_body sv Review_compiled_code_risk = review_compiled_code_risk sv"
| "node_body sv Verify_approval = verify_approval sv"
| "node_body sv Submit_execution = submit_execution sv"
| "node_body sv Reconcile_executor = reconcile_executor sv"
| "node_body sv Adapt_multi_plan = adapt_multi_plan sv"
| "node_body sv Append_operation = append_operation sv"
| "node_body sv Finalize_execution = finalize_execution sv"
| "node_body sv Cancel_execution = cancel_execution_node sv"
| "node_body sv Build_report_evidence = build_report_evidence sv"
| "node_body sv Generate_report = generate_report sv"
| "node_body sv Commit_success = commit_success sv"
| "node_body sv Commit_rejected = commit_rejected sv"
| "node_body sv Commit_blocked = commit_blocked sv"
| "node_body sv Commit_failed = commit_failed sv"
| "node_body sv Commit_cancelled = commit_cancelled sv"
| "node_body sv n = (\<lambda>w. spure (Inr w))"

definition run_node :: "'x workflow_services \<Rightarrow> node \<Rightarrow> resume_signal \<Rightarrow> wstate \<Rightarrow> 'x \<Rightarrow> wstate result \<times> 'x" where
  "run_node sv n answer w = (case asks n of Some ask \<Rightarrow> spure (ask answer w) | None \<Rightarrow> node_body sv n w)"

end
