(* ===== verification/Business_Graph_Props.thy ===== *)
theory Business_Graph_Props
  imports Business_Graph Agent_Projector Workflow_Catalog_Props
begin

text \<open>
  What the business graph guarantees whatever its services answer and whoever else changes the world: code is
  submitted only after its risk was reviewed and its plan approved, a critical or unconfirmed request is never
  planned, a task is finished exactly at the end of the graph, every node finds the members it reads, and
  corrections are bounded. The step relation keeps the visited nodes as a history.
\<close>

section \<open>Runs of the graph\<close>

record 'x visit =
  vs_node :: node
  vs_answer :: resume_signal
  vs_world :: 'x
  vs_before :: wstate
  vs_after :: wstate

type_synonym 'x graph_config = "node \<times> wstate \<times> 'x \<times> 'x visit list"

text \<open>A node runs and the graph moves on, or raises and is run again; other processes change the world.\<close>

inductive graph_step :: "'x workflow_services \<Rightarrow> 'x graph_config \<Rightarrow> 'x graph_config \<Rightarrow> bool" for sv where
  gs_run: "n \<noteq> END \<Longrightarrow> run_node sv n a w x = (Inr w', x') \<Longrightarrow> next_node n w' = Inr n' \<Longrightarrow>
     graph_step sv (n, w, x, tr) (n', w', x', tr @ [\<lparr>vs_node = n, vs_answer = a, vs_world = x, vs_before = w, vs_after = w'\<rparr>])"
| gs_raise: "run_node sv n a w x = (Inl e, x') \<Longrightarrow> graph_step sv (n, w, x, tr) (n, w, x', tr)"
| gs_world: "graph_step sv (n, w, x, tr) (n, w, x', tr)"

inductive_cases graph_stepE: "graph_step sv (n, w, x, tr) (n', w', x', tr')"

fun graph_init :: "'x graph_config \<Rightarrow> bool" where
  "graph_init (n, w, x, tr) = (n = Hydrate_turn \<and> (\<exists>turn. w = fresh_wstate turn) \<and> tr = [])"

abbreviation graph_reachable :: "'x workflow_services \<Rightarrow> 'x graph_config \<Rightarrow> bool" where
  "graph_reachable sv \<equiv> reachable graph_init (graph_step sv)"

section \<open>What a node does\<close>

lemma sbind_ok [exn_simps]: "sbind m f s = (Inr y, t) \<longleftrightarrow> (\<exists>x s'. m s = (Inr x, s') \<and> f x s' = (Inr y, t))"
  by (auto simp: sbind_eq)

lemma spure_ok [exn_simps]: "spure r s = (Inr y, t) \<longleftrightarrow> r = Inr y \<and> t = s"
  by (auto simp: spure_def)

lemma need_field_ok [exn_simps]: "need_field v k = Inr y \<longleftrightarrow> v = Some y"
  by (simp add: need_field_def split: option.splits)

lemmas conversation_defs = hydrate_turn_def classify_intent_def clarify_request_def answer_node_def commit_answer_def
  validate_clarification_def validate_resume_signal_def

lemmas planning_defs = choose_execution_mode_def review_request_risk_def confirm_request_risk_def search_workflows_def
  choose_workflow_def load_workflow_node_def load_selected_workflow_def build_plan_def compile_and_persist_plan_def
  review_compiled_code_risk_def review_plan_def verify_approval_def verify_approval_and_lock_def validate_resume_signal_def

lemmas execution_defs = submit_execution_def wait_signal_def boundary_signal_of_def reconcile_executor_def adapt_multi_plan_def
  adapt_multi_plan_service_def append_operation_def finalize_execution_def cancel_execution_node_def validate_resume_signal_def

lemmas terminal_defs = build_report_evidence_def generate_report_def commit_success_def commit_with_def commit_rejected_def
  commit_blocked_def commit_failed_def commit_cancelled_def

named_theorems ran \<open>the state that a node leaves\<close>

lemma ran_hydrate [ran]:
  "run_node sv Hydrate_turn a w x = (Inr w', x') \<Longrightarrow> w' = w\<lparr>wf_phase := CLASSIFYING,
     wg_clarification_count := Some (get_or (wg_clarification_count w) 0), wg_correction_count := Some 0, wg_risk_acknowledged := Some False\<rparr>"
  by (auto simp: run_node_def conversation_defs exn_simps)

lemma validate_clarification_ok [exn_simps]:
  "validate_clarification d = Inr d' \<longleftrightarrow> d' = d \<and> \<not> (id_requires_clarification d \<and> nonempty (id_clarification_question d) = None)"
  by (auto simp: validate_clarification_def)

lemma ran_classify [ran]:
  assumes "run_node sv Classify_intent a w x = (Inr w', x')"
  shows "\<exists>d. w' = w\<lparr>wg_intent_decision := Some d,
     wg_planning_kind := (if id_intent d = In_CODE_EXECUTION then Some Pk_CUSTOM_CODE
        else if id_intent d = In_DATA_ANALYSIS_EXECUTION then Some Pk_TOOL_PLAN else wg_planning_kind w),
     wg_execution_mode := (if (id_intent d = In_CODE_EXECUTION \<or> id_intent d = In_DATA_ANALYSIS_EXECUTION)
        \<and> id_requested_execution_mode d \<noteq> None then id_requested_execution_mode d else wg_execution_mode w)\<rparr>"
proof -
  obtain d where "Inr w' = (Inr (let w1 = w\<lparr>wg_intent_decision := Some d\<rparr> in
       if id_intent d = In_CODE_EXECUTION \<or> id_intent d = In_DATA_ANALYSIS_EXECUTION
       then (let w2 = w1\<lparr>wg_planning_kind := Some (if id_intent d = In_CODE_EXECUTION then Pk_CUSTOM_CODE else Pk_TOOL_PLAN)\<rparr>
             in case id_requested_execution_mode d of None \<Rightarrow> w2 | Some m \<Rightarrow> w2\<lparr>wg_execution_mode := Some m\<rparr>)
       else w1) :: wstate result)"
    using assms unfolding run_node_def asks.simps option.case node_body.simps classify_intent_def sbind_ok spure_ok
      validate_clarification_ok by metis
  then show ?thesis
    by (intro exI [of _ d], cases "id_intent d"; cases "id_requested_execution_mode d") (simp_all add: Let_def)
qed

lemma ran_clarify [ran]:
  "run_node sv Clarify_request a w x = (Inr w', x') \<Longrightarrow> \<exists>t c. w' = w\<lparr>wf_turn := t, wg_clarification_count := c\<rparr>"
  by (cases a) (auto simp: run_node_def conversation_defs exn_simps split: if_splits)

lemma ran_answer [ran]:
  "run_node sv Answer_general a w x = (Inr w', x') \<Longrightarrow> \<exists>t. w' = w\<lparr>wf_phase := ANSWERING, wf_answer := Some t\<rparr>"
  "run_node sv Answer_data_question a w x = (Inr w', x') \<Longrightarrow> \<exists>t. w' = w\<lparr>wf_phase := ANSWERING, wf_answer := Some t\<rparr>"
  "run_node sv Commit_answer a w x = (Inr w', x') \<Longrightarrow> w' = w\<lparr>wf_phase := SUCCEEDED\<rparr>"
  by (auto simp: run_node_def conversation_defs exn_simps)

lemma ran_mode [ran]:
  "run_node sv Choose_execution_mode a w x = (Inr w', x') \<Longrightarrow> \<exists>m. w' = w\<lparr>wg_execution_mode := Some m, wg_planning_kind := Some Pk_CUSTOM_CODE\<rparr>"
  by (cases a) (auto simp: run_node_def planning_defs exn_simps split: if_splits)

lemma ran_request [ran]:
  "run_node sv Review_request_risk a w x = (Inr w', x') \<Longrightarrow> \<exists>r. w' = w\<lparr>wg_request_risk := Some r\<rparr>"
  by (auto simp: run_node_def planning_defs exn_simps)

lemma ran_confirm [ran]:
  "run_node sv Confirm_request_risk a w x = (Inr w', x') \<Longrightarrow>
     (\<exists>r. wg_request_risk w = Some r \<and> w' = w\<lparr>wg_request_risk := Some (r\<lparr>rk_level := Rk_CRITICAL\<rparr>)\<rparr>)
     \<or> (a = RiskConfirmationDecision True \<and> wg_request_risk w \<noteq> None \<and> w' = w\<lparr>wg_risk_acknowledged := Some True\<rparr>)"
  by (cases a) (auto simp: run_node_def planning_defs exn_simps split: if_splits)

lemma ran_search [ran]:
  "run_node sv Search_workflows a w x = (Inr w', x') \<Longrightarrow> \<exists>cs. w' = w\<lparr>wg_workflow_candidates := Some cs,
     wg_workflow_proposal_version := Some 1, wg_execution_mode := Some (get_or (wg_execution_mode w) Em_MULTI),
     wg_planning_kind := Some Pk_TOOL_PLAN\<rparr>"
  by (auto simp: run_node_def planning_defs exn_simps)

lemma ran_choose [ran]:
  "run_node sv Choose_workflow a w x = (Inr w', x') \<Longrightarrow> \<exists>s cs. a = WorkflowSelectionDecision s
     \<and> wg_workflow_candidates w = Some cs \<and> selection_ok cs s = Inr ()
     \<and> (\<forall>u. ws_workflow_version_id s = Some u \<longrightarrow> valid_uuid u)
     \<and> w' = w\<lparr>wg_selected_workflow_version_id := Some (case ws_workflow_version_id s of None \<Rightarrow> [] | Some u \<Rightarrow> uuid_str u),
       wg_workflow_input_values := Some (ws_input_values s),
       wg_execution_mode := Some (if ws_workflow_version_id s \<noteq> None then Em_SINGLE else get_or (wg_execution_mode w) Em_MULTI),
       wg_planning_kind := Some (if ws_workflow_version_id s \<noteq> None then Pk_FIXED_WORKFLOW else Pk_TOOL_PLAN),
       wg_review_action := Some (if ws_workflow_version_id s \<noteq> None then ''APPROVE'' else []),
       wg_risk_acknowledged := Some (ws_risk_acknowledged s)\<rparr>"
  by (cases a) (auto simp: run_node_def planning_defs exn_simps Let_def split: if_splits option.splits)

lemma ran_load [ran]:
  "run_node sv Load_selected_workflow a w x = (Inr w', x') \<Longrightarrow> \<exists>s u c row x1 p q. wg_selected_workflow_version_id w = Some s
     \<and> uuid_parse s = Some u \<and> find (\<lambda>c. wc_workflow_version_id c = u) (get_or (wg_workflow_candidates w) []) = Some c
     \<and> sv_workflow_version sv u x = (Inr row, x1) \<and> wv_public_payload_hash row = wc_public_payload_hash c
     \<and> bind_workflow_inputs (wv_plan_payload row) (wv_input_contract row) (json_items (get_or (wg_workflow_input_values w) (JObj []))) = Inr p
     \<and> w' = persisted_plan_updates p q w"
  by (fastforce simp: run_node_def planning_defs parse_id_def exn_simps split: if_splits option.splits prod.splits)

lemma ran_plan [ran]:
  "run_node sv Build_plan a w x = (Inr w', x') \<Longrightarrow> \<exists>p. w' = w\<lparr>wf_phase := PLANNING, wg_plan := Some p\<rparr>"
  "run_node sv Compile_and_persist_plan a w x = (Inr w', x') \<Longrightarrow> \<exists>p q. wg_plan w = Some p \<and> w' = persisted_plan_updates p q w"
  "run_node sv Review_compiled_code_risk a w x = (Inr w', x') \<Longrightarrow> \<exists>r. w' = w\<lparr>wg_code_risk := Some r\<rparr>"
  by (auto simp: run_node_def planning_defs exn_simps)

lemma ran_review [ran]:
  "run_node sv Review_plan a w x = (Inr w', x') \<Longrightarrow> \<exists>p risk. a = PlanReviewDecision p \<and> wg_code_risk w = Some risk
     \<and> wg_plan_revision_id w = Some (uuid_str (pr_plan_revision_id p)) \<and> wg_plan_revision_number w = Some (pr_plan_revision_number p)
     \<and> wg_plan_public_payload_hash w = Some (pr_public_payload_hash p) \<and> wg_plan w \<noteq> None
     \<and> (pr_decision p = ''APPROVE'' \<and> rk_level risk = Rk_HIGH \<longrightarrow> pr_risk_acknowledged p)
     \<and> w' = w\<lparr>wg_review_action := Some (pr_decision p), wg_revision_feedback := Some (get_or (pr_feedback p) []),
           wg_risk_acknowledged := Some (pr_risk_acknowledged p)\<rparr>"
  by (cases a) (auto simp: run_node_def planning_defs exn_simps split: if_splits)

lemma ran_verify [ran]:
  "run_node sv Verify_approval a w x = (Inr w', x') \<Longrightarrow> wg_review_action w = Some ''APPROVE'' \<and> w' = w\<lparr>wf_phase := QUEUED_FOR_EXECUTION\<rparr>"
  by (auto simp: run_node_def planning_defs exn_simps split: if_splits)

lemma ran_execution [ran]:
  "run_node sv Submit_execution a w x = (Inr w', x') \<Longrightarrow> \<exists>e oid. w' = w\<lparr>wf_phase := WAITING_FOR_EXECUTOR_EVENT,
     wf_execution_id := Some (uuid_str e), wg_current_operation_id := Some oid\<rparr>"
  "run_node sv Wait_external_signal a w x = (Inr w', x') \<Longrightarrow> (is_executor_signal a \<or> is_cancel_signal a) \<and> wf_execution_id w \<noteq> None
     \<and> w' = w\<lparr>wf_external_signal := Some a\<rparr>"
  "run_node sv Reconcile_executor a w x = (Inr w', x') \<Longrightarrow> \<exists>r n. w' = w\<lparr>wg_executor_reconciliation := Some r,
     wg_last_executor_event_sequence := n\<rparr>"
  "run_node sv Finalize_execution a w x = (Inr w', x') \<Longrightarrow> w' = w\<lparr>wg_execution_finalized := Some True\<rparr>"
  by (auto simp: run_node_def execution_defs exn_simps split: if_splits)

lemma ran_cancel [ran]:
  assumes "run_node sv Cancel_execution a w x = (Inr w', x')"
  shows "w' = w\<lparr>wf_phase := CANCEL_REQUESTED\<rparr>"
proof (cases "wf_external_signal w")
  case None
  then show ?thesis using assms by (simp add: run_node_def execution_defs exn_simps)
next
  case (Some s)
  then show ?thesis using assms by (cases s) (auto simp: run_node_def execution_defs exn_simps)
qed

lemma correction_limit_fails:
  "adapt_multi_plan_service sv w r x = (Inr d, x') \<Longrightarrow> rc_outcome r = Eo_OPERATION_FAILED \<Longrightarrow>
     sv_correction_limit sv \<le> get_or (wg_correction_count w) 0 \<Longrightarrow> md_action d = Ma_FAIL"
  by (auto simp: adapt_multi_plan_service_def spure_ok)

lemma ran_adapt [ran]:
  assumes "run_node sv Adapt_multi_plan a w x = (Inr w', x')"
  shows "\<exists>r d p. wg_executor_reconciliation w = Some r
     \<and> (rc_outcome r = Eo_OPERATION_FAILED \<and> sv_correction_limit sv \<le> get_or (wg_correction_count w) 0 \<longrightarrow> md_action d = Ma_FAIL)
     \<and> (p = wg_plan w \<or> p \<noteq> None)
     \<and> w' = w\<lparr>wg_multi_action := Some (md_action d), wg_multi_decision := Some d,
          wg_correction_count := (if rc_outcome r = Eo_OPERATION_FAILED then Some (get_or (wg_correction_count w) 0 + 1) else wg_correction_count w),
          wg_plan := p\<rparr>"
proof -
  let ?w1 = "\<lambda>r d. w\<lparr>wg_multi_action := Some (md_action d), wg_multi_decision := Some d,
    wg_correction_count := (if rc_outcome r = Eo_OPERATION_FAILED then Some (get_or (wg_correction_count w) 0 + 1) else wg_correction_count w)\<rparr>"
  obtain r d x1 where d: "wg_executor_reconciliation w = Some r" "adapt_multi_plan_service sv w r x = (Inr d, x1)"
      "(case md_next_step d of None \<Rightarrow> spure (Inr (?w1 r d))
        | Some s \<Rightarrow> sbind (need_key (wg_plan w) ''plan'') (\<lambda>p. spure (Inr ((?w1 r d)\<lparr>wg_plan := Some (p\<lparr>pd_steps := [s\<lparr>ps_sequence := 0\<rparr>]\<rparr>)\<rparr>)))) x1
         = (Inr w', x')"
    using assms unfolding run_node_def asks.simps option.case node_body.simps adapt_multi_plan_def sbind_ok spure_ok need_field_ok Let_def
    by blast
  have "\<exists>p. (p = wg_plan w \<or> p \<noteq> None) \<and> w' = (?w1 r d)\<lparr>wg_plan := p\<rparr>"
  proof (cases "md_next_step d")
    case None
    then have "w' = ?w1 r d" using d(3) by (simp add: spure_ok)
    moreover have "?w1 r d = (?w1 r d)\<lparr>wg_plan := wg_plan w\<rparr>" by (cases w) simp
    ultimately show ?thesis by metis
  next
    case (Some s)
    then obtain p where "w' = (?w1 r d)\<lparr>wg_plan := Some p\<rparr>" using d(3) by (auto simp: exn_simps)
    then show ?thesis by blast
  qed
  then show ?thesis using d(1) correction_limit_fails [OF d(2)] by (intro exI [of _ r] exI [of _ d]) auto
qed

lemma ran_append [ran]:
  assumes "run_node sv Append_operation a w x = (Inr w', x')"
  shows "\<exists>d oid. wg_multi_decision w = Some d \<and> (w' = w\<lparr>wg_current_operation_id := Some oid\<rparr>
     \<or> (\<exists>p q. w' = persisted_plan_updates p q (w\<lparr>wg_current_operation_id := Some oid\<rparr>)))"
proof -
  obtain d receipt where d: "wg_multi_decision w = Some d" "sv_append_operation sv w d x = (Inr receipt, x')"
    using assms by (auto simp: run_node_def execution_defs exn_simps Let_def split: option.splits)
  show ?thesis
  proof (cases "sr_persisted_plan receipt")
    case None
    then show ?thesis using assms d by (auto simp: run_node_def execution_defs exn_simps Let_def)
  next
    case (Some q)
    then show ?thesis using assms d
      by (cases "sr_plan receipt") (auto simp: run_node_def execution_defs exn_simps Let_def)
  qed
qed

lemma ran_terminal [ran]:
  "run_node sv Build_report_evidence a w x = (Inr w', x') \<Longrightarrow> \<exists>e. w' = w\<lparr>wf_phase := GENERATING_REPORT, wg_report_evidence := Some e\<rparr>"
  "run_node sv Generate_report a w x = (Inr w', x') \<Longrightarrow> \<exists>m i. w' = w\<lparr>wf_report_markdown := Some m, wg_report_artifact_id := Some i\<rparr>"
  "run_node sv Commit_success a w x = (Inr w', x') \<Longrightarrow> w' = w\<lparr>wf_phase := SUCCEEDED\<rparr>"
  "run_node sv Commit_rejected a w x = (Inr w', x') \<Longrightarrow> \<exists>m. w' = w\<lparr>wf_phase := REJECTED, wf_terminal_message := Some m\<rparr>"
  "run_node sv Commit_blocked a w x = (Inr w', x') \<Longrightarrow> \<exists>m. w' = w\<lparr>wf_phase := FAILED, wf_terminal_message := Some m\<rparr>"
  "run_node sv Commit_failed a w x = (Inr w', x') \<Longrightarrow> \<exists>m. w' = w\<lparr>wf_phase := FAILED, wf_terminal_message := Some m\<rparr>"
  "run_node sv Commit_cancelled a w x = (Inr w', x') \<Longrightarrow> \<exists>m. w' = w\<lparr>wf_phase := CANCELLED, wf_terminal_message := Some m\<rparr>"
  by (auto simp: run_node_def terminal_defs exn_simps)

section \<open>Invariants\<close>

lemmas route_defs = route_intent_def route_request_risk_def route_workflow_search_def route_workflow_decision_def route_code_risk_def
  route_plan_review_def route_approved_execution_def route_external_signal_def route_reconciliation_def route_multi_action_def

text \<open>What holds of node, state and history before a node runs must hold of them after it.\<close>

definition kept_by_nodes :: "'x workflow_services \<Rightarrow> (node \<Rightarrow> wstate \<Rightarrow> 'x visit list \<Rightarrow> bool) \<Rightarrow> bool" where
  "kept_by_nodes sv P = (\<forall>n a w x w' x' n' tr. P n w tr \<and> n \<noteq> END \<and> run_node sv n a w x = (Inr w', x') \<and> next_node n w' = Inr n'
     \<longrightarrow> P n' w' (tr @ [\<lparr>vs_node = n, vs_answer = a, vs_world = x, vs_before = w, vs_after = w'\<rparr>]))"

definition phase_inv :: "node \<Rightarrow> wstate \<Rightarrow> bool" where
  "phase_inv n w = (is_terminal (wf_phase w) \<longleftrightarrow> n = END)"

definition mode_inv :: "wstate \<Rightarrow> bool" where
  "mode_inv w = (wg_planning_kind w = Some Pk_FIXED_WORKFLOW \<longrightarrow> wg_execution_mode w = Some Em_SINGLE)"

lemma next_declared: "next_node n w = Inr n' \<Longrightarrow> n' \<in> set (destinations n)"
proof (cases n)
  case Reconcile_executor
  assume "next_node n w = Inr n'"
  then obtain r where "wg_executor_reconciliation w = Some r" using Reconcile_executor by (auto simp: route_defs exn_simps)
  then show ?thesis using Reconcile_executor \<open>next_node n w = Inr n'\<close>
    by (cases "rc_outcome r") (auto simp: route_defs exn_simps split: if_splits)
next
  case Adapt_multi_plan
  assume "next_node n w = Inr n'"
  then obtain m where "wg_multi_action w = Some m" using Adapt_multi_plan by (auto simp: route_defs exn_simps)
  then show ?thesis using Adapt_multi_plan \<open>next_node n w = Inr n'\<close> by (cases m) (auto simp: route_defs exn_simps)
qed (auto simp: route_defs exn_simps split: if_splits)

lemma phase_kept: "kept_by_nodes sv (\<lambda>n w tr. phase_inv n w)"
  unfolding kept_by_nodes_def
proof (intro allI impI, elim conjE)
  fix n a w x w' x' n' and tr :: "'a visit list"
  assume "phase_inv n w" "n \<noteq> END" and run: "run_node sv n a w x = (Inr w', x')" and "next_node n w' = Inr n'"
  moreover have "n' \<in> set (destinations n)" using \<open>next_node n w' = Inr n'\<close> by (rule next_declared)
  ultimately show "phase_inv n' w'"
    by (cases n) (auto simp: phase_inv_def persisted_plan_updates_def simp del: next_node.simps dest!: ran)
qed

lemma mode_kept: "kept_by_nodes sv (\<lambda>n w tr. mode_inv w)"
  unfolding kept_by_nodes_def
proof (intro allI impI, elim conjE)
  fix n a w x w' x' n' and tr :: "'a visit list"
  assume "mode_inv w" "n \<noteq> END" "run_node sv n a w x = (Inr w', x')" "next_node n w' = Inr n'"
  then show "mode_inv w'"
    by (cases n) (auto simp: mode_inv_def persisted_plan_updates_def dest!: ran split: if_splits)
qed

text \<open>
  The request gate: no node after it is reached with a critical request, nor with a high one that the user
  has not confirmed.
\<close>

definition planned_nodes :: "node list" where
  "planned_nodes = [Search_workflows, Choose_workflow, Load_selected_workflow, Build_plan, Compile_and_persist_plan,
     Review_compiled_code_risk, Review_plan, Verify_approval, Submit_execution, Wait_external_signal, Reconcile_executor,
     Adapt_multi_plan, Append_operation, Finalize_execution, Cancel_execution, Build_report_evidence, Generate_report,
     Commit_success, Commit_rejected, Commit_failed, Commit_cancelled]"

definition risk_confirmed :: "'x visit list \<Rightarrow> bool" where
  "risk_confirmed tr = (\<exists>v \<in> set tr. vs_node v = Confirm_request_risk \<and> vs_answer v = RiskConfirmationDecision True)"

definition request_cleared :: "wstate \<Rightarrow> 'x visit list \<Rightarrow> bool" where
  "request_cleared w tr = (\<exists>r. wg_request_risk w = Some r \<and> rk_level r \<noteq> Rk_CRITICAL \<and> (rk_level r = Rk_HIGH \<longrightarrow> risk_confirmed tr))"

definition gate_inv :: "node \<Rightarrow> wstate \<Rightarrow> 'x visit list \<Rightarrow> bool" where
  "gate_inv n w tr = ((n \<in> {Hydrate_turn, Classify_intent, Clarify_request, Choose_execution_mode, Review_request_risk, Confirm_request_risk}
       \<longrightarrow> \<not> get_or (wg_risk_acknowledged w) False)
     \<and> (n \<in> set planned_nodes \<longrightarrow> request_cleared w tr))"

lemma risk_confirmed_snoc [simp]:
  "risk_confirmed (tr @ [v]) \<longleftrightarrow> risk_confirmed tr \<or> (vs_node v = Confirm_request_risk \<and> vs_answer v = RiskConfirmationDecision True)"
  by (auto simp: risk_confirmed_def)

lemma request_cleared_snoc: "request_cleared w tr \<Longrightarrow> wg_request_risk w' = wg_request_risk w \<Longrightarrow> request_cleared w' (tr @ [v])"
  by (auto simp: request_cleared_def)

lemma gate_kept: "kept_by_nodes sv gate_inv"
  unfolding kept_by_nodes_def
proof (intro allI impI, elim conjE)
  fix n a w x w' x' n' and tr :: "'a visit list"
  assume inv: "gate_inv n w tr" and "n \<noteq> END" and run: "run_node sv n a w x = (Inr w', x')" and nxt: "next_node n w' = Inr n'"
  have dest: "n' \<in> set (destinations n)" using nxt by (rule next_declared)
  let ?v = "\<lparr>vs_node = n, vs_answer = a, vs_world = x, vs_before = w, vs_after = w'\<rparr>"
  show "gate_inv n' w' (tr @ [?v])"
  proof (cases "n \<in> set planned_nodes")
    case True
    then have "request_cleared w tr" using inv by (simp add: gate_inv_def)
    moreover have "wg_request_risk w' = wg_request_risk w" using True run
      by (cases n) (auto simp: planned_nodes_def persisted_plan_updates_def dest!: ran)
    ultimately have "request_cleared w' (tr @ [?v])" by (rule request_cleared_snoc)
    moreover have "n' \<notin> {Hydrate_turn, Classify_intent, Clarify_request, Choose_execution_mode, Review_request_risk, Confirm_request_risk}"
      using True dest by (cases n) (auto simp: planned_nodes_def)
    ultimately show ?thesis by (simp add: gate_inv_def)
  next
    case False
    then show ?thesis using inv run nxt dest \<open>n \<noteq> END\<close>
      by (cases n) (auto simp: gate_inv_def planned_nodes_def request_cleared_def route_request_risk_def exn_simps
          dest!: ran split: if_splits)
  qed
qed

text \<open>
  Approvals. \<open>code_reviewed\<close>: the risk in the state is that of the plan in the state. \<open>plan_approved\<close>: the user
  approved exactly this revision. \<open>workflow_chosen\<close>: the user selected a candidate by its identifier and digest;
  \<open>workflow_loaded\<close>: the plan is the stored one of that version, bound with the values of the user.
\<close>

definition same_plan :: "wstate \<Rightarrow> wstate \<Rightarrow> bool" where
  "same_plan s w = (wg_plan s = wg_plan w \<and> wg_plan_revision_id s = wg_plan_revision_id w
     \<and> wg_plan_revision_number s = wg_plan_revision_number w \<and> wg_plan_public_payload_hash s = wg_plan_public_payload_hash w)"

definition has_level :: "risk_level_kind \<Rightarrow> risk_review option \<Rightarrow> bool" where
  "has_level l r = (\<exists>review. r = Some review \<and> rk_level review = l)"

lemma has_level_simps [simp]: "has_level l (Some r) \<longleftrightarrow> rk_level r = l" "\<not> has_level l None"
  by (simp_all add: has_level_def)

definition code_reviewed :: "wstate \<Rightarrow> 'x visit list \<Rightarrow> bool" where
  "code_reviewed w tr = (wg_code_risk w \<noteq> None \<and> \<not> has_level Rk_CRITICAL (wg_code_risk w)
     \<and> (\<exists>v \<in> set tr. vs_node v = Review_compiled_code_risk \<and> same_plan (vs_after v) w \<and> wg_code_risk (vs_after v) = wg_code_risk w))"

definition plan_approved :: "wstate \<Rightarrow> 'x visit list \<Rightarrow> bool" where
  "plan_approved w tr = (\<exists>v \<in> set tr. \<exists>p. vs_node v = Review_plan \<and> vs_answer v = PlanReviewDecision p \<and> pr_decision p = ''APPROVE''
     \<and> same_plan (vs_before v) w \<and> wg_plan_revision_id w = Some (uuid_str (pr_plan_revision_id p))
     \<and> wg_plan_revision_number w = Some (pr_plan_revision_number p) \<and> wg_plan_public_payload_hash w = Some (pr_public_payload_hash p))"

definition workflow_chosen :: "workflow_selection \<Rightarrow> uuid \<Rightarrow> workflow_candidate \<Rightarrow> wstate \<Rightarrow> 'x visit list \<Rightarrow> bool" where
  "workflow_chosen s u c w tr = ((\<exists>v \<in> set tr. vs_node v = Choose_workflow \<and> vs_answer v = WorkflowSelectionDecision s)
     \<and> ws_workflow_version_id s = Some u \<and> valid_uuid u \<and> wg_selected_workflow_version_id w = Some (uuid_str u)
     \<and> find (\<lambda>c. wc_workflow_version_id c = u) (get_or (wg_workflow_candidates w) []) = Some c
     \<and> ws_public_payload_hash s = wc_public_payload_hash c \<and> (has_level Rk_HIGH (wc_risk c) \<longrightarrow> ws_risk_acknowledged s)
     \<and> wg_workflow_input_values w = Some (ws_input_values s) \<and> wg_risk_acknowledged w = Some (ws_risk_acknowledged s))"

definition stored_plan :: "'x workflow_services \<Rightarrow> workflow_selection \<Rightarrow> uuid \<Rightarrow> workflow_candidate \<Rightarrow> plan_draft \<Rightarrow> 'x visit list \<Rightarrow> bool" where
  "stored_plan sv s u c p tr = (\<exists>v \<in> set tr. \<exists>row x1. vs_node v = Load_selected_workflow
     \<and> sv_workflow_version sv u (vs_world v) = (Inr row, x1) \<and> wv_public_payload_hash row = wc_public_payload_hash c
     \<and> bind_workflow_inputs (wv_plan_payload row) (wv_input_contract row) (json_items (ws_input_values s)) = Inr p)"

definition workflow_loaded :: "'x workflow_services \<Rightarrow> wstate \<Rightarrow> 'x visit list \<Rightarrow> bool" where
  "workflow_loaded sv w tr = (\<exists>s u c p. workflow_chosen s u c w tr \<and> stored_plan sv s u c p tr \<and> wg_plan w = Some p)"

definition granted :: "'x workflow_services \<Rightarrow> wstate \<Rightarrow> 'x visit list \<Rightarrow> bool" where
  "granted sv w tr = ((plan_approved w tr \<or> workflow_loaded sv w tr)
     \<and> (has_level Rk_HIGH (wg_code_risk w) \<longrightarrow> wg_risk_acknowledged w = Some True))"

abbreviation is_fixed :: "wstate \<Rightarrow> bool" where "is_fixed w \<equiv> wg_planning_kind w = Some Pk_FIXED_WORKFLOW"

abbreviation approved_action :: "wstate \<Rightarrow> bool" where "approved_action w \<equiv> wg_review_action w = Some ''APPROVE''"

definition approval_inv :: "'x workflow_services \<Rightarrow> node \<Rightarrow> wstate \<Rightarrow> 'x visit list \<Rightarrow> bool" where
  "approval_inv sv n w tr =
     ((n \<in> {Hydrate_turn, Classify_intent, Clarify_request, Choose_execution_mode, Review_request_risk, Confirm_request_risk,
             Search_workflows} \<longrightarrow> \<not> is_fixed w)
    \<and> (n = Adapt_multi_plan \<longrightarrow> wg_execution_mode w = Some Em_MULTI)
    \<and> (n = Load_selected_workflow \<longrightarrow> (\<exists>s u c. workflow_chosen s u c w tr))
    \<and> (n \<in> {Build_plan, Compile_and_persist_plan} \<and> is_fixed w \<longrightarrow> \<not> approved_action w)
    \<and> (n = Review_compiled_code_risk \<and> is_fixed w \<and> approved_action w \<longrightarrow> workflow_loaded sv w tr)
    \<and> (n \<in> {Review_plan, Verify_approval, Submit_execution} \<longrightarrow> code_reviewed w tr)
    \<and> (n = Verify_approval \<and> approved_action w \<or> n = Submit_execution \<longrightarrow> granted sv w tr)
    \<and> (n = Append_operation \<and> tr \<noteq> [] \<and> vs_node (last tr) = Verify_approval \<longrightarrow> code_reviewed w tr \<and> granted sv w tr))"

text \<open>What the history shows is kept as long as the members it speaks of do not change.\<close>

definition same_choice :: "wstate \<Rightarrow> wstate \<Rightarrow> bool" where
  "same_choice s w = (wg_selected_workflow_version_id s = wg_selected_workflow_version_id w
     \<and> wg_workflow_candidates s = wg_workflow_candidates w \<and> wg_workflow_input_values s = wg_workflow_input_values w
     \<and> wg_risk_acknowledged s = wg_risk_acknowledged w)"

lemma chosen_snoc: "workflow_chosen s u c w tr \<Longrightarrow> same_choice w w' \<Longrightarrow> workflow_chosen s u c w' (tr @ [v])"
  by (auto simp: workflow_chosen_def same_choice_def)

lemma stored_snoc: "stored_plan sv s u c p tr \<Longrightarrow> stored_plan sv s u c p (tr @ [v])"
  unfolding stored_plan_def set_append Un_iff bex_Un by (rule disjI1)

lemma loaded_snoc:
  "workflow_loaded sv w tr \<Longrightarrow> same_choice w w' \<Longrightarrow> wg_plan w' = wg_plan w \<Longrightarrow> workflow_loaded sv w' (tr @ [v])"
  unfolding workflow_loaded_def using chosen_snoc stored_snoc by metis

lemma reviewed_snoc: "code_reviewed w tr \<Longrightarrow> same_plan w w' \<Longrightarrow> wg_code_risk w' = wg_code_risk w \<Longrightarrow> code_reviewed w' (tr @ [v])"
  by (auto simp: code_reviewed_def same_plan_def)

lemma approved_snoc: "plan_approved w tr \<Longrightarrow> same_plan w w' \<Longrightarrow> plan_approved w' (tr @ [v])"
  unfolding plan_approved_def set_append bex_Un same_plan_def by (rule disjI1) simp

lemma granted_snoc:
  "granted sv w tr \<Longrightarrow> same_plan w w' \<Longrightarrow> same_choice w w' \<Longrightarrow> wg_code_risk w' = wg_code_risk w \<Longrightarrow> granted sv w' (tr @ [v])"
  unfolding granted_def using approved_snoc [of w tr w' v] loaded_snoc [of sv w tr w' v] by (auto simp: same_plan_def same_choice_def)

lemma choose_approves:
  assumes "run_node sv Choose_workflow a w x = (Inr w', x')" "next_node Choose_workflow w' = Inr n'"
    and "vs_node v = Choose_workflow" "vs_answer v = a"
  shows "(n' = Load_selected_workflow \<and> (\<exists>s u c. workflow_chosen s u c w' (tr @ [v]))) \<or> (n' = Build_plan \<and> \<not> is_fixed w')"
proof -
  obtain s cs where s: "a = WorkflowSelectionDecision s" "wg_workflow_candidates w = Some cs" "selection_ok cs s = Inr ()"
    "\<forall>u. ws_workflow_version_id s = Some u \<longrightarrow> valid_uuid u"
    and w': "w' = w\<lparr>wg_selected_workflow_version_id := Some (case ws_workflow_version_id s of None \<Rightarrow> [] | Some u \<Rightarrow> uuid_str u),
       wg_workflow_input_values := Some (ws_input_values s),
       wg_execution_mode := Some (if ws_workflow_version_id s \<noteq> None then Em_SINGLE else get_or (wg_execution_mode w) Em_MULTI),
       wg_planning_kind := Some (if ws_workflow_version_id s \<noteq> None then Pk_FIXED_WORKFLOW else Pk_TOOL_PLAN),
       wg_review_action := Some (if ws_workflow_version_id s \<noteq> None then ''APPROVE'' else []),
       wg_risk_acknowledged := Some (ws_risk_acknowledged s)\<rparr>"
    using ran_choose [OF assms(1)] by blast
  show ?thesis
  proof (cases "ws_workflow_version_id s")
    case None
    then show ?thesis using assms(2) by (simp add: w' route_workflow_decision_def nonempty_def)
  next
    case (Some u)
    then obtain c where c: "find (\<lambda>c. wc_workflow_version_id c = u) cs = Some c" "ws_public_payload_hash s = wc_public_payload_hash c"
        "has_level Rk_HIGH (wc_risk c) \<longrightarrow> ws_risk_acknowledged s"
      using s(3) by (auto simp: selection_ok_def has_level_def split: option.splits if_splits)
    have "n' = Load_selected_workflow" using assms(2) Some by (simp add: w' route_workflow_decision_def nonempty_def)
    moreover have "workflow_chosen s u c w' (tr @ [v])"
      using c s Some assms(3,4) by (simp add: workflow_chosen_def w')
    ultimately show ?thesis by blast
  qed
qed

lemma load_keeps_choice:
  assumes "run_node sv Load_selected_workflow a w x = (Inr w', x')" "workflow_chosen s u c w tr"
    and "vs_node v = Load_selected_workflow" "vs_world v = x"
  shows "workflow_loaded sv w' (tr @ [v])"
proof -
  obtain t u' c' row x1 p q where t: "wg_selected_workflow_version_id w = Some t" "uuid_parse t = Some u'"
      "find (\<lambda>c. wc_workflow_version_id c = u') (get_or (wg_workflow_candidates w) []) = Some c'"
      "sv_workflow_version sv u' x = (Inr row, x1)" "wv_public_payload_hash row = wc_public_payload_hash c'"
      "bind_workflow_inputs (wv_plan_payload row) (wv_input_contract row) (json_items (get_or (wg_workflow_input_values w) (JObj []))) = Inr p"
      and w': "w' = persisted_plan_updates p q w"
    using ran_load [OF assms(1)] by blast
  have u: "u' = u" "c' = c" using assms(2) t(1-3) by (auto simp: workflow_chosen_def uuid_round_trip)
  have "same_choice w w'" by (simp add: same_choice_def w' persisted_plan_updates_def)
  then have "workflow_chosen s u c w' (tr @ [v])" using chosen_snoc assms(2) by blast
  moreover have "json_items (get_or (wg_workflow_input_values w) (JObj [])) = json_items (ws_input_values s)" "wg_plan w' = Some p"
    using assms(2) by (simp_all add: workflow_chosen_def w' persisted_plan_updates_def)
  moreover have "stored_plan sv s u c p (tr @ [v])"
    unfolding stored_plan_def using t(4-6) u assms(3,4) calculation(2) by (intro bexI [of _ v]) auto
  ultimately show ?thesis unfolding workflow_loaded_def by blast
qed

lemma code_review_step:
  assumes "run_node sv Review_compiled_code_risk a w x = (Inr w', x')" "next_node Review_compiled_code_risk w' = Inr n'"
    and "approval_inv sv Review_compiled_code_risk w tr" "vs_node v = Review_compiled_code_risk" "vs_after v = w'"
  shows "approval_inv sv n' w' (tr @ [v])"
proof -
  obtain r where w': "w' = w\<lparr>wg_code_risk := Some r\<rparr>" using ran_plan(3) [OF assms(1)] by blast
  have n': "n' \<in> {Commit_blocked, Review_plan, Verify_approval}" using next_declared [OF assms(2)] by simp
  have reviewed: "code_reviewed w' (tr @ [v])" if "n' \<noteq> Commit_blocked"
    using that assms(2,4,5) by (auto simp: w' route_code_risk_def exn_simps code_reviewed_def same_plan_def split: if_splits)
  have "granted sv w' (tr @ [v])" if "n' = Verify_approval" "approved_action w'"
  proof -
    have fixed: "is_fixed w" "\<not> (rk_level r = Rk_HIGH \<and> \<not> get_or (wg_risk_acknowledged w) False)"
      using that assms(2) by (auto simp: w' route_code_risk_def exn_simps split: if_splits)
    then have "workflow_loaded sv w tr" using assms(3) that(2) by (simp add: approval_inv_def w')
    then have "workflow_loaded sv w' (tr @ [v])" by (rule loaded_snoc) (simp_all add: same_choice_def w')
    then show ?thesis using fixed(2) by (cases "wg_risk_acknowledged w") (auto simp: granted_def w')
  qed
  then show ?thesis using reviewed n' by (auto simp: approval_inv_def)
qed

lemma plan_review_step:
  assumes "run_node sv Review_plan a w x = (Inr w', x')" "next_node Review_plan w' = Inr n'"
    and "approval_inv sv Review_plan w tr" "vs_node v = Review_plan" "vs_answer v = a" "vs_before v = w"
  shows "approval_inv sv n' w' (tr @ [v])"
proof -
  obtain p risk where p: "a = PlanReviewDecision p" "wg_code_risk w = Some risk"
      "wg_plan_revision_id w = Some (uuid_str (pr_plan_revision_id p))" "wg_plan_revision_number w = Some (pr_plan_revision_number p)"
      "wg_plan_public_payload_hash w = Some (pr_public_payload_hash p)"
      "pr_decision p = ''APPROVE'' \<and> rk_level risk = Rk_HIGH \<longrightarrow> pr_risk_acknowledged p"
      and w': "w' = w\<lparr>wg_review_action := Some (pr_decision p), wg_revision_feedback := Some (get_or (pr_feedback p) []),
           wg_risk_acknowledged := Some (pr_risk_acknowledged p)\<rparr>"
    using ran_review [OF assms(1)] by blast
  have n': "n' \<in> {Build_plan, Commit_rejected, Verify_approval}" using next_declared [OF assms(2)] by simp
  have "code_reviewed w tr" using assms(3) by (simp add: approval_inv_def)
  then have "code_reviewed w' (tr @ [v])" by (rule reviewed_snoc) (simp_all add: same_plan_def w')
  moreover have "granted sv w' (tr @ [v])" if "approved_action w'"
    using that p assms(4-6) by (auto simp: granted_def plan_approved_def same_plan_def w')
  moreover have "\<not> approved_action w'" if "n' = Build_plan"
    using that assms(2) by (auto simp: route_plan_review_def exn_simps w' split: if_splits)
  ultimately show ?thesis using n' by (auto simp: approval_inv_def)
qed

lemma verify_step:
  assumes "run_node sv Verify_approval a w x = (Inr w', x')" "next_node Verify_approval w' = Inr n'" "approval_inv sv Verify_approval w tr"
  shows "approval_inv sv n' w' (tr @ [v])"
proof -
  have w': "w' = w\<lparr>wf_phase := QUEUED_FOR_EXECUTION\<rparr>" and "code_reviewed w tr" "granted sv w tr"
    using ran_verify [OF assms(1)] assms(3) by (simp_all add: approval_inv_def)
  then have "code_reviewed w' (tr @ [v])" "granted sv w' (tr @ [v])"
    by (auto intro: reviewed_snoc granted_snoc simp: same_plan_def same_choice_def)
  moreover have "n' \<in> {Submit_execution, Append_operation}" using next_declared [OF assms(2)] by simp
  ultimately show ?thesis by (auto simp: approval_inv_def)
qed

lemma approval_kept: "kept_by_nodes sv (\<lambda>n w tr. mode_inv w \<and> approval_inv sv n w tr)"
  unfolding kept_by_nodes_def
proof (intro allI impI, elim conjE)
  fix n a w x' n' w' and x :: 'a and tr :: "'a visit list"
  let ?v = "\<lparr>vs_node = n, vs_answer = a, vs_world = x, vs_before = w, vs_after = w'\<rparr>"
  assume mode: "mode_inv w" and inv: "approval_inv sv n w tr" and "n \<noteq> END" and run: "run_node sv n a w x = (Inr w', x')"
    and nxt: "next_node n w' = Inr n'"
  have dest: "n' \<in> set (destinations n)" using nxt by (rule next_declared)
  have mode': "mode_inv w'" using mode_kept [of sv] mode \<open>n \<noteq> END\<close> run nxt unfolding kept_by_nodes_def by blast
  have "approval_inv sv n' w' (tr @ [?v])"
  proof (cases n)
    case Choose_workflow
    then show ?thesis using choose_approves [of sv a w x w' x' n' ?v tr] run nxt by (auto simp: approval_inv_def)
  next
    case Load_selected_workflow
    then have "workflow_loaded sv w' (tr @ [?v])"
      using inv run load_keeps_choice [of sv a w x w' x' _ _ _ tr ?v] by (auto simp: approval_inv_def)
    then show ?thesis using Load_selected_workflow nxt by (auto simp: approval_inv_def)
  next
    case Review_compiled_code_risk
    then show ?thesis using code_review_step [of sv a w x w' x' n' tr ?v] run nxt inv by simp
  next
    case Review_plan
    then show ?thesis using plan_review_step [of sv a w x w' x' n' tr ?v] run nxt inv by simp
  next
    case Verify_approval
    then show ?thesis using verify_step [of sv a w x w' x' n' tr ?v] run nxt inv by simp
  next
    case Reconcile_executor
    then obtain r where "wg_executor_reconciliation w' = Some r" using run by (auto dest!: ran)
    then show ?thesis using Reconcile_executor nxt dest
      by (cases "rc_outcome r") (auto simp: approval_inv_def route_reconciliation_def exn_simps split: if_splits)
  next
    case Adapt_multi_plan
    then have "\<not> is_fixed w" using inv mode by (auto simp: approval_inv_def mode_inv_def)
    then have "\<not> is_fixed w'" using Adapt_multi_plan run by (auto dest!: ran)
    then show ?thesis using Adapt_multi_plan dest by (auto simp: approval_inv_def)
  qed (use inv run nxt dest \<open>n \<noteq> END\<close> in
      \<open>auto simp: approval_inv_def persisted_plan_updates_def dest!: ran split: if_splits\<close>)
  then show "mode_inv w' \<and> approval_inv sv n' w' (tr @ [?v])" using mode' by blast
qed

text \<open>
  Members. \<open>reads_ok\<close> lists what a node and the services it calls read from the state with \<open>state[key]\<close>; the three
  invariants below are what keeps it: the choices made before planning, the plan with its revision, and the
  execution with its signals.
\<close>

fun reads_ok :: "node \<Rightarrow> wstate \<Rightarrow> bool" where
  "reads_ok Clarify_request w = (wg_intent_decision w \<noteq> None)"
| "reads_ok Commit_answer w = (wf_answer w \<noteq> None)"
| "reads_ok Confirm_request_risk w = (wg_request_risk w \<noteq> None)"
| "reads_ok Choose_workflow w = (wg_workflow_proposal_version w \<noteq> None \<and> wg_workflow_candidates w \<noteq> None)"
| "reads_ok Load_selected_workflow w = (wg_selected_workflow_version_id w \<noteq> None \<and> wg_execution_mode w \<noteq> None)"
| "reads_ok Build_plan w = (wg_request_risk w \<noteq> None \<and> wg_planning_kind w \<noteq> None \<and> wg_execution_mode w \<noteq> None)"
| "reads_ok Compile_and_persist_plan w = (wg_plan w \<noteq> None \<and> wg_execution_mode w \<noteq> None)"
| "reads_ok Review_compiled_code_risk w = (wg_plan_revision_id w \<noteq> None)"
| "reads_ok Review_plan w = (wg_plan_revision_id w \<noteq> None \<and> wg_plan_revision_number w \<noteq> None
     \<and> wg_plan_public_payload_hash w \<noteq> None \<and> wg_plan w \<noteq> None \<and> wg_code_risk w \<noteq> None)"
| "reads_ok Verify_approval w = (wg_plan w \<noteq> None \<and> wg_execution_mode w \<noteq> None)"
| "reads_ok Submit_execution w = (wg_plan w \<noteq> None \<and> wg_execution_mode w \<noteq> None \<and> wg_plan_revision_id w \<noteq> None
     \<and> wg_plan_revision_number w \<noteq> None)"
| "reads_ok Wait_external_signal w = (wf_execution_id w \<noteq> None)"
| "reads_ok Reconcile_executor w = ((\<exists>b. wf_external_signal w = Some (ExecutorBoundarySignal b)) \<and> wg_plan w \<noteq> None
     \<and> wg_execution_mode w \<noteq> None \<and> wg_plan_id w \<noteq> None \<and> wg_plan_revision_id w \<noteq> None)"
| "reads_ok Adapt_multi_plan w = (wg_executor_reconciliation w \<noteq> None \<and> wg_planning_kind w \<noteq> None \<and> wg_plan w \<noteq> None)"
| "reads_ok Append_operation w = (wg_multi_decision w \<noteq> None \<and> wg_plan w \<noteq> None \<and> wg_execution_mode w \<noteq> None
     \<and> wf_execution_id w \<noteq> None \<and> wg_current_operation_id w \<noteq> None \<and> wg_plan_revision_id w \<noteq> None)"
| "reads_ok Finalize_execution w = (wf_execution_id w \<noteq> None)"
| "reads_ok Cancel_execution w = ((\<exists>u why. wf_external_signal w = Some (CancelRequestedSignal u why)) \<and> wf_execution_id w \<noteq> None)"
| "reads_ok Build_report_evidence w = (wf_execution_id w \<noteq> None \<and> wg_plan w \<noteq> None)"
| "reads_ok Generate_report w = (wg_report_evidence w \<noteq> None \<and> wf_execution_id w \<noteq> None)"
| "reads_ok Commit_success w = (wf_report_markdown w \<noteq> None)"
| "reads_ok Commit_blocked w = (wg_code_risk w \<noteq> None \<or> wg_request_risk w \<noteq> None)"
| "reads_ok Commit_failed w = (wg_executor_reconciliation w \<noteq> None)"
| "reads_ok _ w = True"

definition mode_settled :: "wstate \<Rightarrow> bool" where
  "mode_settled w = (wg_planning_kind w \<noteq> None \<and> wg_execution_mode w \<noteq> None)"

definition classified :: "wstate \<Rightarrow> bool" where
  "classified w = (wg_planning_kind w \<noteq> None \<and> (\<exists>d. wg_intent_decision w = Some d
     \<and> (wg_execution_mode w \<noteq> None \<or> id_intent d = In_DATA_ANALYSIS_EXECUTION)))"

fun choices_inv :: "node \<Rightarrow> wstate \<Rightarrow> bool" where
  "choices_inv Hydrate_turn w = True"
| "choices_inv Classify_intent w = True"
| "choices_inv Clarify_request w = (wg_intent_decision w \<noteq> None)"
| "choices_inv Answer_general w = True"
| "choices_inv Answer_data_question w = True"
| "choices_inv Commit_answer w = (wf_answer w \<noteq> None)"
| "choices_inv Choose_execution_mode w = (wg_intent_decision w \<noteq> None)"
| "choices_inv Review_request_risk w = classified w"
| "choices_inv Confirm_request_risk w = (classified w \<and> wg_request_risk w \<noteq> None)"
| "choices_inv Search_workflows w = True"
| "choices_inv Choose_workflow w = (mode_settled w \<and> wg_workflow_proposal_version w \<noteq> None \<and> wg_workflow_candidates w \<noteq> None)"
| "choices_inv Load_selected_workflow w = (mode_settled w \<and> wg_selected_workflow_version_id w \<noteq> None)"
| "choices_inv Commit_blocked w = (wg_code_risk w \<noteq> None \<or> wg_request_risk w \<noteq> None)"
| "choices_inv END w = True"
| "choices_inv n w = mode_settled w"

lemma classify_choices:
  assumes "run_node sv Classify_intent a w x = (Inr w', x')" "next_node Classify_intent w' = Inr n'"
  shows "choices_inv n' w'"
proof -
  obtain d where w': "w' = w\<lparr>wg_intent_decision := Some d,
     wg_planning_kind := (if id_intent d = In_CODE_EXECUTION then Some Pk_CUSTOM_CODE
        else if id_intent d = In_DATA_ANALYSIS_EXECUTION then Some Pk_TOOL_PLAN else wg_planning_kind w),
     wg_execution_mode := (if (id_intent d = In_CODE_EXECUTION \<or> id_intent d = In_DATA_ANALYSIS_EXECUTION)
        \<and> id_requested_execution_mode d \<noteq> None then id_requested_execution_mode d else wg_execution_mode w)\<rparr>"
    using ran_classify [OF assms(1)] by blast
  show ?thesis
  proof (cases "id_requires_clarification d")
    case True
    then have "n' = Clarify_request" using assms(2) by (simp add: route_intent_def w' need_field_def)
    then show ?thesis by (simp add: w')
  next
    case False
    then have "n' = (case id_intent d of In_GENERAL_QA \<Rightarrow> Answer_general | In_DATA_ANALYSIS_QA \<Rightarrow> Answer_data_question
        | In_DATA_ANALYSIS_EXECUTION \<Rightarrow> Review_request_risk
        | In_CODE_EXECUTION \<Rightarrow> if id_requested_execution_mode d \<noteq> None then Review_request_risk else Choose_execution_mode)"
      using assms(2) by (cases "id_intent d") (simp_all add: route_intent_def w' need_field_def)
    then show ?thesis by (cases "id_intent d") (auto simp: classified_def w')
  qed
qed

lemma request_choices:
  assumes "n \<in> {Review_request_risk, Confirm_request_risk}" "choices_inv n w" "run_node sv n a w x = (Inr w', x')" "next_node n w' = Inr n'"
  shows "choices_inv n' w'"
proof -
  have same: "wg_intent_decision w' = wg_intent_decision w" "wg_planning_kind w' = wg_planning_kind w"
      "wg_execution_mode w' = wg_execution_mode w" "wg_request_risk w' \<noteq> None"
    using assms(1,3) by (auto dest!: ran)
  have "classified w" using assms(1,2) by auto
  then obtain d r where d: "wg_intent_decision w = Some d" "wg_request_risk w' = Some r" using same(4) unfolding classified_def by blast
  have "n' = Build_plan \<Longrightarrow> id_intent d \<noteq> In_DATA_ANALYSIS_EXECUTION"
    using assms(1,4) d same by (auto simp: route_request_risk_def need_field_def split: if_splits)
  then have "n' = Build_plan \<Longrightarrow> mode_settled w'" using \<open>classified w\<close> d(1) same by (simp add: classified_def mode_settled_def)
  moreover have "classified w'" using \<open>classified w\<close> same by (simp add: classified_def)
  moreover have "n' \<in> {Commit_blocked, Confirm_request_risk, Search_workflows, Build_plan}"
    using assms(1) next_declared [OF assms(4)] by auto
  ultimately show ?thesis using d(2) by auto
qed

definition working_nodes :: "node list" where
  "working_nodes = [Load_selected_workflow, Build_plan, Compile_and_persist_plan, Review_compiled_code_risk, Review_plan, Verify_approval,
     Submit_execution, Wait_external_signal, Reconcile_executor, Adapt_multi_plan, Append_operation, Finalize_execution,
     Cancel_execution, Build_report_evidence, Generate_report, Commit_success, Commit_rejected, Commit_failed, Commit_cancelled]"

lemma working_settled:
  assumes "n \<in> set working_nodes" "choices_inv n w" "run_node sv n a w x = (Inr w', x')"
  shows "mode_settled w'"
proof -
  have "mode_settled w" using assms(1,2) by (cases n rule: node.exhaust) (simp_all add: working_nodes_def)
  moreover have "wg_planning_kind w' = wg_planning_kind w \<and> wg_execution_mode w' = wg_execution_mode w"
    using assms(1,3) by (cases n rule: node.exhaust) (auto simp: working_nodes_def persisted_plan_updates_def dest!: ran)
  ultimately show ?thesis by (simp add: mode_settled_def)
qed

lemma working_choices:
  assumes "n \<in> set working_nodes" "choices_inv n w" "run_node sv n a w x = (Inr w', x')" "n' \<in> set (destinations n)"
  shows "choices_inv n' w'"
proof -
  have "n' \<in> set (END # Commit_blocked # working_nodes) - {Load_selected_workflow}" using assms(1,4) by (cases n rule: node.exhaust) (auto simp: working_nodes_def)
  moreover have "n' = Commit_blocked \<Longrightarrow> n = Review_compiled_code_risk" using assms(1,4) by (cases n rule: node.exhaust) (auto simp: working_nodes_def)
  then have "n' = Commit_blocked \<Longrightarrow> wg_code_risk w' \<noteq> None" using assms(3) by (auto dest!: ran)
  ultimately show ?thesis using working_settled [OF assms(1-3)] by (cases n' rule: node.exhaust) (simp_all add: working_nodes_def)
qed

lemma choices_kept: "kept_by_nodes sv (\<lambda>n w tr. choices_inv n w)"
  unfolding kept_by_nodes_def
proof (intro allI impI, elim conjE)
  fix n a w x' n' w' and x :: 'a and tr :: "'a visit list"
  assume inv: "choices_inv n w" and "n \<noteq> END" and run: "run_node sv n a w x = (Inr w', x')" and nxt: "next_node n w' = Inr n'"
  have dest: "n' \<in> set (destinations n)" using nxt by (rule next_declared)
  show "choices_inv n' w'"
  proof (cases "n \<in> set working_nodes")
    case True
    then show ?thesis using inv run dest by (rule working_choices)
  next
    case False
    then show ?thesis
    proof (cases n)
      case Classify_intent
      show ?thesis by (rule classify_choices [OF run [unfolded Classify_intent] nxt [unfolded Classify_intent]])
    next
      case Review_request_risk
      show ?thesis by (rule request_choices [OF _ inv run nxt]) (simp add: Review_request_risk)
    next
      case Confirm_request_risk
      show ?thesis by (rule request_choices [OF _ inv run nxt]) (simp add: Confirm_request_risk)
    next
      case Choose_workflow
      then have "mode_settled w'" "wg_selected_workflow_version_id w' \<noteq> None" using run by (auto simp: mode_settled_def dest!: ran)
      then show ?thesis using Choose_workflow dest by auto
    next
      case Search_workflows
      then have "mode_settled w'" "wg_workflow_proposal_version w' \<noteq> None" "wg_workflow_candidates w' \<noteq> None"
        using run by (auto simp: mode_settled_def dest!: ran)
      then show ?thesis using Search_workflows dest by auto
    next
      case Choose_execution_mode
      then have "classified w'" using inv run by (auto simp: classified_def dest!: ran)
      then show ?thesis using Choose_execution_mode dest by simp
    qed (use run dest \<open>n \<noteq> END\<close> in \<open>auto simp: working_nodes_def dest!: ran\<close>)
  qed
qed

text \<open>The plan with its revision, and the execution once it has been submitted.\<close>

definition has_revision :: "wstate \<Rightarrow> bool" where
  "has_revision w = (wg_plan w \<noteq> None \<and> wg_plan_id w \<noteq> None \<and> wg_plan_revision_id w \<noteq> None
     \<and> wg_plan_revision_number w \<noteq> None \<and> wg_plan_public_payload_hash w \<noteq> None)"

definition started :: "wstate \<Rightarrow> bool" where
  "started w = (nonempty (wf_execution_id w) \<noteq> None \<and> wg_current_operation_id w \<noteq> None)"

definition adapting :: "wstate \<Rightarrow> bool" where
  "adapting w = (nonempty (wf_execution_id w) \<noteq> None \<longrightarrow> has_revision w \<and> started w \<and> wg_multi_decision w \<noteq> None)"

fun work_inv :: "node \<Rightarrow> wstate \<Rightarrow> bool" where
  "work_inv Build_plan w = adapting w"
| "work_inv Compile_and_persist_plan w = (wg_plan w \<noteq> None \<and> adapting w)"
| "work_inv Review_compiled_code_risk w = (has_revision w \<and> adapting w)"
| "work_inv Review_plan w = (has_revision w \<and> adapting w \<and> wg_code_risk w \<noteq> None)"
| "work_inv Verify_approval w = (has_revision w \<and> adapting w)"
| "work_inv Submit_execution w = has_revision w"
| "work_inv Wait_external_signal w = (has_revision w \<and> started w)"
| "work_inv Reconcile_executor w = (has_revision w \<and> started w \<and> (\<exists>b. wf_external_signal w = Some (ExecutorBoundarySignal b)))"
| "work_inv Adapt_multi_plan w = (has_revision w \<and> started w \<and> wg_executor_reconciliation w \<noteq> None)"
| "work_inv Append_operation w = (has_revision w \<and> started w \<and> wg_multi_decision w \<noteq> None)"
| "work_inv Finalize_execution w = (has_revision w \<and> started w)"
| "work_inv Cancel_execution w = (has_revision w \<and> started w \<and> (\<exists>u why. wf_external_signal w = Some (CancelRequestedSignal u why)))"
| "work_inv Build_report_evidence w = (has_revision w \<and> started w)"
| "work_inv Generate_report w = (started w \<and> wg_report_evidence w \<noteq> None)"
| "work_inv Commit_success w = (wf_report_markdown w \<noteq> None)"
| "work_inv Commit_failed w = (wg_executor_reconciliation w \<noteq> None)"
| "work_inv Commit_answer w = True"
| "work_inv Commit_rejected w = True"
| "work_inv Commit_blocked w = True"
| "work_inv Commit_cancelled w = True"
| "work_inv END w = True"
| "work_inv n w = (wf_execution_id w = None)"

lemma has_revision_updates [simp]: "has_revision (persisted_plan_updates p q w)"
  by (simp add: has_revision_def persisted_plan_updates_def)

lemma plan_updates_keep [simp]:
  "wf_execution_id (persisted_plan_updates p q w) = wf_execution_id w"
  "wg_current_operation_id (persisted_plan_updates p q w) = wg_current_operation_id w"
  "wg_multi_decision (persisted_plan_updates p q w) = wg_multi_decision w"
  by (simp_all add: persisted_plan_updates_def)

lemma adapting_none: "wf_execution_id w = None \<Longrightarrow> adapting w"
  by (simp add: adapting_def nonempty_def)

lemmas work_defs = has_revision_def started_def adapting_def nonempty_def

lemma planning_work:
  assumes "n \<in> {Build_plan, Compile_and_persist_plan, Review_compiled_code_risk, Review_plan, Verify_approval, Adapt_multi_plan, Append_operation}"
    and "work_inv n w" "run_node sv n a w x = (Inr w', x')" "next_node n w' = Inr n'"
  shows "work_inv n' w'"
proof -
  have dest: "n' \<in> set (destinations n)" using assms(4) by (rule next_declared)
  consider "n = Build_plan" | "n = Compile_and_persist_plan" | "n = Review_compiled_code_risk" | "n = Review_plan" | "n = Verify_approval"
    | "n = Adapt_multi_plan" | "n = Append_operation" using assms(1) by blast
  then show ?thesis
  proof cases
    case 5
    then have w': "w' = w\<lparr>wf_phase := QUEUED_FOR_EXECUTION\<rparr>" using ran_verify [OF assms(3) [unfolded 5]] by blast
    show ?thesis
    proof (cases "nonempty (wf_execution_id w)")
      case None
      then have "n' = Submit_execution" using assms(4) 5 w' by (simp add: route_approved_execution_def)
      then show ?thesis using assms(2) 5 w' by (simp add: has_revision_def)
    next
      case (Some e)
      then have "n' = Append_operation" using assms(4) 5 w' by (simp add: route_approved_execution_def)
      then show ?thesis using assms(2) 5 w' Some by (simp add: has_revision_def adapting_def started_def)
    qed
  next
    case 6
    then have "has_revision w'" "started w'" "wg_multi_decision w' \<noteq> None" "wg_executor_reconciliation w' \<noteq> None"
      using assms(2,3) by (auto simp: has_revision_def started_def dest!: ran)
    then show ?thesis using 6 dest by (auto simp: adapting_def has_revision_def)
  next
    case 7
    then have "has_revision w'" "started w'" using assms(2,3) by (auto simp: started_def dest!: ran) (simp_all add: has_revision_def)
    then show ?thesis using 7 dest by simp
  next
    case 2
    then have "n' = Review_compiled_code_risk" "has_revision w'" "adapting w'"
      using assms(2,3) dest by (auto simp: adapting_def started_def dest!: ran)
    then show ?thesis by simp
  qed (use assms(2,3) dest in \<open>auto simp: has_revision_def adapting_def started_def dest!: ran\<close>)
qed

lemma execution_work:
  assumes "n \<in> {Submit_execution, Wait_external_signal, Reconcile_executor, Finalize_execution, Cancel_execution, Build_report_evidence,
      Generate_report, Commit_success, Commit_rejected, Commit_blocked, Commit_failed, Commit_cancelled}"
    and "work_inv n w" "run_node sv n a w x = (Inr w', x')" "next_node n w' = Inr n'"
  shows "work_inv n' w'"
proof -
  have dest: "n' \<in> set (destinations n)" using assms(4) by (rule next_declared)
  consider "n = Submit_execution" | "n = Wait_external_signal" | "n = Reconcile_executor" | "n = Finalize_execution" | "n = Cancel_execution"
    | "n = Build_report_evidence" | "n = Generate_report"
    | "n \<in> {Commit_success, Commit_rejected, Commit_blocked, Commit_failed, Commit_cancelled}" using assms(1) by blast
  then show ?thesis
  proof cases
    case 2
    then have a: "is_executor_signal a \<or> is_cancel_signal a" and w': "w' = w\<lparr>wf_external_signal := Some a\<rparr>"
      using ran_execution(2) [OF assms(3) [unfolded 2]] by blast+
    have kept: "has_revision w'" "started w'" using assms(2) 2 by (simp_all add: w' has_revision_def started_def)
    show ?thesis using a assms(4) kept 2
      by (cases a) (simp_all add: w' route_external_signal_def need_field_def)
  next
    case 3
    then have "has_revision w'" "started w'" "wg_executor_reconciliation w' \<noteq> None"
      using assms(2,3) by (auto simp: has_revision_def started_def dest!: ran)
    then show ?thesis using 3 dest by auto
  next
    case 1
    then show ?thesis using assms(2,3) dest by (auto simp: has_revision_def started_def nonempty_def dest!: ran)
  qed (use assms(2,3) dest in \<open>auto simp: has_revision_def started_def dest!: ran\<close>)
qed

lemma early_work:
  assumes "n \<in> {Hydrate_turn, Classify_intent, Clarify_request, Answer_general, Answer_data_question, Commit_answer, Choose_execution_mode,
      Review_request_risk, Confirm_request_risk, Search_workflows, Choose_workflow, Load_selected_workflow}"
    and "work_inv n w" "run_node sv n a w x = (Inr w', x')" "n' \<in> set (destinations n)"
  shows "work_inv n' w'"
proof (cases "n = Commit_answer")
  case True
  then show ?thesis using assms(4) by simp
next
  case False
  then have "wf_execution_id w = None" using assms(1,2) by auto
  then have "wf_execution_id w' = None" using assms(1,3) False by (auto dest!: ran)
  moreover have "n = Load_selected_workflow \<Longrightarrow> has_revision w'" using assms(3) by (auto dest!: ran)
  moreover have "n' \<in> {Classify_intent, Clarify_request, Answer_general, Answer_data_question, Commit_answer, Choose_execution_mode,
      Review_request_risk, Confirm_request_risk, Search_workflows, Choose_workflow, Load_selected_workflow, Commit_blocked, Build_plan}
      \<or> (n = Load_selected_workflow \<and> n' = Review_compiled_code_risk)"
    using assms(1,4) False by auto
  ultimately show ?thesis using adapting_none [of w'] by auto
qed

lemma work_kept: "kept_by_nodes sv (\<lambda>n w tr. work_inv n w)"
  unfolding kept_by_nodes_def
proof (intro allI impI, elim conjE)
  fix n a w x' n' w' and x :: 'a and tr :: "'a visit list"
  assume inv: "work_inv n w" and "n \<noteq> END" and run: "run_node sv n a w x = (Inr w', x')" and nxt: "next_node n w' = Inr n'"
  note dest = next_declared [OF nxt]
  note step = planning_work [OF _ inv run nxt] execution_work [OF _ inv run nxt] early_work [OF _ inv run dest]
  show "work_inv n' w'" using \<open>n \<noteq> END\<close> step by (cases n) simp_all
qed

text \<open>Corrections.\<close>

definition correction_inv :: "'x workflow_services \<Rightarrow> node \<Rightarrow> wstate \<Rightarrow> bool" where
  "correction_inv sv n w = (get_or (wg_correction_count w) 0 \<le> sv_correction_limit sv
     \<or> (get_or (wg_correction_count w) 0 = sv_correction_limit sv + 1 \<and> n \<in> {Commit_failed, END}))"

lemma corrections_kept: "0 \<le> sv_correction_limit sv \<Longrightarrow> kept_by_nodes sv (\<lambda>n w tr. correction_inv sv n w)"
  unfolding kept_by_nodes_def
proof (intro allI impI, elim conjE)
  fix n a w x' n' w' and x :: 'a and tr :: "'a visit list"
  assume limit: "0 \<le> sv_correction_limit sv" and inv: "correction_inv sv n w" and "n \<noteq> END"
    and run: "run_node sv n a w x = (Inr w', x')" and nxt: "next_node n w' = Inr n'"
  show "correction_inv sv n' w'"
  proof (cases "n = Adapt_multi_plan")
    case True
    obtain r d p where "wg_executor_reconciliation w = Some r" and r: "rc_outcome r = Eo_OPERATION_FAILED \<and> sv_correction_limit sv \<le> get_or (wg_correction_count w) 0 \<longrightarrow> md_action d = Ma_FAIL"
      and w': "w' = w\<lparr>wg_multi_action := Some (md_action d), wg_multi_decision := Some d,
          wg_correction_count := (if rc_outcome r = Eo_OPERATION_FAILED then Some (get_or (wg_correction_count w) 0 + 1) else wg_correction_count w),
          wg_plan := p\<rparr>" using ran_adapt [OF run [unfolded True]] by blast
    have le: "get_or (wg_correction_count w) 0 \<le> sv_correction_limit sv" using inv True by (simp add: correction_inv_def)
    show ?thesis
    proof (cases "rc_outcome r = Eo_OPERATION_FAILED \<and> sv_correction_limit sv \<le> get_or (wg_correction_count w) 0")
      case True
      then have "n' = Commit_failed" using nxt \<open>n = Adapt_multi_plan\<close> r by (simp add: w' route_multi_action_def need_field_def)
      then show ?thesis using True le by (simp add: correction_inv_def w')
    next
      case False
      then show ?thesis using le by (auto simp: correction_inv_def w')
    qed
  next
    case False
    then have "wg_correction_count w' = wg_correction_count w \<or> wg_correction_count w' = Some 0" using run \<open>n \<noteq> END\<close>
      by (cases n) (auto simp: persisted_plan_updates_def dest!: ran)
    moreover have "n = Commit_failed \<Longrightarrow> n' = END" using nxt by simp
    ultimately show ?thesis using inv limit \<open>n \<noteq> END\<close> by (auto simp: correction_inv_def)
  qed
qed

section \<open>Invariants of runs\<close>

text \<open>A property of node, state and history that the nodes keep holds in every run.\<close>

locale graph_property =
  fixes sv :: "'x workflow_services" and P :: "node \<Rightarrow> wstate \<Rightarrow> 'x visit list \<Rightarrow> bool"
  assumes starts: "P Hydrate_turn (fresh_wstate turn) []"
    and kept: "kept_by_nodes sv P"
begin

lemma run_keeps: "graph_step sv (n, w, x, tr) (n', w', x', tr') \<Longrightarrow> P n w tr \<Longrightarrow> P n' w' tr'"
  using kept unfolding kept_by_nodes_def by (elim graph_stepE) blast+

lemma reachable_keeps: "graph_reachable sv c \<Longrightarrow> (case c of (n, w, x, tr) \<Rightarrow> P n w tr)"
proof (induction rule: reachable.induct)
  case (reach_init c)
  then show ?case using starts by (cases c) auto
next
  case (reach_step c d)
  then show ?case using run_keeps by (cases c; cases d) auto
qed

lemma in_every_run: "graph_reachable sv (n, w, x, tr) \<Longrightarrow> P n w tr"
  using reachable_keeps by fastforce

end

lemma fresh_wstate_simps [simp]:
  "wf_phase (fresh_wstate t) = ACCEPTED" "wf_turn (fresh_wstate t) = t" "wf_execution_id (fresh_wstate t) = None"
  "wg_planning_kind (fresh_wstate t) = None" "wg_risk_acknowledged (fresh_wstate t) = None" "wg_correction_count (fresh_wstate t) = None"
  by (simp_all add: fresh_wstate_def new_workflow_def workflow.defs wstate.defs)

interpretation phases: graph_property sv "\<lambda>n w tr. phase_inv n w" for sv :: "'x workflow_services"
  by unfold_locales (simp add: phase_inv_def, rule phase_kept)

interpretation gate: graph_property sv gate_inv for sv :: "'x workflow_services"
  by unfold_locales (simp add: gate_inv_def planned_nodes_def, rule gate_kept)

interpretation approvals: graph_property sv "\<lambda>n w tr. mode_inv w \<and> approval_inv sv n w tr" for sv :: "'x workflow_services"
proof unfold_locales
  fix turn show "mode_inv (fresh_wstate turn) \<and> approval_inv sv Hydrate_turn (fresh_wstate turn) []"
    by (simp add: mode_inv_def approval_inv_def)
qed (rule approval_kept)

interpretation choices: graph_property sv "\<lambda>n w tr. choices_inv n w" for sv :: "'x workflow_services"
  by unfold_locales (simp, rule choices_kept)

interpretation work: graph_property sv "\<lambda>n w tr. work_inv n w" for sv :: "'x workflow_services"
  by unfold_locales (simp, rule work_kept)

interpretation corrections: graph_property sv "\<lambda>n w tr. 0 \<le> sv_correction_limit sv \<longrightarrow> correction_inv sv n w" for sv :: "'x workflow_services"
proof unfold_locales
  fix turn show "0 \<le> sv_correction_limit sv \<longrightarrow> correction_inv sv Hydrate_turn (fresh_wstate turn)" by (simp add: correction_inv_def)
next
  show "kept_by_nodes sv (\<lambda>n w tr. 0 \<le> sv_correction_limit sv \<longrightarrow> correction_inv sv n w)"
    using corrections_kept [of sv] unfolding kept_by_nodes_def by blast
qed

section \<open>Routing\<close>

lemma route_found:
  assumes "n \<noteq> END" "choices_inv n w" "run_node sv n a w x = (Inr w', x')"
  shows "\<exists>n'. next_node n w' = Inr n'"
proof (cases n)
  case Reconcile_executor
  then obtain r where "wg_executor_reconciliation w' = Some r" "wg_execution_mode w' \<noteq> None"
    using assms(2,3) by (auto simp: mode_settled_def dest!: ran)
  then show ?thesis using Reconcile_executor by (cases "rc_outcome r") (auto simp: route_reconciliation_def need_field_def)
next
  case Confirm_request_risk
  then have "wg_request_risk w' \<noteq> None" "wg_intent_decision w' \<noteq> None" using assms(2,3) by (auto simp: classified_def dest!: ran)
  then show ?thesis using Confirm_request_risk by (auto simp: route_request_risk_def need_field_def)
next
  case Review_request_risk
  then have "wg_request_risk w' \<noteq> None" "wg_intent_decision w' \<noteq> None" using assms(2,3) by (auto simp: classified_def dest!: ran)
  then show ?thesis using Review_request_risk by (auto simp: route_request_risk_def need_field_def)
next
  case Review_compiled_code_risk
  then have "wg_code_risk w' \<noteq> None" "wg_planning_kind w' \<noteq> None" using assms(2,3) by (auto simp: mode_settled_def dest!: ran)
  then show ?thesis using Review_compiled_code_risk by (auto simp: route_code_risk_def need_field_def)
qed (use assms(1,3) in \<open>auto simp: route_intent_def route_plan_review_def route_external_signal_def route_multi_action_def
      need_field_def dest!: ran\<close>)

lemma members_present:
  assumes "choices_inv n w" "work_inv n w" "gate_inv n w tr"
  shows "reads_ok n w"
proof -
  have "n \<in> set planned_nodes \<Longrightarrow> wg_request_risk w \<noteq> None" using assms(3) by (auto simp: gate_inv_def request_cleared_def)
  then show ?thesis using assms(1,2)
    by (cases n) (simp_all add: mode_settled_def classified_def has_revision_def started_def planned_nodes_def,
        auto simp: nonempty_def split: option.splits)
qed

section \<open>A run\<close>

text \<open>Services that answer a request for code with one plan of low risk, and the first seven nodes of the run.\<close>

definition demo_review :: risk_review where
  "demo_review = \<lparr>rk_level = Rk_LOW, rk_categories = [], rk_summary = ''low'', rk_evidence = [], rk_recommended_action = ''ALLOW''\<rparr>"

definition demo_code_plan :: plan_draft where
  "demo_code_plan = \<lparr>pd_objective = ''o'', pd_strategy_summary = ''s'', pd_execution_mode = Em_SINGLE, pd_runtime_profile = ''basic'',
     pd_steps = [], pd_assumptions = [], pd_expected_artifacts = []\<rparr>"

definition demo_persisted :: persisted_plan where
  "demo_persisted = \<lparr>pp_plan_id = 3, pp_plan_revision_id = 4, pp_plan_revision_number = 1,
     pp_public_payload_hash = replicate 64 (CHR ''a''), pp_compiled_bundle_id = 6\<rparr>"

definition demo_intent :: intent_decision where
  "demo_intent = \<lparr>id_intent = In_CODE_EXECUTION, id_decision_summary = ''code'', id_requires_clarification = False,
     id_clarification_question = None, id_requires_execution_mode = False, id_requested_execution_mode = Some Em_SINGLE\<rparr>"

definition demo_approval :: resume_signal where
  "demo_approval = PlanReviewDecision \<lparr>pr_decision = ''APPROVE'', pr_plan_revision_id = 4, pr_plan_revision_number = 1,
     pr_public_payload_hash = replicate 64 (CHR ''a''), pr_feedback = None, pr_risk_acknowledged = False\<rparr>"

definition no_answer :: "'a result" where "no_answer = Inl (RuntimeError ''unused'')"

definition demo_services :: "unit workflow_services" where
  "demo_services = \<lparr>sv_update_status = (\<lambda>_ _. spure (Inr ())), sv_commit_terminal = (\<lambda>_ _ _. spure (Inr ())),
     sv_commit_answer = (\<lambda>_ _. spure (Inr ())), sv_classify_intent = (\<lambda>_. spure (Inr demo_intent)),
     sv_answer_question = (\<lambda>_ _. spure no_answer), sv_review_request_risk = (\<lambda>_. spure (Inr demo_review)),
     sv_search_workflows = (\<lambda>_. spure (Inr [])), sv_workflow_version = (\<lambda>_. spure no_answer),
     sv_build_plan = (\<lambda>_. spure (Inr demo_code_plan)), sv_compile_and_persist_plan = (\<lambda>_ _. spure (Inr demo_persisted)),
     sv_review_compiled_code_risk = (\<lambda>_. spure (Inr demo_review)), sv_lock_session = (\<lambda>_. spure (Inr ())),
     sv_submit_execution = (\<lambda>_. spure (Inr \<lparr>sr_execution_id = 7, sr_operation_id = 8, sr_execution_version = 1,
        sr_persisted_plan = None, sr_plan = None\<rparr>)),
     sv_reconcile_executor = (\<lambda>_ _. spure no_answer), sv_adapt = (\<lambda>_ _. spure no_answer),
     sv_append_operation = (\<lambda>_ _. spure no_answer), sv_finalize_execution = (\<lambda>_. spure (Inr ())),
     sv_cancel_execution = (\<lambda>_ _. spure (Inr ())), sv_build_report_evidence = (\<lambda>_. spure no_answer),
     sv_generate_report = (\<lambda>_ _. spure no_answer), sv_correction_limit = 3, sv_registry = [], sv_text_rejected = ''r'',
     sv_text_blocked = ''b'', sv_text_failed = ''f'', sv_text_cancelled = ''c''\<rparr>"

definition demo_graph_turn :: task_turn where
  "demo_graph_turn = \<lparr>tt_user_id = ''u'', tt_project_id = ''p'', tt_session_id = ''s'', tt_active_task_id = uuid_str 5,
     tt_current_input_message_id = ''m'', tt_user_message = ''run'', tt_runtime_profile = ''basic''\<rparr>"

primrec play :: "'x workflow_services \<Rightarrow> resume_signal list \<Rightarrow> node \<times> wstate \<times> 'x \<Rightarrow> (node \<times> wstate \<times> 'x) result" where
  "play sv [] c = Inr c"
| "play sv (a # as) c = (case c of (n, w, x) \<Rightarrow> if n = END then Inr c
     else (case run_node sv n a w x of
         (Inl e, _) \<Rightarrow> Inl e
       | (Inr w', x') \<Rightarrow> rbind (next_node n w') (\<lambda>n'. play sv as (n', w', x'))))"

lemma play_reachable:
  "play sv as (n, w, x) = Inr (n', w', x') \<Longrightarrow> graph_reachable sv (n, w, x, tr) \<Longrightarrow> \<exists>tr'. graph_reachable sv (n', w', x', tr')"
proof (induction as arbitrary: n w x tr)
  case (Cons a as)
  show ?case
  proof (cases "n = END")
    case False
    then obtain w1 x1 n1 where 1: "run_node sv n a w x = (Inr w1, x1)" "next_node n w1 = Inr n1" "play sv as (n1, w1, x1) = Inr (n', w', x')"
      using Cons.prems(1) by (auto simp: exn_simps split: prod.splits sum.splits)
    show ?thesis by (rule Cons.IH [OF 1(3) reach_step [OF Cons.prems(2) gs_run [OF False 1(1,2)]]])
  qed (use Cons.prems in auto)
qed auto

lemma demo_started: "graph_reachable demo_services (Hydrate_turn, fresh_wstate demo_graph_turn, (), [])"
  by (rule reach_init) auto

lemmas demo_service_defs = demo_services_def demo_intent_def demo_review_def demo_code_plan_def demo_persisted_def demo_graph_turn_def

lemma demo_approval_ok: "validate_resume_signal demo_approval = Inr demo_approval"
  by (simp add: validate_resume_signal_def demo_approval_def valid_uuid_def valid_hash_def list_all_iff)

lemma demo_task: "uuid_parse (uuid_str 5) = Some 5"
  by (simp add: uuid_round_trip valid_uuid_def)

lemma demo_planned:
  "\<exists>w. play demo_services [demo_approval, demo_approval, demo_approval, demo_approval, demo_approval, demo_approval, demo_approval, demo_approval]
     (Hydrate_turn, fresh_wstate demo_graph_turn, ()) = Inr (Submit_execution, w, ())"
  using demo_approval_ok demo_task
  by (simp add: run_node_def hydrate_turn_def classify_intent_def review_request_risk_def build_plan_def compile_and_persist_plan_def
      review_compiled_code_risk_def review_plan_def verify_approval_def verify_approval_and_lock_def validate_plan_execution_mode_def
      validate_clarification_def task_id_of_def route_defs sbind_def spure_def need_field_def persisted_plan_updates_def
      fresh_wstate_def new_workflow_def workflow.defs wstate.defs demo_service_defs nonempty_def demo_approval_def)

lemma demo_at_submit: "\<exists>w tr. graph_reachable demo_services (Submit_execution, w, (), tr)"
  using demo_planned play_reachable [OF _ demo_started] by blast

section \<open>Properties\<close>

text \<open>
  C6: no code without review and approval. When an execution is about to be submitted, or continued after a
  verified approval, the risk of exactly this plan was reviewed and is not critical; and the user approved
  exactly this revision, by its number and digest, or selected the stored workflow it was bound from; a high
  risk was acknowledged.
\<close>

theorem execution_approved:
  assumes "graph_reachable sv (n, w, x, tr)"
    and "n = Submit_execution \<or> n = Append_operation \<and> tr \<noteq> [] \<and> vs_node (last tr) = Verify_approval"
  shows "code_reviewed w tr \<and> (plan_approved w tr \<or> workflow_loaded sv w tr)
    \<and> (has_level Rk_HIGH (wg_code_risk w) \<longrightarrow> wg_risk_acknowledged w = Some True)"
proof -
  have "approval_inv sv n w tr" using approvals.in_every_run [OF assms(1)] by (rule conjunct2)
  then have "code_reviewed w tr \<and> granted sv w tr" using assms(2) by (elim disjE) (simp_all add: approval_inv_def)
  then show ?thesis by (simp add: granted_def)
qed

theorem execution_approved_witness:
  "\<exists>w tr. graph_reachable demo_services (Submit_execution, w, (), tr) \<and> code_reviewed w tr
     \<and> (plan_approved w tr \<or> workflow_loaded demo_services w tr)"
proof -
  obtain w tr where r: "graph_reachable demo_services (Submit_execution, w, (), tr)" using demo_at_submit by blast
  have "code_reviewed w tr \<and> (plan_approved w tr \<or> workflow_loaded demo_services w tr)" using execution_approved [OF r] by simp
  then show ?thesis using r by blast
qed

text \<open>
  C14: the request gate. No node behind the risk review of the request is ever reached with a critical request,
  nor with a high one that the user did not confirm.
\<close>

theorem request_gate:
  assumes "graph_reachable sv (n, w, x, tr)" "n \<in> set planned_nodes"
  shows "\<exists>r. wg_request_risk w = Some r \<and> rk_level r \<noteq> Rk_CRITICAL \<and> (rk_level r = Rk_HIGH \<longrightarrow>
    (\<exists>v \<in> set tr. vs_node v = Confirm_request_risk \<and> vs_answer v = RiskConfirmationDecision True))"
  using gate.in_every_run [OF assms(1)] assms(2) unfolding gate_inv_def request_cleared_def risk_confirmed_def by auto

theorem request_gate_witness:
  "\<exists>w tr r. graph_reachable demo_services (Submit_execution, w, (), tr) \<and> wg_request_risk w = Some r \<and> rk_level r \<noteq> Rk_CRITICAL"
proof -
  obtain w tr where r: "graph_reachable demo_services (Submit_execution, w, (), tr)" using demo_at_submit by blast
  then show ?thesis using request_gate [OF r] by (auto simp: planned_nodes_def)
qed

text \<open>
  C24: the graph never gets lost. In every run a node finds the members of the state that it and its services read,
  after it has run the next node is determined and is one of the declared destinations, and the task is in a
  terminal phase exactly at the end of the graph.
\<close>

theorem state_complete:
  assumes "graph_reachable sv (n, w, x, tr)"
  shows "reads_ok n w \<and> (is_terminal (wf_phase w) \<longleftrightarrow> n = END)
    \<and> (\<forall>a w' x'. n \<noteq> END \<and> run_node sv n a w y = (Inr w', x') \<longrightarrow> (\<exists>n' \<in> set (destinations n). next_node n w' = Inr n'))"
proof -
  note inv = choices.in_every_run [OF assms] work.in_every_run [OF assms] gate.in_every_run [OF assms]
  have "\<exists>n' \<in> set (destinations n). next_node n w' = Inr n'" if "n \<noteq> END" "run_node sv n a w y = (Inr w', x')" for a w' x'
    using route_found [OF that(1) inv(1) that(2)] next_declared by blast
  then show ?thesis using members_present [OF inv] phases.in_every_run [OF assms] by (auto simp: phase_inv_def)
qed

theorem state_complete_witness:
  "\<exists>w tr. graph_reachable demo_services (Submit_execution, w, (), tr) \<and> reads_ok Submit_execution w \<and> \<not> is_terminal (wf_phase w)"
proof -
  obtain w tr where r: "graph_reachable demo_services (Submit_execution, w, (), tr)" using demo_at_submit by blast
  then show ?thesis using state_complete [OF r] by blast
qed

text \<open>
  C38: corrections are bounded. The count of corrections never exceeds the configured limit by more than the one
  failure that ends the task; beyond the limit the graph is at its failed end.
\<close>

theorem corrections_bounded:
  assumes "graph_reachable sv (n, w, x, tr)" "0 \<le> sv_correction_limit sv"
  shows "get_or (wg_correction_count w) 0 \<le> sv_correction_limit sv + 1
    \<and> (sv_correction_limit sv < get_or (wg_correction_count w) 0 \<longrightarrow> n = Commit_failed \<or> n = END)"
  using corrections.in_every_run [OF assms(1)] assms(2) unfolding correction_inv_def by auto

theorem corrections_bounded_witness:
  "\<exists>w tr. graph_reachable demo_services (Submit_execution, w, (), tr) \<and> get_or (wg_correction_count w) 0 \<le> sv_correction_limit demo_services"
proof -
  obtain w tr where r: "graph_reachable demo_services (Submit_execution, w, (), tr)" using demo_at_submit by blast
  moreover have "0 \<le> sv_correction_limit demo_services" by (simp add: demo_services_def)
  ultimately show ?thesis using corrections_bounded [OF r] by fastforce
qed

text \<open>
  C39: a selected workflow cannot be revised. When the user asks for a revision of the plan of a selected workflow,
  and the new plan is of low or medium risk, the graph goes on to the verification without another review and
  the verification raises, because the last decision of the user is the request for a revision.
\<close>

theorem revised_workflow_stuck:
  assumes "is_fixed w" "run_node sv Review_plan (PlanReviewDecision p) w x = (Inr w1, x1)" "pr_decision p = ''REVISE''"
    and "run_node sv Build_plan a1 w1 y1 = (Inr w2, z1)" "run_node sv Compile_and_persist_plan a2 w2 y2 = (Inr w3, z2)"
    and "run_node sv Review_compiled_code_risk a3 w3 y3 = (Inr w4, z3)" "wg_code_risk w4 = Some r" "rk_level r = Rk_LOW \<or> rk_level r = Rk_MEDIUM"
  shows "next_node Review_plan w1 = Inr Build_plan \<and> next_node Review_compiled_code_risk w4 = Inr Verify_approval
    \<and> run_node sv Verify_approval a4 w4 y4 = (Inl (ValueError ''Plan approval is required''), y4)"
proof -
  have 1: "wg_review_action w1 = Some ''REVISE''" "is_fixed w1" using ran_review [OF assms(2)] assms(1,3) by auto
  have 2: "wg_review_action w3 = Some ''REVISE''" "is_fixed w3"
    using ran_plan(1) [OF assms(4)] ran_plan(2) [OF assms(5)] 1 by (auto simp: persisted_plan_updates_def)
  have 3: "wg_review_action w4 = Some ''REVISE''" "is_fixed w4" using ran_plan(3) [OF assms(6)] 2 by auto
  show ?thesis using 1(1) 3 assms(7,8)
    by (auto simp: route_defs need_field_def run_node_def verify_approval_def verify_approval_and_lock_def sbind_def spure_def)
qed

text \<open>A run that reaches the review of a selected workflow: the first code review, in world 0, is of high risk, later ones of low.\<close>

definition demo_candidate :: workflow_candidate where
  "demo_candidate = \<lparr>wc_workflow_version_id = 9, wc_name = ''n'', wc_description = ''d'', wc_plan = demo_code_plan, wc_input_contract = [],
     wc_public_payload_hash = replicate 64 (CHR ''a''), wc_risk = Some demo_review\<rparr>"

definition demo_choice :: resume_signal where
  "demo_choice = WorkflowSelectionDecision \<lparr>ws_workflow_version_id = Some 9, ws_proposal_version = 1,
     ws_public_payload_hash = replicate 64 (CHR ''a''), ws_input_values = JObj [], ws_risk_acknowledged = False\<rparr>"

definition demo_revision :: plan_review where
  "demo_revision = \<lparr>pr_decision = ''REVISE'', pr_plan_revision_id = 4, pr_plan_revision_number = 1,
     pr_public_payload_hash = replicate 64 (CHR ''a''), pr_feedback = None, pr_risk_acknowledged = False\<rparr>"

definition demo_fixed :: "nat workflow_services" where
  "demo_fixed = \<lparr>sv_update_status = (\<lambda>_ _. spure (Inr ())), sv_commit_terminal = (\<lambda>_ _ _. spure (Inr ())),
     sv_commit_answer = (\<lambda>_ _. spure (Inr ())),
     sv_classify_intent = (\<lambda>_. spure (Inr (demo_intent\<lparr>id_intent := In_DATA_ANALYSIS_EXECUTION\<rparr>))),
     sv_answer_question = (\<lambda>_ _. spure no_answer), sv_review_request_risk = (\<lambda>_. spure (Inr demo_review)),
     sv_search_workflows = (\<lambda>_. spure (Inr [demo_candidate])), sv_workflow_version = (\<lambda>_. spure (Inr (demo_version 0 9 1 True Rv_APPROVED))),
     sv_build_plan = (\<lambda>_. spure (Inr demo_code_plan)), sv_compile_and_persist_plan = (\<lambda>_ _. spure (Inr demo_persisted)),
     sv_review_compiled_code_risk = (\<lambda>_ x. (Inr (if x = 0 then demo_review\<lparr>rk_level := Rk_HIGH\<rparr> else demo_review), x + 1)),
     sv_lock_session = (\<lambda>_. spure (Inr ())), sv_submit_execution = (\<lambda>_. spure no_answer),
     sv_reconcile_executor = (\<lambda>_ _. spure no_answer), sv_adapt = (\<lambda>_ _. spure no_answer),
     sv_append_operation = (\<lambda>_ _. spure no_answer), sv_finalize_execution = (\<lambda>_. spure (Inr ())),
     sv_cancel_execution = (\<lambda>_ _. spure (Inr ())), sv_build_report_evidence = (\<lambda>_. spure no_answer),
     sv_generate_report = (\<lambda>_ _. spure no_answer), sv_correction_limit = 3, sv_registry = [], sv_text_rejected = ''r'',
     sv_text_blocked = ''b'', sv_text_failed = ''f'', sv_text_cancelled = ''c''\<rparr>"

lemma demo_choice_ok: "validate_resume_signal demo_choice = Inr demo_choice"
  "validate_resume_signal (PlanReviewDecision demo_revision) = Inr (PlanReviewDecision demo_revision)"
  by (simp_all add: validate_resume_signal_def demo_choice_def demo_revision_def valid_uuid_def valid_hash_def list_all_iff)

lemma demo_bound: "\<exists>p. bind_workflow_inputs (wv_plan_payload (demo_version 0 9 1 True Rv_APPROVED))
    (wv_input_contract (demo_version 0 9 1 True Rv_APPROVED)) [] = Inr p"
    "wv_public_payload_hash (demo_version 0 9 1 True Rv_APPROVED) = replicate 64 (CHR ''a'')"
  by (simp_all add: new_version_def demo_draft_def demo_digests_def bind_workflow_inputs_def demo_plan_def demo_step_def demo_params_def
      bind_step_def resolve_parameter_def exn_simps)

lemma demo_nine: "uuid_parse (uuid_str 9) = Some 9"
  by (simp add: uuid_round_trip valid_uuid_def)

lemma demo_reviewed_workflow:
  "\<exists>w. play demo_fixed [demo_choice, demo_choice, demo_choice, demo_choice, demo_choice, demo_choice, demo_choice]
     (Hydrate_turn, fresh_wstate demo_graph_turn, 0) = Inr (Review_plan, w, 1) \<and> is_fixed w \<and> wg_plan w \<noteq> None
     \<and> wg_plan_revision_id w = Some (uuid_str 4) \<and> wg_plan_revision_number w = Some 1
     \<and> wg_plan_public_payload_hash w = Some (replicate 64 (CHR ''a'')) \<and> wg_code_risk w = Some (demo_review\<lparr>rk_level := Rk_HIGH\<rparr>)"
proof -
  obtain p where p: "bind_workflow_inputs (wv_plan_payload (demo_version 0 9 1 True Rv_APPROVED))
    (wv_input_contract (demo_version 0 9 1 True Rv_APPROVED)) [] = Inr p" using demo_bound(1) by blast
  show ?thesis using demo_choice_ok(1) demo_nine p demo_bound(2)
    by (simp add: run_node_def hydrate_turn_def classify_intent_def review_request_risk_def search_workflows_def choose_workflow_def
      selection_ok_def load_workflow_node_def load_selected_workflow_def parse_id_def json_items_def
      review_compiled_code_risk_def validate_clarification_def route_defs sbind_def spure_def need_field_def persisted_plan_updates_def
      fresh_wstate_def new_workflow_def workflow.defs wstate.defs demo_service_defs demo_fixed_def demo_candidate_def demo_choice_def nonempty_def)
qed

theorem revised_workflow_stuck_witness:
  "\<exists>w tr w4. graph_reachable demo_fixed (Review_plan, w, 1, tr) \<and> is_fixed w
     \<and> run_node demo_fixed Verify_approval demo_choice w4 1 = (Inl (ValueError ''Plan approval is required''), 1)"
proof -
  obtain w where p: "play demo_fixed [demo_choice, demo_choice, demo_choice, demo_choice, demo_choice, demo_choice, demo_choice]
      (Hydrate_turn, fresh_wstate demo_graph_turn, 0) = Inr (Review_plan, w, 1)"
    and w: "is_fixed w" "wg_plan w \<noteq> None" "wg_plan_revision_id w = Some (uuid_str 4)" "wg_plan_revision_number w = Some 1"
      "wg_plan_public_payload_hash w = Some (replicate 64 (CHR ''a''))" "wg_code_risk w = Some (demo_review\<lparr>rk_level := Rk_HIGH\<rparr>)"
    using demo_reviewed_workflow by blast
  have "graph_reachable demo_fixed (Hydrate_turn, fresh_wstate demo_graph_turn, 0, [])" by (rule reach_init) auto
  then obtain tr where tr: "graph_reachable demo_fixed (Review_plan, w, 1, tr)" using play_reachable [OF p] by blast
  note defs = run_node_def sbind_def spure_def need_field_def demo_fixed_def
  define w1 where "w1 = w\<lparr>wg_review_action := Some ''REVISE'', wg_revision_feedback := Some [], wg_risk_acknowledged := Some False\<rparr>"
  define w2 where "w2 = w1\<lparr>wf_phase := PLANNING, wg_plan := Some demo_code_plan\<rparr>"
  define w3 where "w3 = persisted_plan_updates demo_code_plan demo_persisted w2"
  define w4 where "w4 = w3\<lparr>wg_code_risk := Some demo_review\<rparr>"
  have 1: "run_node demo_fixed Review_plan (PlanReviewDecision demo_revision) w 1 = (Inr w1, 1)"
    using demo_choice_ok(2) w by (auto simp: defs review_plan_def w1_def demo_revision_def)
  have 2: "run_node demo_fixed Build_plan demo_choice w1 1 = (Inr w2, 1)" by (simp add: defs build_plan_def w2_def)
  have 3: "run_node demo_fixed Compile_and_persist_plan demo_choice w2 1 = (Inr w3, 1)"
    by (simp add: defs compile_and_persist_plan_def w3_def w2_def)
  have 4: "run_node demo_fixed Review_compiled_code_risk demo_choice w3 1 = (Inr w4, 2)"
    by (simp add: defs review_compiled_code_risk_def w4_def)
  have r: "wg_code_risk w4 = Some demo_review" "rk_level demo_review = Rk_LOW \<or> rk_level demo_review = Rk_MEDIUM" "pr_decision demo_revision = ''REVISE''"
    by (simp_all add: w4_def demo_review_def demo_revision_def)
  show ?thesis using revised_workflow_stuck [OF w(1) 1 r(3) 2 3 4 r(1,2), of demo_choice 1] tr w(1) by blast
qed

end
