(* ===== verification/Plan_Store.thy ===== *)
theory Plan_Store
  imports Business_Graph "HOL-Library.Multiset"
begin

text \<open>
  From a plan to stored, compiled steps: the compiler (\<open>src/ex_agent/tools/compiler.py\<close>), the input files of the
  executor (\<open>src/ex_agent/executor/files.py\<close>, \<open>src/agent/effects/files.py\<close>), the plan repository
  (\<open>src/ex_agent/persistence/repositories/plans.py\<close>) and \<open>DurablePlans\<close> (\<open>src/agent/effects/plans.py\<close>). The
  digest, \<open>pprint.pformat\<close> and the shape of a parsed cell are parameters. The directory \<open>requests\<close> is a list of
  paths with their contents; it holds no symbolic links.
\<close>

section \<open>The compiler\<close>

record compiled_step =
  cp_sequence :: int
  cp_source :: string
  cp_source_sha256 :: string
  cp_skill_name :: "string option"
  cp_tool_name :: "string option"
  cp_parameters :: "(string \<times> json) list"

text \<open>\<open>tl_root\<close> are the parts of the absolute path of the requests directory. \<open>tl_cell\<close> parses a cell: the names of its functions, and how often the other statements call a name.\<close>

record toolchain =
  tl_sha256 :: "string \<Rightarrow> string"
  tl_pformat :: "json \<Rightarrow> string"
  tl_root :: "string list"
  tl_cell :: "string \<Rightarrow> (string list \<times> (string \<Rightarrow> nat)) result"

definition matches_type :: "json \<Rightarrow> string \<Rightarrow> bool" where
  "matches_type j expected = (case j of
       JStr _ \<Rightarrow> expected = ''string''
     | JInt _ \<Rightarrow> expected = ''integer'' \<or> expected = ''number''
     | JFloat _ \<Rightarrow> expected = ''number''
     | JBool _ \<Rightarrow> expected = ''boolean''
     | JArr _ \<Rightarrow> expected = ''array''
     | JObj _ \<Rightarrow> expected = ''object''
     | JNull \<Rightarrow> False)"

definition validate_parameters :: "(string \<times> json) list \<Rightarrow> (string \<times> parameter_spec) list \<Rightarrow> unit result" where
  "validate_parameters vals schema =
     (let unknown = sort (remdups (filter (\<lambda>k. k \<notin> set (map fst schema)) (map fst vals)));
          missing = sort (map fst (filter (\<lambda>(k, sp). sp_required sp \<and> k \<notin> set (map fst vals)) schema))
      in if unknown \<noteq> [] then Inl (ValueError (''Unknown Tool parameters: '' @ py_repr_list unknown))
         else if missing \<noteq> [] then Inl (ValueError (''Missing required Tool parameters: '' @ py_repr_list missing))
         else (case find (\<lambda>(k, v). \<not> (\<exists>sp. map_of schema k = Some sp \<and> matches_type v (sp_type sp))) vals of
            None \<Rightarrow> Inr ()
          | Some (k, v) \<Rightarrow> Inl (ValueError (''Parameter '' @ py_repr k @ '' must have JSON type ''
              @ (case map_of schema k of None \<Rightarrow> [] | Some sp \<Rightarrow> sp_type sp)))))"

text \<open>The call that is appended to the source of the tool, one argument per line in the order of the names.\<close>

definition newline :: string where "newline = [CHR 0x0A]"

definition argument_line :: "toolchain \<Rightarrow> string \<times> json \<Rightarrow> string" where
  "argument_line tc kv = ''    '' @ fst kv @ ''='' @ tl_pformat tc (snd kv) @ '',''"

definition invocation :: "toolchain \<Rightarrow> string \<Rightarrow> (string \<times> json) list \<Rightarrow> string" where
  "invocation tc name params = newline @ newline @ ''result = '' @ name @ ''('' @ newline
     @ join newline (map (argument_line tc) (sort_key fst params)) @ newline @ '')'' @ newline @ ''result'' @ newline"

definition compile_tool_step :: "toolchain \<Rightarrow> registry \<Rightarrow> plan_step \<Rightarrow> compiled_step result" where
  "compile_tool_step tc reg s = (case (ps_tool s, ps_skill s) of
       (Some tool, Some skill) \<Rightarrow> rbind (get_tool reg (tl_name tool)) (\<lambda>m.
          if tm_tool m \<noteq> tool \<or> tm_skill m \<noteq> skill then Inl (ValueError ''Plan Step lineage does not match the registry'')
          else rbind (validate_parameters (ps_parameters s) (tm_parameters m)) (\<lambda>_.
            let source = rdrop_while is_space (tm_source m) @ invocation tc (tl_name (tm_tool m)) (ps_parameters s)
            in Inr \<lparr>cp_sequence = ps_sequence s, cp_source = source, cp_source_sha256 = tl_sha256 tc source,
                 cp_skill_name = Some (sk_name (tm_skill m)), cp_tool_name = Some (tl_name (tm_tool m)),
                 cp_parameters = ps_parameters s\<rparr>))
     | _ \<Rightarrow> Inl (ValueError ''Tool Step is missing lineage''))"

definition validate_custom_source :: "toolchain \<Rightarrow> string \<Rightarrow> unit result" where
  "validate_custom_source tc source = rbind (tl_cell tc source) (\<lambda>(functions, calls).
     (case functions of
        [f] \<Rightarrow> if calls f \<noteq> 1 then Inl (ValueError ''Custom cell must invoke the function it defines'') else Inr ()
      | _ \<Rightarrow> Inl (ValueError ''Custom cell must define exactly one function'')))"

definition compile_custom_step :: "toolchain \<Rightarrow> plan_step \<Rightarrow> compiled_step result" where
  "compile_custom_step tc s =
     (let source = py_strip (case ps_custom_code s of None \<Rightarrow> [] | Some c \<Rightarrow> c) @ newline
      in rbind (validate_custom_source tc source) (\<lambda>_.
        Inr \<lparr>cp_sequence = ps_sequence s, cp_source = source, cp_source_sha256 = tl_sha256 tc source,
          cp_skill_name = None, cp_tool_name = None, cp_parameters = ps_parameters s\<rparr>))"

definition compile_step :: "toolchain \<Rightarrow> registry \<Rightarrow> plan_step \<Rightarrow> compiled_step result" where
  "compile_step tc reg s = (case ps_planning_kind s of
       Pk_TOOL_PLAN \<Rightarrow> compile_tool_step tc reg s
     | Pk_CUSTOM_CODE \<Rightarrow> compile_custom_step tc s
     | Pk_FIXED_WORKFLOW \<Rightarrow> Inl (ValueError ''Cannot compile planning kind: FIXED_WORKFLOW''))"

section \<open>Input files\<close>

type_synonym file_store = "(string \<times> string) list"

text \<open>\<open>PurePosixPath\<close>: the parts of a relative path, without empty parts and dots.\<close>

definition path_parts :: "string \<Rightarrow> string list" where
  "path_parts p = filter (\<lambda>x. x \<noteq> [] \<and> x \<noteq> ''.'') (split_on (CHR ''/'') p)"

definition safe_path :: "string \<Rightarrow> string result" where
  "safe_path p =
     (if take 1 p = ''/'' \<or> ''..'' \<in> set (path_parts p) then Inl (ValueError ''Executor input path must be safe and relative'')
      else if path_parts p = [] then Inl (ValueError ''Executor input path must not be empty'')
      else Inr (join ''/'' (path_parts p)))"

text \<open>The path and the digest of the file written.\<close>

definition materialize_input_file :: "toolchain \<Rightarrow> string \<Rightarrow> string \<Rightarrow> file_store \<Rightarrow> (string \<times> string) result \<times> file_store" where
  "materialize_input_file tc p content fs = (case safe_path p of
       Inl e \<Rightarrow> (Inl e, fs)
     | Inr q \<Rightarrow> (Inr (q, tl_sha256 tc content), dict_put q content fs))"

record input_item =
  ii_path :: string
  ii_sha256 :: string
  ii_content :: string

definition input_file :: "toolchain \<Rightarrow> string \<Rightarrow> string \<Rightarrow> string \<Rightarrow> input_item" where
  "input_file tc task content suffix = (let checksum = tl_sha256 tc content in
     \<lparr>ii_path = task @ ''/effects/'' @ checksum @ ''.'' @ suffix, ii_sha256 = checksum, ii_content = content\<rparr>)"

fun restore_files :: "toolchain \<Rightarrow> input_item list \<Rightarrow> file_store \<Rightarrow> unit result \<times> file_store" where
  "restore_files tc [] fs = (Inr (), fs)"
| "restore_files tc (i # is) fs =
     (if tl_sha256 tc (ii_content i) \<noteq> ii_sha256 i then (Inl (ValueError ''Saved Executor input checksum mismatch''), fs)
      else (case materialize_input_file tc (ii_path i) (ii_content i) fs of
          (Inl e, fs') \<Rightarrow> (Inl e, fs')
        | (Inr (_, h), fs') \<Rightarrow>
            if h \<noteq> ii_sha256 i then (Inl (ValueError ''Materialized Executor input checksum mismatch''), fs')
            else restore_files tc is fs'))"

text \<open>
  \<open>(request_root / path).resolve()\<close>: an absolute path replaces the root, and \<open>..\<close> goes up at most to the top; the
  result is given relative to the root, which it must not leave.
\<close>

fun resolve_parts :: "string list \<Rightarrow> string list \<Rightarrow> string list" where
  "resolve_parts acc [] = rev acc"
| "resolve_parts acc (p # ps) = resolve_parts (if p = ''..'' then tl acc else p # acc) ps"

definition resolve_path :: "string list \<Rightarrow> string \<Rightarrow> string result" where
  "resolve_path root p = (let ps = resolve_parts (if take 1 p = ''/'' then [] else rev root) (path_parts p)
     in if take (length root) ps = root then Inr (join ''/'' (drop (length root) ps))
        else Inl (ValueError ''Executor source escaped requests root''))"

definition capture_file :: "toolchain \<Rightarrow> file_store \<Rightarrow> string \<times> string \<Rightarrow> input_item result" where
  "capture_file tc fs src = (case src of (p, h) \<Rightarrow> rbind (resolve_path (tl_root tc) p) (\<lambda>q.
     (case map_of fs q of
        None \<Rightarrow> Inl (OtherException ''FileNotFoundError'' q)
      | Some content \<Rightarrow>
          if tl_sha256 tc content \<noteq> h then Inl (ValueError ''Approved Executor source checksum mismatch'')
          else Inr \<lparr>ii_path = p, ii_sha256 = h, ii_content = content\<rparr>)))"

definition capture_files :: "toolchain \<Rightarrow> file_store \<Rightarrow> (string \<times> string) list \<Rightarrow> input_item list result" where
  "capture_files tc fs = rmap (capture_file tc fs)"

text \<open>\<open>SourceCompiler.materialize\<close>, with the path relative to the requests directory.\<close>

definition pad4 :: "int \<Rightarrow> string" where
  "pad4 n = (let s = py_str_int n in replicate (4 - length s) (CHR ''0'') @ s)"

definition compiler_materialize :: "toolchain \<Rightarrow> compiled_step \<Rightarrow> string \<Rightarrow> int \<Rightarrow> file_store \<Rightarrow> string result \<times> file_store" where
  "compiler_materialize tc c task revision fs =
     (case materialize_input_file tc (task @ ''/'' @ py_str_int revision @ ''/step-'' @ pad4 (cp_sequence c) @ ''.py'') (cp_source c) fs of
        (Inl e, fs') \<Rightarrow> (Inl e, fs')
      | (Inr (p, h), fs') \<Rightarrow> (if h \<noteq> cp_source_sha256 c then Inl (ValueError ''Materialized source checksum changed'') else Inr p, fs'))"

section \<open>The plan repository\<close>

record plan_row =
  pl_id :: uuid
  pl_task_id :: uuid
  pl_current_revision :: int

record revision_row =
  rv_id :: uuid
  rv_plan_id :: uuid
  rv_revision_number :: int
  rv_public_payload :: plan_draft
  rv_public_payload_hash :: string
  rv_compiled_bundle_id :: uuid
  rv_registry_snapshot_hash :: string
  rv_feedback :: "string option"

record step_row =
  st_plan_revision_id :: uuid
  st_sequence :: int
  st_title :: string
  st_purpose :: string
  st_selection_rationale :: string
  st_skill_ref :: "skill_reference option"
  st_tool_ref :: "tool_reference option"
  st_parameters :: "(string \<times> json) list"
  st_compiled_source_sha256 :: string
  st_compiled_source_path :: string
  st_timeout_seconds :: int

record plan_db =
  pb_plans :: "plan_row list"
  pb_revisions :: "revision_row list"
  pb_steps :: "step_row list"

definition empty_plan_db :: plan_db where
  "empty_plan_db = \<lparr>pb_plans = [], pb_revisions = [], pb_steps = []\<rparr>"

definition plan_of :: "uuid \<Rightarrow> plan_db \<Rightarrow> plan_row option" where
  "plan_of task db = find (\<lambda>p. pl_task_id p = task) (pb_plans db)"

definition revision_of :: "uuid \<Rightarrow> int \<Rightarrow> plan_db \<Rightarrow> revision_row option" where
  "revision_of plan n db = find (\<lambda>r. rv_plan_id r = plan \<and> rv_revision_number r = n) (pb_revisions db)"

definition steps_of :: "uuid \<Rightarrow> plan_db \<Rightarrow> step_row list" where
  "steps_of rid db = filter (\<lambda>s. st_plan_revision_id s = rid) (pb_steps db)"

definition approved_steps :: "uuid \<Rightarrow> plan_db \<Rightarrow> step_row list" where
  "approved_steps rid db = sort_key st_sequence (steps_of rid db)"

definition persisted_of :: "revision_row \<Rightarrow> persisted_plan" where
  "persisted_of r = \<lparr>pp_plan_id = rv_plan_id r, pp_plan_revision_id = rv_id r, pp_plan_revision_number = rv_revision_number r,
     pp_public_payload_hash = rv_public_payload_hash r, pp_compiled_bundle_id = rv_compiled_bundle_id r\<rparr>"

text \<open>\<open>_existing_revision\<close>. The sorted lists of triples are compared as the multisets they stand for.\<close>

definition existing_revision ::
    "plan_row option \<Rightarrow> int \<Rightarrow> string \<Rightarrow> string \<Rightarrow> string option \<Rightarrow> (compiled_step \<times> string) list \<Rightarrow> plan_db \<Rightarrow> persisted_plan option result" where
  "existing_revision plan number hash reg_hash feedback compiled db =
     (case (case plan of None \<Rightarrow> None | Some p \<Rightarrow> revision_of (pl_id p) number db) of
        None \<Rightarrow>
          (let expected = (case plan of None \<Rightarrow> 1 | Some p \<Rightarrow> pl_current_revision p + 1)
           in if number \<noteq> expected then Inl (ValueError ''Plan revision must advance exactly once'') else Inr None)
      | Some r \<Rightarrow>
          if rv_public_payload_hash r \<noteq> hash \<or> rv_registry_snapshot_hash r \<noteq> reg_hash \<or> rv_feedback r \<noteq> feedback
             \<or> mset (map (\<lambda>s. (st_sequence s, st_compiled_source_sha256 s, st_compiled_source_path s)) (steps_of (rv_id r) db))
               \<noteq> mset (map (\<lambda>(c, p). (cp_sequence c, cp_source_sha256 c, p)) compiled)
          then Inl (ValueError ''Plan revision was reused with different input'')
          else Inr (Some (persisted_of r)))"

text \<open>\<open>xs[i]\<close>: a negative index counts from the end.\<close>

definition py_index :: "'a list \<Rightarrow> int \<Rightarrow> 'a option" where
  "py_index xs i =
     (if 0 \<le> i \<and> nat i < length xs then Some (xs ! nat i)
      else if i < 0 \<and> nat (- i) \<le> length xs then Some (xs ! (length xs - nat (- i)))
      else None)"

definition plan_step_row :: "uuid \<Rightarrow> plan_draft \<Rightarrow> compiled_step \<times> string \<Rightarrow> step_row result" where
  "plan_step_row rid plan cp = (case cp of (c, path) \<Rightarrow>
     (case py_index (pd_steps plan) (cp_sequence c) of
       None \<Rightarrow> Inl (OtherException ''IndexError'' ''list index out of range'')
     | Some d \<Rightarrow>
       Inr \<lparr>st_plan_revision_id = rid, st_sequence = cp_sequence c, st_title = ps_title d, st_purpose = ps_purpose d,
         st_selection_rationale = ps_selection_rationale d, st_skill_ref = ps_skill d, st_tool_ref = ps_tool d,
         st_parameters = ps_parameters d, st_compiled_source_sha256 = cp_source_sha256 c, st_compiled_source_path = path,
         st_timeout_seconds = ps_timeout_seconds d\<rparr>))"

text \<open>
  \<open>PlanRepository.persist\<close>; the three identifiers are those that \<open>uuid4\<close> draws, and \<open>known\<close> tells whether the row of
  the task exists. A violated key of a table is an \<open>IntegrityError\<close>.
\<close>

definition persist_body ::
    "(plan_draft \<Rightarrow> string) \<Rightarrow> uuid \<times> uuid \<times> uuid \<Rightarrow> uuid \<Rightarrow> plan_draft \<Rightarrow> (compiled_step \<times> string) list \<Rightarrow> string \<Rightarrow> string option
      \<Rightarrow> plan_db \<Rightarrow> persisted_plan result \<times> plan_db" where
  "persist_body hash ids task plan compiled reg_hash feedback db = (case ids of (pid, rid, bid) \<Rightarrow>
     (let row = plan_of task db;
          number = (case row of None \<Rightarrow> 1 | Some p \<Rightarrow> pl_current_revision p + 1);
          plan_id = (case row of None \<Rightarrow> pid | Some p \<Rightarrow> pl_id p);
          plans = (case row of None \<Rightarrow> pb_plans db @ [\<lparr>pl_id = pid, pl_task_id = task, pl_current_revision = 1\<rparr>]
                   | Some p \<Rightarrow> sql_update (\<lambda>x. pl_id x = pl_id p) (\<lambda>x. x\<lparr>pl_current_revision := number\<rparr>) (pb_plans db));
          revision = \<lparr>rv_id = rid, rv_plan_id = plan_id, rv_revision_number = number, rv_public_payload = plan,
             rv_public_payload_hash = hash plan, rv_compiled_bundle_id = bid, rv_registry_snapshot_hash = reg_hash, rv_feedback = feedback\<rparr>
      in (case rmap (plan_step_row rid plan) compiled of
            Inl e \<Rightarrow> (Inl e, db)
          | Inr rows \<Rightarrow>
              if row = None \<and> pid \<in> pl_id ` set (pb_plans db) then (Inl (IntegrityError ''agent_plans_pkey''), db)
              else if rid \<in> rv_id ` set (pb_revisions db) then (Inl (IntegrityError ''agent_plan_revisions_pkey''), db)
              else if \<not> distinct (map st_sequence rows) then (Inl (IntegrityError ''uq_agent_plan_step_sequence''), db)
              else (Inr (persisted_of revision),
                \<lparr>pb_plans = plans, pb_revisions = pb_revisions db @ [revision], pb_steps = pb_steps db @ rows\<rparr>))))"

definition persist ::
    "(plan_draft \<Rightarrow> string) \<Rightarrow> uuid \<times> uuid \<times> uuid \<Rightarrow> bool \<Rightarrow> uuid \<Rightarrow> plan_draft \<Rightarrow> (compiled_step \<times> string) list \<Rightarrow> string \<Rightarrow> string option
      \<Rightarrow> int option \<Rightarrow> plan_db \<Rightarrow> persisted_plan result \<times> plan_db" where
  "persist hash ids known task plan compiled reg_hash feedback expected = transaction (\<lambda>db.
     (case expected of
        None \<Rightarrow> persist_body hash ids task plan compiled reg_hash feedback db
      | Some number \<Rightarrow>
          if \<not> known then (Inl (LookupError ''Unknown plan Task''), db)
          else (case existing_revision (plan_of task db) number (hash plan) reg_hash feedback compiled db of
              Inl e \<Rightarrow> (Inl e, db)
            | Inr (Some q) \<Rightarrow> (Inr q, db)
            | Inr None \<Rightarrow> persist_body hash ids task plan compiled reg_hash feedback db)))"

section \<open>\<open>DurablePlans\<close>\<close>

fun compile_all :: "toolchain \<Rightarrow> registry \<Rightarrow> string \<Rightarrow> plan_step list \<Rightarrow> (compiled_step \<times> input_item) list result" where
  "compile_all tc reg task [] = Inr []"
| "compile_all tc reg task (s # ss) = rbind (compile_step tc reg s) (\<lambda>c.
     rbind (compile_all tc reg task ss) (\<lambda>cs. Inr ((c, input_file tc task (cp_source c) ''py'') # cs)))"

definition durable_compile :: "toolchain \<Rightarrow> registry \<Rightarrow> wstate \<Rightarrow> plan_draft \<Rightarrow> file_store \<Rightarrow> (compiled_step \<times> string) list result \<times> file_store" where
  "durable_compile tc reg w plan fs = (case compile_all tc reg (tt_active_task_id (wf_turn w)) (pd_steps plan) of
       Inl e \<Rightarrow> (Inl e, fs)
     | Inr cs \<Rightarrow> (case restore_files tc (map snd cs) fs of
         (Inl e, fs') \<Rightarrow> (Inl e, fs')
       | (Inr _, fs') \<Rightarrow> (Inr (map (\<lambda>(c, i). (c, ii_path i)) cs), fs')))"

definition durable_persist ::
    "toolchain \<Rightarrow> registry \<Rightarrow> string \<Rightarrow> (plan_draft \<Rightarrow> string) \<Rightarrow> uuid \<times> uuid \<times> uuid \<Rightarrow> bool \<Rightarrow> wstate \<Rightarrow> plan_draft
      \<Rightarrow> plan_db \<times> file_store \<Rightarrow> persisted_plan result \<times> plan_db \<times> file_store" where
  "durable_persist tc reg reg_hash hash ids known w plan s = (case s of (db, fs) \<Rightarrow>
     (case validate_plan_execution_mode w plan of
        Inl e \<Rightarrow> (Inl e, db, fs)
      | Inr _ \<Rightarrow> (case durable_compile tc reg w plan fs of
          (Inl e, fs') \<Rightarrow> (Inl e, db, fs')
        | (Inr compiled, fs') \<Rightarrow> (case task_id_of w of
            Inl e \<Rightarrow> (Inl e, db, fs')
          | Inr task \<Rightarrow> (case persist hash ids known task plan compiled reg_hash (wg_revision_feedback w)
                              (Some (get_or (wg_plan_revision_number w) 0 + 1)) db of
              (r, db') \<Rightarrow> (r, db', fs'))))))"

end
