(* ===== verification/Effect_Requests.thy ===== *)
theory Effect_Requests
  imports Plan_Store Agent_Effects
begin

text \<open>
  The durable requests that the nodes of the business graph make of the executor: the wire payloads
  (\<open>src/ex_agent/executor/requests.py\<close>, \<open>contracts.py\<close>), and \<open>DurableExecution\<close> and \<open>DurableReporting\<close>
  (\<open>src/agent/effects/execution.py\<close>, \<open>reporting.py\<close>), which prepare a request once, keep it in the journal and send
  it until its response is stored. The state is the database of the agent, the plan store, the shared
  directory and the world of the executor. \<open>pydantic\<close> models of foreign responses, the HTTP call, the digests and
  the report model are parameters.
\<close>

section \<open>Models as JSON\<close>

definition jopt :: "('a \<Rightarrow> json) \<Rightarrow> 'a option \<Rightarrow> json" where
  "jopt f v = (case v of None \<Rightarrow> JNull | Some x \<Rightarrow> f x)"

definition jstrs :: "string list \<Rightarrow> json" where
  "jstrs xs = JArr (map JStr xs)"

definition skill_json :: "skill_reference \<Rightarrow> json" where
  "skill_json s = JObj [(''name'', JStr (sk_name s)), (''version'', JStr (sk_version s)), (''content_sha256'', JStr (sk_content_sha256 s))]"

definition tool_json :: "tool_reference \<Rightarrow> json" where
  "tool_json t = JObj [(''name'', JStr (tl_name t)), (''version'', JStr (tl_version t)), (''source_sha256'', JStr (tl_source_sha256 t))]"

definition planning_text :: "planning_kind \<Rightarrow> string" where
  "planning_text k = (case k of Pk_FIXED_WORKFLOW \<Rightarrow> ''FIXED_WORKFLOW'' | Pk_TOOL_PLAN \<Rightarrow> ''TOOL_PLAN'' | Pk_CUSTOM_CODE \<Rightarrow> ''CUSTOM_CODE'')"

definition plan_step_json :: "plan_step \<Rightarrow> json" where
  "plan_step_json s = JObj
     [(''sequence'', JInt (ps_sequence s)), (''title'', JStr (ps_title s)), (''purpose'', JStr (ps_purpose s)),
      (''planning_kind'', JStr (planning_text (ps_planning_kind s))), (''skill'', jopt skill_json (ps_skill s)),
      (''tool'', jopt tool_json (ps_tool s)), (''parameters'', JObj (ps_parameters s)),
      (''selection_rationale'', JStr (ps_selection_rationale s)), (''expected_outputs'', jstrs (ps_expected_outputs s)),
      (''validation_criteria'', jstrs (ps_validation_criteria s)), (''timeout_seconds'', JInt (ps_timeout_seconds s)),
      (''custom_code'', jopt JStr (ps_custom_code s))]"

definition plan_json :: "plan_draft \<Rightarrow> json" where
  "plan_json p = JObj
     [(''objective'', JStr (pd_objective p)), (''strategy_summary'', JStr (pd_strategy_summary p)),
      (''execution_mode'', JStr (mode_text (pd_execution_mode p))), (''runtime_profile'', JStr (pd_runtime_profile p)),
      (''steps'', JArr (map plan_step_json (pd_steps p))), (''assumptions'', jstrs (pd_assumptions p)),
      (''expected_artifacts'', jstrs (pd_expected_artifacts p))]"

definition multi_action_text :: "multi_action \<Rightarrow> string" where
  "multi_action_text a = (case a of Ma_APPEND_STEP \<Rightarrow> ''APPEND_STEP'' | Ma_REQUIRE_REAPPROVAL \<Rightarrow> ''REQUIRE_REAPPROVAL''
     | Ma_FINALIZE \<Rightarrow> ''FINALIZE'' | Ma_FAIL \<Rightarrow> ''FAIL'')"

definition decision_json :: "multi_decision \<Rightarrow> json" where
  "decision_json d = JObj
     [(''action'', JStr (multi_action_text (md_action d))), (''rationale'', JStr (md_rationale d)),
      (''next_step'', jopt plan_step_json (md_next_step d)),
      (''requires_reapproval_reasons'', jstrs (md_requires_reapproval_reasons d))]"

definition persisted_json :: "persisted_plan \<Rightarrow> json" where
  "persisted_json q = JObj
     [(''plan_id'', JStr (uuid_str (pp_plan_id q))), (''plan_revision_id'', JStr (uuid_str (pp_plan_revision_id q))),
      (''plan_revision_number'', JInt (pp_plan_revision_number q)), (''public_payload_hash'', JStr (pp_public_payload_hash q)),
      (''compiled_bundle_id'', JStr (uuid_str (pp_compiled_bundle_id q)))]"

text \<open>Members of a validated type; anything else is a \<open>ValidationError\<close>.\<close>

definition invalid :: "string \<Rightarrow> exn" where
  "invalid k = OtherException ''ValidationError'' k"

definition str_member :: "json \<Rightarrow> string \<Rightarrow> string result" where
  "str_member j k = (case jget j k of Some (JStr s) \<Rightarrow> Inr s | _ \<Rightarrow> Inl (invalid k))"

definition int_member :: "json \<Rightarrow> string \<Rightarrow> int result" where
  "int_member j k = (case jget j k of Some (JInt n) \<Rightarrow> Inr n | _ \<Rightarrow> Inl (invalid k))"

definition uuid_member :: "json \<Rightarrow> string \<Rightarrow> uuid result" where
  "uuid_member j k = rbind (str_member j k) (\<lambda>s. case uuid_parse s of None \<Rightarrow> Inl (invalid k) | Some u \<Rightarrow> Inr u)"

definition persisted_parse :: "json \<Rightarrow> persisted_plan result" where
  "persisted_parse j =
     rbind (uuid_member j ''plan_id'') (\<lambda>p. rbind (uuid_member j ''plan_revision_id'') (\<lambda>r.
     rbind (int_member j ''plan_revision_number'') (\<lambda>n. rbind (str_member j ''public_payload_hash'') (\<lambda>h.
     rbind (uuid_member j ''compiled_bundle_id'') (\<lambda>b.
       if n < 1 then Inl (invalid ''plan_revision_number'')
       else if \<not> valid_hash h then Inl (invalid ''public_payload_hash'')
       else Inr \<lparr>pp_plan_id = p, pp_plan_revision_id = r, pp_plan_revision_number = n, pp_public_payload_hash = h, pp_compiled_bundle_id = b\<rparr>)))))"

definition receipt_parse :: "json option \<Rightarrow> submission_receipt result" where
  "receipt_parse response = (case response of
       None \<Rightarrow> Inl (invalid ''SubmissionReceipt'')
     | Some j \<Rightarrow> rbind (uuid_member j ''execution_id'') (\<lambda>e. rbind (uuid_member j ''operation_id'') (\<lambda>op.
         rbind (int_member j ''execution_version'') (\<lambda>v.
           if v < 0 then Inl (invalid ''execution_version'')
           else Inr \<lparr>sr_execution_id = e, sr_operation_id = op, sr_execution_version = v, sr_persisted_plan = None, sr_plan = None\<rparr>))))"

section \<open>Payloads\<close>

definition agent_actor :: json where
  "agent_actor = JObj [(''type'', JStr ''AGENT''), (''id'', JStr ''ex-agent'')]"

definition executor_step_payload ::
    "int \<Rightarrow> string \<Rightarrow> string \<Rightarrow> int \<Rightarrow> string option \<Rightarrow> string option \<Rightarrow> (string \<times> json) list \<Rightarrow> json" where
  "executor_step_payload sequence path sha timeout skill tool params = JObj
     [(''sequence'', JInt sequence),
      (''payload'', JObj [(''type'', JStr ''PYTHON_EXECUTE''),
         (''source'', JObj [(''type'', JStr ''PATH''), (''path'', JStr path), (''sha256'', JStr sha)])]),
      (''step_timeout_seconds'', JInt timeout),
      (''lineage'', JObj [(''skill_name'', jopt JStr skill), (''tool_name'', jopt JStr tool), (''input_parameters'', JObj params)])]"

definition executor_step :: "step_row \<Rightarrow> json" where
  "executor_step s = executor_step_payload (st_sequence s) (st_compiled_source_path s) (st_compiled_source_sha256 s)
     (st_timeout_seconds s) (map_option sk_name (st_skill_ref s)) (map_option tl_name (st_tool_ref s)) (st_parameters s)"

text \<open>\<open>step.get("payload", {}).get("source", {})\<close>.\<close>

definition step_source :: "json \<Rightarrow> json" where
  "step_source s = (case jget (case jget s ''payload'' of None \<Rightarrow> JObj [] | Some p \<Rightarrow> p) ''source'' of None \<Rightarrow> JObj [] | Some x \<Rightarrow> x)"

fun require_path_sources :: "json list \<Rightarrow> unit result" where
  "require_path_sources [] = Inr ()"
| "require_path_sources (s # ss) =
     (if jget (step_source s) ''type'' \<noteq> Some (JStr ''PATH'') then Inl (ValueError ''Executor Step source must use PATH'')
      else if \<not> truthy (jget0 (step_source s) ''path'') \<or> \<not> truthy (jget0 (step_source s) ''sha256'')
      then Inl (ValueError ''Executor PATH source requires path and sha256'')
      else require_path_sources ss)"

definition steps_spec :: "json list \<Rightarrow> json" where
  "steps_spec steps = JObj [(''schema_version'', JStr ''1.0''), (''steps'', JArr steps)]"

definition submit_payload :: "string \<Rightarrow> execution_mode \<Rightarrow> int \<Rightarrow> task_turn \<Rightarrow> string option \<Rightarrow> json list \<Rightarrow> json result" where
  "submit_payload key mode wait turn workflow steps = rbind (require_path_sources steps) (\<lambda>_. Inr (JObj
     [(''idempotency_key'', JStr key),
      (''lifecycle'', JObj ((''operation_mode'', JStr (mode_text mode))
         # (if mode = Em_MULTI then [(''operation_wait_timeout_seconds'', JInt wait)] else []))),
      (''trigger'', JObj [(''type'', JStr ''INTERACTIVE''), (''actor'', agent_actor)]),
      (''runtime'', JObj [(''type'', JStr ''JUPYTER''), (''profile'', JStr (tt_runtime_profile turn))]),
      (''context'', JObj [(''user_id'', JStr (tt_user_id turn)), (''project_id'', JStr (tt_project_id turn)),
         (''session_id'', JStr (tt_session_id turn)), (''task_id'', JStr (tt_active_task_id turn)),
         (''workflow_id'', jopt JStr workflow)]),
      (''operation'', JObj [(''spec'', steps_spec steps), (''metadata'', JObj [])]),
      (''metadata'', JObj [(''agent_plan_task_id'', JStr (tt_active_task_id turn))])]))"

definition append_payload :: "string \<Rightarrow> int \<Rightarrow> json list \<Rightarrow> json result" where
  "append_payload key version steps = rbind (require_path_sources steps) (\<lambda>_. Inr (JObj
     [(''idempotency_key'', JStr key), (''expected_version'', JInt version), (''spec'', steps_spec steps),
      (''metadata'', JObj [(''reason'', JStr ''adaptive_multi_plan'')]), (''actor'', agent_actor)]))"

definition finalize_payload :: "string \<Rightarrow> int \<Rightarrow> json" where
  "finalize_payload key version = JObj
     [(''idempotency_key'', JStr key), (''expected_version'', JInt version), (''actor'', agent_actor)]"

definition cancel_payload :: "string \<Rightarrow> string \<Rightarrow> string \<Rightarrow> string option \<Rightarrow> json" where
  "cancel_payload key actor_type actor_id why = JObj
     [(''idempotency_key'', JStr key), (''reason'', jopt JStr why),
      (''actor'', JObj [(''type'', JStr actor_type), (''id'', JStr actor_id)])]"

definition report_payload :: "string \<Rightarrow> string \<Rightarrow> string \<Rightarrow> json" where
  "report_payload key path sha = JObj
     [(''idempotency_key'', JStr key), (''type'', JStr ''REPORT''),
      (''source'', JObj [(''type'', JStr ''PATH''), (''path'', JStr path), (''sha256'', JStr sha)]),
      (''name'', JStr ''analysis-report.md''), (''description'', JStr ''Agent-generated successful execution report''),
      (''media_type'', JStr ''text/markdown''), (''append_to_notebook'', JBool True),
      (''metadata'', JObj [(''producer'', JStr ''ex-agent'')]), (''actor'', agent_actor)]"

section \<open>Files in a request\<close>

definition item_json :: "input_item \<Rightarrow> json" where
  "item_json i = JObj [(''path'', JStr (ii_path i)), (''sha256'', JStr (ii_sha256 i)), (''content'', JStr (ii_content i))]"

text \<open>\<open>item[key]\<close>: a missing member is a \<open>KeyError\<close>, and one that is no string ends in a \<open>TypeError\<close> of its use.\<close>

definition text_member :: "json \<Rightarrow> string \<Rightarrow> string result" where
  "text_member j k = rbind (member j k) (\<lambda>v. case v of JStr s \<Rightarrow> Inr s | _ \<Rightarrow> Inl (TypeError k))"

definition number_member :: "json \<Rightarrow> string \<Rightarrow> int result" where
  "number_member j k = rbind (member j k) (\<lambda>v. case v of JInt n \<Rightarrow> Inr n | _ \<Rightarrow> Inl (TypeError k))"

definition item_parse :: "json \<Rightarrow> input_item result" where
  "item_parse j = rbind (text_member j ''content'') (\<lambda>c. rbind (text_member j ''sha256'') (\<lambda>h. rbind (text_member j ''path'') (\<lambda>p.
     Inr \<lparr>ii_path = p, ii_sha256 = h, ii_content = c\<rparr>)))"

definition step_pair :: "json \<Rightarrow> (string \<times> string) result" where
  "step_pair s = rbind (member s ''payload'') (\<lambda>p. rbind (member p ''source'') (\<lambda>src.
     rbind (text_member src ''path'') (\<lambda>path. rbind (text_member src ''sha256'') (\<lambda>h. Inr (path, h)))))"

definition files_of :: "toolchain \<Rightarrow> file_store \<Rightarrow> json list \<Rightarrow> json result" where
  "files_of tc fs steps = rbind (rmap step_pair steps) (\<lambda>srcs. rbind (capture_files tc fs srcs) (\<lambda>items. Inr (JArr (map item_json items))))"

fun restore_list :: "toolchain \<Rightarrow> json list \<Rightarrow> file_store \<Rightarrow> unit result \<times> file_store" where
  "restore_list tc [] fs = (Inr (), fs)"
| "restore_list tc (j # js) fs = (case item_parse j of
       Inl e \<Rightarrow> (Inl e, fs)
     | Inr i \<Rightarrow> (case restore_files tc [i] fs of
         (Inl e, fs') \<Rightarrow> (Inl e, fs')
       | (Inr _, fs') \<Rightarrow> restore_list tc js fs'))"

definition restore_json :: "toolchain \<Rightarrow> json \<Rightarrow> file_store \<Rightarrow> unit result \<times> file_store" where
  "restore_json tc files fs = (case files of JArr js \<Rightarrow> restore_list tc js fs | _ \<Rightarrow> (Inl (TypeError ''files''), fs))"

section \<open>\<open>DurableExecution\<close>\<close>

text \<open>
  What the services are configured with. The faults are those of the database calls of one service call, in their
  order; \<open>ee_now\<close> is the clock, \<open>ee_ids\<close> the identifiers that a new revision draws, \<open>ee_hash\<close> the digest of a plan.
\<close>

record 'w effect_env =
  ee_digest :: "json \<Rightarrow> string"
  ee_prepare_fault :: fault
  ee_complete_fault :: fault
  ee_binding_fault :: fault
  ee_now :: usec
  ee_wait_timeout :: int
  ee_toolchain :: toolchain
  ee_registry :: registry
  ee_registry_hash :: string
  ee_hash :: "plan_draft \<Rightarrow> string"
  ee_ids :: "uuid \<times> uuid \<times> uuid"
  ee_post :: "json \<Rightarrow> json \<Rightarrow> 'w \<Rightarrow> json result \<times> 'w"
  ee_artifact :: "json \<Rightarrow> json result"
  ee_command :: "json \<Rightarrow> command_response result"
  ee_plan_parse :: "json \<Rightarrow> plan_draft result"
  ee_result_parse :: "json \<Rightarrow> (string \<times> uuid) result"
  ee_generate :: "json \<Rightarrow> 'w \<Rightarrow> string result \<times> 'w"

type_synonym 'w effect_world = "plan_db \<times> file_store \<times> 'w"
type_synonym 'w effect_state = "agent_db \<times> 'w effect_world"

definition effect_sender :: "'w effect_env \<Rightarrow> 'w effect_world sender" where
  "effect_sender env = \<lparr>
     sd_restore = (\<lambda>files (pdb, fs, w). case restore_json (ee_toolchain env) files fs of (r, fs') \<Rightarrow> (r, pdb, fs', w)),
     sd_post = (\<lambda>path body (pdb, fs, w). case ee_post env path body w of (r, w') \<Rightarrow> (r, pdb, fs, w')),
     sd_artifact = ee_artifact env,
     sd_command = ee_command env\<rparr>"

definition effect_run ::
    "'w effect_env \<Rightarrow> uuid \<Rightarrow> string \<Rightarrow> string \<Rightarrow> json \<Rightarrow> ('w effect_state \<Rightarrow> json result \<times> 'w effect_state)
      \<Rightarrow> 'w effect_state \<Rightarrow> effect_row result \<times> 'w effect_state" where
  "effect_run env task key kind inputs prepare = journal_run (ee_digest env) (ee_prepare_fault env) (ee_complete_fault env)
     task key kind inputs prepare (effect_send (effect_sender env))"

definition bind_effect :: "'w effect_env \<Rightarrow> uuid \<Rightarrow> uuid \<Rightarrow> int \<Rightarrow> uuid option \<Rightarrow> int option \<Rightarrow> bool \<Rightarrow> 'w effect_state \<Rightarrow> unit result \<times> 'w effect_state" where
  "bind_effect env task exec version operation nxt create =
     on_db (with_fault (ee_binding_fault env) (effect_binding (ee_now env) task exec version operation nxt create))"

definition binding_for_task :: "uuid \<Rightarrow> 'w effect_state \<Rightarrow> exec_binding_row result \<times> 'w effect_state" where
  "binding_for_task task s = (case binding_of task (fst s) of
       None \<Rightarrow> (Inl (LookupError (''Task has no Executor binding: '' @ uuid_str task)), s) | Some b \<Rightarrow> (Inr b, s))"

subsection \<open>\<open>submit\<close>\<close>

definition submit_key :: "wstate \<Rightarrow> int \<Rightarrow> string" where
  "submit_key w n = ''task:'' @ tt_active_task_id (wf_turn w) @ '':submit:'' @ py_str_int n"

definition submit_inputs :: "wstate \<Rightarrow> plan_draft \<Rightarrow> json" where
  "submit_inputs w p = JObj
     [(''plan_revision_id'', jopt JStr (wg_plan_revision_id w)), (''plan_revision_number'', jopt JInt (wg_plan_revision_number w)),
      (''plan_public_payload_hash'', jopt JStr (wg_plan_public_payload_hash w)),
      (''runtime_profile'', JStr (tt_runtime_profile (wf_turn w))),
      (''execution_mode'', jopt (\<lambda>m. JStr (mode_text m)) (wg_execution_mode w)),
      (''user_id'', JStr (tt_user_id (wf_turn w))), (''project_id'', JStr (tt_project_id (wf_turn w))),
      (''session_id'', JStr (tt_session_id (wf_turn w))),
      (''selected_workflow_version_id'', jopt JStr (wg_selected_workflow_version_id w)), (''plan'', plan_json p)]"

definition submit_request :: "'w effect_env \<Rightarrow> wstate \<Rightarrow> string \<Rightarrow> execution_mode \<Rightarrow> step_row list \<Rightarrow> file_store \<Rightarrow> json result" where
  "submit_request env w key mode rows fs =
     (let steps = map executor_step rows in
      rbind (submit_payload key mode (ee_wait_timeout env) (wf_turn w) (wg_selected_workflow_version_id w) steps) (\<lambda>body.
      rbind (files_of (ee_toolchain env) fs steps) (\<lambda>files.
      Inr (JObj [(''kind'', JStr ''submit''), (''path'', JStr ''/executions''), (''body'', body), (''files'', files),
        (''next_step_sequence'', JInt (int (length rows)))]))))"

definition submit_rows :: "execution_mode \<Rightarrow> uuid \<Rightarrow> plan_db \<Rightarrow> step_row list" where
  "submit_rows mode rid pdb = (if mode = Em_MULTI then take 1 (approved_steps rid pdb) else approved_steps rid pdb)"

definition submit_prepare :: "'w effect_env \<Rightarrow> wstate \<Rightarrow> string \<Rightarrow> 'w effect_state \<Rightarrow> json result \<times> 'w effect_state" where
  "submit_prepare env w key =
     sbind (need_key (wg_plan_revision_id w) ''plan_revision_id'') (\<lambda>revision.
     sbind (spure (parse_id revision)) (\<lambda>rid.
     sbind (need_key (wg_execution_mode w) ''execution_mode'') (\<lambda>mode s.
       (case s of (db, pdb, fs, x) \<Rightarrow>
          let rows = submit_rows mode rid pdb
          in if rows = [] then (Inl (ValueError ''Execution requires approved Steps''), s)
             else (submit_request env w key mode rows fs, s)))))"

definition durable_submit :: "'w effect_env \<Rightarrow> wstate \<Rightarrow> 'w effect_state \<Rightarrow> submission_receipt result \<times> 'w effect_state" where
  "durable_submit env w =
     sbind (need_key (wg_plan w) ''plan'') (\<lambda>p.
     sbind (spure (validate_plan_execution_mode w p)) (\<lambda>_.
     sbind (need_key (wg_plan_revision_number w) ''plan_revision_number'') (\<lambda>n.
     sbind (spure (task_id_of w)) (\<lambda>task.
     sbind (effect_run env task (submit_key w n) ''submit'' (submit_inputs w p) (submit_prepare env w (submit_key w n))) (\<lambda>rec.
     sbind (spure (receipt_parse (ef_response rec))) (\<lambda>receipt.
     sbind (spure (number_member (ef_request rec) ''next_step_sequence'')) (\<lambda>nxt.
     sbind (bind_effect env task (sr_execution_id receipt) (sr_execution_version receipt) (Some (sr_operation_id receipt)) (Some nxt) True) (\<lambda>_.
       spure (Inr receipt)))))))))"

subsection \<open>\<open>append\<close>\<close>

text \<open>The plan of the next operation: the first step of the plan of the graph, numbered 0.\<close>

definition append_plan :: "plan_draft \<Rightarrow> plan_draft result" where
  "append_plan p = (case pd_steps p of
       [] \<Rightarrow> Inl (OtherException ''IndexError'' ''list index out of range'')
     | s # _ \<Rightarrow> Inr (p\<lparr>pd_steps := [s\<lparr>ps_sequence := 0\<rparr>]\<rparr>))"

definition append_key :: "wstate \<Rightarrow> string \<Rightarrow> string" where
  "append_key w operation = ''task:'' @ tt_active_task_id (wf_turn w) @ '':append:'' @ operation"

definition append_inputs :: "string \<Rightarrow> string \<Rightarrow> string \<Rightarrow> plan_draft \<Rightarrow> multi_decision \<Rightarrow> json" where
  "append_inputs exec operation revision p d = JObj
     [(''execution_id'', JStr exec), (''previous_operation_id'', JStr operation), (''plan_revision_id'', JStr revision),
      (''plan'', plan_json p), (''decision'', decision_json d)]"

text \<open>\<open>payload["sequence"] = n\<close>.\<close>

definition set_sequence :: "int \<Rightarrow> json \<Rightarrow> json" where
  "set_sequence n j = (case j of JObj kvs \<Rightarrow> JObj (dict_set ''sequence'' (JInt n) kvs) | _ \<Rightarrow> j)"

definition append_request ::
    "'w effect_env \<Rightarrow> string \<Rightarrow> plan_draft \<Rightarrow> persisted_plan \<Rightarrow> step_row \<Rightarrow> exec_binding_row \<Rightarrow> file_store \<Rightarrow> json result" where
  "append_request env key p q row b fs =
     (let payload = set_sequence (eb_next_step_sequence b) (executor_step row); exec = uuid_str (eb_execution_id b) in
      rbind (append_payload key (eb_execution_version b) [payload]) (\<lambda>body.
      rbind (files_of (ee_toolchain env) fs [payload]) (\<lambda>files.
      Inr (JObj [(''kind'', JStr ''append''), (''execution_id'', JStr exec),
        (''path'', JStr (''/executions/'' @ exec @ ''/operations'')), (''body'', body), (''files'', files),
        (''next_step_sequence'', JInt (eb_next_step_sequence b + 1)), (''persisted_plan'', persisted_json q), (''plan'', plan_json p)]))))"

definition plans_persist :: "'w effect_env \<Rightarrow> wstate \<Rightarrow> plan_draft \<Rightarrow> 'w effect_state \<Rightarrow> persisted_plan result \<times> 'w effect_state" where
  "plans_persist env w p s = (case s of (db, pdb, fs, x) \<Rightarrow>
     let known = (case task_id_of w of Inl _ \<Rightarrow> False | Inr u \<Rightarrow> task_of u db \<noteq> None) in
     (case durable_persist (ee_toolchain env) (ee_registry env) (ee_registry_hash env) (ee_hash env) (ee_ids env) known w p (pdb, fs) of
        (r, pdb', fs') \<Rightarrow> (r, db, pdb', fs', x)))"

definition append_prepare ::
    "'w effect_env \<Rightarrow> wstate \<Rightarrow> string \<Rightarrow> string \<Rightarrow> string \<Rightarrow> plan_draft \<Rightarrow> uuid \<Rightarrow> 'w effect_state \<Rightarrow> json result \<times> 'w effect_state" where
  "append_prepare env w key exec operation p task =
     sbind (plans_persist env w p) (\<lambda>q.
     sbind (\<lambda>s. case s of (db, pdb, fs, x) \<Rightarrow> (Inr (approved_steps (pp_plan_revision_id q) pdb), s)) (\<lambda>rows.
     sbind (binding_for_task task) (\<lambda>b s.
       (case s of (db, pdb, fs, x) \<Rightarrow>
          if uuid_str (eb_execution_id b) \<noteq> exec \<or> uuid_str (eb_operation_id b) \<noteq> operation
          then (Inl (ValueError ''Append input has a stale Execution binding''), s)
          else (case rows of
              [] \<Rightarrow> (Inl (OtherException ''IndexError'' ''list index out of range''), s)
            | row # _ \<Rightarrow> (append_request env key p q row b fs, s))))))"

definition durable_append :: "'w effect_env \<Rightarrow> wstate \<Rightarrow> multi_decision \<Rightarrow> 'w effect_state \<Rightarrow> submission_receipt result \<times> 'w effect_state" where
  "durable_append env w d =
     sbind (need_key (wg_execution_mode w) ''execution_mode'') (\<lambda>mode.
     if mode \<noteq> Em_MULTI then spure (Inl (ValueError ''Only MULTI may append an Operation''))
     else sbind (need_key (wg_plan w) ''plan'') (\<lambda>p0.
     sbind (spure (append_plan p0)) (\<lambda>p.
     sbind (need_key (wg_current_operation_id w) ''current_operation_id'') (\<lambda>operation.
     sbind (need_key (wf_execution_id w) ''execution_id'') (\<lambda>exec.
     sbind (need_key (wg_plan_revision_id w) ''plan_revision_id'') (\<lambda>revision.
     sbind (spure (task_id_of w)) (\<lambda>task.
     sbind (effect_run env task (append_key w operation) ''append'' (append_inputs exec operation revision p d)
              (append_prepare env w (append_key w operation) exec operation p task)) (\<lambda>rec.
     sbind (spure (receipt_parse (ef_response rec))) (\<lambda>receipt.
     sbind (spure (number_member (ef_request rec) ''next_step_sequence'')) (\<lambda>nxt.
     sbind (bind_effect env task (sr_execution_id receipt) (sr_execution_version receipt) (Some (sr_operation_id receipt)) (Some nxt) False) (\<lambda>_.
     sbind (spure (rbind (member (ef_request rec) ''persisted_plan'') persisted_parse)) (\<lambda>q.
     sbind (spure (rbind (member (ef_request rec) ''plan'') (ee_plan_parse env))) (\<lambda>p'.
       spure (Inr (receipt\<lparr>sr_persisted_plan := Some q, sr_plan := Some p'\<rparr>)))))))))))))))"

subsection \<open>\<open>lifecycle\<close>\<close>

definition lifecycle_prepare ::
    "'w effect_env \<Rightarrow> wstate \<Rightarrow> string \<Rightarrow> string option \<Rightarrow> string \<Rightarrow> string \<Rightarrow> uuid \<Rightarrow> 'w effect_state \<Rightarrow> json result \<times> 'w effect_state" where
  "lifecycle_prepare env w kind why key exec task =
     sbind (binding_for_task task) (\<lambda>b.
       spure (if uuid_str (eb_execution_id b) \<noteq> exec then Inl (ValueError ''Lifecycle input has another Execution'')
         else Inr (JObj [(''kind'', JStr kind), (''execution_id'', JStr exec), (''path'', JStr (''/executions/'' @ exec @ ''/'' @ kind)),
           (''body'', if kind = ''finalize'' then finalize_payload key (eb_execution_version b)
                    else cancel_payload key ''USER'' (tt_user_id (wf_turn w)) why)])))"

definition durable_lifecycle :: "'w effect_env \<Rightarrow> wstate \<Rightarrow> string \<Rightarrow> string option \<Rightarrow> 'w effect_state \<Rightarrow> unit result \<times> 'w effect_state" where
  "durable_lifecycle env w kind why =
     (if kind \<notin> {''finalize'', ''cancel''} then spure (Inl (ValueError ''Unsupported lifecycle effect''))
      else (let key = ''task:'' @ tt_active_task_id (wf_turn w) @ '':'' @ kind in
        sbind (need_key (wf_execution_id w) ''execution_id'') (\<lambda>exec.
        sbind (spure (task_id_of w)) (\<lambda>task.
        sbind (effect_run env task key kind
                (JObj [(''execution_id'', JStr exec), (''user_id'', JStr (tt_user_id (wf_turn w))), (''reason'', jopt JStr why)])
                (lifecycle_prepare env w kind why key exec task)) (\<lambda>rec.
        (case ef_response rec of
           None \<Rightarrow> spure (Inl AssertionError)
         | Some response \<Rightarrow>
             sbind (spure (rbind (text_member response ''execution_id'') parse_id)) (\<lambda>u.
             sbind (spure (number_member response ''execution_version'')) (\<lambda>v.
               bind_effect env task u v None None False))))))))"

section \<open>\<open>DurableReporting\<close>\<close>

definition report_prepare :: "'w effect_env \<Rightarrow> wstate \<Rightarrow> string \<Rightarrow> string \<Rightarrow> json \<Rightarrow> 'w effect_state \<Rightarrow> json result \<times> 'w effect_state" where
  "report_prepare env w key exec evidence s = (case s of (db, pdb, fs, x) \<Rightarrow>
     (case ee_generate env evidence x of
        (Inl e, x') \<Rightarrow> (Inl e, db, pdb, fs, x')
      | (Inr markdown, x') \<Rightarrow>
          (let src = input_file (ee_toolchain env) (tt_active_task_id (wf_turn w)) markdown ''md'' in
           (Inr (JObj [(''kind'', JStr ''report''), (''path'', JStr (''/executions/'' @ exec @ ''/artifacts'')),
              (''body'', report_payload key (ii_path src) (ii_sha256 src)), (''files'', JArr [item_json src]),
              (''markdown'', JStr markdown)]), db, pdb, fs, x'))))"

definition durable_report :: "'w effect_env \<Rightarrow> wstate \<Rightarrow> json \<Rightarrow> 'w effect_state \<Rightarrow> report_result result \<times> 'w effect_state" where
  "durable_report env w evidence =
     sbind (spure (rbind (member evidence ''executor_result'') (ee_result_parse env))) (\<lambda>(status, executed).
     sbind (if status \<noteq> ''SUCCEEDED'' then spure (Inl (ValueError ''Report requires this Execution's success result''))
            else need_key (wf_execution_id w) ''execution_id'') (\<lambda>exec.
     if uuid_str executed \<noteq> exec then spure (Inl (ValueError ''Report requires this Execution's success result''))
     else (let key = ''task:'' @ tt_active_task_id (wf_turn w) @ '':report'' in
       sbind (spure (task_id_of w)) (\<lambda>task.
       sbind (effect_run env task key ''report'' (JObj [(''execution_id'', JStr exec), (''evidence'', evidence)])
                (report_prepare env w key exec evidence)) (\<lambda>rec.
       (case ef_response rec of
          None \<Rightarrow> spure (Inl AssertionError)
        | Some response \<Rightarrow>
            sbind (spure (text_member (ef_request rec) ''markdown'')) (\<lambda>markdown.
            sbind (spure (rbind (text_member response ''artifact_id'') parse_id)) (\<lambda>u.
              spure (Inr \<lparr>rr_markdown = markdown, rr_artifact_id = u\<rparr>)))))))))"

end
