(* ===== verification/Executor_Results.thy ===== *)
theory Executor_Results
  imports Plan_Store
begin

text \<open>
  What the executor answers about an execution (\<open>src/ex_agent/executor/contracts.py\<close>), the outcome that the graph
  takes from it (\<open>src/ex_agent/application/capabilities/common.py\<close>), and the bounded previews of its result files, which are read
  only after their place, size, digest and identity were checked (\<open>src/ex_agent/executor/results.py\<close>). Files are byte strings
  under the parts of their absolute path, without symbolic links; the digest, \<open>json.loads\<close> and the decoding of UTF-8 are parameters.
\<close>

section \<open>Results\<close>

record step_result =
  sr_status :: string
  sr_output_summary :: "(string \<times> json) list"
  sr_error_message :: "string option"
  sr_result_ref :: "(string \<times> json) list option"

record result_step =
  rs_step_id :: uuid
  rs_sequence :: int
  rs_lineage :: "(string \<times> json) list"
  rs_result :: step_result

record result_operation =
  ro_operation_id :: uuid
  ro_operation_number :: int
  ro_status :: string
  ro_error_message :: "string option"
  ro_steps :: "result_step list"

record execution_result =
  xr_execution_id :: uuid
  xr_status :: string
  xr_version :: int
  xr_operations :: "result_operation list"

definition outcome_of :: "execution_result \<Rightarrow> executor_outcome" where
  "outcome_of r =
     (if xr_status r = ''SUCCEEDED'' then Eo_SUCCEEDED
      else if xr_status r = ''FAILED'' then Eo_FAILED
      else if xr_status r = ''CANCELLED'' then Eo_CANCELLED
      else if xr_status r = ''WAITING_FOR_OPERATION'' \<and> xr_operations r \<noteq> []
      then (let s = ro_status (last (xr_operations r)) in
            if s = ''SUCCEEDED'' then Eo_OPERATION_SUCCEEDED else if s = ''FAILED'' then Eo_OPERATION_FAILED else Eo_WAITING)
      else Eo_WAITING)"

section \<open>Verified files\<close>

record reader =
  rd_sha256 :: "string \<Rightarrow> string"
  rd_loads :: "string \<Rightarrow> json result"
  rd_decode :: "string \<Rightarrow> string"
  rd_files :: "(string list \<times> string) list"

definition chunk_bytes :: nat where "chunk_bytes = 64 * 1024"

text \<open>The loop over the chunks of a file: the bytes given to the digest, their number and the preview.\<close>

function read_loop :: "int \<Rightarrow> string \<Rightarrow> string \<times> nat \<times> string \<Rightarrow> string \<times> nat \<times> string" where
  "read_loop limit rest (digested, nbytes, preview) =
     (let chunk = take chunk_bytes rest in
      if chunk = [] then (digested, nbytes, preview)
      else read_loop limit (drop chunk_bytes rest)
        (digested @ chunk, nbytes + length chunk,
         if int (length preview) < limit then preview @ take (nat (limit - int (length preview))) chunk else preview))"
  by pat_completeness auto
termination
  by (relation "measure (\<lambda>(limit, rest, acc). length rest)") (auto simp: chunk_bytes_def)

definition read_verified_file :: "reader \<Rightarrow> string list \<Rightarrow> int \<Rightarrow> string \<Rightarrow> int \<Rightarrow> (string \<times> bool) result" where
  "read_verified_file rd path expected_size expected_sha256 preview_bytes =
     (if expected_size < 0 then Inl (ValueError ''Executor result size cannot be negative'')
      else (case map_of (rd_files rd) path of
          None \<Rightarrow> Inl (OtherException ''FileNotFoundError'' (join ''/'' path))
        | Some content \<Rightarrow> (case read_loop preview_bytes content ([], 0, []) of (digested, actual_size, preview) \<Rightarrow>
            if int actual_size \<noteq> expected_size then Inl (ValueError ''Executor result file size mismatch'')
            else if rd_sha256 rd digested \<noteq> expected_sha256 then Inl (ValueError ''Executor result file checksum mismatch'')
            else Inr (preview, length preview < actual_size))))"

definition result_path :: "string list \<Rightarrow> string \<Rightarrow> string list result" where
  "result_path root relative =
     (if take 1 relative = ''/'' then Inl (ValueError ''Executor result path must be relative'')
      else (let resolved = resolve_parts (rev root) (path_parts relative)
        in if take (length root) resolved \<noteq> root then Inl (ValueError ''Executor result path escaped shared storage'')
           else Inr resolved))"

definition required_string :: "json \<Rightarrow> string \<Rightarrow> string result" where
  "required_string j k = (case jget j k of
       Some (JStr s) \<Rightarrow> if s = [] then Inl (ValueError (''Executor result_ref '' @ k @ '' must be a string'')) else Inr s
     | _ \<Rightarrow> Inl (ValueError (''Executor result_ref '' @ k @ '' must be a string'')))"

definition required_int :: "json \<Rightarrow> string \<Rightarrow> int result" where
  "required_int j k = (case jget j k of Some (JInt n) \<Rightarrow> Inr n | _ \<Rightarrow> Inl (ValueError (''Executor result_ref '' @ k @ '' must be an integer'')))"

section \<open>Previews\<close>

text \<open>
  \<open>==\<close> on JSON values: a boolean or a float equals the integer it stands for, lists are compared by position and
  dictionaries by key. A float is its \<open>repr\<close>.
\<close>

fun py_number :: "json \<Rightarrow> string option" where
  "py_number (JBool b) = Some (if b then ''1.0'' else ''0.0'')"
| "py_number (JInt n) = Some (py_str_int n @ ''.0'')"
| "py_number (JFloat s) = Some (if s = ''-0.0'' then ''0.0'' else s)"
| "py_number _ = None"

fun py_eq :: "json \<Rightarrow> json \<Rightarrow> bool" where
  "py_eq (JArr xs) (JArr ys) = list_all2 py_eq xs ys"
| "py_eq (JObj m) (JObj n) = (length m = length n \<and> list_all (\<lambda>kv. case map_of n (fst kv) of None \<Rightarrow> False | Some v \<Rightarrow> py_eq (snd kv) v) m)"
| "py_eq a b = (case (py_number a, py_number b) of (Some x, Some y) \<Rightarrow> x = y \<and> x \<noteq> ''nan'' | _ \<Rightarrow> a = b)"

definition validate_manifest_identity :: "json \<Rightarrow> uuid \<Rightarrow> uuid \<Rightarrow> json \<Rightarrow> unit result" where
  "validate_manifest_identity manifest execution step reference =
     (if jget manifest ''complete'' \<noteq> Some (JBool True) then Inl (ValueError ''Executor result manifest is incomplete'')
      else (case jget manifest ''identity'' of
          Some (JObj ident) \<Rightarrow>
            if list_all (\<lambda>(k, v). py_eq (jget0 (JObj ident) k) v)
                 [(''execution_id'', JStr (uuid_str execution)), (''step_id'', JStr (uuid_str step)),
                  (''execution_attempt_id'', JStr (py_str_json (jget0 reference ''attempt_id''))),
                  (''fencing_token'', jget0 reference ''fencing_token'')]
            then Inr () else Inl (ValueError ''Executor result manifest identity mismatch'')
        | _ \<Rightarrow> Inl (ValueError ''Executor result manifest identity is missing'')))"

record preview =
  pv_ordinal :: json
  pv_kind :: json
  pv_stream_name :: json
  pv_media_type :: string
  pv_content :: string
  pv_truncated :: bool

definition text_media_types :: "string list" where
  "text_media_types = [''application/json'', ''text/csv'', ''text/html'', ''text/markdown'', ''text/plain'']"

definition get_list :: "json \<Rightarrow> string \<Rightarrow> json list result" where
  "get_list j k = py_iter (case jget j k of None \<Rightarrow> JArr [] | Some v \<Rightarrow> v)"

definition preview_one :: "reader \<Rightarrow> string list \<Rightarrow> int \<Rightarrow> json \<Rightarrow> json \<Rightarrow> int \<Rightarrow> preview result" where
  "preview_one rd folder max_chars out rep consumed =
     rbind (required_string rep ''relative_path'') (\<lambda>relative.
     rbind (result_path folder relative) (\<lambda>path.
     rbind (required_int rep ''size_bytes'') (\<lambda>size.
     rbind (required_string rep ''checksum_sha256'') (\<lambda>checksum.
     rbind (read_verified_file rd path size checksum (max ((max_chars - consumed) * 4) 1)) (\<lambda>(content, truncated).
       let text = rd_decode rd content; bounded = take (nat (max_chars - consumed)) text in
       Inr \<lparr>pv_ordinal = jget0 out ''ordinal'', pv_kind = jget0 out ''kind'', pv_stream_name = jget0 out ''stream_name'',
         pv_media_type = (case jget rep ''media_type'' of None \<Rightarrow> [] | Some v \<Rightarrow> py_str_json v), pv_content = bounded,
         pv_truncated = (truncated \<or> length bounded < length text)\<rparr>)))))"

fun preview_representations :: "reader \<Rightarrow> string list \<Rightarrow> int \<Rightarrow> json \<Rightarrow> json list \<Rightarrow> preview list \<times> int \<Rightarrow> (preview list \<times> int) result" where
  "preview_representations rd folder max_chars out [] acc = Inr acc"
| "preview_representations rd folder max_chars out (rep # reps) (previews, consumed) =
     (if \<not> is_jobj rep then Inl (ValueError ''Executor result representation must be an object'')
      else if jget rep ''complete'' \<noteq> Some (JBool True) then Inl (ValueError ''Executor result representation is incomplete'')
      else if (case jget rep ''media_type'' of None \<Rightarrow> [] | Some v \<Rightarrow> py_str_json v) \<notin> set text_media_types \<or> max_chars \<le> consumed
      then preview_representations rd folder max_chars out reps (previews, consumed)
      else rbind (preview_one rd folder max_chars out rep consumed) (\<lambda>pv.
        preview_representations rd folder max_chars out reps (previews @ [pv], consumed + int (length (pv_content pv)))))"

fun preview_outputs :: "reader \<Rightarrow> string list \<Rightarrow> int \<Rightarrow> json list \<Rightarrow> preview list \<times> int \<Rightarrow> (preview list \<times> int) result" where
  "preview_outputs rd folder max_chars [] acc = Inr acc"
| "preview_outputs rd folder max_chars (out # outs) acc =
     (if \<not> is_jobj out then Inl (ValueError ''Executor result output must be an object'')
      else rbind (get_list out ''representations'') (\<lambda>reps.
        rbind (preview_representations rd folder max_chars out reps acc) (preview_outputs rd folder max_chars outs)))"

definition read_manifest :: "reader \<Rightarrow> string list \<Rightarrow> uuid \<Rightarrow> uuid \<Rightarrow> json \<Rightarrow> int \<Rightarrow> (string list \<times> json) result" where
  "read_manifest rd root execution step reference max_manifest_bytes =
     (if jget reference ''storage'' \<noteq> Some (JStr ''SHARED_PV'') then Inl (ValueError ''Executor result_ref storage must be SHARED_PV'')
      else if py_str_json (jget0 reference ''execution_id'') \<noteq> uuid_str execution
      then Inl (ValueError ''Executor result_ref execution identity mismatch'')
      else if py_str_json (jget0 reference ''step_id'') \<noteq> uuid_str step then Inl (ValueError ''Executor result_ref step identity mismatch'')
      else if jget reference ''complete'' \<noteq> Some (JBool True) then Inl (ValueError ''Executor result_ref is incomplete'')
      else rbind (required_string reference ''relative_path'') (\<lambda>relative.
        rbind (result_path root relative) (\<lambda>path.
        rbind (required_int reference ''size_bytes'') (\<lambda>size.
        if size > max_manifest_bytes then Inl (ValueError ''Executor result manifest exceeds size limit'')
        else rbind (required_string reference ''checksum_sha256'') (\<lambda>checksum.
        rbind (read_verified_file rd path size checksum max_manifest_bytes) (\<lambda>(raw, _).
        rbind (rd_loads rd raw) (\<lambda>manifest.
        if \<not> is_jobj manifest then Inl (ValueError ''Executor result manifest must be an object'')
        else rbind (validate_manifest_identity manifest execution step reference) (\<lambda>_. Inr (path, manifest)))))))))"

definition read_result_preview ::
    "reader \<Rightarrow> string list \<Rightarrow> uuid \<Rightarrow> uuid \<Rightarrow> json \<Rightarrow> int \<Rightarrow> int \<Rightarrow> (preview list \<times> int) result" where
  "read_result_preview rd root execution step reference max_chars max_manifest_bytes =
     rbind (read_manifest rd root execution step reference max_manifest_bytes) (\<lambda>(path, manifest).
     rbind (get_list manifest ''outputs'') (\<lambda>outs. preview_outputs rd (butlast path) max_chars outs ([], 0)))"

section \<open>Summaries\<close>

record result_summary =
  su_operation_number :: int
  su_step :: result_step
  su_previews :: "preview list"

fun step_summaries ::
    "reader \<Rightarrow> string list \<Rightarrow> uuid \<Rightarrow> int \<Rightarrow> (int \<times> result_step) list \<Rightarrow> int \<Rightarrow> result_summary list result" where
  "step_summaries rd root execution max_manifest_bytes [] remaining = Inr []"
| "step_summaries rd root execution max_manifest_bytes ((number, step) # steps) remaining =
     rbind (case sr_result_ref (rs_result step) of
         None \<Rightarrow> Inr ([], 0)
       | Some reference \<Rightarrow> read_result_preview rd root execution (rs_step_id step) (JObj reference) remaining max_manifest_bytes)
       (\<lambda>(previews, consumed).
     rbind (step_summaries rd root execution max_manifest_bytes steps (remaining - consumed)) (\<lambda>rest.
       Inr (\<lparr>su_operation_number = number, su_step = step, su_previews = previews\<rparr> # rest)))"

definition numbered_steps :: "execution_result \<Rightarrow> (int \<times> result_step) list" where
  "numbered_steps r = concat (map (\<lambda>op. map (\<lambda>s. (ro_operation_number op, s)) (ro_steps op)) (xr_operations r))"

definition validated_result_summaries :: "reader \<Rightarrow> string list \<Rightarrow> execution_result \<Rightarrow> int \<Rightarrow> int \<Rightarrow> result_summary list result" where
  "validated_result_summaries rd root r max_context_chars max_manifest_bytes =
     step_summaries rd root (xr_execution_id r) max_manifest_bytes (numbered_steps r) max_context_chars"

definition preview_json :: "preview \<Rightarrow> json" where
  "preview_json p = JObj [(''ordinal'', pv_ordinal p), (''kind'', pv_kind p), (''stream_name'', pv_stream_name p),
     (''media_type'', JStr (pv_media_type p)), (''content'', JStr (pv_content p)), (''truncated'', JBool (pv_truncated p))]"

definition summary_json :: "result_summary \<Rightarrow> json" where
  "summary_json s = (let step = su_step s; res = rs_result step in JObj
     ([(''operation_number'', JInt (su_operation_number s)), (''step_id'', JStr (uuid_str (rs_step_id step))),
       (''sequence'', JInt (rs_sequence step)), (''lineage'', JObj (rs_lineage step)), (''status'', JStr (sr_status res)),
       (''output_summary'', JObj (sr_output_summary res)),
       (''error_message'', case sr_error_message res of None \<Rightarrow> JNull | Some m \<Rightarrow> JStr m),
       (''output_previews'', JArr (map preview_json (su_previews s)))]
      @ (case sr_result_ref res of
           None \<Rightarrow> []
         | Some reference \<Rightarrow> [(''result_ref'', JObj [(''relative_path'', jget0 (JObj reference) ''relative_path''),
             (''checksum_sha256'', jget0 (JObj reference) ''checksum_sha256'')])])))"

section \<open>What is verified\<close>

text \<open>The chunked loop digests the whole file and keeps its first bytes.\<close>

lemma read_loop_whole:
  "preview = take (nat limit) digested \<Longrightarrow>
     read_loop limit rest (digested, n, preview) = (digested @ rest, n + length rest, take (nat limit) (digested @ rest))"
proof (induction "length rest" arbitrary: rest digested n preview rule: less_induct)
  case less
  define chunk where "chunk = take chunk_bytes rest"
  show ?case
  proof (cases "rest = []")
    case True
    then show ?thesis using less(2) by simp
  next
    case False
    then have ne: "chunk \<noteq> []" by (simp add: chunk_def chunk_bytes_def)
    define preview' where "preview' = (if int (length preview) < limit then preview @ take (nat (limit - int (length preview))) chunk else preview)"
    have p': "preview' = take (nat limit) (digested @ chunk)"
    proof (cases "int (length preview) < limit")
      case True
      then have "preview = digested" using less(2) by auto
      then show ?thesis using True by (simp add: preview'_def nat_diff_distrib)
    next
      case False
      then have "nat limit \<le> length digested" using less(2) by auto
      then show ?thesis using less(2) False by (simp add: preview'_def)
    qed
    have "read_loop limit rest (digested, n, preview) = read_loop limit (drop chunk_bytes rest) (digested @ chunk, n + length chunk, preview')"
      using ne by (subst read_loop.simps) (simp only: Let_def chunk_def [symmetric] preview'_def [symmetric] if_False)
    also have "\<dots> = ((digested @ chunk) @ drop chunk_bytes rest, n + length chunk + length (drop chunk_bytes rest),
        take (nat limit) ((digested @ chunk) @ drop chunk_bytes rest))"
      by (rule less(1)) (use False p' in \<open>simp_all add: chunk_bytes_def\<close>)
    also have "(digested @ chunk) @ drop chunk_bytes rest = digested @ rest" by (simp add: chunk_def)
    also have "n + length chunk + length (drop chunk_bytes rest) = n + length rest" by (simp add: chunk_def)
    finally show ?thesis .
  qed
qed

text \<open>What a successful read means, without chunks.\<close>

lemma read_verified:
  "read_verified_file rd path expected_size sha limit = Inr (content, truncated) \<longleftrightarrow>
     (\<exists>bs. map_of (rd_files rd) path = Some bs \<and> expected_size = int (length bs) \<and> rd_sha256 rd bs = sha
       \<and> content = take (nat limit) bs \<and> truncated = (length content < length bs))"
  by (auto simp: read_verified_file_def read_loop_whole simp del: read_loop.simps split: option.splits if_splits)

definition beneath :: "string list \<Rightarrow> string list \<Rightarrow> bool" where
  "beneath root path = (take (length root) path = root)"

lemma result_path_beneath: "result_path root relative = Inr path \<Longrightarrow> beneath root path"
  by (auto simp: result_path_def beneath_def Let_def split: if_splits)

text \<open>
  A preview that shows a file: a file below the folder of the manifest, with the digest and size that one of its
  representations declares; the content is a part of the beginning of the file, and all of it unless marked as truncated.
\<close>

definition declares :: "json \<Rightarrow> json \<Rightarrow> bool" where
  "declares manifest rep = (\<exists>outs out reps. get_list manifest ''outputs'' = Inr outs \<and> out \<in> set outs
     \<and> get_list out ''representations'' = Inr reps \<and> rep \<in> set reps)"

definition shows_file :: "reader \<Rightarrow> string list \<Rightarrow> json \<Rightarrow> preview \<Rightarrow> bool" where
  "shows_file rd folder rep pv = (\<exists>path bs m k. beneath folder path \<and> map_of (rd_files rd) path = Some bs
     \<and> jget rep ''size_bytes'' = Some (JInt (int (length bs))) \<and> jget rep ''checksum_sha256'' = Some (JStr (rd_sha256 rd bs))
     \<and> pv_content pv = take k (rd_decode rd (take m bs)) \<and> (\<not> pv_truncated pv \<longrightarrow> pv_content pv = rd_decode rd bs))"

lemma required_stringD: "required_string j k = Inr s \<Longrightarrow> jget j k = Some (JStr s)"
  by (auto simp: required_string_def split: option.splits json.splits if_splits)

lemma required_intD: "required_int j k = Inr n \<Longrightarrow> jget j k = Some (JInt n)"
  by (auto simp: required_int_def split: option.splits json.splits)

lemma preview_one_shows:
  assumes "preview_one rd folder max_chars out rep consumed = Inr pv"
  shows "shows_file rd folder rep pv \<and> int (length (pv_content pv)) \<le> max 0 (max_chars - consumed)"
proof -
  obtain relative path n checksum content truncated where
    a: "result_path folder relative = Inr path" "required_int rep ''size_bytes'' = Inr n" "required_string rep ''checksum_sha256'' = Inr checksum"
      "read_verified_file rd path n checksum (max ((max_chars - consumed) * 4) 1) = Inr (content, truncated)"
    and pv: "pv_content pv = take (nat (max_chars - consumed)) (rd_decode rd content)"
      "pv_truncated pv = (truncated \<or> length (pv_content pv) < length (rd_decode rd content))"
    using assms by (auto simp: preview_one_def exn_simps Let_def)
  from a(4) obtain bs where f: "map_of (rd_files rd) path = Some bs" "n = int (length bs)" "rd_sha256 rd bs = checksum"
      "content = take (nat (max ((max_chars - consumed) * 4) 1)) bs" "truncated = (length content < length bs)"
    by (auto simp: read_verified)
  have "\<not> pv_truncated pv \<longrightarrow> pv_content pv = rd_decode rd bs" using pv f(4,5) by auto
  then have "shows_file rd folder rep pv"
    unfolding shows_file_def using result_path_beneath [OF a(1)] required_intD [OF a(2)] required_stringD [OF a(3)] f(1,2,3,4) pv(1) by blast
  then show ?thesis using pv(1) by simp
qed

definition preview_chars :: "preview list \<Rightarrow> int" where
  "preview_chars ps = int (sum_list (map (\<lambda>p. length (pv_content p)) ps))"

lemma preview_chars_simps [simp]: "preview_chars [] = 0" "preview_chars (p # ps) = int (length (pv_content p)) + preview_chars ps"
  "preview_chars (ps @ qs) = preview_chars ps + preview_chars qs"
  by (simp_all add: preview_chars_def)

definition accounted :: "int \<Rightarrow> preview list \<Rightarrow> int \<Rightarrow> bool" where
  "accounted max_chars ps consumed = (consumed = preview_chars ps \<and> (consumed \<le> max_chars \<or> consumed = 0))"

lemma representations_previews:
  assumes "preview_representations rd folder max_chars out reps (ps, c) = Inr (ps', c')" "accounted max_chars ps c"
    and "\<forall>p \<in> set ps. \<exists>rep. D rep \<and> shows_file rd folder rep p" "\<forall>rep \<in> set reps. D rep"
  shows "accounted max_chars ps' c' \<and> (\<forall>p \<in> set ps'. \<exists>rep. D rep \<and> shows_file rd folder rep p)"
  using assms
proof (induction reps arbitrary: ps c)
  case (Cons rep reps)
  show ?case
  proof (cases "(case jget rep ''media_type'' of None \<Rightarrow> [] | Some v \<Rightarrow> py_str_json v) \<notin> set text_media_types \<or> max_chars \<le> c")
    case True
    then have "preview_representations rd folder max_chars out reps (ps, c) = Inr (ps', c')"
      using Cons.prems(1) by (auto split: if_splits)
    then show ?thesis using Cons by simp
  next
    case False
    then obtain pv where pv: "preview_one rd folder max_chars out rep c = Inr pv"
      and rest: "preview_representations rd folder max_chars out reps (ps @ [pv], c + int (length (pv_content pv))) = Inr (ps', c')"
      using Cons.prems(1) by (auto simp: exn_simps split: if_splits)
    note shown = preview_one_shows [OF pv]
    have acc: "accounted max_chars (ps @ [pv]) (c + int (length (pv_content pv)))"
      using Cons.prems(2) shown False by (auto simp: accounted_def)
    have seen: "\<forall>p \<in> set (ps @ [pv]). \<exists>rep. D rep \<and> shows_file rd folder rep p"
      using Cons.prems(3,4) shown by auto
    show ?thesis by (rule Cons.IH [OF rest acc seen]) (use Cons.prems(4) in simp)
  qed
qed simp

lemma outputs_previews:
  assumes "preview_outputs rd folder max_chars outs (ps, c) = Inr (ps', c')" "accounted max_chars ps c"
    and "\<forall>p \<in> set ps. \<exists>rep. D rep \<and> shows_file rd folder rep p"
    and "\<forall>out \<in> set outs. \<forall>reps. get_list out ''representations'' = Inr reps \<longrightarrow> (\<forall>rep \<in> set reps. D rep)"
  shows "accounted max_chars ps' c' \<and> (\<forall>p \<in> set ps'. \<exists>rep. D rep \<and> shows_file rd folder rep p)"
  using assms
proof (induction outs arbitrary: ps c)
  case (Cons out outs)
  then obtain reps ps1 c1 where r: "get_list out ''representations'' = Inr reps"
      "preview_representations rd folder max_chars out reps (ps, c) = Inr (ps1, c1)" "preview_outputs rd folder max_chars outs (ps1, c1) = Inr (ps', c')"
    by (auto simp: exn_simps split: if_splits)
  have "accounted max_chars ps1 c1 \<and> (\<forall>p \<in> set ps1. \<exists>rep. D rep \<and> shows_file rd folder rep p)"
    by (rule representations_previews [OF r(2) Cons.prems(2,3)]) (use Cons.prems(4) r(1) in simp)
  then show ?case by (elim conjE, intro Cons.IH [OF r(3)]) (use Cons.prems(4) in simp_all)
qed simp

lemma manifest_verified:
  assumes "read_manifest rd root execution step reference limit = Inr (path, manifest)"
  obtains bs where "beneath root path" "map_of (rd_files rd) path = Some bs" "jget reference ''checksum_sha256'' = Some (JStr (rd_sha256 rd bs))"
    "int (length bs) \<le> limit" "rd_loads rd bs = Inr manifest" "validate_manifest_identity manifest execution step reference = Inr ()"
proof -
  obtain relative n checksum raw truncated where
    a: "result_path root relative = Inr path" "n \<le> limit" "required_string reference ''checksum_sha256'' = Inr checksum"
      "read_verified_file rd path n checksum limit = Inr (raw, truncated)" "rd_loads rd raw = Inr manifest"
      "validate_manifest_identity manifest execution step reference = Inr ()"
    using assms by (auto simp: read_manifest_def exn_simps not_less split: if_splits)
  from a(4) obtain bs where bs: "map_of (rd_files rd) path = Some bs" "n = int (length bs)" "rd_sha256 rd bs = checksum" "raw = take (nat limit) bs"
    by (auto simp: read_verified)
  then have "raw = bs" using a(2) by simp
  then show thesis using that [of bs] result_path_beneath [OF a(1)] required_stringD [OF a(3)] bs a by simp
qed

text \<open>What a summary shows of a step: each preview is a file that a manifest declares which the step refers to.\<close>

definition grounded :: "reader \<Rightarrow> string list \<Rightarrow> uuid \<Rightarrow> result_summary \<Rightarrow> bool" where
  "grounded rd root execution s = (\<forall>pv \<in> set (su_previews s). \<exists>reference path bs manifest rep.
     sr_result_ref (rs_result (su_step s)) = Some reference \<and> beneath root path \<and> map_of (rd_files rd) path = Some bs
     \<and> jget (JObj reference) ''checksum_sha256'' = Some (JStr (rd_sha256 rd bs)) \<and> rd_loads rd bs = Inr manifest
     \<and> validate_manifest_identity manifest execution (rs_step_id (su_step s)) (JObj reference) = Inr ()
     \<and> declares manifest rep \<and> shows_file rd (butlast path) rep pv)"

lemma result_preview_grounded:
  assumes "read_result_preview rd root execution (rs_step_id step) (JObj reference) max_chars limit = Inr (ps, c)"
    and "sr_result_ref (rs_result step) = Some reference"
  shows "accounted max_chars ps c \<and> grounded rd root execution \<lparr>su_operation_number = n, su_step = step, su_previews = ps\<rparr>"
proof -
  obtain path manifest outs where m: "read_manifest rd root execution (rs_step_id step) (JObj reference) limit = Inr (path, manifest)"
      "get_list manifest ''outputs'' = Inr outs" "preview_outputs rd (butlast path) max_chars outs ([], 0) = Inr (ps, c)"
    using assms(1) by (auto simp: read_result_preview_def exn_simps)
  have d: "\<forall>out \<in> set outs. \<forall>reps. get_list out ''representations'' = Inr reps \<longrightarrow> (\<forall>rep \<in> set reps. declares manifest rep)"
    using m(2) by (auto simp: declares_def)
  have "accounted max_chars [] 0" by (simp add: accounted_def)
  then have p: "accounted max_chars ps c" "\<forall>p \<in> set ps. \<exists>rep. declares manifest rep \<and> shows_file rd (butlast path) rep p"
    using outputs_previews [OF m(3) _ _ d] by simp_all
  from m(1) obtain bs where "beneath root path" "map_of (rd_files rd) path = Some bs" "jget (JObj reference) ''checksum_sha256'' = Some (JStr (rd_sha256 rd bs))"
      "rd_loads rd bs = Inr manifest" "validate_manifest_identity manifest execution (rs_step_id step) (JObj reference) = Inr ()"
    by (rule manifest_verified)
  then show ?thesis using p assms(2) unfolding grounded_def by (simp del: jget.simps) blast
qed

lemma summaries_grounded:
  assumes "step_summaries rd root execution limit steps remaining = Inr ss"
  shows "(preview_chars (concat (map su_previews ss)) \<le> remaining \<or> preview_chars (concat (map su_previews ss)) = 0)
    \<and> (\<forall>s \<in> set ss. grounded rd root execution s) \<and> map (\<lambda>s. (su_operation_number s, su_step s)) ss = steps"
  using assms
proof (induction steps arbitrary: remaining ss)
  case (Cons ns steps)
  obtain n step where ns: "ns = (n, step)" by fastforce
  obtain ps c rest where r: "(case sr_result_ref (rs_result step) of None \<Rightarrow> Inr ([], 0)
       | Some reference \<Rightarrow> read_result_preview rd root execution (rs_step_id step) (JObj reference) remaining limit) = Inr (ps, c)"
      "step_summaries rd root execution limit steps (remaining - c) = Inr rest"
      "ss = \<lparr>su_operation_number = n, su_step = step, su_previews = ps\<rparr> # rest"
    using Cons.prems ns by (auto simp: exn_simps)
  have g: "accounted remaining ps c \<and> grounded rd root execution \<lparr>su_operation_number = n, su_step = step, su_previews = ps\<rparr>"
  proof (cases "sr_result_ref (rs_result step)")
    case None
    then show ?thesis using r(1) by (simp add: accounted_def grounded_def)
  next
    case (Some reference)
    then show ?thesis using r(1) result_preview_grounded [OF _ Some] by simp
  qed
  show ?case using Cons.IH [OF r(2)] g r(3) ns by (auto simp: accounted_def)
qed simp

section \<open>Properties\<close>

text \<open>
  C12: what the language models and the user see of a result is genuine and bounded. Every preview is the beginning of a file
  below the folder of a manifest, with the size and digest the manifest declares, and all of the file
  unless marked as truncated; the manifest lies below the shared root, has the digest of the reference in the result and names
  this execution and step; the previews of all steps together have at most the configured number of characters.
\<close>

theorem result_previews_verified:
  assumes "validated_result_summaries rd root r max_chars limit = Inr ss" "0 \<le> max_chars"
  shows "(\<forall>s \<in> set ss. grounded rd root (xr_execution_id r) s) \<and> map su_step ss = concat (map ro_steps (xr_operations r))
    \<and> preview_chars (concat (map su_previews ss)) \<le> max_chars"
proof -
  have s: "(preview_chars (concat (map su_previews ss)) \<le> max_chars \<or> preview_chars (concat (map su_previews ss)) = 0)
      \<and> (\<forall>s \<in> set ss. grounded rd root (xr_execution_id r) s) \<and> map (\<lambda>s. (su_operation_number s, su_step s)) ss = numbered_steps r"
    using assms(1) unfolding validated_result_summaries_def by (rule summaries_grounded)
  have "map su_step ss = map snd (map (\<lambda>s. (su_operation_number s, su_step s)) ss)" by simp
  also have "\<dots> = map snd (numbered_steps r)" using s by (simp only:)
  also have "\<dots> = concat (map ro_steps (xr_operations r))" by (simp add: numbered_steps_def map_concat comp_def)
  finally show ?thesis using s assms(2) by auto
qed

text \<open>A step whose result is a file of three bytes, of which two characters are shown.\<close>

definition demo_manifest :: json where
  "demo_manifest = JObj [(''complete'', JBool True),
     (''identity'', JObj [(''execution_id'', JStr (uuid_str 5)), (''step_id'', JStr (uuid_str 6)), (''execution_attempt_id'', JStr ''a''), (''fencing_token'', JInt 1)]),
     (''outputs'', JArr [JObj [(''representations'', JArr [JObj [(''complete'', JBool True), (''media_type'', JStr ''text/plain''),
        (''relative_path'', JStr ''a.txt''), (''size_bytes'', JInt 3), (''checksum_sha256'', JStr ''abc'')]])]])]"

definition demo_reader :: reader where
  "demo_reader = \<lparr>rd_sha256 = (\<lambda>s. s), rd_loads = (\<lambda>_. Inr demo_manifest), rd_decode = (\<lambda>s. s),
     rd_files = [([''r'', ''m.json''], ''{}''), ([''r'', ''a.txt''], ''abc'')]\<rparr>"

definition demo_result_step :: result_step where
  "demo_result_step = \<lparr>rs_step_id = 6, rs_sequence = 0, rs_lineage = [], rs_result = \<lparr>sr_status = ''SUCCEEDED'', sr_output_summary = [], sr_error_message = None,
     sr_result_ref = Some [(''storage'', JStr ''SHARED_PV''), (''execution_id'', JStr (uuid_str 5)), (''step_id'', JStr (uuid_str 6)), (''complete'', JBool True),
       (''relative_path'', JStr ''m.json''), (''size_bytes'', JInt 2), (''checksum_sha256'', JStr ''{}''), (''attempt_id'', JStr ''a''), (''fencing_token'', JInt 1)]\<rparr>\<rparr>"

definition demo_result :: execution_result where
  "demo_result = \<lparr>xr_execution_id = 5, xr_status = ''SUCCEEDED'', xr_version = 1,
     xr_operations = [\<lparr>ro_operation_id = 6, ro_operation_number = 1, ro_status = ''SUCCEEDED'', ro_error_message = None, ro_steps = [demo_result_step]\<rparr>]\<rparr>"

lemma demo_result_files:
  "read_verified_file demo_reader [''r'', ''m.json''] 2 ''{}'' 10 = Inr (''{}'', False)"
  "read_verified_file demo_reader [''r'', ''a.txt''] 3 ''abc'' 8 = Inr (''abc'', False)"
  by (simp_all add: read_verified demo_reader_def)

lemma demo_result_paths: "result_path [''r''] ''m.json'' = Inr [''r'', ''m.json'']" "result_path [''r''] ''a.txt'' = Inr [''r'', ''a.txt'']"
  by code_simp+

lemma demo_summaries: "validated_result_summaries demo_reader [''r''] demo_result 2 10
    = Inr [\<lparr>su_operation_number = 1, su_step = demo_result_step, su_previews = [\<lparr>pv_ordinal = JNull, pv_kind = JNull, pv_stream_name = JNull,
        pv_media_type = ''text/plain'', pv_content = ''ab'', pv_truncated = True\<rparr>]\<rparr>]"
proof -
  have m: "read_manifest demo_reader [''r''] 5 6 (JObj (the (sr_result_ref (rs_result demo_result_step)))) 10 = Inr ([''r'', ''m.json''], demo_manifest)"
  proof -
    have "rd_loads demo_reader raw = Inr demo_manifest" "is_jobj demo_manifest" for raw by (simp_all add: demo_reader_def demo_manifest_def)
    moreover have "validate_manifest_identity demo_manifest 5 6 (JObj (the (sr_result_ref (rs_result demo_result_step)))) = Inr ()"
      by (simp add: validate_manifest_identity_def demo_manifest_def demo_result_step_def jget0_def py_str_json_def)
    ultimately show ?thesis
      by (simp add: read_manifest_def demo_result_step_def required_string_def required_int_def demo_result_paths demo_result_files py_str_json_def jget0_def)
  qed
  have p: "preview_one demo_reader [''r''] 2 out (JObj [(''complete'', JBool True), (''media_type'', JStr ''text/plain''),
        (''relative_path'', JStr ''a.txt''), (''size_bytes'', JInt 3), (''checksum_sha256'', JStr ''abc'')]) 0
      = Inr \<lparr>pv_ordinal = jget0 out ''ordinal'', pv_kind = jget0 out ''kind'', pv_stream_name = jget0 out ''stream_name'',
         pv_media_type = ''text/plain'', pv_content = ''ab'', pv_truncated = True\<rparr>" for out
    by (simp add: preview_one_def required_string_def required_int_def demo_result_paths demo_result_files py_str_json_def)
      (simp add: demo_reader_def)
  show ?thesis
    using m p by (simp add: validated_result_summaries_def numbered_steps_def demo_result_def read_result_preview_def demo_result_step_def demo_manifest_def
        get_list_def text_media_types_def py_str_json_def jget0_def)
qed

theorem result_previews_verified_witness:
  "\<exists>ss. validated_result_summaries demo_reader [''r''] demo_result 2 10 = Inr ss \<and> map pv_content (concat (map su_previews ss)) = [''ab'']
    \<and> list_all (grounded demo_reader [''r''] 5) ss \<and> preview_chars (concat (map su_previews ss)) \<le> 2"
  using result_previews_verified [OF demo_summaries] demo_summaries by (simp add: list_all_iff demo_result_def)

end
