(* ===== verification/Session_Services.thy ===== *)
theory Session_Services
  imports Effect_Requests Executor_Results Agent_Tasks
begin

text \<open>
  The services of the business graph in the session runtime: \<open>SessionWorkflowServices\<close> (\<open>src/agent/services.py\<close>) with its
  durable effects, and what it inherits of \<open>ExecutionCapability\<close> and \<open>ReportingCapability\<close>
  (\<open>src/ex_agent/application/capabilities\<close>): the reconciliation of an execution with the executor's own result,
  the evidence of a report and the bound on its text; the status and the lock are those of \<open>Agent_Tasks\<close>. The state adds the workflow catalog and the rest of the world to that of the
  effects. The answers of the language models, the executor's result and the services that only ask them are parameters.
\<close>

type_synonym 'v service_state = "(catalog_db \<times> 'v) effect_state"

record 'v session_env =
  se_effects :: "(catalog_db \<times> 'v) effect_env"
  se_status_fault :: fault
  se_lock_fault :: fault
  se_terminal_fault :: fault
  se_promotion_fault :: fault
  se_record_fault :: fault
  se_update_fault :: fault
  se_result :: "uuid \<Rightarrow> 'v \<Rightarrow> execution_result result \<times> 'v"
  se_result_json :: "execution_result \<Rightarrow> json"
  se_reader :: "'v \<Rightarrow> reader"
  se_shared_root :: "string list"
  se_context_max_chars :: int
  se_manifest_max_bytes :: int
  se_step_hash :: "plan_step \<Rightarrow> string"
  se_report_model :: "json \<Rightarrow> 'v \<Rightarrow> string result \<times> 'v"
  se_report_suffix :: string

section \<open>Reports\<close>

definition bounded_report_markdown :: "string \<Rightarrow> nat \<Rightarrow> string \<Rightarrow> string result" where
  "bounded_report_markdown suffix max_chars content = (let markdown = py_strip content in
     if markdown = [] then Inl (ValueError ''Report model returned empty Markdown'')
     else if length markdown \<le> max_chars then Inr markdown
     else Inr (rdrop_while is_space (take (max_chars - length suffix) markdown) @ suffix))"

definition generate_report_markdown :: "'v session_env \<Rightarrow> json \<Rightarrow> catalog_db \<times> 'v \<Rightarrow> string result \<times> catalog_db \<times> 'v" where
  "generate_report_markdown se evidence cv = (case cv of (cat, v) \<Rightarrow>
     (case se_report_model se evidence v of
        (Inl e, v') \<Rightarrow> (Inl e, cat, v')
      | (Inr content, v') \<Rightarrow> (bounded_report_markdown (se_report_suffix se) 6000 content, cat, v')))"

definition session_effects :: "'v session_env \<Rightarrow> (catalog_db \<times> 'v) effect_env" where
  "session_effects se = (se_effects se)\<lparr>ee_generate := generate_report_markdown se\<rparr>"

section \<open>Reconciliation\<close>

text \<open>A call to the outside: it changes the rest of the world only.\<close>

definition on_outside :: "('v \<Rightarrow> 'a result \<times> 'v) \<Rightarrow> 'v service_state \<Rightarrow> 'a result \<times> 'v service_state" where
  "on_outside f s = (case s of (db, pdb, fs, cat, v) \<Rightarrow> (case f v of (r, v') \<Rightarrow> (r, db, pdb, fs, cat, v')))"

definition on_catalog :: "(catalog_db \<Rightarrow> 'a result \<times> catalog_db) \<Rightarrow> 'v service_state \<Rightarrow> 'a result \<times> 'v service_state" where
  "on_catalog f s = (case s of (db, pdb, fs, cat, v) \<Rightarrow> (case f cat of (r, cat') \<Rightarrow> (r, db, pdb, fs, cat', v)))"

definition result_refs :: "execution_result \<Rightarrow> string list" where
  "result_refs r = concat (map (\<lambda>(_, s). case sr_result_ref (rs_result s) of
       None \<Rightarrow> [] | Some [] \<Rightarrow> [] | Some reference \<Rightarrow> [py_str_json (jget0 (JObj reference) ''relative_path'')]) (numbered_steps r))"

definition latest_operation :: "execution_result \<Rightarrow> result_operation option" where
  "latest_operation r = (if xr_operations r = [] then None else Some (last (xr_operations r)))"

text \<open>The verified lineage of a successful operation.\<close>

definition record_lineage :: "'v session_env \<Rightarrow> wstate \<Rightarrow> execution_result \<Rightarrow> 'v service_state \<Rightarrow> unit result \<times> 'v service_state" where
  "record_lineage se w r = (case latest_operation r of
       None \<Rightarrow> spure (Inl (ValueError ''Successful Executor result omitted Operation''))
     | Some op \<Rightarrow>
         sbind (spure (task_id_of w)) (\<lambda>task.
         sbind (binding_for_task task) (\<lambda>b.
         sbind (need_key (wg_plan w) ''plan'') (\<lambda>p.
         sbind (need_key (wg_execution_mode w) ''execution_mode'') (\<lambda>mode.
         (let steps = (if mode = Em_MULTI then take 1 (pd_steps p) else pd_steps p);
              start = eb_next_step_sequence b - int (length steps)
          in if start < 0 then spure (Inl (ValueError ''Executor Step lineage sequence is invalid''))
             else sbind (need_key (wg_plan_id w) ''plan_id'') (\<lambda>pid. sbind (spure (parse_id pid)) (\<lambda>pl.
                  sbind (need_key (wg_plan_revision_id w) ''plan_revision_id'') (\<lambda>rid. sbind (spure (parse_id rid)) (\<lambda>revision.
                    on_catalog (with_fault (se_record_fault se) (record_successful_steps (se_step_hash se) task (ro_operation_id op) pl revision
                      (ee_registry_hash (se_effects se)) start steps))))))))))))"

definition reconcile_service :: "'v session_env \<Rightarrow> wstate \<Rightarrow> boundary_signal \<Rightarrow> 'v service_state \<Rightarrow> reconciliation result \<times> 'v service_state" where
  "reconcile_service se w signal =
     sbind (on_outside (se_result se (bs_execution_id signal))) (\<lambda>r.
     sbind (\<lambda>s. (validated_result_summaries (se_reader se (snd (snd (snd (snd s))))) (se_shared_root se) r
               (se_context_max_chars se) (se_manifest_max_bytes se), s)) (\<lambda>summaries.
     sbind (if outcome_of r \<in> {Eo_OPERATION_SUCCEEDED, Eo_SUCCEEDED} then record_lineage se w r else spure (Inr ())) (\<lambda>_.
     sbind (spure (task_id_of w)) (\<lambda>task.
     sbind (on_db (with_fault (se_update_fault se) (execution_update task None (Some (xr_version r)) None (Some (bs_event_sequence signal))))) (\<lambda>_.
       spure (Inr \<lparr>rc_outcome = outcome_of r, rc_execution_id = bs_execution_id signal, rc_execution_version = xr_version r,
         rc_operation_id = map_option ro_operation_id (latest_operation r),
         rc_error_message = Option.bind (latest_operation r) ro_error_message, rc_result_refs = result_refs r,
         rc_result_summaries = map summary_json summaries\<rparr>))))))"

definition report_evidence :: "'v session_env \<Rightarrow> wstate \<Rightarrow> 'v service_state \<Rightarrow> json result \<times> 'v service_state" where
  "report_evidence se w =
     sbind (need_key (wf_execution_id w) ''execution_id'') (\<lambda>e.
     sbind (spure (parse_id e)) (\<lambda>u.
     sbind (on_outside (se_result se u)) (\<lambda>r.
     sbind (\<lambda>s. (validated_result_summaries (se_reader se (snd (snd (snd (snd s))))) (se_shared_root se) r
               (se_context_max_chars se) (se_manifest_max_bytes se), s)) (\<lambda>summaries.
     sbind (need_key (wg_plan w) ''plan'') (\<lambda>p.
       spure (Inr (JObj [(''request'', JStr (tt_user_message (wf_turn w))), (''plan'', plan_json p), (''execution_id'', JStr (uuid_str u)),
         (''executor_result'', se_result_json se r), (''validated_result_summaries'', JArr (map summary_json summaries))])))))))"

section \<open>The end of a task\<close>

definition terminal_metadata :: "wstate \<Rightarrow> json" where
  "terminal_metadata w = JObj [(''execution_id'', jopt JStr (wf_execution_id w)), (''report_artifact_id'', jopt JStr (wg_report_artifact_id w))]"

text \<open>\<open>except Exception\<close> around the suggestion: it is logged and forgotten.\<close>

definition offer_promotion :: "'v session_env \<Rightarrow> uuid \<Rightarrow> 'v service_state \<Rightarrow> unit result \<times> 'v service_state" where
  "offer_promotion se task s = (case s of (db, pdb, fs, cat, v) \<Rightarrow>
     (case promotion_source_of task db (map (\<lambda>r. (rv_id r, rv_public_payload r)) (pb_revisions pdb)) cat of
        Inl e \<Rightarrow> (if is_Exception e then Inr () else Inl e, s)
      | Inr source \<Rightarrow>
          if src_steps source \<noteq> [] \<and> list_all (\<lambda>x. ps_planning_kind (xs_step_payload x) = Pk_TOOL_PLAN) (src_steps source)
          then (case on_db (with_fault (se_promotion_fault se) (effect_promotion task)) s of
              (Inl e, s') \<Rightarrow> (if is_Exception e then Inr () else Inl e, s')
            | (Inr _, s') \<Rightarrow> (Inr (), s'))
          else (Inr (), s)))"

definition commit_terminal_service :: "'v session_env \<Rightarrow> wstate \<Rightarrow> task_status \<Rightarrow> string \<Rightarrow> 'v service_state \<Rightarrow> unit result \<times> 'v service_state" where
  "commit_terminal_service se w status message =
     sbind (spure (task_id_of w)) (\<lambda>task.
     sbind (on_db (with_fault (se_terminal_fault se) (effect_terminal (ee_now (se_effects se)) task status message (terminal_metadata w)))) (\<lambda>_.
       if status = SUCCEEDED then offer_promotion se task else spure (Inr ())))"

definition commit_answer_service :: "'v session_env \<Rightarrow> wstate \<Rightarrow> string \<Rightarrow> 'v service_state \<Rightarrow> unit result \<times> 'v service_state" where
  "commit_answer_service se w answer =
     sbind (spure (task_id_of w)) (\<lambda>task.
       on_db (with_fault (se_terminal_fault se) (effect_terminal (ee_now (se_effects se)) task SUCCEEDED answer (JObj []))))"

section \<open>Status and lock\<close>

definition update_status_service :: "'v session_env \<Rightarrow> wstate \<Rightarrow> task_status \<Rightarrow> 'v service_state \<Rightarrow> unit result \<times> 'v service_state" where
  "update_status_service se w status =
     sbind (spure (task_id_of w)) (\<lambda>u. on_db (with_fault (se_status_fault se) (task_update_status (ee_now (se_effects se)) u status)))"

definition lock_session_service :: "'v session_env \<Rightarrow> uuid \<Rightarrow> 'v service_state \<Rightarrow> unit result \<times> 'v service_state" where
  "lock_session_service se u = on_db (with_fault (se_lock_fault se) (task_lock_session u))"

section \<open>The services\<close>

text \<open>
  The environment of a call (the clock, fresh identifiers, what fails) depends on the world at that time; \<open>base\<close> holds
  the services that are inherited and not modelled here.
\<close>

definition calling :: "('v \<Rightarrow> 'v session_env) \<Rightarrow> ('v session_env \<Rightarrow> 'v service_state \<Rightarrow> 'a result \<times> 'v service_state)
    \<Rightarrow> 'v service_state \<Rightarrow> 'a result \<times> 'v service_state" where
  "calling S f s = f (S (snd (snd (snd (snd s))))) s"

definition session_services :: "('v \<Rightarrow> 'v session_env) \<Rightarrow> 'v service_state workflow_services \<Rightarrow> 'v service_state workflow_services" where
  "session_services S base = base\<lparr>
     sv_update_status := (\<lambda>w status. calling S (\<lambda>se. update_status_service se w status)),
     sv_lock_session := (\<lambda>u. calling S (\<lambda>se. lock_session_service se u)),
     sv_commit_terminal := (\<lambda>w status message. calling S (\<lambda>se. commit_terminal_service se w status message)),
     sv_commit_answer := (\<lambda>w answer. calling S (\<lambda>se. commit_answer_service se w answer)),
     sv_compile_and_persist_plan := (\<lambda>w p. calling S (\<lambda>se. plans_persist (session_effects se) w p)),
     sv_submit_execution := (\<lambda>w. calling S (\<lambda>se. durable_submit (session_effects se) w)),
     sv_reconcile_executor := (\<lambda>w signal. calling S (\<lambda>se. reconcile_service se w signal)),
     sv_append_operation := (\<lambda>w d. calling S (\<lambda>se. durable_append (session_effects se) w d)),
     sv_finalize_execution := (\<lambda>w. calling S (\<lambda>se. durable_lifecycle (session_effects se) w ''finalize'' None)),
     sv_cancel_execution := (\<lambda>w why. calling S (\<lambda>se. durable_lifecycle (session_effects se) w ''cancel'' why)),
     sv_build_report_evidence := (\<lambda>w. calling S (\<lambda>se. report_evidence se w)),
     sv_generate_report := (\<lambda>w e. calling S (\<lambda>se. durable_report (session_effects se) w e))\<rparr>"

end
