(* ===== verification/Plan_Store_Props.thy ===== *)
theory Plan_Store_Props
  imports Plan_Store Workflow_Catalog_Props
begin

text \<open>
  What the plan repository guarantees: the revisions of a plan are numbered without gaps and never change, a
  revision can be persisted again with the same input only, and the steps that are read back for an execution are
  those that were compiled. The numbering is that of the versions of a workflow.
\<close>

section \<open>The invariant\<close>

definition revision_key :: "revision_row \<Rightarrow> uuid \<times> uuid \<times> int" where
  "revision_key r = (rv_id r, rv_plan_id r, rv_revision_number r)"

definition current_key :: "plan_row \<Rightarrow> uuid \<times> int" where
  "current_key p = (pl_id p, pl_current_revision p)"

definition step_key :: "step_row \<Rightarrow> uuid \<times> int" where
  "step_key s = (st_plan_revision_id s, st_sequence s)"

definition plan_inv :: "plan_db \<Rightarrow> bool" where
  "plan_inv db = (numbering_ok (map revision_key (pb_revisions db)) (map current_key (pb_plans db))
     \<and> distinct (map pl_task_id (pb_plans db)) \<and> distinct (map step_key (pb_steps db))
     \<and> (\<forall>r \<in> set (pb_revisions db). valid_uuid (rv_id r))
     \<and> (\<forall>s \<in> set (pb_steps db). st_plan_revision_id s \<in> rv_id ` set (pb_revisions db)))"

definition plan_grows :: "plan_db \<Rightarrow> plan_db \<Rightarrow> bool" where
  "plan_grows db db' = ((\<exists>rs. pb_revisions db' = pb_revisions db @ rs)
     \<and> (\<exists>ss. pb_steps db' = pb_steps db @ ss \<and> (\<forall>s \<in> set ss. st_plan_revision_id s \<notin> rv_id ` set (pb_revisions db)))
     \<and> (\<forall>task p. plan_of task db = Some p \<longrightarrow> (\<exists>p'. plan_of task db' = Some p' \<and> pl_id p' = pl_id p)))"

text \<open>The identifiers that \<open>uuid4\<close> draws have 128 bits.\<close>

definition valid_ids :: "uuid \<times> uuid \<times> uuid \<Rightarrow> bool" where
  "valid_ids ids = (case ids of (pid, rid, bid) \<Rightarrow> valid_uuid pid \<and> valid_uuid rid \<and> valid_uuid bid)"

inductive plan_step_rel :: "plan_db \<Rightarrow> plan_db \<Rightarrow> bool" where
  pl_persist: "valid_ids ids \<Longrightarrow> plan_step_rel db (snd (persist hash ids known task plan compiled reg_hash feedback expected db))"

section \<open>Persisting a revision\<close>

lemma persist_bodyE:
  assumes "persist_body hash (pid, rid, bid) task plan compiled reg_hash feedback db = (Inr q, db')"
  obtains r rows where "rmap (plan_step_row rid plan) compiled = Inr rows" "distinct (map st_sequence rows)"
    "rid \<notin> rv_id ` set (pb_revisions db)" "q = persisted_of r" "pb_revisions db' = pb_revisions db @ [r]" "pb_steps db' = pb_steps db @ rows"
    "rv_id r = rid" "rv_public_payload r = plan" "rv_public_payload_hash r = hash plan" "rv_registry_snapshot_hash r = reg_hash"
    "rv_feedback r = feedback"
    "(case plan_of task db of
        None \<Rightarrow> pid \<notin> pl_id ` set (pb_plans db) \<and> rv_plan_id r = pid \<and> rv_revision_number r = 1
          \<and> pb_plans db' = pb_plans db @ [\<lparr>pl_id = pid, pl_task_id = task, pl_current_revision = 1\<rparr>]
      | Some p \<Rightarrow> rv_plan_id r = pl_id p \<and> rv_revision_number r = pl_current_revision p + 1
          \<and> pb_plans db' = sql_update (\<lambda>x. pl_id x = pl_id p) (\<lambda>x. x\<lparr>pl_current_revision := pl_current_revision p + 1\<rparr>) (pb_plans db))"
proof -
  obtain rows where rows: "rmap (plan_step_row rid plan) compiled = Inr rows"
    using assms by (auto simp: persist_body_def Let_def split: sum.splits)
  show ?thesis
  proof (cases "plan_of task db")
    case None
    show ?thesis by (rule that [OF rows]) (use assms rows None in \<open>auto simp: persist_body_def Let_def split: if_splits\<close>)
  next
    case (Some p)
    show ?thesis by (rule that [OF rows]) (use assms rows Some in \<open>auto simp: persist_body_def Let_def split: if_splits\<close>)
  qed
qed

lemma rows_of_revision: "rmap (plan_step_row rid plan) compiled = Inr rows \<Longrightarrow> s \<in> set rows \<Longrightarrow> st_plan_revision_id s = rid"
  by (induction compiled arbitrary: rows)
    (auto simp: exn_simps plan_step_row_def split: option.splits prod.splits)

lemma rows_triples:
  "rmap (plan_step_row rid plan) compiled = Inr rows \<Longrightarrow>
     map (\<lambda>s. (st_sequence s, st_compiled_source_sha256 s, st_compiled_source_path s)) rows
       = map (\<lambda>(c, p). (cp_sequence c, cp_source_sha256 c, p)) compiled"
  by (induction compiled arbitrary: rows)
    (auto simp: exn_simps plan_step_row_def split: option.splits prod.splits)

lemma plan_of_Some: "plan_of task db = Some p \<Longrightarrow> p \<in> set (pb_plans db) \<and> pl_task_id p = task"
  by (auto simp: plan_of_def dest: find_SomeD)

lemma bump_keys:
  assumes "distinct (map pl_id ps)" "p \<in> set ps"
  shows "map current_key (sql_update (\<lambda>x. pl_id x = pl_id p) (\<lambda>x. x\<lparr>pl_current_revision := n\<rparr>) ps)
    = map (\<lambda>(i, m). (i, if i = pl_id p then n else m)) (map current_key ps)"
  by (simp add: sql_update_def current_key_def)

lemma persist_body_inv:
  assumes "plan_inv db" "valid_ids ids" "persist_body hash ids task plan compiled reg_hash feedback db = (Inr q, db')"
  shows "plan_inv db'"
proof -
  obtain pid rid bid where ids: "ids = (pid, rid, bid)" by (cases ids) auto
  note inv = assms(1)[unfolded plan_inv_def]
  from assms(3)[unfolded ids] show ?thesis
  proof (rule persist_bodyE)
    fix r rows
    assume a: "rmap (plan_step_row rid plan) compiled = Inr rows" "rid \<notin> rv_id ` set (pb_revisions db)"
      "pb_revisions db' = pb_revisions db @ [r]" "pb_steps db' = pb_steps db @ rows" "rv_id r = rid"
      and dist: "distinct (map st_sequence rows)"
      and c: "case plan_of task db of
        None \<Rightarrow> pid \<notin> pl_id ` set (pb_plans db) \<and> rv_plan_id r = pid \<and> rv_revision_number r = 1
          \<and> pb_plans db' = pb_plans db @ [\<lparr>pl_id = pid, pl_task_id = task, pl_current_revision = 1\<rparr>]
      | Some p \<Rightarrow> rv_plan_id r = pl_id p \<and> rv_revision_number r = pl_current_revision p + 1
          \<and> pb_plans db' = sql_update (\<lambda>x. pl_id x = pl_id p) (\<lambda>x. x\<lparr>pl_current_revision := pl_current_revision p + 1\<rparr>) (pb_plans db)"
    have fresh: "rid \<notin> set (map fst (map revision_key (pb_revisions db)))" using a(2) by (auto simp: revision_key_def)
    have steps: "\<forall>s \<in> set (pb_steps db'). st_plan_revision_id s \<in> rv_id ` set (pb_revisions db')"
      using inv a rows_of_revision [OF a(1)] by auto
    have ids_ok: "\<forall>r \<in> set (pb_revisions db'). valid_uuid (rv_id r)" using inv a(3,5) assms(2) ids by (simp add: valid_ids_def)
    have "distinct (map step_key rows)" using dist by (auto simp: distinct_map inj_on_def step_key_def)
    then have keys: "distinct (map step_key (pb_steps db'))"
      using inv a(2,4) rows_of_revision [OF a(1)] by (auto simp: step_key_def)
    show ?thesis
    proof (cases "plan_of task db")
      case None
      then have "task \<notin> set (map pl_task_id (pb_plans db))" by (auto simp: plan_of_def find_None_iff)
      moreover have "pid \<notin> set (map fst (map current_key (pb_plans db)))" using c None by (auto simp: current_key_def)
      ultimately show ?thesis
        using inv steps keys ids_ok a(3,5) c None numbering_new_workflow [OF conjunct1 [OF inv] _ fresh, of pid]
        by (simp add: plan_inv_def revision_key_def current_key_def)
    next
      case (Some p)
      have p: "p \<in> set (pb_plans db)" using plan_of_Some [OF Some] by blast
      then have "(pl_id p, pl_current_revision p) \<in> set (map current_key (pb_plans db))" by (force simp: current_key_def)
      moreover have "distinct (map pl_id (pb_plans db))" using inv by (simp add: numbering_ok_def current_key_def comp_def)
      moreover have "distinct (map pl_task_id (pb_plans db'))" using inv c Some by (simp add: sql_update_def comp_def if_distrib cong: if_cong)
      ultimately show ?thesis
        using inv steps keys ids_ok a(3,5) c Some numbering_new_version [OF conjunct1 [OF inv] _ fresh refl, of "pl_id p" "pl_current_revision p"] bump_keys [OF _ p]
        by (simp add: plan_inv_def revision_key_def)
    qed
  qed
qed

lemma persist_cases:
  assumes "persist hash ids known task plan compiled reg_hash feedback expected db = (res, db')"
  obtains (same) "db' = db" | (new) q where "res = Inr q" "persist_body hash ids task plan compiled reg_hash feedback db = (Inr q, db')"
proof -
  have body: thesis if "transaction (\<lambda>db. persist_body hash ids task plan compiled reg_hash feedback db) db = (res, db')"
    using that same new by (cases "persist_body hash ids task plan compiled reg_hash feedback db")
      (auto simp: transaction_def split: sum.splits)
  show thesis
  proof (cases expected)
    case None
    then show thesis using assms body by (simp add: persist_def)
  next
    case (Some n)
    then show thesis using assms body same
      by (cases "existing_revision (plan_of task db) n (hash plan) reg_hash feedback compiled db")
        (auto simp: persist_def transaction_def split: if_splits option.splits)
  qed
qed

lemma plan_of_append: "plan_of task (db\<lparr>pb_plans := pb_plans db @ ps\<rparr>) = (case plan_of task db of None \<Rightarrow> find (\<lambda>p. pl_task_id p = task) ps | Some p \<Rightarrow> Some p)"
  by (simp add: plan_of_def find_append split: option.splits)

lemma persist_body_grows:
  assumes "plan_inv db" "persist_body hash ids task plan compiled reg_hash feedback db = (Inr q, db')"
  shows "plan_grows db db'"
proof -
  obtain pid rid bid where ids: "ids = (pid, rid, bid)" by (cases ids) auto
  from assms(2)[unfolded ids] show ?thesis
  proof (rule persist_bodyE)
    fix r rows
    assume a: "rmap (plan_step_row rid plan) compiled = Inr rows" "rid \<notin> rv_id ` set (pb_revisions db)"
      "pb_revisions db' = pb_revisions db @ [r]" "pb_steps db' = pb_steps db @ rows"
      and c: "case plan_of task db of
        None \<Rightarrow> pid \<notin> pl_id ` set (pb_plans db) \<and> rv_plan_id r = pid \<and> rv_revision_number r = 1
          \<and> pb_plans db' = pb_plans db @ [\<lparr>pl_id = pid, pl_task_id = task, pl_current_revision = 1\<rparr>]
      | Some p \<Rightarrow> rv_plan_id r = pl_id p \<and> rv_revision_number r = pl_current_revision p + 1
          \<and> pb_plans db' = sql_update (\<lambda>x. pl_id x = pl_id p) (\<lambda>x. x\<lparr>pl_current_revision := pl_current_revision p + 1\<rparr>) (pb_plans db)"
    have kept: "\<exists>p'. plan_of t db' = Some p' \<and> pl_id p' = pl_id p" if "plan_of t db = Some p" for t p
    proof (cases "plan_of task db")
      case None
      then show ?thesis using that c by (simp add: plan_of_def find_append)
    next
      case (Some p0)
      then have "plan_of t db' = map_option (\<lambda>x. if pl_id x = pl_id p0 then x\<lparr>pl_current_revision := pl_current_revision p0 + 1\<rparr> else x) (plan_of t db)"
        using c unfolding plan_of_def by (simp add: find_sql_update)
      then show ?thesis using that by simp
    qed
    show ?thesis unfolding plan_grows_def using a rows_of_revision [OF a(1)] kept by auto
  qed
qed

lemma plan_grows_refl: "plan_grows db db"
  by (simp add: plan_grows_def)

lemma plan_grows_trans:
  assumes "plan_grows a b" "plan_grows b c"
  shows "plan_grows a c"
proof -
  obtain rs ss where ab: "pb_revisions b = pb_revisions a @ rs" "pb_steps b = pb_steps a @ ss"
      "\<forall>s \<in> set ss. st_plan_revision_id s \<notin> rv_id ` set (pb_revisions a)"
    using assms(1) unfolding plan_grows_def by blast
  obtain rs' ss' where bc: "pb_revisions c = pb_revisions b @ rs'" "pb_steps c = pb_steps b @ ss'"
      "\<forall>s \<in> set ss'. st_plan_revision_id s \<notin> rv_id ` set (pb_revisions b)"
    using assms(2) unfolding plan_grows_def by blast
  have new: "\<forall>s \<in> set (ss @ ss'). st_plan_revision_id s \<notin> rv_id ` set (pb_revisions a)" using ab bc by auto
  have kept: "\<exists>p'. plan_of t c = Some p' \<and> pl_id p' = pl_id p" if t: "plan_of t a = Some p" for t p
  proof -
    obtain p1 where p1: "plan_of t b = Some p1" "pl_id p1 = pl_id p" using assms(1) t unfolding plan_grows_def by blast
    obtain p2 where "plan_of t c = Some p2" "pl_id p2 = pl_id p1" using assms(2) p1(1) unfolding plan_grows_def by blast
    then show ?thesis using p1 by simp
  qed
  show ?thesis unfolding plan_grows_def
    by (intro conjI exI [of _ "rs @ rs'"] exI [of _ "ss @ ss'"]) (use ab bc new kept in simp_all)
qed

lemma plan_step_keeps:
  assumes "plan_step_rel db db'" "plan_inv db"
  shows "plan_inv db' \<and> plan_grows db db'"
  using assms
proof (induction rule: plan_step_rel.induct)
  case (pl_persist ids db hash known task plan compiled reg_hash feedback expected)
  obtain res db' where eq: "persist hash ids known task plan compiled reg_hash feedback expected db = (res, db')" by fastforce
  from eq have "plan_inv db' \<and> plan_grows db db'"
  proof (cases rule: persist_cases)
    case same
    then show ?thesis using pl_persist plan_grows_refl by simp
  next
    case (new q)
    then show ?thesis using persist_body_inv persist_body_grows pl_persist by blast
  qed
  then show ?case using eq by simp
qed

interpretation plans: growth_system "\<lambda>db. db = empty_plan_db" plan_step_rel plan_inv plan_grows
proof unfold_locales
  fix s assume "s = empty_plan_db"
  then show "plan_inv s" by (simp add: plan_inv_def empty_plan_db_def numbering_ok_def)
qed (use plan_step_keeps plan_grows_refl plan_grows_trans in blast)+

abbreviation reachable_plans :: "plan_db \<Rightarrow> bool" where
  "reachable_plans \<equiv> reachable (\<lambda>db. db = empty_plan_db) plan_step_rel"

section \<open>Reading back\<close>

lemma steps_of_fresh:
  assumes "plan_inv db" "rid \<notin> rv_id ` set (pb_revisions db)"
  shows "steps_of rid db = []"
  using assms by (auto simp: steps_of_def plan_inv_def filter_empty_conv)

lemma steps_kept: "plan_grows db db' \<Longrightarrow> rid \<in> rv_id ` set (pb_revisions db) \<Longrightarrow> steps_of rid db' = steps_of rid db"
  unfolding plan_grows_def steps_of_def by (elim conjE exE) (auto simp: filter_empty_conv)

lemma revision_kept:
  assumes "plan_grows db db'" "r \<in> set (pb_revisions db)" "plan_inv db'"
  shows "revision_of (rv_plan_id r) (rv_revision_number r) db' = Some r"
proof -
  have d: "distinct (map (snd \<circ> revision_key) (pb_revisions db'))" using assms(3) by (simp add: plan_inv_def numbering_ok_def)
  have r: "r \<in> set (pb_revisions db')" using assms(1,2) by (auto simp: plan_grows_def)
  show ?thesis using find_key [OF d r] by (simp add: revision_of_def revision_key_def)
qed

text \<open>What a successful call leaves behind, whether it wrote the revision or found it.\<close>

definition step_triple :: "step_row \<Rightarrow> int \<times> string \<times> string" where
  "step_triple s = (st_sequence s, st_compiled_source_sha256 s, st_compiled_source_path s)"

definition compiled_triple :: "compiled_step \<times> string \<Rightarrow> int \<times> string \<times> string" where
  "compiled_triple cp = (case cp of (c, p) \<Rightarrow> (cp_sequence c, cp_source_sha256 c, p))"

definition saved_revision ::
    "uuid \<Rightarrow> int \<Rightarrow> string \<Rightarrow> string \<Rightarrow> string option \<Rightarrow> (compiled_step \<times> string) list \<Rightarrow> revision_row \<Rightarrow> plan_db \<Rightarrow> bool" where
  "saved_revision task n h reg_hash feedback compiled r db =
     ((\<exists>p. plan_of task db = Some p \<and> rv_plan_id r = pl_id p) \<and> r \<in> set (pb_revisions db) \<and> rv_revision_number r = n
      \<and> rv_public_payload_hash r = h \<and> rv_registry_snapshot_hash r = reg_hash \<and> rv_feedback r = feedback
      \<and> mset (map step_triple (steps_of (rv_id r) db)) = mset (map compiled_triple compiled))"

lemmas triple_defs = step_triple_def [abs_def] compiled_triple_def [abs_def]

lemma existing_saved:
  assumes "existing_revision (plan_of task db) n h reg_hash feedback compiled db = Inr (Some q)"
  obtains r where "saved_revision task n h reg_hash feedback compiled r db" "q = persisted_of r"
proof -
  obtain p r where r: "plan_of task db = Some p" "revision_of (pl_id p) n db = Some r"
    using assms by (auto simp: existing_revision_def Let_def split: option.splits if_splits)
  then have "r \<in> set (pb_revisions db) \<and> rv_plan_id r = pl_id p \<and> rv_revision_number r = n"
    by (auto simp: revision_of_def dest: find_SomeD)
  then show thesis using assms r that [of r]
    by (auto simp: existing_revision_def saved_revision_def triple_defs split: if_splits)
qed

lemma body_saved:
  assumes inv: "plan_inv db" and ex: "existing_revision (plan_of task db) n (hash plan) reg_hash feedback compiled db = Inr None"
    and body: "persist_body hash ids task plan compiled reg_hash feedback db = (Inr q, db')"
  obtains r where "saved_revision task n (hash plan) reg_hash feedback compiled r db'" "q = persisted_of r"
proof -
  obtain pid rid bid where ids: "ids = (pid, rid, bid)" by (cases ids) auto
  have n: "n = (case plan_of task db of None \<Rightarrow> 1 | Some p \<Rightarrow> pl_current_revision p + 1)"
    using ex by (auto simp: existing_revision_def Let_def split: option.splits if_splits)
  from body[unfolded ids] show thesis
  proof (rule persist_bodyE)
    fix r rows
    assume a: "rmap (plan_step_row rid plan) compiled = Inr rows" "rid \<notin> rv_id ` set (pb_revisions db)" "q = persisted_of r"
      "pb_revisions db' = pb_revisions db @ [r]" "pb_steps db' = pb_steps db @ rows" "rv_id r = rid"
      "rv_public_payload_hash r = hash plan" "rv_registry_snapshot_hash r = reg_hash" "rv_feedback r = feedback"
      and c: "case plan_of task db of
        None \<Rightarrow> pid \<notin> pl_id ` set (pb_plans db) \<and> rv_plan_id r = pid \<and> rv_revision_number r = 1
          \<and> pb_plans db' = pb_plans db @ [\<lparr>pl_id = pid, pl_task_id = task, pl_current_revision = 1\<rparr>]
      | Some p \<Rightarrow> rv_plan_id r = pl_id p \<and> rv_revision_number r = pl_current_revision p + 1
          \<and> pb_plans db' = sql_update (\<lambda>x. pl_id x = pl_id p) (\<lambda>x. x\<lparr>pl_current_revision := pl_current_revision p + 1\<rparr>) (pb_plans db)"
    have rows: "steps_of (rv_id r) db' = rows"
      using steps_of_fresh [OF inv a(2)] rows_of_revision [OF a(1)] a(5,6) by (simp add: steps_of_def filter_id_conv)
    have triples: "map step_triple rows = map compiled_triple compiled" using rows_triples [OF a(1)] by (simp add: triple_defs)
    have number: "rv_revision_number r = n" using c n by (simp split: option.splits)
    have "\<exists>p. plan_of task db' = Some p \<and> rv_plan_id r = pl_id p"
    proof (cases "plan_of task db")
      case None
      then show ?thesis using c by (simp add: plan_of_def find_append)
    next
      case (Some p)
      then obtain p' where "plan_of task db' = Some p'" "pl_id p' = pl_id p"
        using persist_body_grows [OF inv body] unfolding plan_grows_def by blast
      then show ?thesis using c Some by simp
    qed
    moreover have "mset (map step_triple (steps_of (rv_id r) db')) = mset (map compiled_triple compiled)"
      by (simp only: rows triples)
    ultimately have "saved_revision task n (hash plan) reg_hash feedback compiled r db'"
      using a number by (simp add: saved_revision_def)
    then show thesis using a(3) that by blast
  qed
qed

lemma persist_saved:
  assumes "plan_inv db" "persist hash ids known task plan compiled reg_hash feedback (Some n) db = (Inr q, db')"
  obtains r where "saved_revision task n (hash plan) reg_hash feedback compiled r db'" "q = persisted_of r"
proof (cases "existing_revision (plan_of task db) n (hash plan) reg_hash feedback compiled db")
  case (Inl e)
  then show ?thesis using assms by (auto simp: persist_def transaction_def split: if_splits)
next
  case (Inr found)
  show ?thesis
  proof (cases found)
    case None
    have body: "persist_body hash ids task plan compiled reg_hash feedback db = (Inr q, db')"
      using assms(2) Inr None by (auto simp: persist_def transaction_def split: if_splits sum.splits prod.splits)
    show ?thesis by (rule body_saved [OF assms(1) _ body]) (use Inr None that in auto)
  next
    case (Some q')
    then show ?thesis using assms(2) Inr existing_saved [of task db n "hash plan" reg_hash feedback compiled q] that
      by (auto simp: persist_def transaction_def split: if_splits)
  qed
qed

lemma saved_kept:
  assumes "saved_revision task n h reg_hash feedback compiled r db" "plan_grows db db'"
  shows "saved_revision task n h reg_hash feedback compiled r db'"
  using assms steps_kept [OF assms(2), of "rv_id r"] by (fastforce simp: saved_revision_def plan_grows_def)

lemma saved_found:
  assumes "saved_revision task n h reg_hash feedback compiled r db" "plan_inv db"
  shows "existing_revision (plan_of task db) n h' reg_hash' feedback' compiled' db =
    (if h' \<noteq> h \<or> reg_hash' \<noteq> reg_hash \<or> feedback' \<noteq> feedback
        \<or> mset (map compiled_triple compiled') \<noteq> mset (map compiled_triple compiled)
     then Inl (ValueError ''Plan revision was reused with different input'') else Inr (Some (persisted_of r)))"
proof -
  obtain p where p: "plan_of task db = Some p" "rv_plan_id r = pl_id p" using assms by (auto simp: saved_revision_def)
  have "revision_of (pl_id p) n db = Some r"
    using revision_kept [OF plan_grows_refl _ assms(2), of r] assms(1) p by (simp add: saved_revision_def)
  then show ?thesis using assms(1) p by (auto simp: existing_revision_def saved_revision_def triple_defs)
qed

lemma map_sort_key: "map f (sort_key (g \<circ> f) xs) = sort_key g (map f xs)"
proof (induction xs)
  case (Cons x xs)
  have "map f (insort_key (g \<circ> f) x ys) = insort_key g (f x) (map f ys)" for ys by (induction ys) auto
  then show ?case using Cons by (simp add: comp_def)
qed simp

lemma saved_steps:
  assumes "saved_revision task n h reg_hash feedback compiled r db" "plan_inv db"
  shows "map step_triple (approved_steps (rv_id r) db) = sort_key fst (map compiled_triple compiled)"
proof -
  let ?xs = "steps_of (rv_id r) db"
  have "distinct (map step_key (pb_steps db))" using assms(2) by (simp add: plan_inv_def)
  then have "inj_on step_key (set (pb_steps db))" by (simp add: distinct_map)
  then have inj: "inj_on fst (set (map step_triple ?xs))"
    by (auto simp: inj_on_def steps_of_def step_key_def step_triple_def)
  have m: "mset (map step_triple ?xs) = mset (sort_key fst (map compiled_triple compiled))"
    using assms(1) by (simp add: saved_revision_def)
  have "sort_key fst (map step_triple ?xs) = sort_key fst (map compiled_triple compiled)"
    using sort_key_inj_key_eq [OF m inj sorted_sort_key] .
  moreover have "st_sequence = fst \<circ> step_triple" by (simp add: fun_eq_iff step_triple_def)
  ultimately show ?thesis unfolding approved_steps_def using map_sort_key [of step_triple fst ?xs] by simp
qed

section \<open>Later states\<close>

lemma persist_reachable:
  assumes "reachable_plans db" "valid_ids ids" "persist hash ids known task plan compiled reg_hash feedback expected db = (res, db')"
  shows "reachable_plans db'"
  using reach_step [OF assms(1) pl_persist [OF assms(2), of db hash known task plan compiled reg_hash feedback expected]] assms(3) by simp

lemma later_saved:
  assumes "reachable_plans db" "valid_ids ids" "persist hash ids known task plan compiled reg_hash feedback (Some n) db = (Inr q, db')"
    and "plan_step_rel\<^sup>*\<^sup>* db' db''"
  obtains r where "saved_revision task n (hash plan) reg_hash feedback compiled r db''" "q = persisted_of r" "plan_inv db''"
proof -
  have r': "reachable_plans db'" by (rule persist_reachable [OF assms(1-3)])
  have inv: "plan_inv db''" by (rule plans.reachable_inv) (rule reachable_rtranclp [OF assms(4) r'])
  have grows: "plan_grows db' db''" by (rule plans.reachable_grows [OF r' assms(4)])
  from plans.reachable_inv [OF assms(1)] assms(3) show thesis
  proof (rule persist_saved)
    fix r assume "saved_revision task n (hash plan) reg_hash feedback compiled r db'" "q = persisted_of r"
    then show thesis using that [of r] saved_kept [OF _ grows] inv by simp
  qed
qed

text \<open>
  What is read for an execution is what was compiled: the steps of a persisted revision, at any later time, are the
  compiled steps of the call, with their digests and paths, in the order of their sequence numbers.
\<close>

lemma approved_steps_compiled:
  assumes "reachable_plans db" "valid_ids ids" "persist hash ids known task plan compiled reg_hash feedback (Some n) db = (Inr q, db')"
    and "plan_step_rel\<^sup>*\<^sup>* db' db''"
  shows "map step_triple (approved_steps (pp_plan_revision_id q) db'') = sort_key fst (map compiled_triple compiled)"
proof -
  obtain r where "saved_revision task n (hash plan) reg_hash feedback compiled r db''" "q = persisted_of r" "plan_inv db''"
    using later_saved [OF assms] by blast
  then show ?thesis using saved_steps [of task n "hash plan" reg_hash feedback compiled r db''] by (simp add: persisted_of_def)
qed

section \<open>A stored plan\<close>

definition demo_cell_step :: plan_step where
  "demo_cell_step = \<lparr>ps_sequence = 0, ps_title = ''t'', ps_purpose = ''p'', ps_planning_kind = Pk_CUSTOM_CODE, ps_skill = None, ps_tool = None,
     ps_parameters = [], ps_selection_rationale = ''r'', ps_expected_outputs = [], ps_validation_criteria = [],
     ps_timeout_seconds = 300, ps_custom_code = Some ''c''\<rparr>"

definition demo_cells :: plan_draft where
  "demo_cells = \<lparr>pd_objective = ''o'', pd_strategy_summary = ''s'', pd_execution_mode = Em_MULTI, pd_runtime_profile = ''basic'',
     pd_steps = [demo_cell_step, demo_cell_step\<lparr>ps_sequence := 1\<rparr>], pd_assumptions = [], pd_expected_artifacts = []\<rparr>"

definition demo_cell :: "int \<Rightarrow> string \<Rightarrow> compiled_step" where
  "demo_cell n h = \<lparr>cp_sequence = n, cp_source = h, cp_source_sha256 = h, cp_skill_name = None, cp_tool_name = None, cp_parameters = []\<rparr>"

definition demo_hash :: string where
  "demo_hash = replicate 64 (CHR ''a'')"

definition demo_compiled :: "(compiled_step \<times> string) list" where
  "demo_compiled = [(demo_cell 1 ''b'', ''b.py''), (demo_cell 0 ''a'', ''a.py'')]"

definition demo_stored :: "persisted_plan result \<times> plan_db" where
  "demo_stored = persist (\<lambda>_. demo_hash) (1, 5, 3) True 5 demo_cells demo_compiled ''r'' None (Some 1) empty_plan_db"

definition demo_saved_plan :: persisted_plan where
  "demo_saved_plan = \<lparr>pp_plan_id = 1, pp_plan_revision_id = 5, pp_plan_revision_number = 1, pp_public_payload_hash = demo_hash, pp_compiled_bundle_id = 3\<rparr>"

lemmas demo_stored_defs = demo_compiled_def demo_cell_def demo_cells_def demo_cell_step_def demo_saved_plan_def

lemma demo_stored_ok: "fst demo_stored = Inr demo_saved_plan"
  by (simp add: demo_stored_def persist_def persist_body_def transaction_def existing_revision_def plan_of_def empty_plan_db_def
      plan_step_row_def py_index_def persisted_of_def Let_def exn_simps demo_stored_defs)

lemma demo_stored_eq:
  "persist (\<lambda>_. demo_hash) (1, 5, 3) True 5 demo_cells demo_compiled ''r'' None (Some 1) empty_plan_db = (Inr demo_saved_plan, snd demo_stored)"
  using demo_stored_ok unfolding demo_stored_def by (metis prod.collapse)

lemma empty_plans_reachable: "reachable_plans empty_plan_db" "valid_ids (1, 5, 3)"
  by (rule reach_init, rule refl) (simp add: valid_ids_def valid_uuid_def)

section \<open>Properties\<close>

text \<open>
  C30: a revision that was persisted is found again. Once a call of \<open>persist\<close> with an expected number has returned, the
  same call, with whatever fresh identifiers, returns the same identifiers in every later state of the database and
  writes nothing; a call for the same number with another plan, registry, feedback or set of compiled steps is refused.
\<close>

theorem persist_idempotent:
  assumes "reachable_plans db" "valid_ids ids" "persist hash ids known task plan compiled reg_hash feedback (Some n) db = (Inr q, db')"
    and "plan_step_rel\<^sup>*\<^sup>* db' db''"
  shows "persist hash ids' True task plan' compiled' reg_hash' feedback' (Some n) db'' =
    (if hash plan' \<noteq> hash plan \<or> reg_hash' \<noteq> reg_hash \<or> feedback' \<noteq> feedback
        \<or> mset (map compiled_triple compiled') \<noteq> mset (map compiled_triple compiled)
     then Inl (ValueError ''Plan revision was reused with different input'') else Inr q, db'')"
proof -
  obtain r where r: "saved_revision task n (hash plan) reg_hash feedback compiled r db''" "q = persisted_of r" "plan_inv db''"
    using later_saved [OF assms] by blast
  from saved_found [OF r(1,3)] r(2) show ?thesis by (simp add: persist_def transaction_def)
qed

theorem persist_idempotent_witness:
  "persist (\<lambda>_. demo_hash) (7, 8, 9) True 5 demo_cells (rev demo_compiled) ''r'' None (Some 1) (snd demo_stored) = (Inr demo_saved_plan, snd demo_stored)
    \<and> persist (\<lambda>_. demo_hash) (7, 8, 9) True 5 demo_cells [] ''r'' None (Some 1) (snd demo_stored)
      = (Inl (ValueError ''Plan revision was reused with different input''), snd demo_stored)"
  by (simp add: persist_idempotent [OF empty_plans_reachable(1,2) demo_stored_eq rtranclp.rtrancl_refl])
    (simp add: demo_compiled_def add.commute)

end
