(* ===== verification/Effect_Requests_Props.thy ===== *)
theory Effect_Requests_Props
  imports Effect_Requests Plan_Store_Props Business_Graph_Props Agent_Props
begin

text \<open>
  What the executor is asked to run. The request that a submission puts into the journal holds the compiled steps of
  the revision that was approved, with sources of their digests, and an appended operation moves the binding
  of the task by one step, however often the call is repeated.
\<close>

section \<open>The request of a submission\<close>

definition request_steps :: "json \<Rightarrow> json list" where
  "request_steps j = (case jget0 (jget0 (jget0 (jget0 j ''body'') ''operation'') ''spec'') ''steps'' of JArr xs \<Rightarrow> xs | _ \<Rightarrow> [])"

text \<open>The sequence number, digest and path of a step on the wire.\<close>

definition wire_triple :: "json \<Rightarrow> json \<times> json \<times> json" where
  "wire_triple s = (jget0 s ''sequence'', jget0 (step_source s) ''sha256'', jget0 (step_source s) ''path'')"

definition as_wire :: "int \<times> string \<times> string \<Rightarrow> json \<times> json \<times> json" where
  "as_wire t = (case t of (n, h, p) \<Rightarrow> (JInt n, JStr h, JStr p))"

lemma wire_executor_step: "wire_triple (executor_step r) = as_wire (step_triple r)"
  by (simp add: wire_triple_def executor_step_def executor_step_payload_def step_source_def as_wire_def step_triple_def jget0_def)

lemma step_pair_executor: "step_pair (executor_step r) = Inr (st_compiled_source_path r, st_compiled_source_sha256 r)"
  by (simp add: step_pair_def executor_step_def executor_step_payload_def member_def text_member_def exn_simps)

lemma captured_file:
  assumes "capture_file tc fs src = Inr i"
  shows "(ii_path i, ii_sha256 i) = src \<and> tl_sha256 tc (ii_content i) = ii_sha256 i"
proof -
  obtain p h where src: "src = (p, h)" by fastforce
  obtain q c where "resolve_path (tl_root tc) p = Inr q" "map_of fs q = Some c"
    using assms src by (auto simp: capture_file_def exn_simps split: option.splits)
  then show ?thesis using assms src by (auto simp: capture_file_def exn_simps split: if_splits)
qed

lemma captured:
  "capture_files tc fs srcs = Inr items \<Longrightarrow>
     map (\<lambda>i. (ii_path i, ii_sha256 i)) items = srcs \<and> (\<forall>i \<in> set items. tl_sha256 tc (ii_content i) = ii_sha256 i)"
  unfolding capture_files_def by (induction srcs arbitrary: items) (auto simp: exn_simps dest: captured_file)

lemma submit_request_holds:
  assumes "submit_request env w key mode rows fs = Inr req"
  obtains items where "request_steps req = map executor_step rows" "jget req ''files'' = Some (JArr (map item_json items))"
    "map (\<lambda>i. (ii_sha256 i, ii_path i)) items = map (snd \<circ> step_triple) rows"
    "\<forall>i \<in> set items. tl_sha256 (ee_toolchain env) (ii_content i) = ii_sha256 i"
proof -
  have pairs: "rmap step_pair (map executor_step rows) = Inr (map (\<lambda>r. (st_compiled_source_path r, st_compiled_source_sha256 r)) rows)"
    by (induction rows) (simp_all add: step_pair_executor exn_simps)
  obtain body items where b: "submit_payload key mode (ee_wait_timeout env) (wf_turn w) (wg_selected_workflow_version_id w) (map executor_step rows) = Inr body"
    and c: "capture_files (ee_toolchain env) fs (map (\<lambda>r. (st_compiled_source_path r, st_compiled_source_sha256 r)) rows) = Inr items"
    and req: "req = JObj [(''kind'', JStr ''submit''), (''path'', JStr ''/executions''), (''body'', body),
        (''files'', JArr (map item_json items)), (''next_step_sequence'', JInt (int (length rows)))]"
    using assms pairs by (auto simp: submit_request_def files_of_def Let_def exn_simps)
  have "map prod.swap (map (\<lambda>i. (ii_path i, ii_sha256 i)) items)
    = map prod.swap (map (\<lambda>r. (st_compiled_source_path r, st_compiled_source_sha256 r)) rows)" by (simp only: conjunct1 [OF captured [OF c]])
  then have items: "map (\<lambda>i. (ii_sha256 i, ii_path i)) items = map (snd \<circ> step_triple) rows" by (simp add: step_triple_def comp_def)
  show thesis
  proof (rule that [of items])
    show "request_steps req = map executor_step rows"
      using b req by (auto simp: submit_payload_def request_steps_def steps_spec_def jget0_def exn_simps)
  qed (use req captured [OF c] items in simp_all)
qed

lemma submit_prepare_cases:
  assumes "wg_plan_revision_id w = Some revision" "parse_id revision = Inr rid" "wg_execution_mode w = Some mode"
  shows "submit_prepare env w key (db, pdb, fs, x)
    = (if submit_rows mode rid pdb = [] then Inl (ValueError ''Execution requires approved Steps'')
       else submit_request env w key mode (submit_rows mode rid pdb) fs, db, pdb, fs, x)"
  using assms by (simp add: submit_prepare_def sbind_def spure_def need_field_def Let_def)

section \<open>What a run of the journal stores\<close>

lemma complete_request:
  assumes "effect_of key (snd (effect_complete digest key' response db)) = Some r"
  obtains r0 where "effect_of key db = Some r0" "ef_request r0 = ef_request r"
  using assms
  by (auto simp: effect_complete_def transaction_def effect_of_def find_sql_update effect_record_def
      split: option.splits if_splits sum.splits)

lemma prepare_request:
  assumes "effect_of key db = None" "effect_of key (snd (effect_prepare digest key task kind sha req db)) = Some r"
  shows "ef_request r = req"
  using assms
  by (auto simp: effect_prepare_def transaction_def effect_of_def find_append new_effect_def Let_def effect_record_def
      split: option.splits if_splits sum.splits prod.splits)

text \<open>A request that a run put into the journal was made by \<open>prepare\<close>.\<close>

lemma journal_stores_prepared:
  assumes "journal_run digest pf cf task key kind inputs prepare send (db, w) = (res, db1, w1)"
    and none: "effect_of key db = None" and prep: "\<And>req d w'. prepare (db, w) = (req, d, w') \<Longrightarrow> d = db"
    and some: "effect_of key db1 = Some r"
  obtains w' where "prepare (db, w) = (Inr (ef_request r), db, w')"
proof -
  obtain pres d w0 where p: "prepare (db, w) = (pres, d, w0)" by (cases "prepare (db, w)") auto
  have d: "d = db" using prep p by blast
  have get: "on_db (\<lambda>db. (effect_get digest key db, db)) (db, w) = (Inr None, db, w)" using none by (simp add: on_db_def effect_get_def)
  show thesis
  proof (cases pres)
    case (Inl e)
    then have "db1 = db" using assms(1) p d get by (simp add: journal_run_split sbind_def)
    then show thesis using none some by simp
  next
    case (Inr req)
    obtain r2 d2 where w: "with_fault pf (effect_prepare digest key task kind (digest inputs) req) db = (r2, d2)" by fastforce
    have stored: "ef_request r' = req" if "effect_of key d2 = Some r'" for r'
      using with_fault_cases(1) [OF w] that none prepare_request [OF none] by auto
    have rest: "(case r2 of Inl e \<Rightarrow> (Inl e, d2, w0) | Inr r0 \<Rightarrow> journal_send digest cf task key kind inputs send r0 (d2, w0)) = (res, db1, w1)"
      using assms(1) p d get Inr w by (simp add: journal_run_split sbind_def on_db_def split: sum.splits)
    have "ef_request r = req"
    proof (cases r2)
      case (Inl e)
      then show ?thesis using rest some stored by simp
    next
      case (Inr r0)
      then have send: "journal_send digest cf task key kind inputs send r0 (d2, w0) = (res, db1, w1)" using rest by simp
      show ?thesis
      proof (cases "db1 = d2")
        case True
        then show ?thesis using some stored by simp
      next
        case False
        then obtain response res' where "with_fault cf (effect_complete digest key response) d2 = (res', db1)"
          using send by (auto simp: journal_send_def sbind_eq spure_def on_graph_eq on_db_eq split: option.splits)
        from with_fault_cases(1) [OF this] False have "db1 = snd (effect_complete digest key response d2)" by simp
        then have "effect_of key (snd (effect_complete digest key response d2)) = Some r" using some by simp
        then obtain r1 where "effect_of key d2 = Some r1" "ef_request r1 = ef_request r" by (rule complete_request)
        then show ?thesis using stored by simp
      qed
    qed
    then show thesis using that p d Inr by simp
  qed
qed

lemma binding_keeps_effects: "db_effects (snd (effect_binding now task exec version operation nxt create db)) = db_effects db"
  by (auto simp: effect_binding_def transaction_def create_binding_def advance_binding_def update_binding_def update_task_def
      split: option.splits sum.splits if_splits)

lemma bind_effect_db:
  assumes "bind_effect env task exec version operation nxt create (db, x) = (res, db', x')"
  shows "x' = x \<and> db_effects db' = db_effects db"
proof -
  obtain d where "with_fault (ee_binding_fault env) (effect_binding (ee_now env) task exec version operation nxt create) db = (res, d)" "db' = d" "x' = x"
    using assms by (auto simp: bind_effect_def on_db_eq)
  then show ?thesis using with_fault_cases(1) binding_keeps_effects by metis
qed

section \<open>Submissions\<close>

text \<open>A fresh entry of the journal under the key of a submission is the request of the approved steps.\<close>

lemma submit_stores:
  assumes w: "wg_plan_revision_id w = Some revision" "parse_id revision = Inr rid" "wg_execution_mode w = Some mode"
      "wg_plan_revision_number w = Some n"
    and none: "effect_of (submit_key w n) db = None"
    and run: "durable_submit env w (db, pdb, fs, x) = (res, db', W)"
    and some: "effect_of (submit_key w n) db' = Some r"
  shows "submit_request env w (submit_key w n) mode (submit_rows mode rid pdb) fs = Inr (ef_request r)"
proof -
  let ?prepare = "submit_prepare env w (submit_key w n)"
  have same: "db' \<noteq> db" using none some by auto
  obtain p task where pt: "wg_plan w = Some p" "validate_plan_execution_mode w p = Inr ()" "task_id_of w = Inr task"
    using run same w(4) by (cases "wg_plan w"; cases "task_id_of w")
      (auto simp: durable_submit_def sbind_def spure_def need_field_def split: sum.splits)
  obtain jres db1 W1 where j: "effect_run env task (submit_key w n) ''submit'' (submit_inputs w p) ?prepare (db, pdb, fs, x) = (jres, db1, W1)"
    by (metis prod_cases3)
  have "db_effects db' = db_effects db1"
    using run j pt w(4) by (auto simp: durable_submit_def sbind_def spure_def need_field_def dest!: bind_effect_db split: sum.splits prod.splits)
  then have some1: "effect_of (submit_key w n) db1 = Some r" using some by (simp add: effect_of_def)
  have prep: "d = db" if "?prepare (db, pdb, fs, x) = (q, d, w')" for q d w'
    using that by (simp add: submit_prepare_cases [OF w(1-3)])
  from j[unfolded effect_run_def] none prep some1 obtain w' where "?prepare (db, pdb, fs, x) = (Inr (ef_request r), db, w')"
    by (rule journal_stores_prepared)
  then show ?thesis using submit_prepare_cases [OF w(1-3), of env "submit_key w n"] by (auto split: if_splits)
qed

text \<open>
  C8: the executor is asked to run what was approved. When a submission puts a request into the journal, whatever
  happens to the call afterwards, its steps are the compiled steps of the persisted revision in their order, only
  the first one in the mode \<open>MULTI\<close>, and the files it carries are sources with the digests of these steps.
\<close>

theorem submitted_as_approved:
  assumes "reachable_plans pdb0" "valid_ids ids" "persist hash ids known task plan compiled reg_hash feedback (Some m) pdb0 = (Inr q, pdb1)"
    and "plan_step_rel\<^sup>*\<^sup>* pdb1 pdb"
    and w: "wg_plan_revision_id w = Some revision" "parse_id revision = Inr (pp_plan_revision_id q)" "wg_execution_mode w = Some mode"
      "wg_plan_revision_number w = Some n"
    and "effect_of (submit_key w n) db = None" "durable_submit env w (db, pdb, fs, x) = (res, db', W)"
    and "effect_of (submit_key w n) db' = Some r"
  shows "\<exists>triples items. triples = (if mode = Em_MULTI then take 1 else id) (sort_key fst (map compiled_triple compiled))
      \<and> map wire_triple (request_steps (ef_request r)) = map as_wire triples
      \<and> jget (ef_request r) ''files'' = Some (JArr (map item_json items))
      \<and> map (\<lambda>i. (ii_sha256 i, ii_path i)) items = map snd triples
      \<and> (\<forall>i \<in> set items. tl_sha256 (ee_toolchain env) (ii_content i) = ii_sha256 i)"
proof -
  let ?rows = "submit_rows mode (pp_plan_revision_id q) pdb"
  have rows: "map step_triple ?rows = (if mode = Em_MULTI then take 1 else id) (sort_key fst (map compiled_triple compiled))"
    using approved_steps_compiled [OF assms(1-4)] by (simp add: submit_rows_def take_map [symmetric])
  from submit_stores [OF w assms(9-11)] obtain items where i: "request_steps (ef_request r) = map executor_step ?rows"
      "jget (ef_request r) ''files'' = Some (JArr (map item_json items))" "map (\<lambda>i. (ii_sha256 i, ii_path i)) items = map (snd \<circ> step_triple) ?rows"
      "\<forall>i \<in> set items. tl_sha256 (ee_toolchain env) (ii_content i) = ii_sha256 i"
    by (rule submit_request_holds)
  have "map wire_triple (request_steps (ef_request r)) = map as_wire (map step_triple ?rows)"
    using i(1) by (simp add: wire_executor_step comp_def)
  moreover have "map (\<lambda>i. (ii_sha256 i, ii_path i)) items = map snd (map step_triple ?rows)" using i(3) by simp
  ultimately show ?thesis using i(2,4) rows by (intro exI [of _ "map step_triple ?rows"] exI [of _ items]) simp
qed

text \<open>A submission whose HTTP call times out, of a plan with two cells in the mode \<open>MULTI\<close>.\<close>

definition demo_toolchain :: "(string \<Rightarrow> string) \<Rightarrow> toolchain" where
  "demo_toolchain sha = \<lparr>tl_sha256 = sha, tl_pformat = (\<lambda>_. []), tl_root = [], tl_cell = (\<lambda>_. Inr ([''f''], \<lambda>_. 1))\<rparr>"

definition demo_effect_env :: "(string \<Rightarrow> string) \<Rightarrow> json result \<Rightarrow> nat effect_env" where
  "demo_effect_env sha response = \<lparr>ee_digest = (\<lambda>_. ''d''), ee_prepare_fault = NoFault, ee_complete_fault = NoFault, ee_binding_fault = NoFault,
     ee_now = 0, ee_wait_timeout = 60, ee_toolchain = demo_toolchain sha, ee_registry = [], ee_registry_hash = ''r'', ee_hash = (\<lambda>_. demo_hash),
     ee_ids = (1, 5, 3), ee_post = (\<lambda>_ _ k. (response, Suc k)), ee_artifact = Inr,
     ee_command = (\<lambda>_. Inr \<lparr>cr_execution_id = 5, cr_version = 2, cr_operation_id = Some 6\<rparr>),
     ee_plan_parse = (\<lambda>_. Inr demo_cells), ee_result_parse = (\<lambda>_. no_answer), ee_generate = (\<lambda>_ k. (no_answer, k))\<rparr>"

definition demo_effect_state :: wstate where
  "demo_effect_state = (fresh_wstate demo_graph_turn)\<lparr>wg_plan := Some demo_cells, wg_plan_revision_id := Some (uuid_str 5),
     wg_plan_revision_number := Some 1, wg_execution_mode := Some Em_MULTI\<rparr>"

definition demo_files :: file_store where
  "demo_files = [(''a.py'', ''a''), (''b.py'', ''b'')]"

lemma demo_resolve: "resolve_path [] ''a.py'' = Inr ''a.py''"
  by code_simp

lemma demo_rows: "submit_rows Em_MULTI 5 (snd demo_stored) = [\<lparr>st_plan_revision_id = 5, st_sequence = 0, st_title = ''t'', st_purpose = ''p'',
    st_selection_rationale = ''r'', st_skill_ref = None, st_tool_ref = None, st_parameters = [], st_compiled_source_sha256 = ''a'',
    st_compiled_source_path = ''a.py'', st_timeout_seconds = 300\<rparr>]"
  by (simp add: submit_rows_def approved_steps_def steps_of_def demo_stored_def persist_def persist_body_def transaction_def existing_revision_def
      plan_of_def empty_plan_db_def plan_step_row_def py_index_def Let_def exn_simps demo_stored_defs)

lemma demo_effect_members: "wg_plan_revision_id demo_effect_state = Some (uuid_str 5)" "parse_id (uuid_str 5) = Inr (pp_plan_revision_id demo_saved_plan)"
    "wg_execution_mode demo_effect_state = Some Em_MULTI" "wg_plan_revision_number demo_effect_state = Some 1"
    "wg_plan demo_effect_state = Some demo_cells" "task_id_of demo_effect_state = Inr 5"
  by (simp_all add: demo_effect_state_def parse_id_def demo_task_uuid demo_saved_plan_def task_id_of_def fresh_wstate_def new_workflow_def workflow.defs
      wstate.defs demo_graph_turn_def)

definition demo_item :: input_item where
  "demo_item = \<lparr>ii_path = ''a.py'', ii_sha256 = ''a'', ii_content = ''a''\<rparr>"

lemma demo_request:
  obtains body where "submit_request (demo_effect_env (\<lambda>s. s) response) demo_effect_state key Em_MULTI (submit_rows Em_MULTI 5 (snd demo_stored)) demo_files
    = Inr (JObj [(''kind'', JStr ''submit''), (''path'', JStr ''/executions''), (''body'', body), (''files'', JArr [item_json demo_item]),
        (''next_step_sequence'', JInt 1)])"
  using that by (simp add: demo_rows submit_request_def submit_payload_def files_of_def executor_step_def executor_step_payload_def step_pair_def
      step_source_def text_member_def member_def capture_files_def capture_file_def demo_effect_env_def demo_toolchain_def demo_resolve demo_files_def
      jget0_def exn_simps demo_item_def)

lemma demo_restore: "restore_json (demo_toolchain (\<lambda>s. s)) (JArr [item_json demo_item]) demo_files = (Inr (), demo_files)"
proof -
  have "safe_path ''a.py'' = Inr ''a.py''" by code_simp
  then show ?thesis by (simp add: restore_json_def item_parse_def item_json_def text_member_def member_def demo_item_def materialize_input_file_def
      demo_toolchain_def demo_files_def exn_simps)
qed

lemma demo_submission:
  obtains db' r where "durable_submit (demo_effect_env (\<lambda>s. s) (Inl TimeoutError)) demo_effect_state (demo_accepted, snd demo_stored, demo_files, 0)
      = (Inl TimeoutError, db', snd demo_stored, demo_files, 1)" "effect_of (submit_key demo_effect_state 1) db' = Some r"
proof -
  let ?env = "demo_effect_env (\<lambda>s. s) (Inl TimeoutError)" and ?key = "submit_key demo_effect_state 1"
  let ?s = "(demo_accepted, snd demo_stored, demo_files, 0)"
  obtain body where req: "submit_request ?env demo_effect_state ?key Em_MULTI (submit_rows Em_MULTI 5 (snd demo_stored)) demo_files
    = Inr (JObj [(''kind'', JStr ''submit''), (''path'', JStr ''/executions''), (''body'', body), (''files'', JArr [item_json demo_item]),
        (''next_step_sequence'', JInt 1)])" (is "_ = Inr ?req") by (rule demo_request)
  have prep: "submit_prepare ?env demo_effect_state ?key ?s = (Inr ?req, ?s)"
    using req demo_rows demo_effect_members by (simp add: submit_prepare_cases demo_saved_plan_def)
  have send: "effect_send (effect_sender ?env) ?req (snd ?s) = (Inl TimeoutError, snd demo_stored, demo_files, 1)"
    using demo_restore by (simp add: effect_send_def effect_sender_def demo_effect_env_def sbind_def spure_def member_def exn_simps)
  define r where "r = new_effect (\<lambda>_. ''d'') ?key 5 ''submit'' ''d'' ?req"
  have none: "effect_of ?key demo_accepted = None" "task_of 5 demo_accepted \<noteq> None"
    by (simp_all add: demo_accepted_eq effect_of_def task_of_def new_task_def)
  have stored: "effect_prepare (\<lambda>_. ''d'') ?key 5 ''submit'' ''d'' ?req demo_accepted
      = (Inr r, demo_accepted\<lparr>db_effects := db_effects demo_accepted @ [r]\<rparr>)" (is "_ = (_, ?db)")
    using none by (simp add: effect_prepare_def transaction_def effect_record_def validate_identity_def new_effect_def r_def Let_def exn_simps)
  have run: "effect_run ?env 5 ?key ''submit'' inputs (submit_prepare ?env demo_effect_state ?key) ?s
      = (Inl TimeoutError, ?db, snd demo_stored, demo_files, 1)" for inputs
    using prep send stored none
    by (simp add: effect_run_def journal_run_split journal_send_def sbind_def spure_def on_db_def on_graph_def effect_get_def demo_effect_env_def
        validate_identity_def new_effect_def r_def)
  show thesis
  proof (rule that)
    show "durable_submit ?env demo_effect_state ?s = (Inl TimeoutError, ?db, snd demo_stored, demo_files, 1)"
      using run demo_effect_members by (simp add: durable_submit_def sbind_def spure_def need_field_def validate_plan_execution_mode_def demo_cells_def)
    show "effect_of ?key ?db = Some r" using none by (simp add: effect_of_def find_append r_def new_effect_def)
  qed
qed

theorem submitted_as_approved_witness:
  "\<exists>db' r. durable_submit (demo_effect_env (\<lambda>s. s) (Inl TimeoutError)) demo_effect_state (demo_accepted, snd demo_stored, demo_files, 0)
      = (Inl TimeoutError, db', snd demo_stored, demo_files, 1)
    \<and> effect_of (submit_key demo_effect_state 1) db' = Some r
    \<and> map wire_triple (request_steps (ef_request r)) = [(JInt 0, JStr ''a'', JStr ''a.py'')]"
proof -
  obtain db' r where run: "durable_submit (demo_effect_env (\<lambda>s. s) (Inl TimeoutError)) demo_effect_state (demo_accepted, snd demo_stored, demo_files, 0)
      = (Inl TimeoutError, db', snd demo_stored, demo_files, 1)" and r: "effect_of (submit_key demo_effect_state 1) db' = Some r" by (rule demo_submission)
  have none: "effect_of (submit_key demo_effect_state 1) demo_accepted = None" by (simp add: demo_accepted_eq effect_of_def)
  from submitted_as_approved [OF empty_plans_reachable(1,2) demo_stored_eq rtranclp.rtrancl_refl demo_effect_members(1-4) none run r]
  have "map wire_triple (request_steps (ef_request r)) = [(JInt 0, JStr ''a'', JStr ''a.py'')]"
    by (auto simp: compiled_triple_def as_wire_def demo_stored_defs)
  with run r show ?thesis by (intro exI conjI)
qed

section \<open>Appended operations\<close>

lemma append_prepare_db: "append_prepare env w key exec operation p task (db, W) = (res, d, W') \<Longrightarrow> d = db"
  by (cases W) (auto simp: append_prepare_def plans_persist_def binding_for_task_def sbind_eq Let_def
      split: prod.splits option.splits if_splits list.splits)

lemma append_prepare_next:
  assumes "append_prepare env w key exec operation p task (db, W) = (Inr req, d, W')" "binding_of task db = Some b"
  shows "number_member req ''next_step_sequence'' = Inr (eb_next_step_sequence b + 1)"
  using assms by (cases W) (auto simp: append_prepare_def plans_persist_def binding_for_task_def sbind_eq Let_def append_request_def
      number_member_def member_def exn_simps split: prod.splits option.splits if_splits list.splits)

lemma prepare_tables: "db_bindings (snd (effect_prepare digest key task kind sha req db)) = db_bindings db"
  "db_tasks (snd (effect_prepare digest key task kind sha req db)) = db_tasks db"
  by (auto simp: effect_prepare_def transaction_def Let_def split: sum.splits prod.splits if_splits option.splits)

lemma complete_tables: "db_bindings (snd (effect_complete digest key response db)) = db_bindings db"
  "db_tasks (snd (effect_complete digest key response db)) = db_tasks db"
  by (auto simp: effect_complete_def transaction_def split: sum.splits prod.splits if_splits option.splits)

definition same_work :: "agent_db \<Rightarrow> agent_db \<Rightarrow> bool" where
  "same_work db db' = (db_bindings db' = db_bindings db \<and> db_tasks db' = db_tasks db)"

lemma faulty_work: "with_fault f m db = (res, db') \<Longrightarrow> same_work db (snd (m db)) \<Longrightarrow> same_work db db'"
  by (cases f) (auto simp: same_work_def)

lemma journal_send_work: "journal_send digest cf task key kind inputs send r (db, W) = (res, db', W') \<Longrightarrow> same_work db db'"
  by (auto simp: journal_send_def sbind_eq spure_def on_graph_eq on_db_eq same_work_def complete_tables
      dest!: faulty_work split: option.splits)

text \<open>A run of the journal writes to the table of effects only.\<close>

lemma journal_work:
  assumes "journal_run digest pf cf task key kind inputs prepare send (db, W) = (res, db', W')"
    and prep: "\<And>req d w'. prepare (db, W) = (req, d, w') \<Longrightarrow> d = db"
  shows "same_work db db'"
proof (cases "effect_get digest key db")
  case (Inl e)
  then show ?thesis using assms(1) by (auto simp: journal_run_split sbind_def on_db_def same_work_def)
next
  case (Inr found)
  show ?thesis
  proof (cases found)
    case (Some r)
    then show ?thesis using assms(1) Inr journal_send_work by (auto simp: journal_run_split sbind_def on_db_def spure_def)
  next
    case None
    obtain q d w0 where p: "prepare (db, W) = (q, d, w0)" by (cases "prepare (db, W)") auto
    then have d: "d = db" using prep by blast
    show ?thesis
    proof (cases q)
      case (Inl e)
      then show ?thesis using assms(1) \<open>effect_get digest key db = Inr found\<close> None p d
        by (auto simp: journal_run_split sbind_def on_db_def same_work_def)
    next
      case (Inr req)
      obtain r2 d2 where f: "with_fault pf (effect_prepare digest key task kind (digest inputs) req) db = (r2, d2)" by fastforce
      have d2: "same_work db d2" by (rule faulty_work [OF f]) (simp add: same_work_def prepare_tables)
      have "(case r2 of Inl e \<Rightarrow> (Inl e, d2, w0) | Inr r0 \<Rightarrow> journal_send digest cf task key kind inputs send r0 (d2, w0)) = (res, db', W')"
        using assms(1) \<open>effect_get digest key db = Inr found\<close> None p d Inr f by (simp add: journal_run_split sbind_def on_db_def split: sum.splits)
      then show ?thesis using d2 journal_send_work [of digest cf task key kind inputs send _ d2 w0 res db' W']
        by (auto simp: same_work_def split: sum.splits)
    qed
  qed
qed

lemma journal_replay:
  assumes "effect_of key db = Some r" "effect_valid digest task kind (digest inputs) r" "ef_response r \<noteq> None"
  shows "journal_run digest pf cf task key kind inputs prepare send (db, W) = (Inr r, db, W)"
  using assms by (auto simp: journal_run_def sbind_def on_db_def spure_def effect_get_def effect_valid_def Let_def split: option.split)

lemma update_binding_same:
  assumes "db' = update_binding task (\<lambda>_. b) db" "eb_task_id b = task"
  shows "update_binding task (\<lambda>_. b) db' = db'"
  using assms by (simp add: update_binding_def sql_update_def comp_def)

text \<open>The effect of the binding write, and that of repeating it.\<close>

lemma advance_once:
  assumes "bind_effect env task exec version (Some op) (Some (eb_next_step_sequence b + 1)) False (db, W) = (Inr (), db', W')"
    and "binding_of task db = Some b"
  defines "b' \<equiv> b\<lparr>eb_next_step_sequence := eb_next_step_sequence b + 1, eb_operation_id := op, eb_execution_version := max (eb_execution_version b) version\<rparr>"
  shows "binding_of task db' = Some b'" "W' = W"
    and "ee_binding_fault env' = NoFault \<Longrightarrow>
      bind_effect env' task exec version (Some op) (Some (eb_next_step_sequence b + 1)) False (db', W2) = (Inr (), db', W2)"
proof -
  have "with_fault (ee_binding_fault env) (effect_binding (ee_now env) task exec version (Some op) (Some (eb_next_step_sequence b + 1)) False) db
      = (Inr (), db')" and W: "W' = W"
    using assms(1) by (auto simp: bind_effect_def on_db_eq)
  from with_fault_cases(2) [OF this(1) refl]
  have e: "effect_binding (ee_now env) task exec version (Some op) (Some (eb_next_step_sequence b + 1)) False db = (Inr (), db')" .
  show "W' = W" by (rule W)
  have exec: "eb_execution_id b = exec" and task: "task_of task db \<noteq> None" and db': "db' = update_binding task (\<lambda>_. b') db"
    using e assms(2) by (auto simp: effect_binding_def transaction_def advance_binding_def b'_def split: option.splits if_splits)
  have tid: "eb_task_id b' = task" using assms(2) by (auto simp: binding_of_def b'_def dest: find_SomeD)
  have "find (\<lambda>x. eb_task_id x = task) (sql_update (\<lambda>x. eb_task_id x = task) (\<lambda>_. b') bs) = map_option (\<lambda>_. b') (find (\<lambda>x. eb_task_id x = task) bs)" for bs
    using tid by (induction bs) (auto simp: sql_update_def)
  then show b': "binding_of task db' = Some b'" using assms(2) db' by (simp add: binding_of_def update_binding_def)
  have task': "task_of task db' \<noteq> None" using task db' by (simp add: task_of_def update_binding_def)
  have "b'\<lparr>eb_execution_version := max (eb_execution_version b') version\<rparr> = b'" by (simp add: b'_def)
  then have "effect_binding now task exec version (Some op) (Some (eb_next_step_sequence b + 1)) False db' = (Inr (), db')" for now
    using b' task' exec update_binding_same [OF db' tid]
    by (auto simp: effect_binding_def transaction_def advance_binding_def b'_def)
  then show "ee_binding_fault env' = NoFault \<Longrightarrow>
      bind_effect env' task exec version (Some op) (Some (eb_next_step_sequence b + 1)) False (db', W2) = (Inr (), db', W2)"
    by (simp add: bind_effect_def on_db_def)
qed

lemma durable_appendE:
  assumes "durable_append env w d s = (Inr receipt, s')" "wg_current_operation_id w = Some operation" "task_id_of w = Inr task"
  obtains p0 p exec revision rec s1 rc nxt q p' where "wg_execution_mode w = Some Em_MULTI" "wg_plan w = Some p0" "append_plan p0 = Inr p"
    "wf_execution_id w = Some exec" "wg_plan_revision_id w = Some revision"
    "effect_run env task (append_key w operation) ''append'' (append_inputs exec operation revision p d)
       (append_prepare env w (append_key w operation) exec operation p task) s = (Inr rec, s1)"
    "receipt_parse (ef_response rec) = Inr rc" "number_member (ef_request rec) ''next_step_sequence'' = Inr nxt"
    "bind_effect env task (sr_execution_id rc) (sr_execution_version rc) (Some (sr_operation_id rc)) (Some nxt) False s1 = (Inr (), s')"
    "rbind (member (ef_request rec) ''persisted_plan'') persisted_parse = Inr q" "rbind (member (ef_request rec) ''plan'') (ee_plan_parse env) = Inr p'"
    "receipt = rc\<lparr>sr_persisted_plan := Some q, sr_plan := Some p'\<rparr>"
proof -
  have mode: "wg_execution_mode w = Some Em_MULTI"
    using assms by (cases "wg_execution_mode w") (auto simp: durable_append_def sbind_eq spure_def need_field_def split: if_splits)
  obtain p0 p where p: "wg_plan w = Some p0" "append_plan p0 = Inr p"
    using assms mode by (cases "wg_plan w") (auto simp: durable_append_def sbind_eq spure_def need_field_def)
  obtain exec revision where e: "wf_execution_id w = Some exec" "wg_plan_revision_id w = Some revision"
    using assms mode p by (cases "wf_execution_id w"; cases "wg_plan_revision_id w") (auto simp: durable_append_def sbind_eq spure_def need_field_def)
  show thesis
    using assms mode p e that by (auto simp: durable_append_def sbind_eq spure_def need_field_def)
qed

text \<open>
  C29: an operation is appended once. When the first call of \<open>append\<close> for an operation returns, the binding of the task has
  moved to the new operation and by exactly one step, and the same call in the state it left, also after the
  process was restarted, returns the same receipt, sends nothing and changes nothing.
\<close>

theorem appended_once:
  assumes "wg_current_operation_id w = Some operation" "task_id_of w = Inr task"
    and none: "effect_of (append_key w operation) db = None" and b: "binding_of task db = Some b"
    and run: "durable_append env w d (db, W) = (Inr receipt, db', W')"
    and env': "ee_digest env' = ee_digest env" "ee_plan_parse env' = ee_plan_parse env" "ee_binding_fault env' = NoFault"
  shows "binding_of task db' = Some (b\<lparr>eb_next_step_sequence := eb_next_step_sequence b + 1,
      eb_operation_id := sr_operation_id receipt, eb_execution_version := max (eb_execution_version b) (sr_execution_version receipt)\<rparr>)
    \<and> durable_append env' w d (db', W2) = (Inr receipt, db', W2)"
  using run assms(1,2)
proof (rule durable_appendE)
  fix p0 p exec revision rec s1 rc nxt q p'
  let ?prepare = "append_prepare env w (append_key w operation) exec operation p task"
  let ?inputs = "append_inputs exec operation revision p d"
  assume w: "wg_execution_mode w = Some Em_MULTI" "wg_plan w = Some p0" "append_plan p0 = Inr p" "wf_execution_id w = Some exec" "wg_plan_revision_id w = Some revision"
    and r: "effect_run env task (append_key w operation) ''append'' ?inputs ?prepare (db, W) = (Inr rec, s1)"
    and rest: "receipt_parse (ef_response rec) = Inr rc" "number_member (ef_request rec) ''next_step_sequence'' = Inr nxt"
    and bind: "bind_effect env task (sr_execution_id rc) (sr_execution_version rc) (Some (sr_operation_id rc)) (Some nxt) False s1 = (Inr (), db', W')"
    and parsed: "rbind (member (ef_request rec) ''persisted_plan'') persisted_parse = Inr q" "rbind (member (ef_request rec) ''plan'') (ee_plan_parse env) = Inr p'"
    and receipt: "receipt = rc\<lparr>sr_persisted_plan := Some q, sr_plan := Some p'\<rparr>"
  obtain db1 W1 where s1: "s1 = (db1, W1)" by (cases s1) blast
  note j = r[unfolded s1 effect_run_def]
  have same: "d0 = db" if "?prepare (db, W) = (req, d0, w0)" for req d0 w0 using append_prepare_db [OF that] .
  have "(agent_step 0)\<^sup>*\<^sup>* db (fst (snd (?prepare (db, W))))" using same by (cases "?prepare (db, W)") auto
  note stored = journal_run_done [OF j this]
  have work: "same_work db db1" by (rule journal_work [OF j same])
  have b1: "binding_of task db1 = Some b" using b work by (simp add: binding_of_def same_work_def)
  from j none same stored(2) obtain w0 where "?prepare (db, W) = (Inr (ef_request rec), db, w0)" by (rule journal_stores_prepared)
  then have nxt: "nxt = eb_next_step_sequence b + 1" using append_prepare_next [OF _ b] rest(2) by fastforce
  note adv = advance_once [OF bind[unfolded s1 nxt] b1]
  have kept: "effect_of (append_key w operation) db' = Some rec" using stored(2) bind_effect_db [OF bind[unfolded s1]] by (simp add: effect_of_def)
  have "effect_run env' task (append_key w operation) ''append'' ?inputs (append_prepare env' w (append_key w operation) exec operation p task) (db', W2)
      = (Inr rec, db', W2)"
    unfolding effect_run_def env'(1) by (rule journal_replay [OF kept stored(3,4)])
  then have "durable_append env' w d (db', W2) = (Inr receipt, db', W2)"
    using w rest parsed receipt nxt adv(3) [OF env'(3), of W2] assms(1,2) env'(2) by (simp add: durable_append_def sbind_def spure_def need_field_def)
  then show ?thesis using adv(1) receipt by simp
qed

text \<open>An appended cell of a task that is bound to the execution 5 at its first operation.\<close>

definition demo_append_state :: wstate where
  "demo_append_state = (fresh_wstate demo_graph_turn)\<lparr>wf_execution_id := Some (uuid_str 5), wg_plan := Some demo_cells, wg_plan_revision_id := Some (uuid_str 5),
     wg_execution_mode := Some Em_MULTI, wg_current_operation_id := Some (uuid_str 5)\<rparr>"

definition demo_binding :: exec_binding_row where
  "demo_binding = \<lparr>eb_task_id = 5, eb_execution_id = 5, eb_operation_id = 5, eb_execution_version = 1, eb_next_step_sequence = 1, eb_last_event_sequence = 0\<rparr>"

definition demo_bound :: agent_db where
  "demo_bound = demo_accepted\<lparr>db_bindings := [demo_binding]\<rparr>"

definition demo_cell_path :: string where
  "demo_cell_path = uuid_str 5 @ ''/effects/h.py''"

lemma demo_paths: "safe_path demo_cell_path = Inr demo_cell_path" "resolve_path [] demo_cell_path = Inr demo_cell_path" "demo_cell_path \<noteq> []"
proof -
  show "safe_path demo_cell_path = Inr demo_cell_path" by code_simp
  show "resolve_path [] demo_cell_path = Inr demo_cell_path" by code_simp
qed (simp add: demo_cell_path_def)

definition demo_next_plan :: plan_draft where
  "demo_next_plan = demo_cells\<lparr>pd_steps := [demo_cell_step]\<rparr>"

definition demo_next_row :: step_row where
  "demo_next_row = \<lparr>st_plan_revision_id = 5, st_sequence = 0, st_title = ''t'', st_purpose = ''p'', st_selection_rationale = ''r'', st_skill_ref = None,
     st_tool_ref = None, st_parameters = [], st_compiled_source_sha256 = ''h'', st_compiled_source_path = demo_cell_path, st_timeout_seconds = 300\<rparr>"

definition demo_next_db :: plan_db where
  "demo_next_db = \<lparr>pb_plans = [\<lparr>pl_id = 1, pl_task_id = 5, pl_current_revision = 1\<rparr>],
     pb_revisions = [\<lparr>rv_id = 5, rv_plan_id = 1, rv_revision_number = 1, rv_public_payload = demo_next_plan, rv_public_payload_hash = demo_hash,
        rv_compiled_bundle_id = 3, rv_registry_snapshot_hash = ''r'', rv_feedback = None\<rparr>],
     pb_steps = [demo_next_row]\<rparr>"

abbreviation demo_append_env :: "nat effect_env" where
  "demo_append_env \<equiv> demo_effect_env (\<lambda>_. ''h'') (Inr JNull)"

lemma demo_append_members: "wg_plan_revision_id demo_append_state = Some (uuid_str 5)" "wg_execution_mode demo_append_state = Some Em_MULTI"
    "wg_plan demo_append_state = Some demo_cells" "task_id_of demo_append_state = Inr 5" "wg_current_operation_id demo_append_state = Some (uuid_str 5)"
    "wf_execution_id demo_append_state = Some (uuid_str 5)" "wg_revision_feedback demo_append_state = None" "wg_plan_revision_number demo_append_state = None"
    "tt_active_task_id (wf_turn demo_append_state) = uuid_str 5" "append_plan demo_cells = Inr demo_next_plan"
  by (simp_all add: demo_append_state_def demo_task_uuid task_id_of_def fresh_wstate_def new_workflow_def workflow.defs wstate.defs demo_graph_turn_def
      append_plan_def demo_cells_def demo_next_plan_def demo_cell_step_def)

lemma demo_cell_source: "compile_step (demo_toolchain (\<lambda>_. ''h'')) [] demo_cell_step
    = Inr \<lparr>cp_sequence = 0, cp_source = ''c'' @ newline, cp_source_sha256 = ''h'', cp_skill_name = None, cp_tool_name = None, cp_parameters = []\<rparr>"
proof -
  have "py_strip ''c'' = ''c''" by code_simp
  then show ?thesis
    by (simp add: compile_step_def compile_custom_step_def validate_custom_source_def demo_toolchain_def demo_cell_step_def Let_def exn_simps)
qed

lemma demo_next_persisted:
  "plans_persist demo_append_env demo_append_state demo_next_plan (demo_bound, empty_plan_db, [], 0)
    = (Inr demo_saved_plan, demo_bound, demo_next_db, [(demo_cell_path, ''c'' @ newline)], 0)"
proof -
  have files: "durable_compile (demo_toolchain (\<lambda>_. ''h'')) [] demo_append_state demo_next_plan []
      = (Inr [(\<lparr>cp_sequence = 0, cp_source = ''c'' @ newline, cp_source_sha256 = ''h'', cp_skill_name = None, cp_tool_name = None, cp_parameters = []\<rparr>,
          demo_cell_path)], [(demo_cell_path, ''c'' @ newline)])"
    using demo_cell_source demo_append_members(9) demo_paths(1)
    by (simp add: durable_compile_def demo_next_plan_def input_file_def materialize_input_file_def demo_cell_path_def [symmetric] exn_simps Let_def)
      (simp add: demo_toolchain_def demo_cell_path_def)
  have known: "task_of 5 demo_bound \<noteq> None" by (simp add: demo_bound_def demo_accepted_eq task_of_def new_task_def)
  have mode: "validate_plan_execution_mode demo_append_state demo_next_plan = Inr ()"
    by (simp add: validate_plan_execution_mode_def demo_append_members need_field_def demo_next_plan_def demo_cells_def exn_simps)
  show ?thesis
    using files known mode demo_append_members
    by (simp add: plans_persist_def durable_persist_def demo_effect_env_def persist_def persist_body_def transaction_def existing_revision_def
        plan_of_def empty_plan_db_def plan_step_row_def py_index_def persisted_of_def Let_def get_or_def exn_simps demo_next_plan_def demo_cell_step_def
        demo_saved_plan_def demo_next_db_def demo_next_row_def)
qed

definition demo_next_item :: input_item where
  "demo_next_item = \<lparr>ii_path = demo_cell_path, ii_sha256 = ''h'', ii_content = ''c'' @ newline\<rparr>"

lemma demo_next_request:
  obtains body where "append_request demo_append_env key demo_next_plan demo_saved_plan demo_next_row demo_binding [(demo_cell_path, ''c'' @ newline)]
    = Inr (JObj [(''kind'', JStr ''append''), (''execution_id'', JStr (uuid_str 5)), (''path'', JStr (''/executions/'' @ uuid_str 5 @ ''/operations'')),
        (''body'', body), (''files'', JArr [item_json demo_next_item]), (''next_step_sequence'', JInt 2),
        (''persisted_plan'', persisted_json demo_saved_plan), (''plan'', plan_json demo_next_plan)])"
  using that demo_paths(2,3)
  by (simp add: append_request_def append_payload_def files_of_def executor_step_def executor_step_payload_def step_pair_def step_source_def set_sequence_def
      text_member_def member_def capture_files_def capture_file_def demo_effect_env_def demo_toolchain_def demo_next_row_def demo_binding_def
      jget0_def exn_simps demo_next_item_def Let_def)

lemma demo_next_restore: "restore_json (demo_toolchain (\<lambda>_. ''h'')) (JArr [item_json demo_next_item]) [(demo_cell_path, ''c'' @ newline)]
    = (Inr (), [(demo_cell_path, ''c'' @ newline)])"
  using demo_paths(1) by (simp add: restore_json_def item_parse_def item_json_def text_member_def member_def demo_next_item_def materialize_input_file_def
      demo_toolchain_def exn_simps)

lemma demo_saved_parse: "persisted_parse (persisted_json demo_saved_plan) = Inr demo_saved_plan"
proof -
  have "uuid_parse (uuid_str 1) = Some 1" "uuid_parse (uuid_str 3) = Some 3" by (simp_all add: uuid_round_trip valid_uuid_def)
  moreover have "valid_hash demo_hash" by (simp add: demo_hash_def valid_hash_def list_all_iff)
  ultimately show ?thesis
    by (simp add: persisted_parse_def persisted_json_def uuid_member_def str_member_def int_member_def demo_task_uuid exn_simps demo_saved_plan_def)
qed

definition demo_receipt :: submission_receipt where
  "demo_receipt = \<lparr>sr_execution_id = 5, sr_operation_id = 6, sr_execution_version = 2, sr_persisted_plan = Some demo_saved_plan, sr_plan = Some demo_cells\<rparr>"

lemma demo_appended:
  obtains db' where "durable_append demo_append_env demo_append_state d (demo_bound, empty_plan_db, [], 0)
      = (Inr demo_receipt, db', demo_next_db, [(demo_cell_path, ''c'' @ newline)], 1)"
proof -
  let ?env = demo_append_env and ?key = "append_key demo_append_state (uuid_str 5)" and ?fs = "[(demo_cell_path, ''c'' @ newline)]"
  let ?prepare = "append_prepare ?env demo_append_state ?key (uuid_str 5) (uuid_str 5) demo_next_plan 5"
  obtain body where req: "append_request ?env ?key demo_next_plan demo_saved_plan demo_next_row demo_binding ?fs
    = Inr (JObj [(''kind'', JStr ''append''), (''execution_id'', JStr (uuid_str 5)), (''path'', JStr (''/executions/'' @ uuid_str 5 @ ''/operations'')),
        (''body'', body), (''files'', JArr [item_json demo_next_item]), (''next_step_sequence'', JInt 2),
        (''persisted_plan'', persisted_json demo_saved_plan), (''plan'', plan_json demo_next_plan)])" (is "_ = Inr ?req") by (rule demo_next_request)
  have b: "binding_of 5 demo_bound = Some demo_binding" by (simp add: demo_bound_def demo_binding_def binding_of_def)
  have rows: "approved_steps (pp_plan_revision_id demo_saved_plan) demo_next_db = [demo_next_row]"
    by (simp add: approved_steps_def steps_of_def demo_next_db_def demo_saved_plan_def demo_next_row_def)
  have ids: "eb_execution_id demo_binding = 5" "eb_operation_id demo_binding = 5" by (simp_all add: demo_binding_def)
  have prep: "?prepare (demo_bound, empty_plan_db, [], 0) = (Inr ?req, demo_bound, demo_next_db, ?fs, 0)"
    using demo_next_persisted req b rows ids by (simp add: append_prepare_def sbind_def binding_for_task_def)
  define response where "response = JObj [(''execution_id'', JStr (uuid_str 5)), (''execution_version'', JInt 2), (''operation_id'', JStr (uuid_str 6))]"
  have send: "effect_send (effect_sender ?env) ?req (demo_next_db, ?fs, 0) = (Inr response, demo_next_db, ?fs, 1)"
    using demo_next_restore
    by (simp add: effect_send_def effect_sender_def demo_effect_env_def sbind_def spure_def member_def command_receipt_def jget0_def response_def exn_simps)
  define r where "r = new_effect (\<lambda>_. ''d'') ?key 5 ''append'' ''d'' ?req"
  define r' where "r' = r\<lparr>ef_response := Some response\<rparr>"
  have none: "effect_of ?key demo_bound = None" "task_of 5 demo_bound \<noteq> None" "db_effects demo_bound = []"
    by (simp_all add: demo_bound_def demo_accepted_eq effect_of_def task_of_def new_task_def)
  have stored: "effect_prepare (\<lambda>_. ''d'') ?key 5 ''append'' ''d'' ?req demo_bound = (Inr r, demo_bound\<lparr>db_effects := [r]\<rparr>)"
    using none by (simp add: effect_prepare_def transaction_def effect_record_def validate_identity_def new_effect_def r_def Let_def exn_simps)
  have completed: "effect_complete (\<lambda>_. ''d'') ?key response (demo_bound\<lparr>db_effects := [r]\<rparr>) = (Inr r', demo_bound\<lparr>db_effects := [r']\<rparr>)"
    by (simp add: effect_complete_def transaction_def effect_record_def effect_of_def sql_update_def new_effect_def r_def r'_def exn_simps)
  have run: "effect_run ?env 5 ?key ''append'' inputs ?prepare (demo_bound, empty_plan_db, [], 0)
      = (Inr r', demo_bound\<lparr>db_effects := [r']\<rparr>, demo_next_db, ?fs, 1)" for inputs
    using prep send stored completed none
    by (simp add: effect_run_def journal_run_split journal_send_def sbind_def spure_def on_db_def on_graph_def effect_get_def demo_effect_env_def
        validate_identity_def new_effect_def r_def)
  have parsed: "receipt_parse (ef_response r') = Inr \<lparr>sr_execution_id = 5, sr_operation_id = 6, sr_execution_version = 2, sr_persisted_plan = None, sr_plan = None\<rparr>"
    by (simp add: r'_def response_def receipt_parse_def uuid_member_def str_member_def int_member_def demo_task_uuid exn_simps)
  have members: "number_member (ef_request r') ''next_step_sequence'' = Inr 2" "rbind (member (ef_request r') ''persisted_plan'') persisted_parse = Inr demo_saved_plan"
      "rbind (member (ef_request r') ''plan'') (ee_plan_parse ?env) = Inr demo_cells"
    using demo_saved_parse by (simp_all add: r'_def r_def new_effect_def number_member_def member_def exn_simps demo_effect_env_def)
  obtain db' where bind: "bind_effect ?env 5 5 2 (Some 6) (Some 2) False (demo_bound\<lparr>db_effects := [r']\<rparr>, demo_next_db, ?fs, 1) = (Inr (), db', demo_next_db, ?fs, 1)"
    using none(2) by (auto simp: bind_effect_def on_db_def effect_binding_def transaction_def advance_binding_def binding_of_def task_of_def demo_bound_def
        demo_binding_def demo_effect_env_def)
  show thesis
    by (rule that [of db'])
      (use run parsed members bind demo_append_members in \<open>simp add: durable_append_def sbind_def spure_def need_field_def demo_receipt_def\<close>)
qed

definition demo_append_decision :: multi_decision where
  "demo_append_decision = \<lparr>md_action = Ma_APPEND_STEP, md_rationale = ''next'', md_next_step = Some demo_cell_step, md_requires_reapproval_reasons = []\<rparr>"

theorem appended_once_witness:
  "\<exists>db' W. durable_append demo_append_env demo_append_state demo_append_decision (demo_bound, empty_plan_db, [], 0) = (Inr demo_receipt, db', W)
    \<and> map_option eb_next_step_sequence (binding_of 5 db') = Some 2
    \<and> durable_append (demo_effect_env (\<lambda>_. ''h'') (Inl TimeoutError)) demo_append_state demo_append_decision (db', W) = (Inr demo_receipt, db', W)"
proof -
  obtain db' where run: "durable_append demo_append_env demo_append_state demo_append_decision (demo_bound, empty_plan_db, [], 0)
      = (Inr demo_receipt, db', demo_next_db, [(demo_cell_path, ''c'' @ newline)], 1)" (is "_ = (_, _, ?W)") by (rule demo_appended)
  have none: "effect_of (append_key demo_append_state (uuid_str 5)) demo_bound = None" "binding_of 5 demo_bound = Some demo_binding"
    by (simp_all add: demo_bound_def demo_accepted_eq effect_of_def binding_of_def demo_binding_def)
  from appended_once [OF demo_append_members(5,4) none run, of "demo_effect_env (\<lambda>_. ''h'') (Inl TimeoutError)" ?W]
  have "map_option eb_next_step_sequence (binding_of 5 db') = Some 2"
    and "durable_append (demo_effect_env (\<lambda>_. ''h'') (Inl TimeoutError)) demo_append_state demo_append_decision (db', ?W) = (Inr demo_receipt, db', ?W)"
    by (simp_all add: demo_effect_env_def demo_binding_def)
  with run show ?thesis by (intro exI conjI)
qed

end
