(* ===== verification/Session_Services_Props.thy ===== *)
theory Session_Services_Props
  imports Session_Services Effect_Requests_Props
begin

text \<open>
  The business graph over the services of the session runtime. What a run of a node may do to the world is what its
  services may do; the plan store only grows under the services and under other processes; so that, when an
  execution is submitted, the executor is asked to run the compilation of exactly the plan that was reviewed and approved.
\<close>

section \<open>What a node does to the world\<close>

definition within :: "('x \<Rightarrow> 'x \<Rightarrow> bool) \<Rightarrow> ('x \<Rightarrow> 'a result \<times> 'x) \<Rightarrow> bool" where
  "within R m = (\<forall>x. R x (snd (m x)))"

text \<open>A relation that every service keeps to.\<close>

definition services_within :: "('x \<Rightarrow> 'x \<Rightarrow> bool) \<Rightarrow> 'x workflow_services \<Rightarrow> bool" where
  "services_within R sv =
     ((\<forall>w s. within R (sv_update_status sv w s)) \<and> (\<forall>w s m. within R (sv_commit_terminal sv w s m)) \<and> (\<forall>w m. within R (sv_commit_answer sv w m))
    \<and> (\<forall>w. within R (sv_classify_intent sv w)) \<and> (\<forall>w b. within R (sv_answer_question sv w b)) \<and> (\<forall>w. within R (sv_review_request_risk sv w))
    \<and> (\<forall>w. within R (sv_search_workflows sv w)) \<and> (\<forall>u. within R (sv_workflow_version sv u)) \<and> (\<forall>w. within R (sv_build_plan sv w))
    \<and> (\<forall>w p. within R (sv_compile_and_persist_plan sv w p)) \<and> (\<forall>w. within R (sv_review_compiled_code_risk sv w)) \<and> (\<forall>u. within R (sv_lock_session sv u))
    \<and> (\<forall>w. within R (sv_submit_execution sv w)) \<and> (\<forall>w b. within R (sv_reconcile_executor sv w b)) \<and> (\<forall>w r. within R (sv_adapt sv w r))
    \<and> (\<forall>w d. within R (sv_append_operation sv w d)) \<and> (\<forall>w. within R (sv_finalize_execution sv w)) \<and> (\<forall>w y. within R (sv_cancel_execution sv w y))
    \<and> (\<forall>w. within R (sv_build_report_evidence sv w)) \<and> (\<forall>w e. within R (sv_generate_report sv w e)))"

locale world_change =
  fixes R :: "'x \<Rightarrow> 'x \<Rightarrow> bool"
  assumes change_refl: "R x x" and change_trans: "R x y \<Longrightarrow> R y z \<Longrightarrow> R x z"
begin

lemma within_spure: "within R (spure r)"
  by (simp add: within_def spure_def change_refl)

lemma within_sbind: "within R m \<Longrightarrow> (\<And>y. within R (f y)) \<Longrightarrow> within R (sbind m f)"
  unfolding within_def by (intro allI sbind_rel [of R]) (blast intro: change_trans)+

lemma within_if: "within R a \<Longrightarrow> within R b \<Longrightarrow> within R (if c then a else b)"
  by simp

lemma within_option: "within R a \<Longrightarrow> (\<And>y. within R (b y)) \<Longrightarrow> within R (case v of None \<Rightarrow> a | Some y \<Rightarrow> b y)"
  by (simp split: option.splits)

lemma within_pair: "(\<And>a b. within R (f a b)) \<Longrightarrow> within R (case p of (a, b) \<Rightarrow> f a b)"
  by (cases p) simp

lemmas within_rules = within_spure within_sbind within_if within_option within_pair

lemma cancel_within: "services_within R sv \<Longrightarrow> within R (cancel_execution_node sv w)"
proof -
  assume "services_within R sv"
  then have "within R (sv_cancel_execution sv w y)" for y by (simp add: services_within_def)
  then have "within R (case s of CancelRequestedSignal _ why \<Rightarrow> sbind (sv_cancel_execution sv w why) (\<lambda>_. spure (Inr (w\<lparr>wf_phase := CANCEL_REQUESTED\<rparr>)))
      | _ \<Rightarrow> spure (Inl (ValueError ''CancelRequestedSignal'')))" for s
    by (cases s) (auto intro: within_rules)
  then show ?thesis unfolding cancel_execution_node_def by (intro within_rules)
qed

lemma node_within:
  assumes "services_within R sv"
  shows "within R (node_body sv n w)"
proof -
  note sv = assms[unfolded services_within_def, simplified]
  show ?thesis
    by (cases n) (auto simp: conversation_defs planning_defs execution_defs terminal_defs Let_def sv intro!: within_rules cancel_within [OF assms, unfolded execution_defs])
qed

lemma run_within:
  assumes "services_within R sv"
  shows "R x (snd (run_node sv n a w x))"
  using node_within [OF assms, of n w] by (auto simp: run_node_def within_def spure_def change_refl split: option.splits)

end

section \<open>What the services do to the tables\<close>

definition plans_of :: "'v service_state \<Rightarrow> plan_db" where
  "plans_of s = fst (snd s)"

lemma calling_within: "(\<And>v. within R (f (S v))) \<Longrightarrow> within R (calling S f)"
  by (simp add: within_def calling_def)

text \<open>A relation that allows the steps of the agent's stores and everything that touches neither their tables nor the plans.\<close>

locale service_change = world_change R for R :: "'v service_state \<Rightarrow> 'v service_state \<Rightarrow> bool" +
  fixes m :: int
  assumes untouched: "R (db, pdb, W) (db, pdb, W')" and stored: "(agent_step m)\<^sup>*\<^sup>* db db' \<Longrightarrow> R (db, U) (db', U)"
begin

lemma outside_within: "(\<And>db pdb W. \<exists>W'. snd (f (db, pdb, W)) = (db, pdb, W')) \<Longrightarrow> within R f"
  unfolding within_def by (metis prod_cases3 untouched)

lemma on_db_within: "(\<And>db. agent_step m db (snd (f db))) \<Longrightarrow> within R (on_db (with_fault flt f))"
proof -
  assume step: "\<And>db. agent_step m db (snd (f db))"
  have "(agent_step m)\<^sup>*\<^sup>* db (snd (with_fault flt f db))" for db using step [of db] by (cases flt) auto
  then have "R (db, U) (snd (on_db (with_fault flt f) (db, U)))" for db U
    using stored by (simp add: on_db_def case_prod_unfold Let_def)
  then show ?thesis by (simp add: within_def)
qed

lemma reading_within: "within R (\<lambda>s. (f s, s))" "within R (on_db (\<lambda>db. (g db, db)))"
  by (simp_all add: within_def on_db_def change_refl)

lemma world_within: "within R (on_catalog c)" "within R (on_outside f)" "within R (binding_for_task task)"
  by (rule outside_within; auto simp: on_catalog_def on_outside_def binding_for_task_def split: prod.splits option.splits)+

lemma sending_within: "within R (on_graph (effect_send (effect_sender env) request))"
proof (rule outside_within)
  fix db pdb W
  have sent: "fst (snd (effect_send (effect_sender env) request g)) = fst g" for g
    by (cases g) (auto simp: effect_send_def effect_sender_def sbind_def spure_def split: prod.splits sum.splits if_splits)
  show "\<exists>W'. snd (on_graph (effect_send (effect_sender env) request) (db, pdb, W)) = (db, pdb, W')"
    using sent [of "(pdb, W)"] by (cases "effect_send (effect_sender env) request (pdb, W)") (auto simp: on_graph_def)
qed

lemmas service_rules = within_rules on_db_within reading_within world_within sending_within

lemma journal_within: "within R prepare \<Longrightarrow> within R (effect_run env task key kind inputs prepare)"
  unfolding effect_run_def journal_run_def by (intro service_rules agent_step.intros)

lemma bind_within: "within R (bind_effect env task exec version operation nxt create)"
  unfolding bind_effect_def by (intro service_rules agent_step.intros)

lemma submit_within: "within R (durable_submit env w)"
proof -
  have "within R (submit_prepare env w key)" for key
    unfolding submit_prepare_def by (intro within_rules outside_within) (auto simp: Let_def)
  then show ?thesis unfolding durable_submit_def by (intro within_rules journal_within bind_within)
qed

lemma append_within: "(\<And>p. within R (plans_persist env w p)) \<Longrightarrow> within R (durable_append env w d)"
proof -
  assume persist: "\<And>p. within R (plans_persist env w p)"
  have "within R (\<lambda>s. case s of (db, pdb, fs, x) \<Rightarrow> (Inr (approved_steps rid pdb), s))" for rid
    by (rule outside_within) (auto split: prod.splits)
  moreover have "within R (\<lambda>s. case s of (db, pdb, fs, x) \<Rightarrow>
      if uuid_str (eb_execution_id b) \<noteq> exec \<or> uuid_str (eb_operation_id b) \<noteq> operation
      then (Inl (ValueError ''Append input has a stale Execution binding''), s)
      else (case rows of [] \<Rightarrow> (Inl (OtherException ''IndexError'' ''list index out of range''), s) | row # _ \<Rightarrow> (append_request env key p q row b fs, s)))"
    for b exec operation rows key p q
    by (rule outside_within) (auto split: list.splits)
  ultimately have "within R (append_prepare env w key exec operation p task)" for key exec operation p task
    unfolding append_prepare_def by (intro within_rules persist world_within)
  then show ?thesis unfolding durable_append_def by (intro within_rules journal_within bind_within)
qed

lemma lifecycle_within: "within R (durable_lifecycle env w kind why)"
proof -
  have "within R (lifecycle_prepare env w kind why key exec task)" for key exec task
    unfolding lifecycle_prepare_def by (intro service_rules)
  then show ?thesis unfolding durable_lifecycle_def Let_def by (intro within_rules journal_within bind_within)
qed

lemma report_within: "within R (durable_report env w evidence)"
proof -
  have "within R (report_prepare env w key exec evidence)" for key exec
    by (rule outside_within) (auto simp: report_prepare_def Let_def split: prod.splits sum.splits)
  then show ?thesis unfolding durable_report_def Let_def by (intro within_rules journal_within)
qed

lemma reconcile_within: "within R (reconcile_service se w signal)"
proof -
  have "within R (record_lineage se w r)" for r
    unfolding record_lineage_def Let_def by (intro service_rules)
  then show ?thesis unfolding reconcile_service_def by (intro service_rules agent_step.intros)
qed

lemma evidence_within: "within R (report_evidence se w)"
  unfolding report_evidence_def by (intro service_rules)

lemma terminal_within: "within R (commit_terminal_service se w status message)" "within R (commit_answer_service se w message)"
proof -
  let ?put = "\<lambda>task. on_db (with_fault (se_promotion_fault se) (effect_promotion task))"
  have "within R (?put task)" for task by (intro service_rules agent_step.intros)
  moreover have "snd (offer_promotion se task s) \<in> {s, snd (?put task s)}" for task s
    by (cases s; cases "?put task s") (auto simp: offer_promotion_def split: sum.splits)
  ultimately have "within R (offer_promotion se task)" for task unfolding within_def by (metis change_refl empty_iff insert_iff)
  then show "within R (commit_terminal_service se w status message)"
    unfolding commit_terminal_service_def by (intro service_rules agent_step.intros)
  show "within R (commit_answer_service se w message)"
    unfolding commit_answer_service_def by (intro service_rules agent_step.intros)
qed

text \<open>The status and the lock are written under conditions, and so are left open here.\<close>

lemma services_change:
  assumes "services_within R base" "\<And>v w p. within R (plans_persist (session_effects (S v)) w p)"
    and "\<And>w s. within R (us w s)" "\<And>u. within R (ls u)"
  shows "services_within R ((session_services S base)\<lparr>sv_update_status := us, sv_lock_session := ls\<rparr>)"
  using assms unfolding services_within_def session_services_def
  by (auto intro!: calling_within append_within submit_within lifecycle_within report_within reconcile_within evidence_within terminal_within)

end

section \<open>The plan store under the services\<close>

definition plan_later :: "'v service_state \<Rightarrow> 'v service_state \<Rightarrow> bool" where
  "plan_later s s' = plan_step_rel\<^sup>*\<^sup>* (plans_of s) (plans_of s')"

interpretation plan_change: service_change plan_later 0
  by unfold_locales (auto simp: plan_later_def plans_of_def)

lemma persist_later:
  assumes "valid_ids (ee_ids env)"
  shows "within plan_later (plans_persist env w p)"
proof -
  have "plan_step_rel\<^sup>*\<^sup>* pdb (fst (snd (durable_persist tc reg rh (ee_hash env) (ee_ids env) known w p (pdb, fs))))" for tc reg rh known pdb fs
    by (auto simp: durable_persist_def split: sum.splits prod.splits) (metis r_into_rtranclp snd_conv pl_persist [OF assms])
  then show ?thesis by (auto simp: within_def plan_later_def plans_of_def plans_persist_def Let_def split: prod.splits) (metis fst_conv snd_conv)
qed

text \<open>The plan store only grows under the services of the session when it does under the inherited ones.\<close>

lemma session_within:
  assumes "services_within plan_later base" "\<And>v. valid_ids (ee_ids (se_effects (S v)))"
  shows "services_within plan_later (session_services S base)"
proof -
  let ?sv = "session_services S base"
  have ids: "valid_ids (ee_ids (session_effects (S v)))" for v using assms(2) by (simp add: session_effects_def)
  have "within plan_later (on_db f :: 'b service_state \<Rightarrow> _)" for f by (auto simp: within_def plan_later_def plans_of_def on_db_def split: prod.splits)
  then have "within plan_later (sv_update_status ?sv w s)" "within plan_later (sv_lock_session ?sv u)" for w s u
    unfolding session_services_def
    by (auto simp: update_status_service_def lock_session_service_def intro!: calling_within plan_change.within_rules)
  then have "services_within plan_later (?sv\<lparr>sv_update_status := sv_update_status ?sv, sv_lock_session := sv_lock_session ?sv\<rparr>)"
    by (intro plan_change.services_change assms(1) persist_later [OF ids])
  then show ?thesis by simp
qed

section \<open>The graph of a session\<close>

text \<open>A node of the graph runs or raises; other processes add to the plan store and change everything else as they like.\<close>

inductive services_step :: "'v service_state workflow_services \<Rightarrow> 'v service_state graph_config \<Rightarrow> 'v service_state graph_config \<Rightarrow> bool" for sv where
  ss_run: "n \<noteq> END \<Longrightarrow> run_node sv n a w x = (Inr w', x') \<Longrightarrow> next_node n w' = Inr n' \<Longrightarrow>
     services_step sv (n, w, x, tr) (n', w', x', tr @ [\<lparr>vs_node = n, vs_answer = a, vs_world = x, vs_before = w, vs_after = w'\<rparr>])"
| ss_raise: "run_node sv n a w x = (Inl e, x') \<Longrightarrow> services_step sv (n, w, x, tr) (n, w, x', tr)"
| ss_other: "plan_later x x' \<Longrightarrow> services_step sv (n, w, x, tr) (n, w, x', tr)"

fun session_init :: "'v service_state graph_config \<Rightarrow> bool" where
  "session_init (n, w, x, tr) = (graph_init (n, w, x, tr) \<and> reachable_plans (plans_of x))"

abbreviation session_reachable :: "'v service_state workflow_services \<Rightarrow> 'v service_state graph_config \<Rightarrow> bool" where
  "session_reachable sv \<equiv> reachable session_init (services_step sv)"

lemma session_is_graph: "session_reachable sv c \<Longrightarrow> graph_reachable sv c"
proof (induction rule: reachable.induct)
  case (reach_init c)
  then have "graph_init c" by (cases c) auto
  then show ?case by (rule reachable.reach_init)
next
  case (reach_step c d)
  from reach_step.hyps(2) have "graph_step sv c d" by (cases rule: services_step.cases) (auto intro: graph_step.intros)
  with reach_step.IH show ?case by (rule reachable.reach_step)
qed

text \<open>The plan of the state is stored as its compilation under the revision of the state.\<close>

definition traced :: "('v \<Rightarrow> 'v session_env) \<Rightarrow> wstate \<Rightarrow> plan_db \<Rightarrow> bool" where
  "traced S w pdb = (\<exists>p task v cs r n h reg_hash feedback. wg_plan w = Some p \<and> wg_plan_revision_id w = Some (uuid_str (rv_id r))
     \<and> task_id_of w = Inr task
     \<and> compile_all (ee_toolchain (se_effects (S v))) (ee_registry (se_effects (S v))) (tt_active_task_id (wf_turn w)) (pd_steps p) = Inr cs
     \<and> saved_revision task n h reg_hash feedback (map (\<lambda>(c, i). (c, ii_path i)) cs) r pdb)"

lemma traced_kept:
  assumes "traced S w pdb" "plan_grows pdb pdb'" "wg_plan w' = wg_plan w" "wg_plan_revision_id w' = wg_plan_revision_id w" "wf_turn w' = wf_turn w"
  shows "traced S w' pdb'"
  using assms(1,3-5) saved_kept [OF _ assms(2)] unfolding traced_def task_id_of_def by metis

lemma persisted_traced:
  assumes "reachable_plans (plans_of s)" "plans_persist (session_effects (S v)) w p s = (Inr q, s')"
  shows "traced S (persisted_plan_updates p q w) (plans_of s')"
proof -
  let ?env = "se_effects (S v)"
  obtain db pdb fs x where s: "s = (db, pdb, fs, x)" by (cases s) auto
  obtain task cs known pdb' where c: "compile_all (ee_toolchain ?env) (ee_registry ?env) (tt_active_task_id (wf_turn w)) (pd_steps p) = Inr cs"
    and t: "task_id_of w = Inr task" and pdb': "plans_of s' = pdb'"
    and per: "persist (ee_hash ?env) (ee_ids ?env) known task p (map (\<lambda>(c, i). (c, ii_path i)) cs) (ee_registry_hash ?env) (wg_revision_feedback w)
      (Some (get_or (wg_plan_revision_number w) 0 + 1)) pdb = (Inr q, pdb')"
    using assms(2) s by (auto simp: plans_persist_def durable_persist_def durable_compile_def session_effects_def Let_def plans_of_def
        split: sum.splits prod.splits)
  have "plan_inv pdb" using plans.reachable_inv assms(1) s by (simp add: plans_of_def)
  from this per show ?thesis
  proof (rule persist_saved)
    fix r assume "saved_revision task (get_or (wg_plan_revision_number w) 0 + 1) (ee_hash ?env p) (ee_registry_hash ?env) (wg_revision_feedback w)
        (map (\<lambda>(c, i). (c, ii_path i)) cs) r pdb'" "q = persisted_of r"
    then show ?thesis unfolding traced_def using c t pdb'
      by (intro exI conjI) (simp_all add: persisted_plan_updates_def persisted_of_def task_id_of_def)
  qed
qed

lemma compile_ran:
  "run_node sv Compile_and_persist_plan a w x = (Inr w', x') \<Longrightarrow>
     \<exists>p q. sv_compile_and_persist_plan sv w p x = (Inr q, x') \<and> w' = persisted_plan_updates p q w"
  by (auto simp: run_node_def planning_defs exn_simps)

lemma load_ran:
  "run_node sv Load_selected_workflow a w x = (Inr w', x') \<Longrightarrow>
     \<exists>u row x1 p q. sv_workflow_version sv u x = (Inr row, x1) \<and> sv_compile_and_persist_plan sv w p x1 = (Inr q, x') \<and> w' = persisted_plan_updates p q w"
  by (fastforce simp: run_node_def planning_defs parse_id_def exn_simps split: if_splits option.splits prod.splits)

definition traced_inv :: "('v \<Rightarrow> 'v session_env) \<Rightarrow> 'v service_state graph_config \<Rightarrow> bool" where
  "traced_inv S c = (case c of (n, w, x, tr) \<Rightarrow> reachable_plans (plans_of x)
     \<and> (n \<in> {Review_compiled_code_risk, Review_plan, Verify_approval, Submit_execution} \<longrightarrow> traced S w (plans_of x)))"

lemma later_reachable:
  assumes "reachable_plans (plans_of x)" "plan_later x x'"
  shows "reachable_plans (plans_of x') \<and> plan_grows (plans_of x) (plans_of x')"
  using reachable_rtranclp [OF assms(2)[unfolded plan_later_def] assms(1)] plans.reachable_grows [OF assms(1) assms(2)[unfolded plan_later_def]] by simp

text \<open>A node that leads to the review of a plan stored it, or the review leads on with the same plan.\<close>

lemma node_traces:
  assumes services: "services_within plan_later (session_services S base)" and inv: "traced_inv S (n, w, x, tr)" and "n \<noteq> END"
    and run: "run_node (session_services S base) n a w x = (Inr w', x')" and nxt: "next_node n w' = Inr n'"
    and n': "n' \<in> {Review_compiled_code_risk, Review_plan, Verify_approval, Submit_execution}"
  shows "traced S w' (plans_of x')"
proof -
  let ?sv = "session_services S base"
  have reach: "reachable_plans (plans_of x)" using inv by (simp add: traced_inv_def)
  have later: "plan_later x x'" using plan_change.run_within [OF services, of x n a w] run by simp
  have dest: "n' \<in> set (destinations n)" by (rule next_declared [OF nxt])
  have kept: "traced S w' (plans_of x')" if "n \<in> {Review_compiled_code_risk, Review_plan, Verify_approval, Submit_execution}"
      "wg_plan w' = wg_plan w" "wg_plan_revision_id w' = wg_plan_revision_id w" "wf_turn w' = wf_turn w"
    using traced_kept [of S w "plans_of x" "plans_of x'" w'] later_reachable [OF reach later] inv that by (auto simp: traced_inv_def)
  have stored: "traced S w' (plans_of x')" if "sv_compile_and_persist_plan ?sv w p x1 = (Inr q, x')" "w' = persisted_plan_updates p q w" "plan_later x x1" for p q x1
    using that persisted_traced [of x1 S "snd (snd (snd (snd x1)))" w p q x'] later_reachable [OF reach]
    by (simp add: session_services_def calling_def)
  consider "n = Compile_and_persist_plan" | "n = Load_selected_workflow" | "n \<in> {Review_compiled_code_risk, Review_plan, Verify_approval}"
    using dest n' by (cases n) auto
  then show ?thesis
  proof cases
    case 1
    obtain p q where "sv_compile_and_persist_plan ?sv w p x = (Inr q, x')" "w' = persisted_plan_updates p q w"
      using compile_ran [OF run [unfolded 1]] by blast
    then show ?thesis by (rule stored) (rule plan_change.change_refl)
  next
    case 2
    obtain u row x1 p q where l: "sv_workflow_version ?sv u x = (Inr row, x1)" "sv_compile_and_persist_plan ?sv w p x1 = (Inr q, x')"
        "w' = persisted_plan_updates p q w"
      using load_ran [OF run [unfolded 2]] by blast
    have "within plan_later (sv_workflow_version ?sv u)" using services by (simp add: services_within_def)
    then have "plan_later x x1" using l(1) unfolding within_def by (metis snd_conv)
    then show ?thesis by (rule stored [OF l(2,3)])
  next
    case 3
    then show ?thesis using kept run by (auto dest!: ran)
  qed
qed

lemma traced_step:
  assumes services: "services_within plan_later (session_services S base)" and "services_step (session_services S base) c d" "traced_inv S c"
  shows "traced_inv S d"
  using assms(2,3)
proof (cases rule: services_step.cases)
  case (ss_run n a w x w' x' n' tr)
  have "plan_later x x'" using plan_change.run_within [OF services, of x n a w] ss_run by simp
  moreover have "reachable_plans (plans_of x)" using assms(3) ss_run by (simp add: traced_inv_def)
  ultimately have "reachable_plans (plans_of x')" using later_reachable [of x x'] by blast
  moreover have "n' \<in> {Review_compiled_code_risk, Review_plan, Verify_approval, Submit_execution} \<Longrightarrow> traced S w' (plans_of x')"
    using node_traces [OF services, of n w x tr a w' x' n'] assms(3) ss_run by simp
  ultimately show ?thesis using ss_run by (simp add: traced_inv_def)
next
  case (ss_raise n a w x e x' tr)
  have "plan_later x x'" using plan_change.run_within [OF services, of x n a w] ss_raise by simp
  then show ?thesis using ss_raise assms(3) later_reachable [of x x'] traced_kept [of S w "plans_of x" "plans_of x'" w] by (auto simp: traced_inv_def)
next
  case (ss_other x x' n w tr)
  then show ?thesis using assms(3) later_reachable [of x x'] traced_kept [of S w "plans_of x" "plans_of x'" w] by (auto simp: traced_inv_def)
qed

lemma session_traced:
  assumes "services_within plan_later (session_services S base)" "session_reachable (session_services S base) c"
  shows "traced_inv S c"
  using assms(2)
proof (induction rule: reachable.induct)
  case (reach_init c)
  then show ?case by (cases c) (auto simp: traced_inv_def)
next
  case (reach_step c d)
  then show ?case using traced_step [OF assms(1)] by blast
qed

section \<open>Properties\<close>

lemma revision_parses: "saved_revision task n h reg_hash feedback compiled r pdb \<Longrightarrow> plan_inv pdb \<Longrightarrow> parse_id (uuid_str (rv_id r)) = Inr (rv_id r)"
  by (auto simp: saved_revision_def plan_inv_def parse_id_def uuid_round_trip)

text \<open>
  C7: only what was reviewed and approved is executed. Whatever the language models and the executor answer, whatever fails and
  whatever other processes do: when the graph reaches its submission and the node puts a request to the executor into the journal,
  the steps of the request are the compilation of the plan in the state, in order, only the first one in the mode \<open>MULTI\<close>; the risk of
  exactly this revision of the plan was reviewed and is not critical; and the user approved exactly this revision or selected the
  stored workflow the plan was bound from.
\<close>

theorem executed_as_approved:
  assumes base: "services_within plan_later base" "\<And>v. valid_ids (ee_ids (se_effects (S v)))"
    and reach: "session_reachable (session_services S base) (Submit_execution, w, (db, pdb, fs, x), tr)"
    and run: "run_node (session_services S base) Submit_execution a w (db, pdb, fs, x) = (res, db', W)"
    and n: "wg_plan_revision_number w = Some n" and none: "effect_of (submit_key w n) db = None" and r: "effect_of (submit_key w n) db' = Some r"
  shows "\<exists>p v cs. wg_plan w = Some p
      \<and> compile_all (ee_toolchain (se_effects (S v))) (ee_registry (se_effects (S v))) (tt_active_task_id (wf_turn w)) (pd_steps p) = Inr cs
      \<and> map wire_triple (request_steps (ef_request r)) = map as_wire ((if wg_execution_mode w = Some Em_MULTI then take 1 else id)
          (sort_key fst (map (\<lambda>(c, i). (cp_sequence c, cp_source_sha256 c, ii_path i)) cs)))
      \<and> code_reviewed w tr \<and> (plan_approved w tr \<or> workflow_loaded (session_services S base) w tr)"
proof -
  let ?sv = "session_services S base" and ?env = "session_effects (S (snd x))"
  have "traced_inv S (Submit_execution, w, (db, pdb, fs, x), tr)" by (rule session_traced [OF session_within [OF base] reach])
  then obtain p task v cs rv m h reg_hash feedback where p: "wg_plan w = Some p" "wg_plan_revision_id w = Some (uuid_str (rv_id rv))"
      and c: "compile_all (ee_toolchain (se_effects (S v))) (ee_registry (se_effects (S v))) (tt_active_task_id (wf_turn w)) (pd_steps p) = Inr cs"
      and saved: "saved_revision task m h reg_hash feedback (map (\<lambda>(c, i). (c, ii_path i)) cs) rv pdb" and inv: "plan_inv pdb"
    using plans.reachable_inv by (auto simp: traced_inv_def traced_def plans_of_def)
  have approved: "code_reviewed w tr \<and> granted ?sv w tr"
    using approvals.in_every_run [OF session_is_graph [OF reach]] by (simp add: approval_inv_def)
  obtain sres where sub: "durable_submit ?env w (db, pdb, fs, x) = (sres, db', W)"
    using run by (cases "durable_submit ?env w (db, pdb, fs, x)")
      (auto simp: run_node_def submit_execution_def session_services_def calling_def sbind_def spure_def split: sum.splits)
  obtain mode where mode: "wg_execution_mode w = Some mode"
    using sub none r p by (cases "wg_execution_mode w") (auto simp: durable_submit_def sbind_def spure_def need_field_def validate_plan_execution_mode_def)
  have req: "submit_request ?env w (submit_key w n) mode (submit_rows mode (rv_id rv) pdb) fs = Inr (ef_request r)"
    by (rule submit_stores [OF p(2) revision_parses [OF saved inv] mode n none sub r])
  then have steps: "request_steps (ef_request r) = map executor_step (submit_rows mode (rv_id rv) pdb)" by (rule submit_request_holds) simp
  have triples: "map compiled_triple (map (\<lambda>(c, i). (c, ii_path i)) cs) = map (\<lambda>(c, i). (cp_sequence c, cp_source_sha256 c, ii_path i)) cs"
    by (simp add: compiled_triple_def case_prod_unfold comp_def)
  have "map step_triple (submit_rows mode (rv_id rv) pdb) = (if mode = Em_MULTI then take 1 else id)
      (sort_key fst (map (\<lambda>(c, i). (cp_sequence c, cp_source_sha256 c, ii_path i)) cs))"
    using saved_steps [OF saved inv, unfolded triples] by (simp add: submit_rows_def take_map [symmetric])
  moreover have "map wire_triple (request_steps (ef_request r)) = map as_wire (map step_triple (submit_rows mode (rv_id rv) pdb))"
    using steps by (simp add: wire_executor_step comp_def)
  ultimately show ?thesis using p(1) c approved mode unfolding granted_def by (intro exI [of _ p] exI [of _ v] exI [of _ cs]) simp
qed

text \<open>
  A run over the services: the request for a cell of code is classified, planned, compiled, stored, reviewed and approved, and its
  submission is journaled before the executor times out.
\<close>

definition demo_session :: "nat \<Rightarrow> nat session_env" where
  "demo_session v = \<lparr>se_effects = \<lparr>ee_digest = (\<lambda>_. ''d''), ee_prepare_fault = NoFault, ee_complete_fault = NoFault, ee_binding_fault = NoFault,
       ee_now = 0, ee_wait_timeout = 60, ee_toolchain = demo_toolchain (\<lambda>_. ''h''), ee_registry = [], ee_registry_hash = ''r'', ee_hash = (\<lambda>_. demo_hash),
       ee_ids = (1, 5, 3), ee_post = (\<lambda>_ _ x. (Inl TimeoutError, x)), ee_artifact = Inr, ee_command = (\<lambda>_. no_answer),
       ee_plan_parse = (\<lambda>_. no_answer), ee_result_parse = (\<lambda>_. no_answer), ee_generate = (\<lambda>_. spure no_answer)\<rparr>,
     se_status_fault = NoFault, se_lock_fault = NoFault, se_terminal_fault = NoFault, se_promotion_fault = NoFault, se_record_fault = NoFault, se_update_fault = NoFault,
     se_result = (\<lambda>_. spure no_answer), se_result_json = (\<lambda>_. JNull), se_reader = (\<lambda>_. demo_reader), se_shared_root = [], se_context_max_chars = 0,
     se_manifest_max_bytes = 0, se_step_hash = (\<lambda>_. []), se_report_model = (\<lambda>_. spure no_answer), se_report_suffix = []\<rparr>"

definition demo_one_plan :: plan_draft where
  "demo_one_plan = \<lparr>pd_objective = ''o'', pd_strategy_summary = ''s'', pd_execution_mode = Em_SINGLE, pd_runtime_profile = ''basic'',
     pd_steps = [demo_cell_step], pd_assumptions = [], pd_expected_artifacts = []\<rparr>"

definition demo_base :: "nat service_state workflow_services" where
  "demo_base = \<lparr>sv_update_status = (\<lambda>_ _. spure no_answer), sv_commit_terminal = (\<lambda>_ _ _. spure no_answer), sv_commit_answer = (\<lambda>_ _. spure no_answer),
     sv_classify_intent = (\<lambda>_. spure (Inr demo_intent)), sv_answer_question = (\<lambda>_ _. spure no_answer), sv_review_request_risk = (\<lambda>_. spure (Inr demo_review)),
     sv_search_workflows = (\<lambda>_. spure no_answer), sv_workflow_version = (\<lambda>_. spure no_answer), sv_build_plan = (\<lambda>_. spure (Inr demo_one_plan)),
     sv_compile_and_persist_plan = (\<lambda>_ _. spure no_answer), sv_review_compiled_code_risk = (\<lambda>_. spure (Inr demo_review)),
     sv_lock_session = (\<lambda>_. spure no_answer), sv_submit_execution = (\<lambda>_. spure no_answer), sv_reconcile_executor = (\<lambda>_ _. spure no_answer),
     sv_adapt = (\<lambda>_ _. spure no_answer), sv_append_operation = (\<lambda>_ _. spure no_answer), sv_finalize_execution = (\<lambda>_. spure no_answer),
     sv_cancel_execution = (\<lambda>_ _. spure no_answer), sv_build_report_evidence = (\<lambda>_. spure no_answer), sv_generate_report = (\<lambda>_ _. spure no_answer),
     sv_correction_limit = 3, sv_registry = [], sv_text_rejected = ''r'', sv_text_blocked = ''b'', sv_text_failed = ''f'', sv_text_cancelled = ''c''\<rparr>"

definition demo_one_db :: plan_db where
  "demo_one_db = demo_next_db\<lparr>pb_revisions := map (\<lambda>r. r\<lparr>rv_public_payload := demo_one_plan\<rparr>) (pb_revisions demo_next_db)\<rparr>"

definition demo_world :: "agent_db \<Rightarrow> plan_db \<Rightarrow> file_store \<Rightarrow> nat service_state" where
  "demo_world db pdb fs = (db, pdb, fs, empty_catalog, 0)"

text \<open>The tables after the nodes that set the status and take the lock.\<close>

definition demo_classifying :: agent_db where
  "demo_classifying = snd (task_update_status 0 5 CLASSIFYING demo_accepted)"

definition demo_planning :: agent_db where
  "demo_planning = snd (task_update_status 0 5 PLANNING demo_classifying)"

definition demo_locked :: agent_db where
  "demo_locked = snd (task_lock_session 5 demo_planning)"

definition demo_queued :: agent_db where
  "demo_queued = snd (task_update_status 0 5 QUEUED_FOR_EXECUTION demo_locked)"

lemma demo_node_writes:
  "task_update_status 0 5 CLASSIFYING demo_accepted = (Inr (), demo_classifying)"
  "task_update_status 0 5 PLANNING demo_classifying = (Inr (), demo_planning)"
  "task_lock_session 5 demo_planning = (Inr (), demo_locked)"
  "task_update_status 0 5 QUEUED_FOR_EXECUTION demo_locked = (Inr (), demo_queued)"
  "task_of 5 demo_planning \<noteq> None" "task_of 5 demo_queued \<noteq> None" "db_effects demo_queued = []"
  by (simp_all add: demo_queued_def demo_locked_def demo_planning_def demo_classifying_def task_update_status_def task_lock_session_def required_task_def
      transaction_def demo_accepted_eq task_of_def lock_of_def new_task_def set_status_def update_task_def sql_update_def add_event_def)

definition demo_cell_files :: file_store where
  "demo_cell_files = [(demo_cell_path, ''c'' @ newline)]"

definition demo_go :: resume_signal where
  "demo_go = PlanReviewDecision \<lparr>pr_decision = ''APPROVE'', pr_plan_revision_id = 5, pr_plan_revision_number = 1,
     pr_public_payload_hash = demo_hash, pr_feedback = None, pr_risk_acknowledged = False\<rparr>"

lemma demo_base_within: "services_within plan_later demo_base" "valid_ids (ee_ids (se_effects (demo_session v)))"
  by (simp_all add: services_within_def demo_base_def plan_change.within_spure demo_session_def valid_ids_def valid_uuid_def)

lemma demo_one_persisted:
  assumes "wf_turn w = demo_graph_turn" "wg_execution_mode w = Some Em_SINGLE" "wg_revision_feedback w = None" "wg_plan_revision_number w = None"
  shows "plans_persist (session_effects (demo_session v)) w demo_one_plan (demo_world demo_planning empty_plan_db [])
    = (Inr demo_saved_plan, demo_world demo_planning demo_one_db demo_cell_files)"
proof -
  have files: "durable_compile (demo_toolchain (\<lambda>_. ''h'')) [] w demo_one_plan []
      = (Inr [(\<lparr>cp_sequence = 0, cp_source = ''c'' @ newline, cp_source_sha256 = ''h'', cp_skill_name = None, cp_tool_name = None, cp_parameters = []\<rparr>,
          demo_cell_path)], demo_cell_files)"
    using demo_cell_source demo_paths(1) assms(1)
    by (simp add: durable_compile_def demo_one_plan_def input_file_def materialize_input_file_def demo_graph_turn_def Let_def demo_cell_files_def)
      (simp add: demo_toolchain_def demo_cell_path_def)
  have task: "task_id_of w = Inr 5" using assms(1) by (simp add: task_id_of_def demo_graph_turn_def demo_task_uuid)
  note known = demo_node_writes(5)
  have mode: "validate_plan_execution_mode w demo_one_plan = Inr ()"
    using assms(2) by (simp add: validate_plan_execution_mode_def need_field_def demo_one_plan_def)
  show ?thesis
    using files known mode task assms(3,4)
    by (simp add: plans_persist_def durable_persist_def session_effects_def demo_session_def persist_def persist_body_def transaction_def existing_revision_def
        plan_of_def empty_plan_db_def plan_step_row_def py_index_def persisted_of_def Let_def get_or_def demo_cell_step_def demo_world_def
        demo_saved_plan_def demo_next_db_def demo_next_row_def demo_one_db_def)
      (simp add: demo_one_plan_def demo_cell_step_def)
qed

lemma play_session:
  "play sv as (n, w, x) = Inr (n', w', x') \<Longrightarrow> session_reachable sv (n, w, x, tr) \<Longrightarrow> \<exists>tr'. session_reachable sv (n', w', x', tr')"
proof (induction as arbitrary: n w x tr)
  case (Cons a as)
  show ?case
  proof (cases "n = END")
    case False
    then obtain w1 x1 n1 where 1: "run_node sv n a w x = (Inr w1, x1)" "next_node n w1 = Inr n1" "play sv as (n1, w1, x1) = Inr (n', w', x')"
      using Cons.prems(1) by (auto simp: exn_simps split: prod.splits sum.splits)
    show ?thesis by (rule Cons.IH [OF 1(3) reachable.reach_step [OF Cons.prems(2) ss_run [OF False 1(1,2)]]])
  qed (use Cons.prems in auto)
qed auto

lemma demo_go_ok: "validate_resume_signal demo_go = Inr demo_go"
  by (simp add: validate_resume_signal_def demo_go_def demo_hash_def valid_uuid_def valid_hash_def list_all_iff)

lemma demo_session_planned:
  obtains w where "play (session_services demo_session demo_base) (replicate 4 demo_go) (Hydrate_turn, fresh_wstate demo_graph_turn, demo_world demo_accepted empty_plan_db [])
      = Inr (Compile_and_persist_plan, w, demo_world demo_planning empty_plan_db [])"
    "wf_turn w = demo_graph_turn" "wg_execution_mode w = Some Em_SINGLE" "wg_revision_feedback w = None" "wg_plan_revision_number w = None"
    "wg_plan w = Some demo_one_plan" "wg_planning_kind w = Some Pk_CUSTOM_CODE" "nonempty (wf_execution_id w) = None"
proof -
  have four: "replicate 4 demo_go = [demo_go, demo_go, demo_go, demo_go]" by (simp add: numeral_eq_Suc)
  have turn: "tt_active_task_id demo_graph_turn = uuid_str 5" by (simp add: demo_graph_turn_def)
  show thesis
    using that
    by (simp add: four run_node_def hydrate_turn_def classify_intent_def review_request_risk_def build_plan_def validate_clarification_def
        route_defs sbind_def spure_def fresh_wstate_def new_workflow_def workflow.defs wstate.defs demo_base_def session_services_def demo_intent_def
        demo_review_def nonempty_def need_field_def calling_def update_status_service_def on_db_def demo_world_def task_id_of_def turn demo_task_uuid
        demo_session_def demo_node_writes)
qed

lemma demo_session_approved:
  assumes w: "wf_turn w = demo_graph_turn" "wg_execution_mode w = Some Em_SINGLE" "wg_revision_feedback w = None" "wg_plan_revision_number w = None"
    "wg_plan w = Some demo_one_plan" "wg_planning_kind w = Some Pk_CUSTOM_CODE" "nonempty (wf_execution_id w) = None"
  obtains w' where "play (session_services demo_session demo_base) (replicate 4 demo_go) (Compile_and_persist_plan, w, demo_world demo_planning empty_plan_db [])
      = Inr (Submit_execution, w', demo_world demo_queued demo_one_db demo_cell_files)"
    "wf_turn w' = demo_graph_turn" "wg_execution_mode w' = Some Em_SINGLE" "wg_plan_revision_number w' = Some 1" "wg_plan w' = Some demo_one_plan"
    "wg_plan_revision_id w' = Some (uuid_str 5)"
proof -
  let ?sv = "session_services demo_session demo_base"
  define w1 where "w1 = persisted_plan_updates demo_one_plan demo_saved_plan w"
  define w2 where "w2 = w1\<lparr>wg_code_risk := Some demo_review\<rparr>"
  define w3 where "w3 = w2\<lparr>wg_review_action := Some ''APPROVE'', wg_revision_feedback := Some [], wg_risk_acknowledged := Some False\<rparr>"
  define w4 where "w4 = w3\<lparr>wf_phase := QUEUED_FOR_EXECUTION\<rparr>"
  note defs = run_node_def sbind_def spure_def need_field_def session_services_def
  have 1: "run_node ?sv Compile_and_persist_plan demo_go w (demo_world demo_planning empty_plan_db []) = (Inr w1, demo_world demo_planning demo_one_db demo_cell_files)"
    using demo_one_persisted [OF w(1-4)] w(5) by (simp add: defs compile_and_persist_plan_def calling_def w1_def)
  have 2: "run_node ?sv Review_compiled_code_risk demo_go w1 s = (Inr w2, s)" for s
    by (simp add: defs review_compiled_code_risk_def demo_base_def w2_def)
  have m: "wg_plan w2 = Some demo_one_plan" "wg_plan_revision_id w2 = Some (uuid_str 5)" "wg_plan_revision_number w2 = Some 1"
      "wg_plan_public_payload_hash w2 = Some demo_hash" "wg_code_risk w2 = Some demo_review" "wg_execution_mode w2 = Some Em_SINGLE"
      "wf_turn w2 = demo_graph_turn" "wg_planning_kind w2 = Some Pk_CUSTOM_CODE" "nonempty (wf_execution_id w2) = None"
    using w by (simp_all add: w2_def w1_def persisted_plan_updates_def demo_saved_plan_def demo_one_plan_def)
  have 3: "run_node ?sv Review_plan demo_go w2 s = (Inr w3, s)" for s
    using demo_go_ok m by (simp add: defs review_plan_def w3_def) (simp add: demo_go_def demo_review_def)
  have task: "task_id_of w3 = Inr 5" using m(7) by (simp add: w3_def task_id_of_def demo_graph_turn_def demo_task_uuid)
  have mode: "validate_plan_execution_mode w3 demo_one_plan = Inr ()"
    using m(6) by (simp add: w3_def validate_plan_execution_mode_def need_field_def demo_one_plan_def)
  have w3: "wg_review_action w3 = Some ''APPROVE''" "wg_plan w3 = Some demo_one_plan" using m(1) by (simp_all add: w3_def)
  have 4: "run_node ?sv Verify_approval demo_go w3 (demo_world demo_planning demo_one_db demo_cell_files)
      = (Inr w4, demo_world demo_queued demo_one_db demo_cell_files)"
    using w3 task mode demo_node_writes(3,4)
    by (simp add: defs verify_approval_def verify_approval_and_lock_def calling_def update_status_service_def lock_session_service_def on_db_def demo_world_def
        demo_session_def w4_def)
  have n: "next_node Compile_and_persist_plan w1 = Inr Review_compiled_code_risk" "next_node Review_compiled_code_risk w2 = Inr Review_plan"
      "next_node Review_plan w3 = Inr Verify_approval" "next_node Verify_approval w4 = Inr Submit_execution"
    using m by (simp_all add: route_defs need_field_def w3_def w4_def demo_review_def)
  show thesis
  proof (rule that [of w4])
    show "play ?sv (replicate 4 demo_go) (Compile_and_persist_plan, w, demo_world demo_planning empty_plan_db [])
      = Inr (Submit_execution, w4, demo_world demo_queued demo_one_db demo_cell_files)"
      using 1 2 3 4 n by (simp add: numeral_eq_Suc)
  qed (use m in \<open>simp_all add: w4_def w3_def\<close>)
qed

lemma demo_session_request:
  assumes "wf_turn w = demo_graph_turn"
  obtains body where "submit_request (session_effects (demo_session v)) w key Em_SINGLE (submit_rows Em_SINGLE 5 demo_one_db) demo_cell_files
    = Inr (JObj [(''kind'', JStr ''submit''), (''path'', JStr ''/executions''), (''body'', body), (''files'', JArr [item_json demo_next_item]),
        (''next_step_sequence'', JInt 1)])"
proof -
  have rows: "submit_rows Em_SINGLE 5 demo_one_db = [demo_next_row]"
    by (simp add: submit_rows_def approved_steps_def steps_of_def demo_one_db_def demo_next_db_def demo_next_row_def)
  show thesis
    using that demo_paths(2,3) assms
    by (simp add: rows submit_request_def submit_payload_def files_of_def executor_step_def executor_step_payload_def step_pair_def step_source_def
      text_member_def member_def capture_files_def capture_file_def demo_session_def session_effects_def demo_toolchain_def demo_next_row_def
      demo_cell_files_def jget0_def exn_simps demo_next_item_def)
qed

lemma demo_session_submitted:
  assumes w: "wf_turn w = demo_graph_turn" "wg_execution_mode w = Some Em_SINGLE" "wg_plan_revision_number w = Some 1" "wg_plan w = Some demo_one_plan"
    "wg_plan_revision_id w = Some (uuid_str 5)"
  obtains db' r where "run_node (session_services demo_session demo_base) Submit_execution demo_go w (demo_world demo_queued demo_one_db demo_cell_files)
      = (Inl TimeoutError, db', snd (demo_world demo_queued demo_one_db demo_cell_files))" "effect_of (submit_key w 1) db' = Some r"
proof -
  let ?env = "session_effects (demo_session 0)" and ?key = "submit_key w 1" and ?s = "demo_world demo_queued demo_one_db demo_cell_files"
  obtain body where req: "submit_request ?env w ?key Em_SINGLE (submit_rows Em_SINGLE 5 demo_one_db) demo_cell_files
    = Inr (JObj [(''kind'', JStr ''submit''), (''path'', JStr ''/executions''), (''body'', body), (''files'', JArr [item_json demo_next_item]),
        (''next_step_sequence'', JInt 1)])" (is "_ = Inr ?req") by (rule demo_session_request [OF w(1)])
  have id: "parse_id (uuid_str 5) = Inr 5" by (simp add: parse_id_def demo_task_uuid)
  have rows: "submit_rows Em_SINGLE 5 demo_one_db \<noteq> []"
    by (simp add: submit_rows_def approved_steps_def steps_of_def demo_one_db_def demo_next_db_def demo_next_row_def)
  have prep: "submit_prepare ?env w ?key ?s = (Inr ?req, ?s)"
    using req rows by (simp add: demo_world_def submit_prepare_cases [OF w(5) id w(2)])
  have send: "effect_send (effect_sender ?env) ?req (snd ?s) = (Inl TimeoutError, snd ?s)"
    using demo_next_restore
    by (simp add: effect_send_def effect_sender_def session_effects_def demo_session_def sbind_def spure_def member_def exn_simps demo_world_def demo_cell_files_def)
  define r where "r = new_effect (\<lambda>_. ''d'') ?key 5 ''submit'' ''d'' ?req"
  have none: "effect_of ?key demo_queued = None" "task_of 5 demo_queued \<noteq> None"
    using demo_node_writes(6,7) by (simp_all add: effect_of_def)
  have stored: "effect_prepare (\<lambda>_. ''d'') ?key 5 ''submit'' ''d'' ?req demo_queued
      = (Inr r, demo_queued\<lparr>db_effects := db_effects demo_queued @ [r]\<rparr>)" (is "_ = (_, ?db)")
    using none by (simp add: effect_prepare_def transaction_def effect_record_def validate_identity_def new_effect_def r_def Let_def exn_simps)
  have run: "effect_run ?env 5 ?key ''submit'' inputs (submit_prepare ?env w ?key) ?s = (Inl TimeoutError, ?db, snd ?s)" for inputs
    using prep send stored none
    by (simp add: effect_run_def journal_run_split journal_send_def sbind_def spure_def on_db_def on_graph_def effect_get_def session_effects_def
        demo_session_def demo_world_def validate_identity_def new_effect_def r_def)
  have task: "task_id_of w = Inr 5" using w(1) by (simp add: task_id_of_def demo_graph_turn_def demo_task_uuid)
  have "durable_submit ?env w ?s = (Inl TimeoutError, ?db, snd ?s)"
    using run w task by (simp add: durable_submit_def sbind_def spure_def need_field_def validate_plan_execution_mode_def demo_one_plan_def)
  then have "run_node (session_services demo_session demo_base) Submit_execution demo_go w ?s = (Inl TimeoutError, ?db, snd ?s)"
    by (simp add: run_node_def submit_execution_def session_services_def calling_def sbind_def demo_world_def)
  moreover have "effect_of ?key ?db = Some r" using none by (simp add: effect_of_def find_append r_def new_effect_def)
  ultimately show thesis by (rule that)
qed

theorem executed_as_approved_witness:
  "\<exists>w tr db' r. session_reachable (session_services demo_session demo_base) (Submit_execution, w, demo_world demo_queued demo_one_db demo_cell_files, tr)
    \<and> run_node (session_services demo_session demo_base) Submit_execution demo_go w (demo_world demo_queued demo_one_db demo_cell_files)
      = (Inl TimeoutError, db', snd (demo_world demo_queued demo_one_db demo_cell_files))
    \<and> effect_of (submit_key w 1) db' = Some r \<and> code_reviewed w tr
    \<and> map wire_triple (request_steps (ef_request r)) = [(JInt 0, JStr ''h'', JStr demo_cell_path)]"
proof -
  let ?sv = "session_services demo_session demo_base" and ?s = "demo_world demo_queued demo_one_db demo_cell_files"
  obtain w0 where p0: "play ?sv (replicate 4 demo_go) (Hydrate_turn, fresh_wstate demo_graph_turn, demo_world demo_accepted empty_plan_db [])
        = Inr (Compile_and_persist_plan, w0, demo_world demo_planning empty_plan_db [])"
    and w0: "wf_turn w0 = demo_graph_turn" "wg_execution_mode w0 = Some Em_SINGLE" "wg_revision_feedback w0 = None" "wg_plan_revision_number w0 = None"
      "wg_plan w0 = Some demo_one_plan" "wg_planning_kind w0 = Some Pk_CUSTOM_CODE" "nonempty (wf_execution_id w0) = None"
    by (rule demo_session_planned)
  obtain w where p: "play ?sv (replicate 4 demo_go) (Compile_and_persist_plan, w0, demo_world demo_planning empty_plan_db []) = Inr (Submit_execution, w, ?s)"
    and w: "wf_turn w = demo_graph_turn" "wg_execution_mode w = Some Em_SINGLE" "wg_plan_revision_number w = Some 1" "wg_plan w = Some demo_one_plan"
      "wg_plan_revision_id w = Some (uuid_str 5)"
    by (rule demo_session_approved [OF w0])
  have "session_reachable ?sv (Hydrate_turn, fresh_wstate demo_graph_turn, demo_world demo_accepted empty_plan_db [], [])"
    by (rule reach_init) (use empty_plans_reachable(1) in \<open>auto simp: demo_world_def plans_of_def\<close>)
  then obtain tr0 where "session_reachable ?sv (Compile_and_persist_plan, w0, demo_world demo_planning empty_plan_db [], tr0)" using play_session [OF p0] by blast
  then obtain tr where tr: "session_reachable ?sv (Submit_execution, w, ?s, tr)" using play_session [OF p] by blast
  obtain db' r where run: "run_node ?sv Submit_execution demo_go w ?s = (Inl TimeoutError, db', snd ?s)" and r: "effect_of (submit_key w 1) db' = Some r"
    by (rule demo_session_submitted [OF w])
  have none: "effect_of (submit_key w 1) demo_queued = None" using demo_node_writes(7) by (simp add: effect_of_def)
  from executed_as_approved [OF demo_base_within tr [unfolded demo_world_def] run [unfolded demo_world_def] w(3) none r]
  obtain q v cs where q: "wg_plan w = Some q"
      "compile_all (ee_toolchain (se_effects (demo_session v))) (ee_registry (se_effects (demo_session v))) (tt_active_task_id (wf_turn w)) (pd_steps q) = Inr cs"
      "map wire_triple (request_steps (ef_request r)) = map as_wire ((if wg_execution_mode w = Some Em_MULTI then take 1 else id)
          (sort_key fst (map (\<lambda>(c, i). (cp_sequence c, cp_source_sha256 c, ii_path i)) cs)))" "code_reviewed w tr"
    by blast
  have "cs = [(\<lparr>cp_sequence = 0, cp_source = ''c'' @ newline, cp_source_sha256 = ''h'', cp_skill_name = None, cp_tool_name = None, cp_parameters = []\<rparr>, demo_next_item)]"
    using q(1,2) w(1,4) demo_cell_source
    by (auto simp: demo_session_def demo_one_plan_def input_file_def demo_graph_turn_def demo_next_item_def demo_cell_path_def Let_def exn_simps)
      (simp_all add: demo_toolchain_def)
  then have "map wire_triple (request_steps (ef_request r)) = [(JInt 0, JStr ''h'', JStr demo_cell_path)]"
    using q(3) w(2) by (simp add: as_wire_def demo_next_item_def)
  with tr run r q(4) show ?thesis by (intro exI conjI)
qed

end
