(* ===== verification/Session_Store.thy ===== *)
theory Session_Store
  imports Session_Services_Props
begin

text \<open>
  The business graph over the agent's tables. A node of the graph changes them only by steps of the stores, so that what these steps keep
  holds in every run; and what becomes of a task when a node writes its status too late.
\<close>

section \<open>Nodes take steps of the stores\<close>

definition store_later :: "int \<Rightarrow> 'v service_state \<Rightarrow> 'v service_state \<Rightarrow> bool" where
  "store_later m s s' = (agent_step m)\<^sup>*\<^sup>* (fst s) (fst s')"

interpretation store_change: service_change "store_later m" m for m
  by unfold_locales (auto simp: store_later_def)

lemma persist_store: "within (store_later m) (plans_persist env w p)"
  by (auto simp: within_def store_later_def plans_persist_def Let_def split: prod.splits)

text \<open>The services without the two that write under a condition.\<close>

definition silent :: "'x workflow_services \<Rightarrow> 'x workflow_services" where
  "silent sv = sv\<lparr>sv_update_status := \<lambda>_ _. spure (Inr ()), sv_lock_session := \<lambda>_. spure (Inr ())\<rparr>"

lemma silent_within:
  assumes "services_within (store_later m) base"
  shows "services_within (store_later m) (silent (session_services S base))"
  unfolding silent_def by (intro store_change.services_change assms persist_store store_change.within_rules)

text \<open>Most nodes write neither the status nor the lock by themselves.\<close>

definition writing_nodes :: "node set" where
  "writing_nodes = {Hydrate_turn, Answer_general, Answer_data_question, Build_plan, Verify_approval}"

lemma silent_node: "n \<notin> writing_nodes \<Longrightarrow> run_node sv n a w = run_node (silent sv) n a w"
  by (cases n) (simp_all add: writing_nodes_def run_node_def conversation_defs planning_defs execution_defs terminal_defs silent_def
      cong: option.case_cong resume_signal.case_cong if_cong)

text \<open>The task of the state is not finished.\<close>

definition task_open :: "wstate \<Rightarrow> agent_db \<Rightarrow> bool" where
  "task_open w db = (\<forall>u t. task_id_of w = Inr u \<and> task_of u db = Some t \<longrightarrow> unfinished t)"

lemma status_step:
  assumes "task_open w db" "\<not> is_terminal status" "task_id_of w = Inr u"
  shows "(agent_step m)\<^sup>*\<^sup>* db (snd (with_fault flt (task_update_status now u status) db))"
proof (cases "task_of u db")
  case None
  then have "snd (task_update_status now u status db) = db" by (simp add: task_update_status_def required_task_def transaction_def)
  then show ?thesis by (cases flt) simp_all
next
  case (Some t)
  then have "agent_step m db (snd (task_update_status now u status db))"
    using assms by (intro st_status) (auto simp: task_open_def)
  then show ?thesis by (cases flt) auto
qed

lemma lock_step:
  assumes "task_open w db" "task_id_of w = Inr u"
  shows "(agent_step m)\<^sup>*\<^sup>* db (snd (with_fault flt (task_lock_session u) db)) \<and> task_open w (snd (with_fault flt (task_lock_session u) db))"
proof -
  have tasks: "db_tasks (snd (task_lock_session u db)) = db_tasks db" by (cases rule: lock_session_cases [of u db]) simp_all
  then have kept: "task_open w (snd (task_lock_session u db))" using assms(1) by (simp add: task_open_def task_of_def)
  have "(agent_step m)\<^sup>*\<^sup>* db (snd (task_lock_session u db))"
  proof (cases "task_of u db")
    case None
    then have "snd (task_lock_session u db) = db" by (simp add: task_lock_session_def required_task_def transaction_def)
    then show ?thesis by simp
  next
    case (Some t)
    then have "unfinished t" using assms by (auto simp: task_open_def)
    with Some have "agent_step m db (snd (task_lock_session u db))" by (rule st_lock)
    then show ?thesis by (rule r_into_rtranclp)
  qed
  then show ?thesis using assms(1) kept by (cases flt) simp_all
qed

lemma status_service_step:
  assumes "task_open w (fst s)" "\<not> is_terminal status"
  shows "store_later m s (snd (sv_update_status (session_services S base) w status s))"
  using status_step [OF assms(1,2)]
  by (cases "task_id_of w") (simp_all add: session_services_def calling_def update_status_service_def sbind_def spure_def on_db_def store_later_def
      case_prod_unfold Let_def)

lemma lock_service_step:
  assumes "task_open w (fst s)" "task_id_of w = Inr u"
  shows "store_later m s (snd (sv_lock_session (session_services S base) u s)) \<and> task_open w (fst (snd (sv_lock_session (session_services S base) u s)))"
  using lock_step [OF assms]
  by (simp add: session_services_def calling_def lock_session_service_def on_db_def store_later_def case_prod_unfold Let_def)

lemma first_then:
  assumes "store_later m s (snd (f s))" "\<And>y. within (store_later m) (g y)"
  shows "store_later m s (snd (sbind f g s))"
  using assms store_change.change_trans [of m s "snd (f s)"]
  by (auto simp: sbind_def within_def split: prod.splits sum.splits)

lemma verify_takes_steps:
  assumes "task_open w (fst s)"
  shows "store_later m s (snd (verify_approval (session_services S base) w s))"
proof -
  let ?sv = "session_services S base"
  have "store_later m s (snd (sbind (sv_lock_session ?sv u) (\<lambda>_. sv_update_status ?sv w QUEUED_FOR_EXECUTION) s))" if u: "task_id_of w = Inr u" for u
  proof -
    obtain r s1 where l: "sv_lock_session ?sv u s = (r, s1)" by (rule prod.exhaust)
    then have 1: "store_later m s s1" "task_open w (fst s1)" using lock_service_step [OF assms u, of m S base] by simp_all
    have "store_later m s1 (snd (sv_update_status ?sv w QUEUED_FOR_EXECUTION s1))" by (rule status_service_step [OF 1(2)]) simp
    from store_change.change_trans [OF 1(1) this] show ?thesis using l 1(1) by (cases r) (simp_all add: sbind_def)
  qed
  then have "store_later m s (snd (verify_approval_and_lock ?sv w s))"
    by (auto simp: verify_approval_and_lock_def sbind_def spure_def need_field_def store_change.change_refl split: sum.splits option.splits)
  then show ?thesis unfolding verify_approval_def by (rule first_then) (rule store_change.within_spure)
qed

lemma writing_step:
  assumes "services_within (store_later m) base" "task_open w (fst s)" "n \<in> writing_nodes"
  shows "store_later m s (snd (run_node (session_services S base) n a w s))"
proof -
  let ?sv = "session_services S base"
  note status = status_service_step [OF assms(2)]
  have ask: "within (store_later m) (sv_answer_question ?sv w b)" "within (store_later m) (sv_build_plan ?sv w)" for b
    using assms(1) by (simp_all add: services_within_def session_services_def)
  have "store_later m s (snd (hydrate_turn ?sv w s))"
    unfolding hydrate_turn_def by (intro first_then status store_change.within_rules) simp
  moreover have "store_later m s (snd (answer_node b ?sv w s))" for b
    unfolding answer_node_def by (intro first_then status store_change.within_rules ask) simp
  moreover have "store_later m s (snd (build_plan ?sv w s))"
    unfolding build_plan_def by (intro first_then status store_change.within_rules ask) simp
  ultimately show ?thesis
    using assms(3) verify_takes_steps [OF assms(2)] by (auto simp: writing_nodes_def run_node_def)
qed

section \<open>Properties\<close>



lemma finished_cleanup:
  assumes "cleanup_finish now rec db = (Inr (), db1)"
  obtains c where "cleanup_of (fc_task_id rec) db1 = Some c" "fc_state c = Fc_DONE"
proof -
  have closed: "\<exists>c. cleanup_of (fc_task_id rec) (close_cleanup now (fc_task_id row) db') = Some c \<and> fc_state c = Fc_DONE"
    if "fenced rec db = Inr row" "db_cleanups db' = db_cleanups db" for row db'
  proof -
    have "cleanup_of (fc_task_id rec) (release_lock (fc_task_id rec) (compensate now (fc_task_id rec) db')) = Some row"
      using fencedD(1,2) [OF that(1)] that(2) by (simp add: cleanup_of_def release_lock_def compensate_def)
    then show ?thesis using fencedD(2) [OF that(1)] by (simp add: close_cleanup_def cleanup_of_update touch_def)
  qed
  show ?thesis
    using assms
  proof (cases rule: cleanup_finish_cases)
    case (preserved row t)
    then show ?thesis using closed [OF preserved(2)] that by blast
  next
    case (failed row t message)
    have "db_cleanups (fail_task now row message db) = db_cleanups db" by (simp add: fail_task_def add_answer_def Let_def table_simps)
    then show ?thesis using closed [OF failed(2)] failed(6) that by blast
  qed simp
qed

text \<open>
  C40: a status that is written too late reopens a finished task. After the cleanup of a failed task has ended, \<open>update_status\<close> of a node that
  still runs, its lease being lost, succeeds: the task is unfinished again and occupies its session, while its cleanup is done and nothing
  works on it any more.
\<close>

theorem stale_status_reopens:
  assumes "reachable_agent m db" "cleanup_finish now rec db = (Inr (), db1)" "task_of (fc_task_id rec) db = Some t" "unfinished t"
    and status: "\<not> is_terminal status"
  shows "\<exists>t' c db2. task_update_status now' (fc_task_id rec) status db1 = (Inr (), db2)
    \<and> task_of (fc_task_id rec) db2 = Some t' \<and> t_status t' = status
    \<and> cleanup_of (fc_task_id rec) db2 = Some c \<and> fc_state c = Fc_DONE
    \<and> busy_with (t_session_id t) db1 = None \<and> busy_with (t_session_id t) db2 = Some (fc_task_id rec)"
proof -
  let ?u = "fc_task_id rec"
  have inv: "agent_inv db" by (rule reachable_agent_inv [OF assms(1)])
  have "agent_step m db db1" using st_cleanup_finish [of m db now rec] assms(2) by simp
  then obtain t1 where t1: "task_of ?u db1 = Some t1" "task_kept t t1"
    using task_later [OF assms(1) r_into_rtranclp assms(3)] by blast
  have sess: "t_session_id t1 = t_session_id t" using t1(2) by (simp add: task_kept_def)
  obtain c where c: "cleanup_of ?u db1 = Some c" "fc_state c = Fc_DONE" by (rule finished_cleanup [OF assms(2)])
  have free: "busy_with (t_session_id t) db1 = None" by (rule cleanup_frees(2) [OF inv assms(2-4)])
  then have lock: "lock_of (t_session_id t) db1 = None \<or> (\<exists>l. lock_of (t_session_id t) db1 = Some l \<and> \<not> sl_locked l)"
    by (auto simp: busy_with_def split: option.splits if_splits)
  have over: "is_terminal (t_status x)" if "x \<in> set (db_tasks db1)" "t_session_id x = t_session_id t" for x
    using not_busy [OF free] that by (simp add: unfinished_none)
  let ?db2 = "add_event ?u ''task.status_changed'' (JObj [(''status'', JStr (status_value status))]) (update_task ?u (set_status now' status) db1)"
  have t2: "task_of ?u ?db2 = Some (set_status now' status t1)" using t1(1) by (simp add: table_simps set_status_row)
  have only: "t_id x = ?u" if "x \<in> set (db_tasks ?db2)" "t_session_id x = t_session_id t" "unfinished x" for x
    using that over by (auto simp: table_simps in_sql_update set_status_row split: if_splits)
  have "unfinished_task (t_session_id t) ?db2 \<noteq> None"
    using row_of_key(1) [OF t2] status sess set_status_row(2,3) [of now' status t1] by (metis unfinished_none)
  then have "map_option t_id (unfinished_task (t_session_id t) ?db2) = Some ?u"
    using only by (auto simp: unfinished_task_def dest: find_SomeD)
  moreover have "lock_of (t_session_id t) ?db2 = lock_of (t_session_id t) db1" by (simp add: lock_of_def table_simps)
  ultimately have "busy_with (t_session_id t) ?db2 = Some ?u" using lock by (auto simp: busy_with_def)
  moreover have "cleanup_of ?u ?db2 = Some c" using c(1) by (simp add: table_simps)
  moreover have "task_update_status now' ?u status db1 = (Inr (), ?db2)"
    using t1(1) by (simp add: task_update_status_def required_task_def transaction_def)
  ultimately show ?thesis using t2 c(2) free by (intro exI [of _ "set_status now' status t1"] exI [of _ c] exI [of _ ?db2]) (simp add: set_status_row)
qed

theorem stale_status_reopens_witness:
  "\<exists>db1 db2. cleanup_finish 4 demo_proven demo_cleaning = (Inr (), db1) \<and> task_update_status 5 5 PLANNING db1 = (Inr (), db2)
    \<and> busy_with ''s'' db1 = None \<and> busy_with ''s'' db2 = Some 5"
proof -
  have t: "task_of (fc_task_id demo_proven) demo_cleaning = Some (new_task 0 5 6 (rq_turn demo_start))"
    by (simp add: demo_cleaning_eq demo_accepted_eq demo_proven_def demo_cleanup_def new_cleanup_def touch_def task_of_def new_task_def Let_def)
  obtain db1 where run: "cleanup_finish 4 demo_proven demo_cleaning = (Inr (), db1)"
    by (simp add: cleanup_finish_def fenced_def cleanup_required_def transaction_def demo_cleaning_eq demo_accepted_eq cleanup_of_def
        task_of_def demo_proven_def demo_cleanup_def new_cleanup_def new_task_def touch_def nonempty_def demo_start_def Let_def)
  have u: "fc_task_id demo_proven = 5" "t_session_id (new_task 0 5 6 (rq_turn demo_start)) = ''s''"
    by (simp_all add: demo_proven_def demo_cleanup_def new_cleanup_def touch_def new_task_def demo_start_def Let_def)
  have "unfinished (new_task 0 5 6 (rq_turn demo_start))" "\<not> is_terminal PLANNING" by (simp_all add: new_task_def)
  from stale_status_reopens [OF demo_cleaning_reachable run t this, of 5] show ?thesis using run unfolding u by (elim exE conjE) (intro exI conjI)
qed

end
